(* ===== verification/Go_Prelude.thy ===== *)
theory Go_Prelude
  imports Main "HOL-Library.Char_ord" "HOL-Library.List_Lexorder" "HOL-Library.Multiset" "HOL-Library.Sublist"
begin

text \<open>
  The prelude of the development: the part of Go's language and standard library that the
  indexer uses, and the generic lemmas the components share.
  \<^item> \<^bold>\<open>Strings.\<close> A Go \<^verbatim>\<open>string\<close> is a byte list, here \<^typ>\<open>string\<close>. The functions of package
    \<^verbatim>\<open>strings\<close> (\<^verbatim>\<open>TrimSpace\<close>, \<^verbatim>\<open>ToLower\<close>, \<^verbatim>\<open>HasPrefix\<close>, \<^verbatim>\<open>TrimPrefix\<close>, \<^verbatim>\<open>Contains\<close>) are modelled
    on the ASCII range: bytes above 127 are neither white space nor letters. Hashes, addresses,
    decimal amounts, finality labels and the error tokens the code compares with are ASCII.
  \<^item> \<^bold>\<open>Big integers.\<close> \<^verbatim>\<open>big.Int.SetString(s, 10)\<close> and \<^verbatim>\<open>big.Int.String()\<close>: an optional sign and at
    least one digit, and the canonical decimal print.
  \<^item> \<^bold>\<open>Pointers\<close> to strings, times and integers are \<^typ>\<open>'a option\<close>; \<^verbatim>\<open>time.Time\<close> and
    \<^verbatim>\<open>time.Duration\<close> are nanosecond counts (\<^typ>\<open>int\<close>); \<^verbatim>\<open>uuid.UUID\<close> is \<^typ>\<open>nat\<close> with \<^verbatim>\<open>uuid.Nil\<close> as 0;
    \<^verbatim>\<open>int64\<close> block numbers are \<^typ>\<open>int\<close> (the code only adds batch sizes and subtracts one from
    them); where a width matters a component uses a word type and says so.
\<close>

section \<open>Collections of simp rules\<close>

named_theorems go_string_defs \<open>definitions of the string functions, for evaluation\<close>
named_theorems decimal_simps \<open>facts on decimal parsing and printing\<close>

section \<open>Type names\<close>

type_synonym time = int
type_synonym duration = int
type_synonym uuid = nat
type_synonym block_no = int

section \<open>Package strings\<close>

definition is_space :: "char \<Rightarrow> bool" where
  "is_space c \<longleftrightarrow> c = CHR 0x09 \<or> c = CHR 0x0A \<or> c = CHR 0x0B \<or> c = CHR 0x0C \<or> c = CHR 0x0D \<or> c = CHR 0x20"

definition TrimSpace :: "string \<Rightarrow> string" where
  "TrimSpace s = rev (dropWhile is_space (rev (dropWhile is_space s)))"

definition HasPrefix :: "string \<Rightarrow> string \<Rightarrow> bool" where
  "HasPrefix s p \<longleftrightarrow> take (length p) s = p"

definition TrimPrefix :: "string \<Rightarrow> string \<Rightarrow> string" where
  "TrimPrefix s p = (if HasPrefix s p then drop (length p) s else s)"

fun Contains :: "string \<Rightarrow> string \<Rightarrow> bool" where
  "Contains [] sub = (sub = [])"
| "Contains (c # cs) sub = (HasPrefix (c # cs) sub \<or> Contains cs sub)"

definition lower_char :: "char \<Rightarrow> char" where
  "lower_char c = (if 65 \<le> (of_char c :: nat) \<and> (of_char c :: nat) \<le> 90 then char_of ((of_char c :: nat) + 32) else c)"

definition ToLower :: "string \<Rightarrow> string" where
  "ToLower s = map lower_char s"

lemmas [go_string_defs] = is_space_def TrimSpace_def HasPrefix_def TrimPrefix_def lower_char_def ToLower_def

subsection \<open>Trimming\<close>

lemma TrimSpace_Nil [simp]: "TrimSpace [] = []"
  by (simp add: TrimSpace_def)

lemma dropWhile_idem: "dropWhile P (dropWhile P xs) = dropWhile P xs"
  by (induction xs) auto

lemma dropWhile_id_iff: "dropWhile P xs = xs \<longleftrightarrow> (xs = [] \<or> \<not> P (hd xs))"
proof (cases xs)
  case (Cons x ys)
  have "length (dropWhile P ys) \<le> length ys" by (rule length_dropWhile_le)
  then have "dropWhile P ys \<noteq> x # ys" by (metis impossible_Cons)
  with Cons show ?thesis by auto
qed simp

lemma hd_rev_dropWhile_rev:
  assumes "xs = [] \<or> \<not> P (hd xs)"
  shows "let ys = rev (dropWhile P (rev xs)) in ys = [] \<or> \<not> P (hd ys)"
proof -
  obtain zs where zs: "xs = rev (dropWhile P (rev xs)) @ zs"
    by (metis rev_append rev_rev_ident takeWhile_dropWhile_id)
  show ?thesis
  proof (cases "rev (dropWhile P (rev xs)) = []")
    case False
    with zs have "hd xs = hd (rev (dropWhile P (rev xs)))"
      by (metis hd_append2)
    with assms zs False show ?thesis by (auto simp: Let_def)
  qed (simp add: Let_def)
qed

text \<open>A trimmed string neither starts nor ends with white space, and trimming it again changes nothing.\<close>

definition trimmed :: "string \<Rightarrow> bool" where
  "trimmed s \<longleftrightarrow> s = [] \<or> (\<not> is_space (hd s) \<and> \<not> is_space (last s))"

lemma hd_dropWhile_not: "dropWhile P xs = [] \<or> \<not> P (hd (dropWhile P xs))"
  using hd_dropWhile by blast

lemma trimmed_TrimSpace: "trimmed (TrimSpace s)"
proof -
  let ?l = "dropWhile is_space s"
  let ?r = "dropWhile is_space (rev ?l)"
  have "rev ?r = [] \<or> \<not> is_space (hd (rev ?r))"
    using hd_rev_dropWhile_rev [of ?l is_space] hd_dropWhile_not [of is_space s] by (simp add: Let_def)
  moreover have "?r = [] \<or> \<not> is_space (hd ?r)" by (rule hd_dropWhile_not)
  ultimately show ?thesis
    by (auto simp: trimmed_def TrimSpace_def last_rev)
qed

lemma TrimSpace_trimmed: "trimmed s \<Longrightarrow> TrimSpace s = s"
proof -
  assume a: "trimmed s"
  then have 1: "dropWhile is_space s = s"
    by (subst dropWhile_id_iff) (auto simp: trimmed_def)
  have 2: "dropWhile is_space (rev s) = rev s"
    using a by (subst dropWhile_id_iff) (auto simp: trimmed_def hd_rev)
  show ?thesis by (simp add: TrimSpace_def 1 2)
qed

lemma TrimSpace_idem [simp]: "TrimSpace (TrimSpace s) = TrimSpace s"
  by (rule TrimSpace_trimmed) (rule trimmed_TrimSpace)

lemma TrimSpace_no_space: "list_all (\<lambda>c. \<not> is_space c) s \<Longrightarrow> TrimSpace s = s"
  by (rule TrimSpace_trimmed) (auto simp: trimmed_def list_all_iff)

subsection \<open>Prefixes\<close>

lemma HasPrefix_append [simp]: "HasPrefix (p @ s) p"
  by (simp add: HasPrefix_def)

lemma HasPrefix_iff: "HasPrefix s p \<longleftrightarrow> (\<exists>t. s = p @ t)"
  unfolding HasPrefix_def by (metis append_take_drop_id append_eq_conv_conj)

lemma TrimPrefix_append [simp]: "TrimPrefix (p @ s) p = s"
  by (simp add: TrimPrefix_def)

lemma TrimPrefix_no: "\<not> HasPrefix s p \<Longrightarrow> TrimPrefix s p = s"
  by (simp add: TrimPrefix_def)

lemma Contains_append: "Contains (a @ s @ b) s"
proof (induction a)
  case Nil
  have "HasPrefix (s @ b) s" by simp
  then show ?case by (cases "s @ b") auto
next
  case (Cons c a)
  then show ?case by simp
qed

subsection \<open>Lower case\<close>

lemma lower_char_idem [simp]: "lower_char (lower_char c) = lower_char c"
  by (auto simp: lower_char_def)

lemma ToLower_idem [simp]: "ToLower (ToLower s) = ToLower s"
  by (simp add: ToLower_def)

lemma ToLower_Nil [simp]: "ToLower [] = []" and ToLower_Nil_iff [simp]: "ToLower s = [] \<longleftrightarrow> s = []"
  by (simp_all add: ToLower_def)

lemma ToLower_append [simp]: "ToLower (s @ t) = ToLower s @ ToLower t"
  by (simp add: ToLower_def)

lemma length_ToLower [simp]: "length (ToLower s) = length s"
  by (simp add: ToLower_def)

section \<open>Decimal integers: big.Int\<close>

definition is_digit :: "char \<Rightarrow> bool" where
  "is_digit c \<longleftrightarrow> 48 \<le> (of_char c :: nat) \<and> (of_char c :: nat) \<le> 57"

definition digit_val :: "char \<Rightarrow> nat" where
  "digit_val c = of_char c - 48"

definition digit_char :: "nat \<Rightarrow> char" where
  "digit_char d = char_of (48 + d)"

definition parse_digits :: "string \<Rightarrow> nat option" where
  "parse_digits s = (if s \<noteq> [] \<and> list_all is_digit s
     then Some (foldl (\<lambda>acc c. 10 * acc + digit_val c) 0 s) else None)"

text \<open>\<^verbatim>\<open>z.SetString(s, 10)\<close>: \<^const>\<open>None\<close> is the result \<^verbatim>\<open>ok = false\<close>.\<close>

fun SetString :: "string \<Rightarrow> int option" where
  "SetString (c # s) =
     (if c = CHR ''-'' then map_option (\<lambda>n. - int n) (parse_digits s)
      else if c = CHR ''+'' then map_option int (parse_digits s)
      else map_option int (parse_digits (c # s)))"
| "SetString [] = None"

fun nat_String :: "nat \<Rightarrow> string" where
  "nat_String n = (if n < 10 then [digit_char n] else nat_String (n div 10) @ [digit_char (n mod 10)])"

declare nat_String.simps [simp del]

text \<open>\<^verbatim>\<open>z.String()\<close>.\<close>

definition big_String :: "int \<Rightarrow> string" where
  "big_String i = (if i < 0 then CHR ''-'' # nat_String (nat (- i)) else nat_String (nat i))"

lemma of_char_digit_char: "d < 10 \<Longrightarrow> (of_char (digit_char d) :: nat) = 48 + d"
  by (simp add: digit_char_def of_char_of)

lemma is_digit_digit_char [simp]: "d < 10 \<Longrightarrow> is_digit (digit_char d)"
  by (simp add: is_digit_def of_char_digit_char)

lemma digit_val_digit_char [simp]: "d < 10 \<Longrightarrow> digit_val (digit_char d) = d"
  by (simp add: digit_val_def of_char_digit_char)

lemma nat_String_not_Nil [simp]: "nat_String n \<noteq> []"
  by (subst nat_String.simps) simp

lemma nat_String_digits: "list_all is_digit (nat_String n)"
proof (induction n rule: nat_String.induct)
  case (1 n)
  then show ?case by (subst nat_String.simps) auto
qed

lemma nat_String_val: "foldl (\<lambda>acc c. 10 * acc + digit_val c) 0 (nat_String n) = n"
proof (induction n rule: nat_String.induct)
  case (1 n)
  then show ?case by (subst nat_String.simps) auto
qed

lemma parse_digits_nat_String [decimal_simps]: "parse_digits (nat_String n) = Some n"
  by (simp add: parse_digits_def nat_String_digits nat_String_val)

lemma digit_not_sign: "is_digit c \<Longrightarrow> c \<noteq> CHR ''-'' \<and> c \<noteq> CHR ''+''"
  by (auto simp: is_digit_def)

lemma nat_String_hd_digit: "is_digit (hd (nat_String n))"
  using nat_String_digits [of n] nat_String_not_Nil [of n] by (cases "nat_String n") auto

lemma SetString_nat_String [decimal_simps]: "SetString (nat_String n) = Some (int n)"
proof -
  obtain c s where cs: "nat_String n = c # s"
    using nat_String_not_Nil by (cases "nat_String n") auto
  then have "is_digit c" using nat_String_hd_digit [of n] by simp
  then have "c \<noteq> CHR ''-''" "c \<noteq> CHR ''+''" using digit_not_sign by auto
  then show ?thesis
    using parse_digits_nat_String [of n] unfolding cs by simp
qed

theorem SetString_big_String [decimal_simps]: "SetString (big_String i) = Some i"
  by (auto simp: big_String_def parse_digits_nat_String SetString_nat_String)

lemma big_String_inject [simp]: "big_String i = big_String j \<longleftrightarrow> i = j"
  by (metis SetString_big_String option.inject)

lemma is_digit_not_space: "is_digit c \<Longrightarrow> \<not> is_space c"
  by (auto simp: is_digit_def is_space_def)

lemma TrimSpace_big_String [decimal_simps]: "TrimSpace (big_String i) = big_String i"
proof (rule TrimSpace_no_space)
  have "list_all (\<lambda>c. \<not> is_space c) (nat_String n)" for n
    using nat_String_digits [of n] by (auto simp: list_all_iff is_digit_not_space)
  then show "list_all (\<lambda>c. \<not> is_space c) (big_String i)"
    by (auto simp: big_String_def is_space_def)
qed

lemma length_nat_String: "1 \<le> k \<Longrightarrow> length (nat_String n) \<le> k \<longleftrightarrow> n < 10 ^ k"
proof (induction n arbitrary: k rule: nat_String.induct)
  case (1 n)
  show ?case
  proof (cases "n < 10")
    case True
    have "(10::nat) ^ 1 \<le> 10 ^ k" using "1.prems" by (intro power_increasing) auto
    with True "1.prems" show ?thesis by (subst nat_String.simps) auto
  next
    case False
    show ?thesis
    proof (cases "k = 1")
      case True
      have "0 < length (nat_String (n div 10))" by simp
      with True False show ?thesis by (subst nat_String.simps) auto
    next
      case k: False
      then obtain j where j: "k = Suc j" "1 \<le> j" using "1.prems" by (cases k) auto
      have "length (nat_String n) = Suc (length (nat_String (n div 10)))"
        using False by (subst nat_String.simps) simp
      moreover have "n div 10 < 10 ^ j \<longleftrightarrow> n < 10 ^ Suc j"
        by (simp add: div_less_iff_less_mult mult.commute)
      ultimately show ?thesis using "1.IH" [OF False j(2)] j by simp
    qed
  qed
qed

section \<open>Generic lemmas on lists and folds\<close>

lemma map_of_Some_in_set: "map_of xs k = Some v \<Longrightarrow> (k, v) \<in> set xs"
  by (rule map_of_SomeD)

lemma sum_list_map_filter_split:
  "(\<Sum>x\<leftarrow>xs. f x) = (\<Sum>x\<leftarrow>filter P xs. f x) + (\<Sum>x\<leftarrow>filter (\<lambda>x. \<not> P x) xs. (f x :: int))"
  by (induction xs) auto

lemma foldl_invariant:
  assumes "P a" and "\<And>a x. x \<in> set xs \<Longrightarrow> P a \<Longrightarrow> P (f a x)"
  shows "P (foldl f a xs)"
  using assms by (induction xs arbitrary: a) auto

section \<open>Chunked loops\<close>

text \<open>\<^verbatim>\<open>for i := 0; i < len(xs); i += n { chunk := xs[i:min(i+n, len(xs))] ... }\<close>\<close>

function chunks :: "nat \<Rightarrow> 'a list \<Rightarrow> 'a list list" where
  "chunks n xs = (if n = 0 \<or> xs = [] then [] else take n xs # chunks n (drop n xs))"
  by pat_completeness auto
termination by (relation "measure (\<lambda>(n, xs). length xs)") auto

declare chunks.simps [simp del]

lemma chunks_Nil [simp]: "chunks n [] = []"
  by (simp add: chunks.simps)

lemma concat_chunks: "0 < n \<Longrightarrow> concat (chunks n xs) = xs"
proof (induction n xs rule: chunks.induct)
  case (1 n xs)
  then show ?case by (cases "xs = []") (simp_all add: chunks.simps [of n xs])
qed

lemma length_chunks: "c \<in> set (chunks n xs) \<Longrightarrow> 0 < length c \<and> length c \<le> n"
proof (induction n xs rule: chunks.induct)
  case (1 n xs)
  then show ?case by (cases "n = 0 \<or> xs = []") (auto simp: chunks.simps [of n xs])
qed

end
