(* ===== verification/Domain_Model.thy ===== *)
theory Domain_Model
  imports Go_Prelude
begin

text \<open>
  The domain types of \<^verbatim>\<open>internal/domain/model\<close>, \<^verbatim>\<open>internal/domain/event\<close> and \<^verbatim>\<open>internal/chain\<close>: one record
  per struct, with the struct's fields in the struct's order. A named string type
  (\<^verbatim>\<open>type Chain string\<close>, \<^verbatim>\<open>EventCategory\<close>, \<^verbatim>\<open>ActivityType\<close>, \<^verbatim>\<open>TokenType\<close>, \<^verbatim>\<open>TxStatus\<close>) stays a string and
  its constants are abbreviations, so that the \<^verbatim>\<open>default\<close> branch of every switch keeps its
  meaning. \<^verbatim>\<open>CreatedAt\<close>/\<^verbatim>\<open>UpdatedAt\<close> bookkeeping columns are dropped: no code reads them.
  The theory ends with \<^verbatim>\<open>ClassifyActivity\<close> (\<^verbatim>\<open>activity_classifier.go\<close>).
\<close>

section \<open>Named string types\<close>

type_synonym chain = string
type_synonym network = string
type_synonym activity_type = string
type_synonym event_category = string
type_synonym token_type = string
type_synonym tx_status = string

abbreviation ChainSolana :: chain where "ChainSolana \<equiv> ''solana''"
abbreviation ChainEthereum :: chain where "ChainEthereum \<equiv> ''ethereum''"
abbreviation ChainBase :: chain where "ChainBase \<equiv> ''base''"
abbreviation ChainBTC :: chain where "ChainBTC \<equiv> ''btc''"
abbreviation ChainPolygon :: chain where "ChainPolygon \<equiv> ''polygon''"
abbreviation ChainArbitrum :: chain where "ChainArbitrum \<equiv> ''arbitrum''"
abbreviation ChainBSC :: chain where "ChainBSC \<equiv> ''bsc''"

abbreviation NetworkMainnet :: network where "NetworkMainnet \<equiv> ''mainnet''"
abbreviation NetworkDevnet :: network where "NetworkDevnet \<equiv> ''devnet''"
abbreviation NetworkTestnet :: network where "NetworkTestnet \<equiv> ''testnet''"
abbreviation NetworkSepolia :: network where "NetworkSepolia \<equiv> ''sepolia''"

abbreviation TxStatusSuccess :: tx_status where "TxStatusSuccess \<equiv> ''SUCCESS''"
abbreviation TxStatusFailed :: tx_status where "TxStatusFailed \<equiv> ''FAILED''"

abbreviation TokenTypeNative :: token_type where "TokenTypeNative \<equiv> ''NATIVE''"
abbreviation TokenTypeFungible :: token_type where "TokenTypeFungible \<equiv> ''FUNGIBLE''"
abbreviation TokenTypeNFT :: token_type where "TokenTypeNFT \<equiv> ''NFT''"

abbreviation EventCategoryTransfer :: event_category where "EventCategoryTransfer \<equiv> ''TRANSFER''"
abbreviation EventCategoryStake :: event_category where "EventCategoryStake \<equiv> ''STAKE''"
abbreviation EventCategorySwap :: event_category where "EventCategorySwap \<equiv> ''SWAP''"
abbreviation EventCategoryMint :: event_category where "EventCategoryMint \<equiv> ''MINT''"
abbreviation EventCategoryBurn :: event_category where "EventCategoryBurn \<equiv> ''BURN''"
abbreviation EventCategoryReward :: event_category where "EventCategoryReward \<equiv> ''REWARD''"
abbreviation EventCategoryFee :: event_category where "EventCategoryFee \<equiv> ''FEE''"
abbreviation EventCategoryFeeExecutionL2 :: event_category where "EventCategoryFeeExecutionL2 \<equiv> ''fee_execution_l2''"
abbreviation EventCategoryFeeDataL1 :: event_category where "EventCategoryFeeDataL1 \<equiv> ''fee_data_l1''"

abbreviation ActivityDeposit :: activity_type where "ActivityDeposit \<equiv> ''DEPOSIT''"
abbreviation ActivityWithdrawal :: activity_type where "ActivityWithdrawal \<equiv> ''WITHDRAWAL''"
abbreviation ActivityStake :: activity_type where "ActivityStake \<equiv> ''STAKE''"
abbreviation ActivityUnstake :: activity_type where "ActivityUnstake \<equiv> ''UNSTAKE''"
abbreviation ActivityClaimReward :: activity_type where "ActivityClaimReward \<equiv> ''CLAIM_REWARD''"
abbreviation ActivityFee :: activity_type where "ActivityFee \<equiv> ''FEE''"
abbreviation ActivityFeeExecutionL2 :: activity_type where "ActivityFeeExecutionL2 \<equiv> ''FEE_EXECUTION_L2''"
abbreviation ActivityFeeDataL1 :: activity_type where "ActivityFeeDataL1 \<equiv> ''FEE_DATA_L1''"
abbreviation ActivitySwap :: activity_type where "ActivitySwap \<equiv> ''SWAP''"
abbreviation ActivityMint :: activity_type where "ActivityMint \<equiv> ''MINT''"
abbreviation ActivityBurn :: activity_type where "ActivityBurn \<equiv> ''BURN''"
abbreviation ActivityOther :: activity_type where "ActivityOther \<equiv> ''OTHER''"

section \<open>Events that travel through the pipeline\<close>

text \<open>\<^verbatim>\<open>chain.SignatureInfo\<close> and \<^verbatim>\<open>event.SignatureInfo\<close> have the same fields.\<close>

record signature_info =
  sig_Hash :: string
  sig_Sequence :: int
  sig_Time :: "time option"

record fetch_job =
  fj_Chain :: chain
  fj_Network :: network
  fj_Address :: string
  fj_CursorValue :: "string option"
  fj_CursorSequence :: int
  fj_FetchCutoffSeq :: int
  fj_BatchSize :: int
  fj_WalletID :: "string option"
  fj_OrgID :: "string option"
  fj_BlockScanMode :: bool
  fj_StartBlock :: block_no
  fj_EndBlock :: block_no
  fj_WatchedAddresses :: "string list"

record raw_batch =
  rb_Chain :: chain
  rb_Network :: network
  rb_Address :: string
  rb_WalletID :: "string option"
  rb_OrgID :: "string option"
  rb_PreviousCursorValue :: "string option"
  rb_PreviousCursorSequence :: int
  rb_RawTransactions :: "string list"
  rb_Signatures :: "signature_info list"
  rb_NewCursorValue :: "string option"
  rb_NewCursorSequence :: int
  rb_BlockScanMode :: bool
  rb_WatchedAddresses :: "string list"

record normalized_balance_event =
  ne_OuterInstructionIndex :: int
  ne_InnerInstructionIndex :: int
  ne_ActivityType :: activity_type
  ne_EventAction :: string
  ne_ProgramID :: string
  ne_ContractAddress :: string
  ne_Address :: string
  ne_CounterpartyAddress :: string
  ne_Delta :: string
  ne_ChainData :: "string option"
  ne_TokenSymbol :: string
  ne_TokenName :: string
  ne_TokenDecimals :: int
  ne_TokenType :: token_type
  ne_EventID :: string
  ne_BlockHash :: string
  ne_TxIndex :: int
  ne_EventPath :: string
  ne_EventPathType :: string
  ne_ActorAddress :: string
  ne_AssetType :: string
  ne_AssetID :: string
  ne_FinalityState :: string
  ne_DecoderVersion :: string
  ne_SchemaVersion :: string

record normalized_transaction =
  nt_TxHash :: string
  nt_BlockCursor :: int
  nt_BlockTime :: "time option"
  nt_FeeAmount :: string
  nt_FeePayer :: string
  nt_Status :: tx_status
  nt_Err :: "string option"
  nt_ChainData :: "string option"
  nt_BlockHash :: string
  nt_ParentHash :: string
  nt_BalanceEvents :: "normalized_balance_event list"

record normalized_batch =
  nb_Chain :: chain
  nb_Network :: network
  nb_Address :: string
  nb_WalletID :: "string option"
  nb_OrgID :: "string option"
  nb_PreviousCursorValue :: "string option"
  nb_PreviousCursorSequence :: int
  nb_Transactions :: "normalized_transaction list"
  nb_NewCursorValue :: "string option"
  nb_NewCursorSequence :: int
  nb_BlockScanMode :: bool
  nb_WatchedAddresses :: "string list"

record reorg_event =
  re_Chain :: chain
  re_Network :: network
  re_ForkBlockNumber :: block_no
  re_ExpectedHash :: string
  re_ActualHash :: string

record finality_promotion =
  fp_Chain :: chain
  fp_Network :: network
  fp_NewFinalizedBlock :: block_no

section \<open>Rows of the database\<close>

record transaction_row =
  tr_ID :: uuid
  tr_Chain :: chain
  tr_Network :: network
  tr_TxHash :: string
  tr_BlockCursor :: int
  tr_BlockTime :: "time option"
  tr_FeeAmount :: string
  tr_FeePayer :: string
  tr_Status :: tx_status
  tr_Err :: "string option"
  tr_ChainData :: string
  tr_BlockHash :: string
  tr_ParentHash :: string

record token_row =
  tk_ID :: uuid
  tk_Chain :: chain
  tk_Network :: network
  tk_ContractAddress :: string
  tk_Symbol :: string
  tk_Name :: string
  tk_Decimals :: int
  tk_TokenType :: token_type
  tk_IsDenied :: bool
  tk_DeniedReason :: string
  tk_ScamScore :: int
  tk_ScamSignals :: "string list"
  tk_DeniedSource :: string
  tk_ChainData :: string

record balance_event =
  be_ID :: uuid
  be_Chain :: chain
  be_Network :: network
  be_TransactionID :: uuid
  be_TxHash :: string
  be_OuterInstructionIndex :: int
  be_InnerInstructionIndex :: int
  be_TokenID :: uuid
  be_ActivityType :: activity_type
  be_EventAction :: string
  be_ProgramID :: string
  be_Address :: string
  be_CounterpartyAddress :: string
  be_Delta :: string
  be_BalanceBefore :: "string option"
  be_BalanceAfter :: "string option"
  be_WatchedAddress :: "string option"
  be_WalletID :: "string option"
  be_OrganizationID :: "string option"
  be_BlockCursor :: int
  be_BlockTime :: "time option"
  be_ChainData :: string
  be_BalanceApplied :: bool
  be_EventID :: string
  be_BlockHash :: string
  be_TxIndex :: int
  be_EventPath :: string
  be_EventPathType :: string
  be_ActorAddress :: string
  be_AssetType :: string
  be_AssetID :: string
  be_FinalityState :: string
  be_DecoderVersion :: string
  be_SchemaVersion :: string

record balance_row =
  bal_WalletID :: "string option"
  bal_OrganizationID :: "string option"
  bal_Amount :: int
  bal_LastUpdatedCursor :: int
  bal_LastUpdatedTxHash :: string

record indexed_block =
  ib_Chain :: chain
  ib_Network :: network
  ib_BlockNumber :: block_no
  ib_BlockHash :: string
  ib_ParentHash :: string
  ib_FinalityState :: string
  ib_BlockTime :: "time option"

record watched_address =
  wa_ID :: uuid
  wa_Chain :: chain
  wa_Network :: network
  wa_Address :: string
  wa_WalletID :: "string option"
  wa_OrganizationID :: "string option"
  wa_Label :: "string option"
  wa_IsActive :: bool
  wa_Source :: string
  wa_BackfillFromBlock :: "block_no option"

section \<open>Activity classification\<close>

definition deltaIsPositive :: "string \<Rightarrow> bool" where
  "deltaIsPositive delta =
     (let t = TrimSpace delta in
      if t = '''' then False
      else case SetString t of None \<Rightarrow> False | Some v \<Rightarrow> v > 0)"

definition ClassifyActivity :: "event_category \<Rightarrow> string \<Rightarrow> bool \<Rightarrow> activity_type" where
  "ClassifyActivity category delta addressIsWatched =
     (if category = EventCategoryTransfer then
        (if \<not> addressIsWatched then ActivityOther
         else if deltaIsPositive delta then ActivityDeposit else ActivityWithdrawal)
      else if category = EventCategoryStake then
        (if deltaIsPositive delta then ActivityUnstake else ActivityStake)
      else if category = EventCategoryReward then ActivityClaimReward
      else if category = EventCategoryFee then ActivityFee
      else if category = EventCategoryFeeExecutionL2 then ActivityFeeExecutionL2
      else if category = EventCategoryFeeDataL1 then ActivityFeeDataL1
      else if category = EventCategorySwap then ActivitySwap
      else if category = EventCategoryMint then ActivityMint
      else if category = EventCategoryBurn then ActivityBurn
      else ActivityOther)"

definition canonical_activities :: "activity_type list" where
  "canonical_activities =
     [ActivityDeposit, ActivityWithdrawal, ActivityStake, ActivityUnstake, ActivityClaimReward,
      ActivityFee, ActivityFeeExecutionL2, ActivityFeeDataL1, ActivitySwap, ActivityMint,
      ActivityBurn, ActivityOther]"

lemma deltaIsPositive_big_String [simp]: "deltaIsPositive (big_String i) \<longleftrightarrow> 0 < i"
proof -
  have "big_String i \<noteq> ''''" by (simp add: big_String_def)
  then show ?thesis by (simp add: deltaIsPositive_def Let_def decimal_simps)
qed

lemma ClassifyActivity_canonical: "ClassifyActivity c d w \<in> set canonical_activities"
  by (simp add: ClassifyActivity_def canonical_activities_def)

end
