(* ===== verification/Identity.thy ===== *)
theory Identity
  imports Domain_Model Go_Text
begin

text \<open>
  Canonical identities of transaction hashes, cursors and addresses
  (\<^verbatim>\<open>internal/pipeline/identity/identity.go\<close>): every stage compares hashes only in this form.
  The lemmas show that the EVM form forgets exactly the letter case, the prefix spelling and
  the surrounding white space, and that applying the canonicalisation twice is applying it once.
\<close>

section \<open>Definitions\<close>

definition IsEVMChain :: "chain \<Rightarrow> bool" where
  "IsEVMChain chainID \<longleftrightarrow>
     chainID = ChainBase \<or> chainID = ChainEthereum \<or> chainID = ChainPolygon \<or>
     chainID = ChainArbitrum \<or> chainID = ChainBSC"

definition is_hex_char :: "char \<Rightarrow> bool" where
  "is_hex_char ch \<longleftrightarrow>
     (let n = (of_char ch :: nat) in
      (48 \<le> n \<and> n \<le> 57) \<or> (97 \<le> n \<and> n \<le> 102) \<or> (65 \<le> n \<and> n \<le> 70))"

definition IsHexString :: "string \<Rightarrow> bool" where
  "IsHexString v = list_all is_hex_char v"

definition strip_0x :: "string \<Rightarrow> string" where
  "strip_0x s = TrimPrefix (TrimPrefix s ''0x'') ''0X''"

definition CanonicalSignatureIdentity :: "chain \<Rightarrow> string \<Rightarrow> string" where
  "CanonicalSignatureIdentity chainID hash =
     (let trimmed = TrimSpace hash in
      if trimmed = '''' then ''''
      else if chainID = ChainBTC then
        (let withoutPrefix = strip_0x trimmed in
         if withoutPrefix = '''' then '''' else ToLower withoutPrefix)
      else if \<not> IsEVMChain chainID then trimmed
      else
        (let withoutPrefix = strip_0x trimmed in
         if withoutPrefix = '''' then ''''
         else if IsHexString withoutPrefix then ''0x'' @ ToLower withoutPrefix
         else if HasPrefix trimmed ''0x'' \<or> HasPrefix trimmed ''0X'' then ''0x'' @ ToLower withoutPrefix
         else trimmed))"

definition CanonicalizeCursorValue :: "chain \<Rightarrow> string option \<Rightarrow> string option" where
  "CanonicalizeCursorValue chainID cursor =
     (case cursor of None \<Rightarrow> None
      | Some c \<Rightarrow>
          (let ident = CanonicalSignatureIdentity chainID c in
           if ident = '''' then None else Some ident))"

definition CanonicalAddressIdentity :: "chain \<Rightarrow> string \<Rightarrow> string" where
  "CanonicalAddressIdentity chainID address =
     (let trimmed = TrimSpace address in
      if trimmed = '''' then ''''
      else if \<not> IsEVMChain chainID then trimmed
      else
        (let withoutPrefix = strip_0x trimmed in
         if withoutPrefix = '''' then trimmed
         else if IsHexString withoutPrefix then ''0x'' @ ToLower withoutPrefix
         else if HasPrefix trimmed ''0x'' \<or> HasPrefix trimmed ''0X'' then ''0x'' @ ToLower withoutPrefix
         else trimmed))"

datatype decimal_error = InvalidDecimal string | BalanceOverflow nat

definition NegateDecimalString :: "string \<Rightarrow> decimal_error + string" where
  "NegateDecimalString v =
     (case SetString v of None \<Rightarrow> Inl (InvalidDecimal v) | Some d \<Rightarrow> Inr (big_String (- d)))"

definition IsStakingActivity :: "activity_type \<Rightarrow> bool" where
  "IsStakingActivity a \<longleftrightarrow> a = ActivityStake \<or> a = ActivityUnstake"

section \<open>Hexadecimal strings\<close>

lemma is_hex_char_not_x: "is_hex_char c \<Longrightarrow> c \<noteq> CHR ''x'' \<and> c \<noteq> CHR ''X''"
  by (auto simp: is_hex_char_def Let_def)

lemma is_hex_char_not_space: "is_hex_char c \<Longrightarrow> \<not> is_space c"
  by (auto simp: is_hex_char_def Let_def is_space_def)

lemma is_hex_char_lower: "is_hex_char c \<Longrightarrow> is_hex_char (lower_char c)"
  by (auto simp: is_hex_char_def Let_def lower_char_def)

lemma IsHexString_lower: "IsHexString s \<Longrightarrow> IsHexString (ToLower s)"
  by (auto simp: IsHexString_def ToLower_def list_all_iff is_hex_char_lower)

lemma IsHexString_no_prefix:
  "IsHexString s \<Longrightarrow> \<not> HasPrefix s ''0x''" "IsHexString s \<Longrightarrow> \<not> HasPrefix s ''0X''"
  by (auto simp: IsHexString_def HasPrefix_iff is_hex_char_def Let_def)

lemma IsHexString_trim: "IsHexString s \<Longrightarrow> TrimSpace s = s"
  by (rule TrimSpace_no_space) (auto simp: IsHexString_def list_all_iff is_hex_char_not_space)

lemma strip_0x_hex: "IsHexString s \<Longrightarrow> strip_0x s = s"
  by (simp add: strip_0x_def TrimPrefix_no IsHexString_no_prefix)

lemma strip_0x_prefixed: "strip_0x (''0x'' @ s) = TrimPrefix s ''0X''"
  unfolding strip_0x_def by (simp only: TrimPrefix_append)

lemma strip_0X_prefixed: "strip_0x (''0X'' @ s) = s"
proof -
  have n: "\<not> HasPrefix (''0X'' @ s) ''0x''" by (simp add: HasPrefix_def)
  show ?thesis unfolding strip_0x_def TrimPrefix_no [OF n] by (rule TrimPrefix_append)
qed

lemma strip_0x_hex_prefixed: "IsHexString s \<Longrightarrow> strip_0x (''0x'' @ s) = s"
  unfolding strip_0x_prefixed by (rule TrimPrefix_no) (rule IsHexString_no_prefix)

lemma HasPrefix_0X_lower: "\<not> HasPrefix (ToLower s) ''0X''"
proof
  assume "HasPrefix (ToLower s) ''0X''"
  then obtain t where "ToLower s = ''0X'' @ t" by (auto simp: HasPrefix_iff)
  then have "CHR ''X'' \<in> set (ToLower s)" by simp
  then obtain c where c: "lower_char c = CHR ''X''" by (auto simp: ToLower_def)
  have "lower_char (CHR ''X'') = CHR ''X''" using lower_char_idem [of c] unfolding c .
  then have "(of_char (lower_char (CHR ''X'')) :: nat) = of_char (CHR ''X'')" by (rule arg_cong)
  then show False by (simp add: lower_char_def)
qed

text \<open>The three spellings of one hexadecimal hash, with any surrounding white space.\<close>

inductive spells :: "string \<Rightarrow> string \<Rightarrow> bool" where
  bare: "TrimSpace r = h \<Longrightarrow> spells h r"
| with_0x: "TrimSpace r = ''0x'' @ h \<Longrightarrow> spells h r"
| with_0X: "TrimSpace r = ''0X'' @ h \<Longrightarrow> spells h r"

inductive_cases spellsE [elim]: "spells h r"

lemma IsEVMChain_not_BTC: "IsEVMChain c \<Longrightarrow> c \<noteq> ChainBTC"
  by (auto simp: IsEVMChain_def)

lemma CanonicalSignatureIdentity_other:
  assumes "\<not> IsEVMChain c" "c \<noteq> ChainBTC"
  shows "CanonicalSignatureIdentity c s = TrimSpace s"
  unfolding CanonicalSignatureIdentity_def Let_def using assms
  by (cases "TrimSpace s = ''''") (simp_all only: simp_thms if_True if_False)

lemma CanonicalSignatureIdentity_EVM:
  "IsEVMChain c \<Longrightarrow> CanonicalSignatureIdentity c s =
     (if TrimSpace s = '''' \<or> strip_0x (TrimSpace s) = '''' then ''''
      else if IsHexString (strip_0x (TrimSpace s)) \<or> HasPrefix (TrimSpace s) ''0x'' \<or> HasPrefix (TrimSpace s) ''0X''
      then ''0x'' @ ToLower (strip_0x (TrimSpace s)) else TrimSpace s)"
  unfolding CanonicalSignatureIdentity_def Let_def
  by (cases "TrimSpace s = ''''"; cases "strip_0x (TrimSpace s) = ''''"; cases "IsHexString (strip_0x (TrimSpace s))")
    (simp_all only: IsEVMChain_not_BTC simp_thms if_True if_False)

lemma spells_strip:
  assumes "IsHexString h" "h \<noteq> ''''" "spells h r"
  shows "TrimSpace r \<noteq> ''''" "strip_0x (TrimSpace r) = h"
  using assms(3) by (cases; simp add: assms strip_0x_hex strip_0x_hex_prefixed [simplified] strip_0X_prefixed [simplified])+

lemma CanonicalSignatureIdentity_spells:
  assumes "IsEVMChain c" "IsHexString h" "h \<noteq> ''''" "spells h r"
  shows "CanonicalSignatureIdentity c r = ''0x'' @ ToLower h"
  using assms spells_strip [OF assms(2-4)] by (simp only: CanonicalSignatureIdentity_EVM simp_thms if_False if_True)

lemma CanonicalAddressIdentity_spells:
  assumes "IsEVMChain c" "IsHexString h" "h \<noteq> ''''" "spells h r"
  shows "CanonicalAddressIdentity c r = ''0x'' @ ToLower h"
  using assms spells_strip [OF assms(2-4)] by (simp only: CanonicalAddressIdentity_def Let_def simp_thms if_False if_True)

section \<open>Idempotence\<close>

lemma trimmed_ToLower: "trimmed s \<Longrightarrow> trimmed (ToLower s)"
  by (auto simp: trimmed_def ToLower_def hd_map last_map)

lemma trimmed_0x: "trimmed s \<Longrightarrow> trimmed (''0x'' @ s)"
  by (auto simp: trimmed_def is_space_def)

lemma TrimPrefix_suffix: "suffix (TrimPrefix s p) s"
  by (simp add: TrimPrefix_def suffix_drop)

lemma strip_0x_suffix: "suffix (strip_0x s) s"
  unfolding strip_0x_def by (rule suffix_order.trans [OF TrimPrefix_suffix TrimPrefix_suffix])

lemma last_strip_0x: "strip_0x s \<noteq> [] \<Longrightarrow> last (strip_0x s) = last s"
  using strip_0x_suffix [of s] unfolding suffix_def by (metis last_appendR)

lemma trimmed_0x_strip: "trimmed s \<Longrightarrow> strip_0x s \<noteq> [] \<Longrightarrow> trimmed (''0x'' @ ToLower (strip_0x s))"
proof -
  assume t: "trimmed s" and n: "strip_0x s \<noteq> []"
  then have "s \<noteq> []" using strip_0x_suffix [of s] by auto
  with t have "\<not> is_space (last s)" by (simp add: trimmed_def)
  then have "\<not> is_space (last (ToLower (strip_0x s)))"
    using n last_strip_0x [OF n] by (simp add: ToLower_def last_map)
  then show ?thesis using n by (auto simp: trimmed_def is_space_def)
qed

lemma Canonical_EVM_lower_fix:
  assumes evm: "IsEVMChain c" and n: "w \<noteq> ''''" and t: "trimmed (''0x'' @ ToLower w)"
  shows "CanonicalSignatureIdentity c (''0x'' @ ToLower w) = ''0x'' @ ToLower w"
proof -
  have ts: "TrimSpace (''0x'' @ ToLower w) = ''0x'' @ ToLower w" using t by (rule TrimSpace_trimmed)
  have s: "strip_0x (''0x'' @ ToLower w) = ToLower w"
    unfolding strip_0x_prefixed by (rule TrimPrefix_no) (rule HasPrefix_0X_lower)
  have p: "HasPrefix (''0x'' @ ToLower w) ''0x''" by (rule HasPrefix_append)
  have n': "''0x'' @ ToLower w \<noteq> ''''" "ToLower w \<noteq> ''''" using n by simp_all
  show ?thesis
    using evm by (simp only: CanonicalSignatureIdentity_EVM ts s p n' simp_thms if_False if_True ToLower_idem)
qed

lemma CanonicalSignatureIdentity_Nil [simp]: "CanonicalSignatureIdentity c '''' = ''''"
  by (simp add: CanonicalSignatureIdentity_def)

lemma CanonicalSignatureIdentity_TrimSpace:
  "CanonicalSignatureIdentity c (TrimSpace h) = CanonicalSignatureIdentity c h"
  unfolding CanonicalSignatureIdentity_def TrimSpace_idem ..

lemma CanonicalSignatureIdentity_EVM_cases:
  assumes "IsEVMChain c"
  obtains "CanonicalSignatureIdentity c h = ''''"
  | "strip_0x (TrimSpace h) \<noteq> ''''"
    "CanonicalSignatureIdentity c h = ''0x'' @ ToLower (strip_0x (TrimSpace h))"
  | "CanonicalSignatureIdentity c h = TrimSpace h"
  unfolding CanonicalSignatureIdentity_EVM [OF assms] by (metis (no_types))

lemma CanonicalSignatureIdentity_idem_EVM:
  assumes evm: "IsEVMChain c"
  shows "CanonicalSignatureIdentity c (CanonicalSignatureIdentity c h) = CanonicalSignatureIdentity c h"
proof (rule CanonicalSignatureIdentity_EVM_cases [OF evm, of h])
  assume e: "CanonicalSignatureIdentity c h = ''''"
  show ?thesis unfolding e by (rule CanonicalSignatureIdentity_Nil)
next
  assume n: "strip_0x (TrimSpace h) \<noteq> ''''"
    and e: "CanonicalSignatureIdentity c h = ''0x'' @ ToLower (strip_0x (TrimSpace h))"
  show ?thesis unfolding e
    by (rule Canonical_EVM_lower_fix [OF evm n trimmed_0x_strip [OF trimmed_TrimSpace n]])
next
  assume e: "CanonicalSignatureIdentity c h = TrimSpace h"
  then show ?thesis unfolding e CanonicalSignatureIdentity_TrimSpace .
qed

lemma CanonicalSignatureIdentity_idem_nonBTC:
  assumes "c \<noteq> ChainBTC"
  shows "CanonicalSignatureIdentity c (CanonicalSignatureIdentity c h) = CanonicalSignatureIdentity c h"
proof (cases "IsEVMChain c")
  case False
  show ?thesis unfolding CanonicalSignatureIdentity_other [OF False assms] by (rule TrimSpace_idem)
qed (rule CanonicalSignatureIdentity_idem_EVM)

lemma CanonicalSignatureIdentity_BTC_hex:
  assumes "IsHexString (strip_0x (TrimSpace h))"
  shows "CanonicalSignatureIdentity ChainBTC h = ToLower (strip_0x (TrimSpace h))"
    and "IsHexString (CanonicalSignatureIdentity ChainBTC h)"
proof -
  have z: "strip_0x [] = []" by (simp add: strip_0x_def TrimPrefix_def HasPrefix_def)
  show e: "CanonicalSignatureIdentity ChainBTC h = ToLower (strip_0x (TrimSpace h))"
    using z by (auto simp: CanonicalSignatureIdentity_def Let_def)
  show "IsHexString (CanonicalSignatureIdentity ChainBTC h)"
    unfolding e using assms by (rule IsHexString_lower)
qed

lemma CanonicalSignatureIdentity_idem_BTC:
  assumes "IsHexString (strip_0x (TrimSpace h))"
  shows "CanonicalSignatureIdentity ChainBTC (CanonicalSignatureIdentity ChainBTC h) = CanonicalSignatureIdentity ChainBTC h"
proof -
  let ?i = "CanonicalSignatureIdentity ChainBTC h"
  note hx = CanonicalSignatureIdentity_BTC_hex [OF assms]
  have s: "strip_0x (TrimSpace ?i) = ?i"
    using hx(2) by (simp add: IsHexString_trim strip_0x_hex)
  have "CanonicalSignatureIdentity ChainBTC ?i = ToLower (strip_0x (TrimSpace ?i))"
    using hx(2) by (intro CanonicalSignatureIdentity_BTC_hex(1)) (simp add: s)
  then show ?thesis using s hx(1) by simp
qed

lemma CanonicalizeCursorValue_Some:
  "CanonicalizeCursorValue c v = Some r \<Longrightarrow> r \<noteq> '''' \<and> (\<exists>s. v = Some s \<and> r = CanonicalSignatureIdentity c s)"
  by (auto simp: CanonicalizeCursorValue_def Let_def split: option.splits if_splits)

section \<open>Decimal negation\<close>

lemma NegateDecimalString_big_String [decimal_simps]:
  "NegateDecimalString (big_String i) = Inr (big_String (- i))"
  by (simp add: NegateDecimalString_def decimal_simps)

lemma NegateDecimalString_Inr:
  "NegateDecimalString v = Inr w \<longleftrightarrow> (\<exists>i. SetString v = Some i \<and> w = big_String (- i))"
  by (auto simp: NegateDecimalString_def split: option.splits)

section \<open>Properties\<close>

text \<open>All spellings of an EVM hash or address (with or without \<^verbatim>\<open>0x\<close> or \<^verbatim>\<open>0X\<close>, in any case, with spaces around)
  have one canonical identity, the lower-case digits behind \<^verbatim>\<open>0x\<close>.\<close>

theorem canonical_identity_spellings:
  assumes "IsEVMChain c" "IsHexString h" "h \<noteq> ''''" "spells h r"
  shows "CanonicalSignatureIdentity c r = ''0x'' @ ToLower h \<and> CanonicalAddressIdentity c r = ''0x'' @ ToLower h"
  using CanonicalSignatureIdentity_spells [OF assms] CanonicalAddressIdentity_spells [OF assms] by blast

theorem canonical_identity_spellings_witness:
  "CanonicalSignatureIdentity ChainBase ''0XAb1'' = ''0x'' @ ToLower ''Ab1'' \<and> CanonicalAddressIdentity ChainBase ''0XAb1'' = ''0x'' @ ToLower ''Ab1''"
proof (rule canonical_identity_spellings)
  have "TrimSpace ''0XAb1'' = ''0X'' @ ''Ab1''" by code_simp
  then show "spells ''Ab1'' ''0XAb1''" by (rule spells.intros)
  show "IsHexString ''Ab1''" by code_simp
qed (simp_all add: IsEVMChain_def)

text \<open>Canonicalization is idempotent: on every chain but Bitcoin for any text, on Bitcoin for hexadecimal
  identifiers. The cursor values the pipeline stores are therefore fixed points.\<close>

theorem canonical_identity_idempotent:
  assumes "c \<noteq> ChainBTC \<or> IsHexString (strip_0x (TrimSpace h))"
  shows "CanonicalSignatureIdentity c (CanonicalSignatureIdentity c h) = CanonicalSignatureIdentity c h \<and>
    CanonicalizeCursorValue c (CanonicalizeCursorValue c (Some h)) = CanonicalizeCursorValue c (Some h)"
proof -
  have i: "CanonicalSignatureIdentity c (CanonicalSignatureIdentity c h) = CanonicalSignatureIdentity c h"
    using assms CanonicalSignatureIdentity_idem_nonBTC CanonicalSignatureIdentity_idem_BTC by (cases "c = ChainBTC") blast+
  then show ?thesis by (simp add: CanonicalizeCursorValue_def Let_def)
qed

theorem canonical_identity_idempotent_witness:
  "CanonicalSignatureIdentity ChainBTC (CanonicalSignatureIdentity ChainBTC '' 0xAB '') = CanonicalSignatureIdentity ChainBTC '' 0xAB '' \<and>
    CanonicalizeCursorValue ChainBTC (CanonicalizeCursorValue ChainBTC (Some '' 0xAB '')) = CanonicalizeCursorValue ChainBTC (Some '' 0xAB '')"
proof (rule canonical_identity_idempotent, rule disjI2)
  show "IsHexString (strip_0x (TrimSpace '' 0xAB ''))" by code_simp
qed

end
