(* ===== verification/Runtime_Targets.thy ===== *)
theory Runtime_Targets
  imports Identity Go_Text Complex_Main
begin

text \<open>
  Which pipelines a process runs: the validation of the configuration (\<^verbatim>\<open>validate\<close> in \<^verbatim>\<open>internal/config/config.go\<close>) and the choice of
  the runtime targets (\<^verbatim>\<open>cmd/indexer/main.go\<close>). The configuration has the fields that these functions read; an error is the check
  that failed. The adapter of a target is the chain it reports, None for nil; its options have no part in the choice. A rate is a rational number,
  as every finite float is. The watched addresses of a chain stand with its settings.
\<close>

section \<open>Validation\<close>

record rate_limit =
  rl_RPS :: rat
  rl_Burst :: int

record chain_config =
  cc_RPCURL :: string
  cc_Network :: string
  cc_RateLimit :: rate_limit
  cc_Watched :: "string list"

record runtime_config =
  rt_DeploymentMode :: string
  rt_LikeGroup :: string
  rt_ChainTargets :: "string list"

record app_config =
  ac_DBURL :: string
  ac_MaxOpenConns :: int
  ac_SidecarAddr :: string
  ac_TLSEnabled :: bool
  ac_TLSCA :: string
  ac_Runtime :: runtime_config
  ac_Solana :: chain_config
  ac_Base :: chain_config
  ac_Ethereum :: chain_config
  ac_BTC :: chain_config
  ac_Polygon :: chain_config
  ac_Arbitrum :: chain_config
  ac_BSC :: chain_config
  ac_BatchSize :: int
  ac_AdminAddr :: string

datatype config_error =
    DBURLRequired | SidecarAddrRequired | TLSCARequired | BadDeploymentMode | BadLikeGroup | LikeGroupNotAllowed
  | ChainTargetRequired | OneChainTarget | InvalidChainTarget string config_error
  | EmptyTarget | TargetFormat string | UnsupportedChain string string | UnsupportedNetwork string string string
  | RPCURLRequired string | TooManyConns int | BatchTooLarge int | BadAdminAddr string | BadRate string rat | BadBurst string int

definition LikeGroupMode :: string where "LikeGroupMode = ''like-group''"
definition IndependentMode :: string where "IndependentMode = ''independent''"
definition GroupSolana :: string where "GroupSolana = ''solana-like''"
definition GroupEVM :: string where "GroupEVM = ''evm-like''"
definition GroupBTC :: string where "GroupBTC = ''btc-like''"

definition supportedNetworks :: "(string \<times> string list) list" where
  "supportedNetworks = [(''solana'', [''devnet'', ''mainnet'']), (''base'', [''sepolia'']), (''ethereum'', [''mainnet'']), (''btc'', [''testnet'', ''mainnet'']),
     (''polygon'', [''mainnet'', ''amoy'']), (''arbitrum'', [''mainnet'', ''sepolia'']), (''bsc'', [''mainnet'', ''testnet''])]"

definition parseRuntimeTargetKey :: "string \<Rightarrow> config_error + string \<times> string" where
  "parseRuntimeTargetKey target =
     (let normalized = TrimSpace (ToLower target) in
      if normalized = '''' then Inl EmptyTarget
      else case Cut CHR ''-'' normalized of
        None \<Rightarrow> Inl (TargetFormat target)
      | Some (c, n) \<Rightarrow>
          if TrimSpace n = '''' then Inl (TargetFormat target)
          else let chain = TrimSpace c; network = TrimSpace n in
            case map_of supportedNetworks chain of
              None \<Rightarrow> Inl (UnsupportedChain target chain)
            | Some networks \<Rightarrow> if network \<notin> set networks then Inl (UnsupportedNetwork target network chain) else Inr (chain, network))"

fun validateRuntimeChainTargets :: "string list \<Rightarrow> config_error option" where
  "validateRuntimeChainTargets [] = None"
| "validateRuntimeChainTargets (t # ts) = (case parseRuntimeTargetKey t of
     Inl e \<Rightarrow> Some (InvalidChainTarget t e) | Inr _ \<Rightarrow> validateRuntimeChainTargets ts)"

fun target_chains :: "string list \<Rightarrow> config_error + string list" where
  "target_chains [] = Inr []"
| "target_chains (t # ts) = (case parseRuntimeTargetKey t of
     Inl e \<Rightarrow> Inl e | Inr (c, _) \<Rightarrow> (case target_chains ts of Inl e \<Rightarrow> Inl e | Inr cs \<Rightarrow> Inr (c # cs)))"

text \<open>The chains that are set to true.\<close>

definition requiredRuntimeChains :: "runtime_config \<Rightarrow> config_error + string list" where
  "requiredRuntimeChains rt =
     (if rt_DeploymentMode rt = IndependentMode then target_chains (rt_ChainTargets rt)
      else if rt_DeploymentMode rt = LikeGroupMode then
        (if rt_ChainTargets rt \<noteq> [] then target_chains (rt_ChainTargets rt)
         else if rt_LikeGroup rt = '''' then Inr [''solana'', ''base'', ''btc'']
         else if rt_LikeGroup rt = GroupSolana then Inr [''solana'']
         else if rt_LikeGroup rt = GroupEVM then Inr [''base'']
         else if rt_LikeGroup rt = GroupBTC then Inr [''btc'']
         else Inl BadLikeGroup)
      else Inl BadDeploymentMode)"

definition isValidAddr :: "string \<Rightarrow> bool" where
  "isValidAddr addr =
     (if addr = '''' then False
      else let parts = Split CHR '':'' addr in
        if length parts < 2 then False
        else case ParseInt (last parts) of None \<Rightarrow> False | Some port \<Rightarrow> 1 \<le> port \<and> port \<le> 65535)"

definition validateRateLimitConfig :: "string \<Rightarrow> rate_limit \<Rightarrow> config_error option" where
  "validateRateLimitConfig envPrefix rl =
     (if rl_RPS rl < 0 then Some (BadRate envPrefix (rl_RPS rl)) else if rl_Burst rl < 0 then Some (BadBurst envPrefix (rl_Burst rl)) else None)"

text \<open>A sequence of checks ends with the first that fails.\<close>

fun first_error :: "'e option list \<Rightarrow> 'e option" where
  "first_error [] = None"
| "first_error (None # es) = first_error es"
| "first_error (Some e # es) = Some e"

definition check :: "bool \<Rightarrow> 'e \<Rightarrow> 'e option" where
  "check bad e = (if bad then Some e else None)"

definition chain_configs :: "app_config \<Rightarrow> (string \<times> chain_config) list" where
  "chain_configs c = [(''solana'', ac_Solana c), (''base'', ac_Base c), (''ethereum'', ac_Ethereum c), (''btc'', ac_BTC c), (''polygon'', ac_Polygon c),
     (''arbitrum'', ac_Arbitrum c), (''bsc'', ac_BSC c)]"

definition validate_runtime :: "runtime_config \<Rightarrow> config_error option" where
  "validate_runtime rt =
     first_error [check (rt_DeploymentMode rt \<noteq> LikeGroupMode \<and> rt_DeploymentMode rt \<noteq> IndependentMode) BadDeploymentMode,
       check (rt_LikeGroup rt \<noteq> '''' \<and> rt_LikeGroup rt \<notin> {GroupSolana, GroupEVM, GroupBTC}) BadLikeGroup,
       check (rt_DeploymentMode rt = IndependentMode \<and> rt_LikeGroup rt \<noteq> '''') LikeGroupNotAllowed,
       check (rt_DeploymentMode rt = IndependentMode \<and> rt_ChainTargets rt = []) ChainTargetRequired,
       check (rt_DeploymentMode rt = IndependentMode \<and> length (rt_ChainTargets rt) \<noteq> 1) OneChainTarget,
       validateRuntimeChainTargets (rt_ChainTargets rt)]"

definition validate_urls :: "app_config \<Rightarrow> string list \<Rightarrow> config_error option" where
  "validate_urls c required = first_error (map (\<lambda>(name, cc). check (name \<in> set required \<and> cc_RPCURL cc = '''') (RPCURLRequired name)) (chain_configs c))"

definition validate :: "app_config \<Rightarrow> config_error option" where
  "validate c =
     (case first_error [check (ac_DBURL c = '''') DBURLRequired, check (ac_SidecarAddr c = '''') SidecarAddrRequired,
         check (ac_TLSEnabled c \<and> ac_TLSCA c = '''') TLSCARequired, validate_runtime (ac_Runtime c)] of
        Some e \<Rightarrow> Some e
      | None \<Rightarrow> (case requiredRuntimeChains (ac_Runtime c) of
          Inl e \<Rightarrow> Some e
        | Inr required \<Rightarrow> first_error ([validate_urls c required, check (ac_MaxOpenConns c > 200) (TooManyConns (ac_MaxOpenConns c)),
            check (ac_BatchSize c > 10000) (BatchTooLarge (ac_BatchSize c)),
            check (ac_AdminAddr c \<noteq> '''' \<and> \<not> isValidAddr (ac_AdminAddr c)) (BadAdminAddr (ac_AdminAddr c))] @
            map (\<lambda>(envPrefix, cc). validateRateLimitConfig envPrefix (cc_RateLimit cc))
              [(''SOLANA'', ac_Solana c), (''BASE'', ac_Base c), (''ETH'', ac_Ethereum c), (''BTC'', ac_BTC c), (''POLYGON'', ac_Polygon c),
               (''ARBITRUM'', ac_Arbitrum c), (''BSC'', ac_BSC c)])))"

section \<open>Targets\<close>

record runtime_target =
  tg_chain :: string
  tg_network :: string
  tg_group :: string
  tg_watched :: "string list"
  tg_adapter :: "string option"
  tg_rpcURL :: string

definition chain_target :: "string \<Rightarrow> string \<Rightarrow> string \<Rightarrow> chain_config \<Rightarrow> runtime_target" where
  "chain_target c network grp cc = \<lparr>tg_chain = c, tg_network = network, tg_group = grp, tg_watched = cc_Watched cc, tg_adapter = Some c, tg_rpcURL = cc_RPCURL cc\<rparr>"

definition shouldBuildChainRuntimeTarget :: "string list \<Rightarrow> string \<Rightarrow> bool" where
  "shouldBuildChainRuntimeTarget targets name = list_ex (\<lambda>t. HasPrefix (ToLower (TrimSpace t)) (name @ ''-'')) targets"

definition buildRuntimeTargets :: "app_config \<Rightarrow> runtime_target list" where
  "buildRuntimeTargets c =
     (let wanted = shouldBuildChainRuntimeTarget (rt_ChainTargets (ac_Runtime c)) in
      [chain_target ChainSolana (cc_Network (ac_Solana c)) GroupSolana (ac_Solana c), chain_target ChainBase (cc_Network (ac_Base c)) GroupEVM (ac_Base c),
       chain_target ChainBTC (cc_Network (ac_BTC c)) GroupBTC (ac_BTC c)] @
      (if wanted ''ethereum'' then [chain_target ChainEthereum ''mainnet'' GroupEVM (ac_Ethereum c)] else []) @
      (if wanted ''polygon'' then [chain_target ChainPolygon (cc_Network (ac_Polygon c)) GroupEVM (ac_Polygon c)] else []) @
      (if wanted ''arbitrum'' then [chain_target ChainArbitrum (cc_Network (ac_Arbitrum c)) GroupEVM (ac_Arbitrum c)] else []) @
      (if wanted ''bsc'' then [chain_target ChainBSC (cc_Network (ac_BSC c)) GroupEVM (ac_BSC c)] else []))"

definition runtimeTargetKey :: "runtime_target \<Rightarrow> string" where
  "runtimeTargetKey t = tg_chain t @ ''-'' @ tg_network t"

definition normalizeRuntimeTargetKeys :: "string list \<Rightarrow> string list" where
  "normalizeRuntimeTargetKeys keys = rev (remdups (rev (filter (\<lambda>k. k \<noteq> '''') (map (\<lambda>k. ToLower (TrimSpace k)) keys))))"

definition filterRuntimeTargetsByKeys :: "runtime_target list \<Rightarrow> string list \<Rightarrow> runtime_target list \<times> string list" where
  "filterRuntimeTargetsByKeys targets keys =
     (if keys = [] then ([], [])
      else let requested = normalizeRuntimeTargetKeys keys;
               filtered = filter (\<lambda>t. runtimeTargetKey t \<in> set requested) targets
           in (filtered, filter (\<lambda>k. k \<notin> runtimeTargetKey ` set filtered) requested))"

datatype selection_error = TargetsNotFound "string list" | NoTargets string | UnsupportedMode string

definition selectRuntimeTargets :: "runtime_target list \<Rightarrow> runtime_config \<Rightarrow> selection_error + runtime_target list" where
  "selectRuntimeTargets all rt =
     (if rt_DeploymentMode rt = LikeGroupMode then
        (let selected = (if rt_LikeGroup rt \<noteq> '''' then filter (\<lambda>t. tg_group t = rt_LikeGroup rt) all else all);
             (chosen, missing) = (if rt_ChainTargets rt \<noteq> [] then filterRuntimeTargetsByKeys selected (rt_ChainTargets rt) else (selected, []))
         in if missing \<noteq> [] then Inl (TargetsNotFound missing)
            else if chosen = [] then Inl (NoTargets (rt_DeploymentMode rt)) else Inr chosen)
      else if rt_DeploymentMode rt = IndependentMode then
        (let (chosen, missing) = filterRuntimeTargetsByKeys all (rt_ChainTargets rt)
         in if missing \<noteq> [] then Inl (TargetsNotFound missing)
            else if chosen = [] then Inl (NoTargets (rt_DeploymentMode rt)) else Inr chosen)
      else Inl (UnsupportedMode (rt_DeploymentMode rt)))"

definition runtimeLikeGroupForChain :: "string \<Rightarrow> string" where
  "runtimeLikeGroupForChain c =
     (if c = ChainSolana then GroupSolana
      else if c \<in> {ChainBase, ChainEthereum, ChainPolygon, ChainArbitrum, ChainBSC} then GroupEVM
      else if c = ChainBTC then GroupBTC else '''')"

datatype wiring_failure = DuplicateTarget string | UnsupportedTarget string | MissingGroup string | GroupMismatch string string string
  | NilAdapter string | AdapterMismatch string string string

definition target_failures :: "runtime_target \<Rightarrow> wiring_failure list" where
  "target_failures t =
     (let key = runtimeTargetKey t; expected = runtimeLikeGroupForChain (tg_chain t) in
      if expected = '''' then [UnsupportedTarget key]
      else (if tg_group t = '''' then [MissingGroup key] else []) @
        (if tg_group t \<noteq> expected then [GroupMismatch key expected (tg_group t)] else []) @
        (case tg_adapter t of None \<Rightarrow> [NilAdapter key] | Some c \<Rightarrow> if c \<noteq> tg_chain t then [AdapterMismatch key (tg_chain t) c] else []))"

fun wiring_failures :: "string list \<Rightarrow> runtime_target list \<Rightarrow> wiring_failure list" where
  "wiring_failures seen [] = []"
| "wiring_failures seen (t # ts) =
     (if runtimeTargetKey t \<in> set seen then DuplicateTarget (runtimeTargetKey t) # wiring_failures seen ts
      else target_failures t @ wiring_failures (runtimeTargetKey t # seen) ts)"

text \<open>None is success; an empty list of failures with an error stands for no targets.\<close>

definition validateRuntimeWiring :: "runtime_target list \<Rightarrow> wiring_failure list option" where
  "validateRuntimeWiring targets = (if targets = [] then Some []
     else let failures = wiring_failures [] targets in if failures \<noteq> [] then Some failures else None)"

section \<open>Every selected target can run\<close>

lemma built_target:
  assumes "t \<in> set (buildRuntimeTargets c)"
  shows "\<exists>cc. (tg_chain t, cc) \<in> set (chain_configs c) \<and> tg_rpcURL t = cc_RPCURL cc"
    and "tg_group t = runtimeLikeGroupForChain (tg_chain t)" "tg_adapter t = Some (tg_chain t)" "tg_group t \<in> {GroupSolana, GroupEVM, GroupBTC}"
  using assms
  by (auto simp: buildRuntimeTargets_def chain_target_def chain_configs_def runtimeLikeGroupForChain_def Let_def split: if_splits)

lemma built_distinct: "distinct (map tg_chain (buildRuntimeTargets c))"
  by (simp add: buildRuntimeTargets_def chain_target_def Let_def)

lemma chain_names:
  assumes "(name, cc) \<in> set (chain_configs c)"
  shows "CHR ''-'' \<notin> set name" "TrimSpace name = name" "name \<noteq> []"
proof -
  have "name \<in> {''solana'', ''base'', ''ethereum'', ''btc'', ''polygon'', ''arbitrum'', ''bsc''}" using assms by (auto simp: chain_configs_def)
  moreover have "TrimSpace ''solana'' = ''solana''" "TrimSpace ''base'' = ''base''" "TrimSpace ''ethereum'' = ''ethereum''" "TrimSpace ''btc'' = ''btc''"
    "TrimSpace ''polygon'' = ''polygon''" "TrimSpace ''arbitrum'' = ''arbitrum''" "TrimSpace ''bsc'' = ''bsc''" by code_simp+
  ultimately show "CHR ''-'' \<notin> set name" "TrimSpace name = name" "name \<noteq> []" by auto
qed

lemma built_key:
  assumes "t \<in> set (buildRuntimeTargets c)"
  shows "takeWhile (\<lambda>x. x \<noteq> CHR ''-'') (runtimeTargetKey t) = tg_chain t"
proof -
  obtain cc where "(tg_chain t, cc) \<in> set (chain_configs c)" using built_target(1) [OF assms] by blast
  then have "takeWhile (\<lambda>x. x \<noteq> CHR ''-'') (tg_chain t) = tg_chain t" using chain_names(1) by (fastforce simp: takeWhile_eq_all_conv)
  then show ?thesis by (simp add: runtimeTargetKey_def takeWhile_append)
qed

lemma first_error_None: "first_error es = None \<longleftrightarrow> set es \<subseteq> {None}"
  by (induction es rule: first_error.induct) auto

lemma check_None [simp]: "check bad e = None \<longleftrightarrow> \<not> bad"
  by (simp add: check_def)

lemma target_chains_elem: "target_chains ts = Inr cs \<Longrightarrow> k \<in> set ts \<Longrightarrow> \<exists>c n. parseRuntimeTargetKey k = Inr (c, n) \<and> c \<in> set cs"
  by (induction ts arbitrary: cs) (fastforce split: sum.splits)+

lemma Cut_append: "x \<notin> set a \<Longrightarrow> Cut x (a @ x # b) = Some (a, b)"
  by (induction a) auto

lemma parse_key:
  assumes "parseRuntimeTargetKey k = Inr (c, n)" "ToLower (TrimSpace k) = name @ ''-'' @ network" "CHR ''-'' \<notin> set name" "TrimSpace name = name"
  shows "c = name"
proof -
  have "TrimSpace (ToLower k) = name @ CHR ''-'' # network" using assms(2) by (simp add: ToLower_TrimSpace)
  then show ?thesis using assms(1,3,4) by (simp add: parseRuntimeTargetKey_def Cut_append Let_def split: if_splits option.splits)
qed

lemma normalized_key: "k \<in> set (normalizeRuntimeTargetKeys keys) \<Longrightarrow> \<exists>k' \<in> set keys. k = ToLower (TrimSpace k')"
  by (auto simp: normalizeRuntimeTargetKeys_def)

lemma requested_required:
  assumes "t \<in> set (buildRuntimeTargets c)" "runtimeTargetKey t \<in> set (normalizeRuntimeTargetKeys keys)" "target_chains keys = Inr required"
  shows "tg_chain t \<in> set required"
proof -
  obtain k where k: "k \<in> set keys" "runtimeTargetKey t = ToLower (TrimSpace k)" using normalized_key [OF assms(2)] by blast
  obtain c' n where p: "parseRuntimeTargetKey k = Inr (c', n)" "c' \<in> set required" using target_chains_elem [OF assms(3) k(1)] by blast
  obtain cc where "(tg_chain t, cc) \<in> set (chain_configs c)" using built_target(1) [OF assms(1)] by blast
  then have "c' = tg_chain t"
    by (intro parse_key [OF p(1), of _ "tg_network t"]) (use k(2) chain_names in \<open>simp_all add: runtimeTargetKey_def\<close>)
  then show ?thesis using p(2) by simp
qed

text \<open>A selected target is a built one, named by a requested key when there are any, and of the requested group when there is one.\<close>

lemma selected_target:
  assumes "selectRuntimeTargets all rt = Inr ts"
  shows "ts \<noteq> []" "\<exists>P. ts = filter P all"
    "t \<in> set ts \<Longrightarrow> rt_ChainTargets rt \<noteq> [] \<Longrightarrow> runtimeTargetKey t \<in> set (normalizeRuntimeTargetKeys (rt_ChainTargets rt))"
    "t \<in> set ts \<Longrightarrow> rt_DeploymentMode rt = LikeGroupMode \<Longrightarrow> rt_LikeGroup rt \<noteq> [] \<Longrightarrow> tg_group t = rt_LikeGroup rt"
    "rt_DeploymentMode rt \<noteq> LikeGroupMode \<Longrightarrow> rt_ChainTargets rt \<noteq> []"
  using assms filter_True [of all "\<lambda>_. True"]
  by (auto simp: selectRuntimeTargets_def filterRuntimeTargetsByKeys_def Let_def split: if_splits intro: exI [of _ "\<lambda>_. True"])

lemma selected_required:
  assumes "selectRuntimeTargets (buildRuntimeTargets c) (ac_Runtime c) = Inr ts" "requiredRuntimeChains (ac_Runtime c) = Inr required" "t \<in> set ts"
  shows "tg_chain t \<in> set required"
proof -
  have built: "t \<in> set (buildRuntimeTargets c)" using selected_target(2) [OF assms(1)] assms(3) by auto
  show ?thesis
  proof (cases "rt_ChainTargets (ac_Runtime c) = []")
    case True
    then have mode: "rt_DeploymentMode (ac_Runtime c) = LikeGroupMode" using selected_target(5) [OF assms(1)] by blast
    have "tg_chain t \<in> {''solana'', ''base'', ''btc''}" using built True
      by (auto simp: buildRuntimeTargets_def shouldBuildChainRuntimeTarget_def chain_target_def)
    then show ?thesis using selected_target(4) [OF assms(1,3) mode] built_target(2) [OF built] assms(2) True mode
      by (auto simp: requiredRuntimeChains_def runtimeLikeGroupForChain_def LikeGroupMode_def IndependentMode_def GroupSolana_def GroupEVM_def GroupBTC_def split: if_splits)
  next
    case False
    have "target_chains (rt_ChainTargets (ac_Runtime c)) = Inr required" using assms(2) False by (auto simp: requiredRuntimeChains_def split: if_splits)
    from requested_required [OF built selected_target(3) [OF assms(1,3) False] this] show ?thesis .
  qed
qed

lemma wiring_failures_Nil:
  "distinct (map runtimeTargetKey ts) \<Longrightarrow> set (map runtimeTargetKey ts) \<inter> set seen = {} \<Longrightarrow> (\<And>t. t \<in> set ts \<Longrightarrow> target_failures t = []) \<Longrightarrow>
   wiring_failures seen ts = []"
  by (induction seen ts rule: wiring_failures.induct) auto

lemma selected_wiring:
  assumes "selectRuntimeTargets (buildRuntimeTargets c) rt = Inr ts"
  shows "validateRuntimeWiring ts = None"
proof -
  obtain P where ts: "ts = filter P (buildRuntimeTargets c)" using selected_target(2) [OF assms] by blast
  have "inj_on runtimeTargetKey (set (buildRuntimeTargets c))"
  proof (rule inj_onI)
    fix t u assume "t \<in> set (buildRuntimeTargets c)" "u \<in> set (buildRuntimeTargets c)" "runtimeTargetKey t = runtimeTargetKey u"
    then show "t = u" using built_key built_distinct [of c] by (metis distinct_map inj_onD)
  qed
  then have keys: "distinct (map runtimeTargetKey ts)" using built_distinct [of c] unfolding ts by (auto simp: distinct_map intro: inj_on_subset)
  have "target_failures t = []" if "t \<in> set ts" for t
  proof -
    have "t \<in> set (buildRuntimeTargets c)" using that by (simp add: ts)
    from built_target(2-4) [OF this] show ?thesis by (auto simp: target_failures_def GroupSolana_def GroupEVM_def GroupBTC_def)
  qed
  then show ?thesis using wiring_failures_Nil [OF keys, of "[]"] selected_target(1) [OF assms] by (simp add: validateRuntimeWiring_def)
qed


lemma first_error_map: "first_error (map f xs) = None \<longleftrightarrow> (\<forall>x \<in> set xs. f x = None)"
  unfolding first_error_None by auto

lemma validated_urls:
  assumes "validate c = None"
  obtains required where "requiredRuntimeChains (ac_Runtime c) = Inr required"
    "\<And>name cc. name \<in> set required \<Longrightarrow> (name, cc) \<in> set (chain_configs c) \<Longrightarrow> cc_RPCURL cc \<noteq> []"
proof -
  obtain required where r: "requiredRuntimeChains (ac_Runtime c) = Inr required" "validate_urls c required = None"
    using assms by (auto simp: validate_def first_error_None split: option.splits sum.splits)
  moreover have "cc_RPCURL cc \<noteq> []" if "name \<in> set required" "(name, cc) \<in> set (chain_configs c)" for name cc
    using r(2) that unfolding validate_urls_def first_error_map by auto
  ultimately show ?thesis using that by blast
qed

lemma validated_keys:
  assumes "validate c = None" "k \<in> set (rt_ChainTargets (ac_Runtime c))"
  shows "ToLower (TrimSpace k) \<in> set (normalizeRuntimeTargetKeys (rt_ChainTargets (ac_Runtime c)))"
proof -
  have parsed: "\<exists>r. parseRuntimeTargetKey k = Inr r" if "validateRuntimeChainTargets ts = None" "k \<in> set ts" for ts
    using that by (induction ts rule: validateRuntimeChainTargets.induct) (auto split: sum.splits)
  have "validateRuntimeChainTargets (rt_ChainTargets (ac_Runtime c)) = None"
    using assms(1) by (auto simp: validate_def validate_runtime_def first_error_None split: option.splits)
  then have "TrimSpace (ToLower k) \<noteq> []" using parsed [OF _ assms(2)] by (auto simp: parseRuntimeTargetKey_def)
  then show ?thesis using assms(2) by (auto simp: normalizeRuntimeTargetKeys_def ToLower_TrimSpace)
qed

lemma filtered_keys: "snd (filterRuntimeTargetsByKeys all keys) = [] \<Longrightarrow> k \<in> set (normalizeRuntimeTargetKeys keys) \<Longrightarrow>
    \<exists>t \<in> set (fst (filterRuntimeTargetsByKeys all keys)). runtimeTargetKey t = k"
  by (fastforce simp: filterRuntimeTargetsByKeys_def normalizeRuntimeTargetKeys_def Let_def filter_empty_conv split: if_splits)

lemma selected_keys:
  assumes "selectRuntimeTargets all rt = Inr ts" "k \<in> set (normalizeRuntimeTargetKeys (rt_ChainTargets rt))"
  shows "\<exists>t \<in> set ts. runtimeTargetKey t = k"
proof -
  have "rt_ChainTargets rt \<noteq> []" using assms(2) by (auto simp: normalizeRuntimeTargetKeys_def)
  then obtain all' where "filterRuntimeTargetsByKeys all' (rt_ChainTargets rt) = (ts, [])"
    using assms(1) by (auto simp: selectRuntimeTargets_def Let_def split: if_splits prod.splits)
  then show ?thesis using filtered_keys [OF _ assms(2), of all'] by simp
qed

text \<open>C40: a process whose configuration passes \<^verbatim>\<open>validate\<close> and whose targets \<^verbatim>\<open>selectRuntimeTargets\<close> accepts starts pipelines that can run: at least
  one, each with a node URL, with the wiring check of \<^verbatim>\<open>validateRuntimeWiring\<close> satisfied, and with a target for every requested chain key.
\<close>

theorem validated_targets_can_run:
  assumes "validate c = None" "selectRuntimeTargets (buildRuntimeTargets c) (ac_Runtime c) = Inr ts"
  shows "ts \<noteq> [] \<and> validateRuntimeWiring ts = None \<and> (\<forall>t \<in> set ts. tg_rpcURL t \<noteq> '''') \<and>
    (\<forall>k \<in> set (rt_ChainTargets (ac_Runtime c)). \<exists>t \<in> set ts. runtimeTargetKey t = ToLower (TrimSpace k))"
proof (intro conjI ballI)
  fix t assume t: "t \<in> set ts"
  obtain required where r: "requiredRuntimeChains (ac_Runtime c) = Inr required"
    "\<And>name cc. name \<in> set required \<Longrightarrow> (name, cc) \<in> set (chain_configs c) \<Longrightarrow> cc_RPCURL cc \<noteq> []" using validated_urls [OF assms(1)] by blast
  have "t \<in> set (buildRuntimeTargets c)" using selected_target(2) [OF assms(2)] t by auto
  then show "tg_rpcURL t \<noteq> ''''" using built_target(1) r(2) [OF selected_required [OF assms(2) r(1) t]] by fastforce
qed (use assms selected_target(1) selected_wiring validated_keys selected_keys in \<open>blast+\<close>)

definition chain_cfg :: "string \<Rightarrow> string \<Rightarrow> chain_config" where
  "chain_cfg url network = \<lparr>cc_RPCURL = url, cc_Network = network, cc_RateLimit = \<lparr>rl_RPS = 10, rl_Burst = 20\<rparr>, cc_Watched = [''a'']\<rparr>"

definition example_config :: "string list \<Rightarrow> app_config" where
  "example_config targets = \<lparr>ac_DBURL = ''postgres'', ac_MaxOpenConns = 50, ac_SidecarAddr = ''localhost:50051'', ac_TLSEnabled = False, ac_TLSCA = '''',
     ac_Runtime = \<lparr>rt_DeploymentMode = LikeGroupMode, rt_LikeGroup = '''', rt_ChainTargets = targets\<rparr>,
     ac_Solana = chain_cfg ''http://s'' ''devnet'', ac_Base = chain_cfg '''' ''sepolia'', ac_Ethereum = chain_cfg ''http://e'' ''mainnet'',
     ac_BTC = chain_cfg '''' ''testnet'', ac_Polygon = chain_cfg '''' ''mainnet'', ac_Arbitrum = chain_cfg '''' ''mainnet'', ac_BSC = chain_cfg '''' ''mainnet'',
     ac_BatchSize = 100, ac_AdminAddr = '':9090''\<rparr>"

theorem validated_targets_can_run_witness:
  "validateRuntimeWiring [chain_target ChainSolana ''devnet'' GroupSolana (ac_Solana (example_config [])),
     chain_target ChainEthereum ''mainnet'' GroupEVM (ac_Ethereum (example_config []))] = None"
proof -
  let ?c = "example_config ['' Solana-Devnet'', ''ethereum-mainnet'']"
  have v: "validate ?c = None" by code_simp
  have "selectRuntimeTargets (buildRuntimeTargets ?c) (ac_Runtime ?c) = Inr [chain_target ChainSolana ''devnet'' GroupSolana (ac_Solana (example_config [])),
     chain_target ChainEthereum ''mainnet'' GroupEVM (ac_Ethereum (example_config []))]" by code_simp
  from validated_targets_can_run [OF v this] show ?thesis by blast
qed

text \<open>The validation trims the parts of a target key and the selection does not: a key with spaces around the hyphen is valid and never found.\<close>

lemma spaced_key_not_found:
  "validate (example_config [''solana - devnet'']) = None \<and>
   selectRuntimeTargets (buildRuntimeTargets (example_config [''solana - devnet''])) (ac_Runtime (example_config [''solana - devnet''])) =
     Inl (TargetsNotFound [''solana - devnet''])"
  by code_simp

end
