(* ===== verification/Go_JSON.thy ===== *)
theory Go_JSON
  imports Go_Prelude "HOL-Library.AList" "HOL-Library.Product_Lexorder"
begin

text \<open>
  Package \<^verbatim>\<open>encoding/json\<close> on \<^verbatim>\<open>map[string]string\<close>, the only type the normalizer encodes and decodes. A Go map is
  an association list with distinct keys; the empty list is the nil map. Encoding sorts the keys,
  escapes quotes, backslashes, control characters and the three HTML characters, and passes other
  bytes through (strings are valid UTF-8 without U+2028 and U+2029). Decoding is modelled on compact
  texts, the form that encoding writes and that the literals in the source have; every other text is
  a decoding error. The last lemma is the round trip.
\<close>

type_synonym string_map = "(string \<times> string) list"

definition map_get :: "string_map \<Rightarrow> string \<Rightarrow> string" where
  "map_get m k = (case map_of m k of None \<Rightarrow> '''' | Some v \<Rightarrow> v)"

section \<open>Encoding\<close>

definition hex_char :: "nat \<Rightarrow> char" where
  "hex_char d = (if d < 10 then char_of (48 + d) else char_of (87 + d))"

definition unicode_escape :: "char \<Rightarrow> string" where
  "unicode_escape c = [CHR 0x5C, CHR ''u'', CHR ''0'', CHR ''0'', hex_char (of_char c div 16), hex_char (of_char c mod 16)]"

definition json_escape :: "char \<Rightarrow> string" where
  "json_escape c =
     (if c = CHR 0x22 \<or> c = CHR 0x5C then [CHR 0x5C, c]
      else if c = CHR 0x08 then [CHR 0x5C, CHR ''b'']
      else if c = CHR 0x0C then [CHR 0x5C, CHR ''f'']
      else if c = CHR 0x0A then [CHR 0x5C, CHR ''n'']
      else if c = CHR 0x0D then [CHR 0x5C, CHR ''r'']
      else if c = CHR 0x09 then [CHR 0x5C, CHR ''t'']
      else if (of_char c :: nat) < 32 \<or> c = CHR ''<'' \<or> c = CHR ''>'' \<or> c = CHR ''&'' then unicode_escape c
      else [c])"

definition json_quote :: "string \<Rightarrow> string" where
  "json_quote s = CHR 0x22 # concat (map json_escape s) @ [CHR 0x22]"

fun json_members :: "string_map \<Rightarrow> string" where
  "json_members [] = ''}''"
| "json_members [(k, v)] = json_quote k @ '':'' @ json_quote v @ ''}''"
| "json_members ((k, v) # ms) = json_quote k @ '':'' @ json_quote v @ '','' @ json_members ms"

definition Marshal :: "string_map \<Rightarrow> string" where
  "Marshal m = (if m = [] then ''null'' else CHR 0x7B # json_members (sort_key fst m))"

section \<open>Decoding\<close>

definition hex_value :: "char \<Rightarrow> nat option" where
  "hex_value c =
     (let n = (of_char c :: nat) in
      if 48 \<le> n \<and> n \<le> 57 then Some (n - 48) else if 97 \<le> n \<and> n \<le> 102 then Some (n - 87) else if 65 \<le> n \<and> n \<le> 70 then Some (n - 55) else None)"

definition simple_escape :: "char \<Rightarrow> char option" where
  "simple_escape c =
     (if c = CHR 0x22 \<or> c = CHR 0x5C \<or> c = CHR 0x2F then Some c
      else if c = CHR ''b'' then Some (CHR 0x08) else if c = CHR ''f'' then Some (CHR 0x0C) else if c = CHR ''n'' then Some (CHR 0x0A)
      else if c = CHR ''r'' then Some (CHR 0x0D) else if c = CHR ''t'' then Some (CHR 0x09) else None)"

text \<open>The text of a string after its opening quote: the string and what follows the closing quote. Of the
  numeric escapes those below 128 are read.\<close>

definition numeric_escape :: "string \<Rightarrow> char option" where
  "numeric_escape ds = (case ds of
     [a, b, h, l] \<Rightarrow> if a = CHR ''0'' \<and> b = CHR ''0'' then
         (case (hex_value h, hex_value l) of (Some x, Some y) \<Rightarrow> if 16 * x + y < 128 then Some (char_of (16 * x + y)) else None | _ \<Rightarrow> None)
       else None
   | _ \<Rightarrow> None)"

function json_unquote :: "string \<Rightarrow> (string \<times> string) option" where
  "json_unquote s = (case s of
     [] \<Rightarrow> None
   | c # r \<Rightarrow>
       if c = CHR 0x22 then Some ('''', r)
       else if c = CHR 0x5C then
         (case r of
            [] \<Rightarrow> None
          | e # r' \<Rightarrow>
              if e = CHR ''u'' then (case numeric_escape (take 4 r') of
                  None \<Rightarrow> None | Some x \<Rightarrow> map_option (\<lambda>(t, rest). (x # t, rest)) (json_unquote (drop 4 r')))
              else (case simple_escape e of
                  None \<Rightarrow> None | Some x \<Rightarrow> map_option (\<lambda>(t, rest). (x # t, rest)) (json_unquote r')))
       else if (of_char c :: nat) < 32 then None
       else map_option (\<lambda>(t, rest). (c # t, rest)) (json_unquote r))"
  by pat_completeness auto
termination
  by (relation "measure length") auto

declare json_unquote.simps [simp del]

lemma json_unquote_Nil [simp]: "json_unquote [] = None"
  by (simp add: json_unquote.simps)

lemma json_unquote_shorter: "json_unquote s = Some (t, rest) \<Longrightarrow> length rest < length s"
proof (induction s arbitrary: t rest rule: length_induct)
  case (1 s)
  have ih: "length rest < n" if "json_unquote y = Some (t', rest)" "length y < length s" "length y \<le> n" for y t' n
    using 1(1) that by fastforce
  from 1(2) show ?case
    by (subst (asm) json_unquote.simps) (auto split: list.splits if_splits option.splits intro: ih)
qed

text \<open>One quoted string at the start of the text.\<close>

definition json_string :: "string \<Rightarrow> (string \<times> string) option" where
  "json_string s = (case s of c # r \<Rightarrow> if c = CHR 0x22 then json_unquote r else None | [] \<Rightarrow> None)"

lemma json_string_shorter: "json_string s = Some (t, rest) \<Longrightarrow> length rest < length s"
  by (auto simp: json_string_def split: list.splits if_splits dest: json_unquote_shorter)

text \<open>The members after the opening brace or a comma; the whole text is consumed. A repeated key is overwritten.\<close>

function json_object :: "string_map \<Rightarrow> string \<Rightarrow> string_map option" where
  "json_object m s = (case json_string s of
     None \<Rightarrow> None
   | Some (k, r) \<Rightarrow> (case r of
       [] \<Rightarrow> None
     | c # r1 \<Rightarrow> if c = CHR '':'' then (case json_string r1 of
           None \<Rightarrow> None
         | Some (v, r2) \<Rightarrow> (case r2 of
             [] \<Rightarrow> None
           | c2 # r3 \<Rightarrow>
               if c2 = CHR 0x7D \<and> r3 = [] then Some (AList.update k v m)
               else if c2 = CHR '','' then json_object (AList.update k v m) r3
               else None))
         else None))"
  by pat_completeness auto
termination
  by (relation "measure (\<lambda>(m, s). length s)") (auto dest!: json_string_shorter)

declare json_object.simps [simp del]

definition Unmarshal :: "string \<Rightarrow> string_map option" where
  "Unmarshal s = (if s = ''{}'' then Some [] else case s of c # r \<Rightarrow> if c = CHR 0x7B then json_object [] r else None | [] \<Rightarrow> None)"

section \<open>Round trip\<close>

lemma unicode_escape_value: "(of_char c :: nat) < 128 \<Longrightarrow> numeric_escape (drop 2 (unicode_escape c)) = Some c"
proof -
  assume n: "(of_char c :: nat) < 128"
  have h: "hex_value (hex_char d) = Some d" if "d < 16" for d
    using that by (auto simp: hex_value_def hex_char_def Let_def of_char_of)
  have "(of_char c :: nat) div 16 < 16" "(of_char c :: nat) mod 16 < 16" using n by auto
  then show ?thesis using n h by (simp add: unicode_escape_def numeric_escape_def)
qed

lemma json_unquote_escape: "json_unquote (json_escape c @ r) = map_option (\<lambda>(t, rest). (c # t, rest)) (json_unquote r)"
proof -
  have u: "json_unquote (unicode_escape c @ r) = map_option (\<lambda>(t, rest). (c # t, rest)) (json_unquote r)" if "(of_char c :: nat) < 128"
    using unicode_escape_value [OF that] by (subst json_unquote.simps) (simp add: unicode_escape_def)
  have n: "json_unquote (c # r) = map_option (\<lambda>(t, rest). (c # t, rest)) (json_unquote r)"
    if "c \<noteq> CHR 0x22" "c \<noteq> CHR 0x5C" "\<not> (of_char c :: nat) < 32"
    using that by (subst json_unquote.simps) simp
  have e: "json_unquote (CHR 0x5C # d # r) = map_option (\<lambda>(t, rest). (c # t, rest)) (json_unquote r)" if "simple_escape d = Some c" "d \<noteq> CHR ''u''" for d
    using that by (subst json_unquote.simps) simp
  consider "c = CHR 0x22 \<or> c = CHR 0x5C" | "c = CHR 0x08" | "c = CHR 0x0C" | "c = CHR 0x0A" | "c = CHR 0x0D" | "c = CHR 0x09"
    | "json_escape c = unicode_escape c" "(of_char c :: nat) < 128"
    | "json_escape c = [c]" "c \<noteq> CHR 0x22" "c \<noteq> CHR 0x5C" "\<not> (of_char c :: nat) < 32"
  proof (cases "c \<in> {CHR 0x22, CHR 0x5C, CHR 0x08, CHR 0x0C, CHR 0x0A, CHR 0x0D, CHR 0x09}")
    case False
    then have j: "json_escape c = (if (of_char c :: nat) < 32 \<or> c = CHR ''<'' \<or> c = CHR ''>'' \<or> c = CHR ''&'' then unicode_escape c else [c])"
      by (simp add: json_escape_def)
    show thesis
    proof (cases "(of_char c :: nat) < 32 \<or> c = CHR ''<'' \<or> c = CHR ''>'' \<or> c = CHR ''&''")
      case True
      then have "(of_char c :: nat) < 128" by (elim disjE) simp_all
      then show thesis using that(7) j True by simp
    next
      case no: False
      then show thesis using that(8) j False by simp
    qed
  qed (use that in blast)
  then show ?thesis
  proof cases
    case 1
    then have "json_escape c = [CHR 0x5C, c]" "simple_escape c = Some c" "c \<noteq> CHR ''u''" by (auto simp: json_escape_def simple_escape_def)
    then show ?thesis using e [of c] by simp
  next
    case 2
    then show ?thesis using e [of "CHR ''b''"] by (simp add: json_escape_def simple_escape_def)
  next
    case 3
    then show ?thesis using e [of "CHR ''f''"] by (simp add: json_escape_def simple_escape_def)
  next
    case 4
    then show ?thesis using e [of "CHR ''n''"] by (simp add: json_escape_def simple_escape_def)
  next
    case 5
    then show ?thesis using e [of "CHR ''r''"] by (simp add: json_escape_def simple_escape_def)
  next
    case 6
    then show ?thesis using e [of "CHR ''t''"] by (simp add: json_escape_def simple_escape_def)
  next
    case 7
    then show ?thesis using u by simp
  next
    case 8
    then show ?thesis using n by simp
  qed
qed

lemma json_unquote_quote: "json_unquote (concat (map json_escape s) @ CHR 0x22 # r) = Some (s, r)"
proof (induction s)
  case Nil
  show ?case by (subst json_unquote.simps) simp
next
  case (Cons c s)
  then show ?case by (simp add: json_unquote_escape)
qed

lemma json_string_quote: "json_string (json_quote s @ r) = Some (s, r)"
  by (simp add: json_string_def json_quote_def json_unquote_quote)

lemma json_object_members: "ms \<noteq> [] \<Longrightarrow> json_object m (json_members ms) = Some (fold (\<lambda>(k, v). AList.update k v) ms m)"
proof (induction ms arbitrary: m rule: json_members.induct)
  case (2 k v)
  then show ?case by (subst json_object.simps) (simp add: json_string_quote)
next
  case (3 k v x xs)
  then show ?case by (subst json_object.simps) (simp add: json_string_quote)
qed simp

lemma map_of_fold_update:
  "distinct (map fst ms) \<Longrightarrow> map_of (fold (\<lambda>(k, v). AList.update k v) ms m) k = (case map_of ms k of None \<Rightarrow> map_of m k | Some v \<Rightarrow> Some v)"
proof (induction ms arbitrary: m)
  case (Cons kv ms)
  obtain a b where kv: "kv = (a, b)" by (cases kv)
  show ?case using Cons by (auto simp: kv update_conv' map_of_eq_None_iff [THEN iffD2] split: option.split)
qed simp

lemma map_of_sort_key: "distinct (map fst m) \<Longrightarrow> map_of (sort_key fst m) = map_of m"
proof -
  assume "distinct (map fst m)"
  then have "distinct (map fst (sort_key fst m))" by (simp add: distinct_map)
  then show ?thesis using \<open>distinct (map fst m)\<close> by (auto intro!: map_of_eqI simp: map_of_eq_Some_iff)
qed

lemma Unmarshal_Marshal:
  assumes "distinct (map fst m)" "m \<noteq> []"
  shows "\<exists>m'. Unmarshal (Marshal m) = Some m' \<and> map_of m' = map_of m"
proof -
  let ?s = "sort_key fst m"
  have ne: "?s \<noteq> []" using assms(2) by (metis set_empty set_sort)
  have "json_members ?s \<noteq> ''}''" using ne by (cases ?s rule: json_members.cases) (auto simp: json_quote_def)
  then have "Unmarshal (Marshal m) = Some (fold (\<lambda>(k, v). AList.update k v) ?s [])"
    using assms(2) json_object_members [OF ne, of "[]"] by (simp add: Unmarshal_def Marshal_def)
  moreover have "map_of (fold (\<lambda>(k, v). AList.update k v) ?s []) = map_of m"
    using map_of_fold_update [of ?s "[]"] map_of_sort_key [OF assms(1)] assms(1) by (auto simp: distinct_map split: option.split)
  ultimately show ?thesis by blast
qed

end
