(* ===== verification/Best_Selection.thy ===== *)
theory Best_Selection
  imports Go_Prelude "HOL-Library.AList"
begin

text \<open>
  Choosing one representative per key, as the normalizer does with a Go map and a comparison function:
  the first element of a key is stored, a later one replaces it when the comparison says so, and the
  survivors are listed in the order of their keys. When the comparison follows a linear order on some
  rank, the survivor of a key is one of best rank whatever the order of the elements was.
\<close>

section \<open>The loop\<close>

definition keep_best_step :: "('a \<Rightarrow> 'a \<Rightarrow> bool) \<Rightarrow> 'k \<times> 'a \<Rightarrow> ('k \<times> 'a) list \<Rightarrow> ('k \<times> 'a) list" where
  "keep_best_step replace kx byKey = (case map_of byKey (fst kx) of
     None \<Rightarrow> AList.update (fst kx) (snd kx) byKey
   | Some existing \<Rightarrow> if replace existing (snd kx) then AList.update (fst kx) (snd kx) byKey else byKey)"

definition keep_best :: "('a \<Rightarrow> 'a \<Rightarrow> bool) \<Rightarrow> ('k \<times> 'a) list \<Rightarrow> ('k \<times> 'a) list" where
  "keep_best replace kxs = fold (keep_best_step replace) kxs []"

definition in_key_order :: "('k::linorder \<times> 'a) list \<Rightarrow> 'a list" where
  "in_key_order byKey = map snd (sort_key fst byKey)"

lemma keep_best_step_lookup:
  "map_of (keep_best_step replace (k, x) m) k' =
     (if k' = k then (case map_of m k of None \<Rightarrow> Some x | Some e \<Rightarrow> Some (if replace e x then x else e)) else map_of m k')"
  by (auto simp: keep_best_step_def update_conv' split: option.split)

text \<open>What the loop stores for a key depends only on the elements of that key, in their order.\<close>

definition pick_best :: "('a \<Rightarrow> 'a \<Rightarrow> bool) \<Rightarrow> 'a list \<Rightarrow> 'a option" where
  "pick_best replace xs = (case xs of [] \<Rightarrow> None | x # ys \<Rightarrow> Some (foldl (\<lambda>e y. if replace e y then y else e) x ys))"

lemma pick_best_snoc:
  "pick_best replace (xs @ [y]) = (case pick_best replace xs of None \<Rightarrow> Some y | Some e \<Rightarrow> Some (if replace e y then y else e))"
  by (cases xs) (simp_all add: pick_best_def)

lemma keep_best_snoc: "keep_best replace (kxs @ [kx]) = keep_best_step replace kx (keep_best replace kxs)"
  by (simp add: keep_best_def)

lemma keep_best_lookup: "map_of (keep_best replace kxs) k = pick_best replace (map snd (filter (\<lambda>(k', x). k' = k) kxs))"
proof (induction kxs rule: rev_induct)
  case (snoc kx kxs)
  obtain k' x where kx: "kx = (k', x)" by (cases kx)
  show ?case using snoc by (auto simp: kx keep_best_snoc keep_best_step_lookup pick_best_snoc)
qed (simp add: keep_best_def pick_best_def)

lemma keep_best_keys: "distinct (map fst (keep_best replace kxs)) \<and> fst ` set (keep_best replace kxs) = fst ` set kxs"
proof (induction kxs rule: rev_induct)
  case (snoc kx kxs)
  obtain k x where kx: "kx = (k, x)" by (cases kx)
  have "map_of m k = Some e \<Longrightarrow> k \<in> fst ` set m" for m :: "('a \<times> 'b) list" and e by (force dest: map_of_SomeD)
  with snoc show ?case
    by (auto simp: kx keep_best_snoc keep_best_step_def distinct_update dom_update insert_absorb split: option.split)
qed (simp add: keep_best_def)

lemma keep_best_elem: "(k, x) \<in> set (keep_best replace kxs) \<Longrightarrow> (k, x) \<in> set kxs"
proof (induction kxs arbitrary: x rule: rev_induct)
  case (snoc kx kxs)
  obtain k' y where kx: "kx = (k', y)" by (cases kx)
  have "map_of (keep_best replace (kxs @ [kx])) k = Some x"
    using snoc.prems keep_best_keys [of replace "kxs @ [kx]"] by (simp add: map_of_eq_Some_iff)
  then have "map_of (keep_best replace kxs) k = Some x \<or> k = k' \<and> x = y"
    by (auto simp: kx keep_best_snoc keep_best_step_lookup split: option.splits if_splits)
  then show ?case using snoc.IH by (auto simp: kx dest: map_of_SomeD)
qed (simp add: keep_best_def)

lemma in_key_order_keys:
  assumes "distinct (map fst m)" "\<And>k x. (k, x) \<in> set m \<Longrightarrow> f x = k"
  shows "map f (in_key_order m) = sorted_list_of_set (fst ` set m)"
proof -
  have "map f (map snd (sort_key fst m)) = map fst (sort_key fst m)"
    using assms(2) by auto
  also have "\<dots> = sorted_list_of_set (fst ` set m)"
  proof -
    have "sorted (map fst (sort_key fst m))" by simp
    moreover have "distinct (map fst (sort_key fst m))" using assms(1) by (simp add: distinct_map)
    moreover have "set (map fst (sort_key fst m)) = fst ` set m" by simp
    ultimately show ?thesis using sorted_list_of_set.idem_if_sorted_distinct by metis
  qed
  finally show ?thesis by (simp add: in_key_order_def)
qed

lemma set_in_key_order [simp]: "set (in_key_order m) = snd ` set m"
  by (simp add: in_key_order_def)

section \<open>Comparisons that follow a rank\<close>

locale ranked_choice =
  fixes replace :: "'a \<Rightarrow> 'a \<Rightarrow> bool"
    and rank :: "'a \<Rightarrow> 'r::linorder"
    and admissible :: "'a \<Rightarrow> bool"
  assumes replace_rank: "\<lbrakk>admissible x; admissible y\<rbrakk> \<Longrightarrow> replace x y \<longleftrightarrow> rank y < rank x"
begin

lemma foldl_best:
  assumes "admissible x" "\<And>y. y \<in> set ys \<Longrightarrow> admissible y"
  shows "let c = foldl (\<lambda>e y. if replace e y then y else e) x ys in c \<in> insert x (set ys) \<and> (\<forall>y \<in> insert x (set ys). rank c \<le> rank y)"
  using assms
proof (induction ys arbitrary: x)
  case (Cons y ys)
  let ?x = "if replace x y then y else x"
  have "let c = foldl (\<lambda>e y. if replace e y then y else e) ?x ys in c \<in> insert ?x (set ys) \<and> (\<forall>z \<in> insert ?x (set ys). rank c \<le> rank z)"
    by (rule Cons.IH) (use Cons.prems in auto)
  moreover have "rank ?x \<le> rank x" "rank ?x \<le> rank y" using replace_rank [of x y] Cons.prems by auto
  ultimately show ?case by (auto simp: Let_def intro: order_trans split: if_splits)
qed simp

lemma pick_best_rank:
  assumes "pick_best replace xs = Some c" "\<And>x. x \<in> set xs \<Longrightarrow> admissible x"
  shows "c \<in> set xs \<and> (\<forall>x \<in> set xs. rank c \<le> rank x)"
  using foldl_best [of "hd xs" "tl xs"] assms by (cases xs) (auto simp: pick_best_def Let_def)

text \<open>The survivor of a key has the best rank among the elements of that key.\<close>

lemma keep_best_rank:
  assumes "map_of (keep_best replace kxs) k = Some c" "\<And>k x. (k, x) \<in> set kxs \<Longrightarrow> admissible x"
  shows "(k, c) \<in> set kxs \<and> (\<forall>x. (k, x) \<in> set kxs \<longrightarrow> rank c \<le> rank x)"
  using pick_best_rank [OF assms(1) [unfolded keep_best_lookup]] assms(2) by force

text \<open>The ranks of the survivors do not depend on the order of the elements.\<close>

lemma keep_best_order:
  assumes "set kxs = set kys" "\<And>k x. (k, x) \<in> set kxs \<Longrightarrow> admissible x"
  shows "map_option rank (map_of (keep_best replace kxs) k) = map_option rank (map_of (keep_best replace kys) k)"
proof (cases "map_of (keep_best replace kxs) k")
  case None
  then have "k \<notin> fst ` set kys" using keep_best_keys [of replace kxs] assms(1) by (simp add: map_of_eq_None_iff)
  then have "map_of (keep_best replace kys) k = None" using keep_best_keys [of replace kys] by (simp add: map_of_eq_None_iff)
  then show ?thesis using None by simp
next
  case (Some c)
  then have "k \<in> fst ` set kys" using keep_best_keys [of replace kxs] assms(1) by (metis domI dom_map_of_conv_image_fst)
  then obtain c' where c': "map_of (keep_best replace kys) k = Some c'"
    using keep_best_keys [of replace kys] by (metis domD dom_map_of_conv_image_fst)
  have c: "(k, c) \<in> set kxs \<and> (\<forall>x. (k, x) \<in> set kxs \<longrightarrow> rank c \<le> rank x)"
    by (rule keep_best_rank [OF Some]) (rule assms(2))
  have d: "(k, c') \<in> set kys \<and> (\<forall>x. (k, x) \<in> set kys \<longrightarrow> rank c' \<le> rank x)"
    by (rule keep_best_rank [OF c']) (use assms in blast)
  have "rank c = rank c'" using c d assms(1) by (auto intro: antisym)
  then show ?thesis using Some c' by simp
qed

lemma in_key_order_order:
  fixes f :: "'a \<Rightarrow> 'k::linorder"
  assumes "set xs = set ys" "\<And>x. x \<in> set xs \<Longrightarrow> admissible x"
  shows "map (\<lambda>x. (f x, rank x)) (in_key_order (keep_best replace (map (\<lambda>x. (f x, x)) xs))) =
    map (\<lambda>x. (f x, rank x)) (in_key_order (keep_best replace (map (\<lambda>x. (f x, x)) ys)))"
proof -
  let ?m = "\<lambda>zs. keep_best replace (map (\<lambda>x. (f x, x)) zs)"
  have key: "f x = k" if "(k, x) \<in> set (?m zs)" for k x zs using keep_best_elem [OF that] by auto
  have lookup: "(f x, x) \<in> set (?m zs) \<longleftrightarrow> map_of (?m zs) (f x) = Some x" for x zs
    using keep_best_keys [of replace "map (\<lambda>x. (f x, x)) zs"] by (simp add: map_of_eq_Some_iff)
  have ks: "map f (in_key_order (?m zs)) = sorted_list_of_set (f ` set zs)" for zs
  proof -
    have "fst ` set (?m zs) = f ` set zs" using keep_best_keys [of replace "map (\<lambda>x. (f x, x)) zs"] by (simp add: image_image)
    moreover have "map f (in_key_order (?m zs)) = sorted_list_of_set (fst ` set (?m zs))"
      by (rule in_key_order_keys) (use key keep_best_keys [of replace "map (\<lambda>x. (f x, x)) zs"] in auto)
    ultimately show ?thesis by simp
  qed
  have mem: "map_of (?m zs) (f x) = Some x" if "x \<in> set (in_key_order (?m zs))" for x zs
  proof -
    from that obtain k where k: "(k, x) \<in> set (?m zs)" by auto
    then show ?thesis using key [OF k] lookup [of x zs] by simp
  qed
  have l: "length (in_key_order (?m xs)) = length (in_key_order (?m ys))" using arg_cong [OF ks [of xs], of length] arg_cong [OF ks [of ys], of length] assms(1) by simp
  show ?thesis
  proof (rule nth_equalityI)
    fix i assume "i < length (map (\<lambda>x. (f x, rank x)) (in_key_order (?m xs)))"
    then have i: "i < length (in_key_order (?m xs))" "i < length (in_key_order (?m ys))" using l by auto
    let ?a = "in_key_order (?m xs) ! i" and ?b = "in_key_order (?m ys) ! i"
    have "map f (in_key_order (?m xs)) = map f (in_key_order (?m ys))" using ks [of xs] ks [of ys] assms(1) by simp
    from arg_cong [OF this, of "\<lambda>l. l ! i"] have fab: "f ?a = f ?b" using i by simp
    have "map_of (?m xs) (f ?a) = Some ?a" "map_of (?m ys) (f ?b) = Some ?b" using mem [OF nth_mem [OF i(1)]] mem [OF nth_mem [OF i(2)]] by simp_all
    moreover have "map_option rank (map_of (?m xs) (f ?a)) = map_option rank (map_of (?m ys) (f ?a))"
      by (rule keep_best_order) (use assms in auto)
    ultimately have "rank ?a = rank ?b" using fab by simp
    then show "map (\<lambda>x. (f x, rank x)) (in_key_order (?m xs)) ! i = map (\<lambda>x. (f x, rank x)) (in_key_order (?m ys)) ! i"
      using fab i by simp
  qed (simp add: l)
qed

end

end
