(* ===== verification/Decoded_Result.thy ===== *)
theory Decoded_Result
  imports Identity Go_JSON Best_Selection
begin

text \<open>
  What the decoder sidecar returns and how the normalizer reads it (\<^verbatim>\<open>normalizer.go\<close>,
  \<^verbatim>\<open>normalizer_identity_decode.go\<close> and the fee derivation of \<^verbatim>\<open>normalizer_balance_evm.go\<close>): finality labels,
  event paths, fee components and the merging of several decodings of one transaction. A repeated
  message field may hold nil pointers and is a list of options. The theory shows that merging
  decodings never loses coverage.
\<close>

section \<open>Messages\<close>

record balance_event_info =
  bi_OuterInstructionIndex :: int
  bi_InnerInstructionIndex :: int
  bi_EventCategory :: string
  bi_EventAction :: string
  bi_ProgramId :: string
  bi_Address :: string
  bi_ContractAddress :: string
  bi_Delta :: string
  bi_CounterpartyAddress :: string
  bi_TokenSymbol :: string
  bi_TokenName :: string
  bi_TokenDecimals :: int
  bi_TokenType :: string
  bi_Metadata :: string_map

record transaction_result =
  dr_TxHash :: string
  dr_BlockCursor :: int
  dr_BlockTime :: int
  dr_FeeAmount :: string
  dr_FeePayer :: string
  dr_Status :: string
  dr_Error :: "string option"
  dr_BalanceEvents :: "balance_event_info option list"

record decode_error =
  de_Signature :: string
  de_Error :: string

text \<open>A loop that skips nil pointers runs over these.\<close>

definition somes :: "'a option list \<Rightarrow> 'a list" where
  "somes xs = List.map_filter (\<lambda>x. x) xs"

lemma set_somes [simp]: "set (somes xs) = {x. Some x \<in> set xs}"
  by (auto simp: somes_def List.map_filter_def image_iff) force

lemma somes_map_Some [simp]: "somes (map Some xs) = xs"
  by (induction xs) (simp_all add: somes_def map_filter_simps)

section \<open>Finality labels\<close>

definition defaultFinalityState :: "chain \<Rightarrow> string" where
  "defaultFinalityState chainID = (if chainID = ChainSolana then ''finalized'' else ''confirmed'')"

definition canonicalizeFinalityState :: "string \<Rightarrow> string" where
  "canonicalizeFinalityState state =
     (if state = '''' then ''''
      else if state \<in> {''processed'', ''confirmed'', ''safe'', ''finalized''} then state
      else let s = ToLower (TrimSpace state) in
        if s = '''' then ''''
        else if s \<in> {''processed'', ''pending'', ''latest'', ''unsafe''} then ''processed''
        else if s \<in> {''confirmed'', ''accepted''} then ''confirmed''
        else if s = ''safe'' then ''safe''
        else if s \<in> {''finalized'', ''finalised''} then ''finalized''
        else '''')"

definition normalizeFinalityStateOrDefault :: "chain \<Rightarrow> string \<Rightarrow> string" where
  "normalizeFinalityStateOrDefault chainID state =
     (let normalized = canonicalizeFinalityState state in if normalized \<noteq> '''' then normalized else defaultFinalityState chainID)"

definition finalityStateRank :: "string \<Rightarrow> int" where
  "finalityStateRank state = (let s = canonicalizeFinalityState state in
     if s = ''processed'' then 1 else if s = ''confirmed'' then 2 else if s = ''safe'' then 3 else if s = ''finalized'' then 4 else 0)"

definition compareFinalityStateStrength :: "string \<Rightarrow> string \<Rightarrow> int" where
  "compareFinalityStateStrength left right =
     (let l = finalityStateRank left; r = finalityStateRank right in
      if l \<noteq> r then (if l < r then -1 else 1)
      else let ln = canonicalizeFinalityState left; rn = canonicalizeFinalityState right in
        if ln < rn then -1 else if ln > rn then 1 else 0)"

definition finalityMetadataKeys :: "chain \<Rightarrow> string list" where
  "finalityMetadataKeys chainID =
     (if chainID = ChainSolana then [''commitment'', ''confirmation_status'', ''finality_state'', ''finality'']
      else [''finality_state'', ''finality'', ''confirmation_status'', ''commitment''])"

text \<open>The loops over the events and over the keys, with their breaks. The state is the best label, its rank and the
  order of its key.\<close>

type_synonym finality_best = "string \<times> int \<times> nat"

fun finality_keys :: "string_map \<Rightarrow> (nat \<times> string) list \<Rightarrow> finality_best \<Rightarrow> finality_best" where
  "finality_keys md [] st = st"
| "finality_keys md ((keyOrder, key) # ks) (best, bestRank, bestKeyOrder) =
     (let candidate = canonicalizeFinalityState (map_get md key) in
      if candidate = '''' then finality_keys md ks (best, bestRank, bestKeyOrder)
      else let candidateRank = finalityStateRank candidate;
               st = (if candidateRank > bestRank \<or> candidateRank = bestRank \<and> keyOrder < bestKeyOrder
                     then (candidate, candidateRank, keyOrder) else (best, bestRank, bestKeyOrder))
           in if fst (snd st) \<ge> 4 then st else finality_keys md ks st)"

fun finality_events :: "(nat \<times> string) list \<Rightarrow> balance_event_info list \<Rightarrow> finality_best \<Rightarrow> finality_best" where
  "finality_events keys [] st = st"
| "finality_events keys (be # bes) st =
     (let st' = finality_keys (bi_Metadata be) keys st in if fst (snd st') \<ge> 4 then st' else finality_events keys bes st')"

definition resolveResultFinalityState :: "chain \<Rightarrow> transaction_result option \<Rightarrow> string" where
  "resolveResultFinalityState chainID result = (case result of
     None \<Rightarrow> defaultFinalityState chainID
   | Some r \<Rightarrow>
       let keys = finalityMetadataKeys chainID;
           (best, _, _) = finality_events (zip [0..<length keys] keys) (somes (dr_BalanceEvents r)) ('''', 0, length keys)
       in if best \<noteq> '''' then best else defaultFinalityState chainID)"

section \<open>Addresses, paths and amounts\<close>

definition canonicalizeAddressIdentity :: "chain \<Rightarrow> string \<Rightarrow> string" where
  "canonicalizeAddressIdentity chainID value =
     (let trimmed = TrimSpace value in
      if trimmed = '''' then ''''
      else if \<not> IsEVMChain chainID then trimmed
      else let ident = CanonicalSignatureIdentity chainID trimmed in if ident = '''' then trimmed else ident)"

definition metadataFromChainData :: "string option \<Rightarrow> string_map" where
  "metadataFromChainData chainData = (case chainData of
     None \<Rightarrow> []
   | Some s \<Rightarrow> if s = '''' \<or> s = ''null'' then [] else case Unmarshal s of None \<Rightarrow> [] | Some m \<Rightarrow> m)"

definition parsePathIndexPart :: "string \<Rightarrow> string \<Rightarrow> int option" where
  "parsePathIndexPart part key =
     (if part = '''' then None
      else let raw = (if HasPrefix part (key @ '':'') then Some (TrimPrefix part (key @ '':''))
                      else if HasPrefix part (key @ ''='') then Some (TrimPrefix part (key @ ''='')) else None)
        in case raw of None \<Rightarrow> None | Some r \<Rightarrow> if r = '''' then None else ParseInt r)"

definition parseSolanaInstructionPath :: "string \<Rightarrow> (int \<times> int) option" where
  "parseSolanaInstructionPath path =
     (let trimmed = TrimSpace path in
      if trimmed = '''' then None
      else case Split CHR ''|'' (remove_blanks (ToLower trimmed)) of
        [a, b] \<Rightarrow> (case (parsePathIndexPart a ''outer'', parsePathIndexPart b ''inner'') of
           (Some outer, Some inner) \<Rightarrow> Some (outer, inner) | _ \<Rightarrow> None)
      | _ \<Rightarrow> None)"

definition instruction_path_keys :: "string list" where
  "instruction_path_keys = [''event_path'', ''instruction_path'', ''solana_event_path'']"

fun first_path :: "string_map \<Rightarrow> string list \<Rightarrow> (int \<times> int) option" where
  "first_path md [] = None"
| "first_path md (k # ks) = (case parseSolanaInstructionPath (map_get md k) of None \<Rightarrow> first_path md ks | Some p \<Rightarrow> Some p)"

definition solanaInstructionPathFromChainData :: "string option \<Rightarrow> (int \<times> int) option" where
  "solanaInstructionPathFromChainData chainData =
     (let md = metadataFromChainData chainData in if md = [] then None else first_path md instruction_path_keys)"

definition hasSolanaInstructionPathHint :: "string_map \<Rightarrow> bool" where
  "hasSolanaInstructionPathHint md = (if md = [] then False else first_path md instruction_path_keys \<noteq> None)"

text \<open>The arguments are 32-bit integers.\<close>

definition balanceEventPath :: "int \<Rightarrow> int \<Rightarrow> string" where
  "balanceEventPath outer inner = ''outer:'' @ big_String outer @ ''|inner:'' @ big_String inner"

definition strip_sign :: "string \<Rightarrow> string" where
  "strip_sign s = (case s of c # r \<Rightarrow> if c = CHR ''+'' \<or> c = CHR ''-'' then r else s | [] \<Rightarrow> [])"

definition canonicalFeeDelta :: "string \<Rightarrow> string" where
  "canonicalFeeDelta amount =
     (let clean = TrimSpace amount in
      if clean = '''' then ''-0''
      else let trimmed = strip_sign clean in
        if trimmed = '''' \<or> trimmed = ''0'' then ''-0''
        else if list_all is_digit trimmed then ''-'' @ trimmed
        else case SetString trimmed of None \<Rightarrow> ''-0'' | Some i \<Rightarrow> if i = 0 then ''-0'' else ''-'' @ big_String i)"

definition parseBigInt :: "string \<Rightarrow> int option" where
  "parseBigInt value =
     (let raw = TrimSpace value in
      if raw = '''' then None else let raw = strip_sign raw in if raw = '''' then None else SetString raw)"

definition parseSignedBigInt :: "string \<Rightarrow> int option" where
  "parseSignedBigInt value = (let raw = TrimSpace value in if raw = '''' then None else SetString raw)"

definition compareCanonicalDeltas :: "string \<Rightarrow> string \<Rightarrow> int" where
  "compareCanonicalDeltas left right = (case (parseSignedBigInt left, parseSignedBigInt right) of
     (Some l, Some r) \<Rightarrow> if l < r then -1 else if l > r then 1 else 0
   | _ \<Rightarrow> (let l = TrimSpace left; r = TrimSpace right in if l < r then -1 else if l > r then 1 else 0))"

section \<open>EVM fee components\<close>

definition resolveBaseMetadataEventPath :: "string_map \<Rightarrow> string" where
  "resolveBaseMetadataEventPath md =
     (if md = [] then ''''
      else if map_get md ''event_path'' \<noteq> '''' then map_get md ''event_path''
      else if map_get md ''log_path'' \<noteq> '''' then map_get md ''log_path''
      else if map_get md ''log_index'' \<noteq> '''' then ''log:'' @ map_get md ''log_index''
      else if map_get md ''base_log_index'' \<noteq> '''' then ''log:'' @ map_get md ''base_log_index''
      else if map_get md ''base_event_path'' \<noteq> '''' then map_get md ''base_event_path''
      else '''')"

definition gas_product :: "string_map \<Rightarrow> string \<Rightarrow> string \<Rightarrow> int option" where
  "gas_product md used price = (case parseBigInt (map_get md used) of
     None \<Rightarrow> None | Some g \<Rightarrow> map_option (\<lambda>p. g * p) (parseBigInt (map_get md price)))"

definition deriveBaseExecutionFeeFromMetadata :: "string_map \<Rightarrow> int option" where
  "deriveBaseExecutionFeeFromMetadata md = (case parseBigInt (map_get md ''fee_execution_l2'') of
     Some fee \<Rightarrow> Some fee
   | None \<Rightarrow> (case gas_product md ''gas_used'' ''effective_gas_price'' of
       Some fee \<Rightarrow> Some fee
     | None \<Rightarrow> gas_product md ''base_gas_used'' ''base_effective_gas_price''))"

fun first_amount :: "string_map \<Rightarrow> string list \<Rightarrow> int option" where
  "first_amount md [] = None"
| "first_amount md (k # ks) = (case parseBigInt (map_get md k) of Some fee \<Rightarrow> Some fee | None \<Rightarrow> first_amount md ks)"

text \<open>\<^const>\<open>None\<close> is the result zero with the flag false.\<close>

definition deriveBaseDataFee :: "string_map \<Rightarrow> int option" where
  "deriveBaseDataFee md = first_amount md [''fee_data_l1'', ''data_fee_l1'', ''l1_data_fee'', ''l1_fee'']"

definition baseFeeComponentMetadataKeys :: "string list" where
  "baseFeeComponentMetadataKeys = [''fee_execution_l2'', ''fee_data_l1'', ''data_fee_l1'', ''l1_data_fee'', ''l1_fee'']"

section \<open>Keys of decoded events\<close>

definition is_fee_category :: "string \<Rightarrow> bool" where
  "is_fee_category category \<longleftrightarrow> EqualFold category EventCategoryFee \<or> EqualFold category EventCategoryFeeExecutionL2 \<or>
     EqualFold category EventCategoryFeeDataL1"

definition decodedEventPath :: "chain \<Rightarrow> balance_event_info \<Rightarrow> string" where
  "decodedEventPath chainID be =
     (if IsEVMChain chainID \<and> resolveBaseMetadataEventPath (bi_Metadata be) \<noteq> '''' then resolveBaseMetadataEventPath (bi_Metadata be)
      else case (if IsEVMChain chainID then None else first_path (bi_Metadata be) instruction_path_keys) of
        Some (outer, inner) \<Rightarrow> balanceEventPath (wrap32 outer) (wrap32 inner)
      | None \<Rightarrow> balanceEventPath (bi_OuterInstructionIndex be) (bi_InnerInstructionIndex be))"

definition decodedEventFingerprint :: "chain \<Rightarrow> balance_event_info \<Rightarrow> string" where
  "decodedEventFingerprint chainID be =
     (let address = canonicalizeAddressIdentity chainID (bi_Address be);
          asset0 = canonicalizeAddressIdentity chainID (bi_ContractAddress be);
          assetID = (if asset0 = '''' then TrimSpace (bi_ContractAddress be) else asset0);
          path = decodedEventPath chainID be;
          category = ToUpper (TrimSpace (bi_EventCategory be));
          delta0 = TrimSpace (bi_Delta be);
          delta = (if is_fee_category category then canonicalFeeDelta delta0 else delta0)
      in path @ ''|'' @ address @ ''|'' @ assetID @ ''|'' @ delta)"

definition decodedCoverageEventKey :: "chain \<Rightarrow> balance_event_info \<Rightarrow> string" where
  "decodedCoverageEventKey chainID be =
     (let path = decodedEventPath chainID be;
          address0 = canonicalizeAddressIdentity chainID (bi_Address be);
          address = (if address0 = '''' then TrimSpace (bi_Address be) else address0);
          asset0 = canonicalizeAddressIdentity chainID (bi_ContractAddress be);
          assetID = (if asset0 = '''' then TrimSpace (bi_ContractAddress be) else asset0);
          category0 = ToUpper (TrimSpace (bi_EventCategory be));
          category = (if category0 = '''' then ToUpper (TrimSpace (bi_EventAction be)) else category0)
      in path @ ''|'' @ address @ ''|'' @ assetID @ ''|'' @ category)"

definition decodedCoverageEventLineageKey :: "chain \<Rightarrow> balance_event_info \<Rightarrow> string" where
  "decodedCoverageEventLineageKey chainID be =
     (let canon = (\<lambda>v. let t = TrimSpace v; a = canonicalizeAddressIdentity chainID t in if a = '''' then t else a);
          category0 = ToUpper (TrimSpace (bi_EventCategory be));
          category = (if category0 = '''' then ToUpper (TrimSpace (bi_EventAction be)) else category0);
          delta0 = TrimSpace (bi_Delta be);
          delta = (if is_fee_category category then canonicalFeeDelta delta0 else delta0)
      in category @ ''|'' @ canon (bi_Address be) @ ''|'' @ canon (bi_ContractAddress be) @ ''|'' @ canon (bi_CounterpartyAddress be) @ ''|'' @ delta)"

definition decodedCoverageEventHasPathHint :: "chain \<Rightarrow> balance_event_info \<Rightarrow> bool" where
  "decodedCoverageEventHasPathHint chainID be =
     (if IsEVMChain chainID then resolveBaseMetadataEventPath (bi_Metadata be) \<noteq> ''''
      else if chainID = ChainSolana then hasSolanaInstructionPathHint (bi_Metadata be)
      else TrimSpace (map_get (bi_Metadata be) ''event_path'') \<noteq> '''')"

section \<open>Choosing between decodings\<close>

record coverage_event_score =
  ces_pathHint :: bool
  ces_metadataCount :: nat
  ces_populatedFieldCount :: nat
  ces_fingerprint :: string

definition decodedCoverageEventSelectionScore :: "chain \<Rightarrow> balance_event_info \<Rightarrow> coverage_event_score" where
  "decodedCoverageEventSelectionScore chainID be =
     \<lparr>ces_pathHint = decodedCoverageEventHasPathHint chainID be, ces_metadataCount = length (bi_Metadata be),
      ces_populatedFieldCount =
        length (filter (\<lambda>v. TrimSpace v \<noteq> '''')
          [bi_EventCategory be, bi_EventAction be, bi_ProgramId be, bi_Address be, bi_ContractAddress be, bi_CounterpartyAddress be,
           bi_TokenSymbol be, bi_TokenName be, bi_Delta be]) +
        (if bi_TokenDecimals be \<noteq> 0 then 1 else 0) + (if TrimSpace (bi_TokenType be) \<noteq> '''' then 1 else 0),
      ces_fingerprint = decodedEventFingerprint chainID be\<rparr>"

definition shouldReplaceDecodedCoverageEvent :: "chain \<Rightarrow> balance_event_info \<Rightarrow> balance_event_info \<Rightarrow> bool" where
  "shouldReplaceDecodedCoverageEvent chainID existing incoming =
     (let e = decodedCoverageEventSelectionScore chainID existing; i = decodedCoverageEventSelectionScore chainID incoming in
      if ces_pathHint e \<noteq> ces_pathHint i then ces_pathHint i
      else if ces_metadataCount e \<noteq> ces_metadataCount i then ces_metadataCount i > ces_metadataCount e
      else if ces_populatedFieldCount e \<noteq> ces_populatedFieldCount i then ces_populatedFieldCount i > ces_populatedFieldCount e
      else if ces_fingerprint e \<noteq> ces_fingerprint i then ces_fingerprint i < ces_fingerprint e
      else False)"

record decoded_result_score =
  drs_eventCount :: nat
  drs_metadataCount :: nat
  drs_pathHintCount :: nat
  drs_fingerprint :: string

definition decodedResultSelectionScore :: "chain \<Rightarrow> transaction_result \<Rightarrow> decoded_result_score" where
  "decodedResultSelectionScore chainID r =
     (let bes = somes (dr_BalanceEvents r) in
      \<lparr>drs_eventCount = length bes, drs_metadataCount = sum_list (map (\<lambda>be. length (bi_Metadata be)) bes),
       drs_pathHintCount = length (filter (\<lambda>be. resolveBaseMetadataEventPath (bi_Metadata be) \<noteq> '''' \<or> hasSolanaInstructionPathHint (bi_Metadata be)) bes),
       drs_fingerprint = Join '';'' (sort (map (decodedEventFingerprint chainID) bes))\<rparr>)"

definition result_replaces :: "chain \<Rightarrow> transaction_result \<Rightarrow> transaction_result \<Rightarrow> bool" where
  "result_replaces chainID existing incoming =
     (let cmp = compareFinalityStateStrength (resolveResultFinalityState chainID (Some existing)) (resolveResultFinalityState chainID (Some incoming));
          eStatus = TrimSpace (dr_Status existing); iStatus = TrimSpace (dr_Status incoming);
          eSuccess = EqualFold eStatus TxStatusSuccess; iSuccess = EqualFold iStatus TxStatusSuccess;
          eFee = TrimSpace (dr_FeeAmount existing); iFee = TrimSpace (dr_FeeAmount incoming);
          ePayer = CanonicalSignatureIdentity chainID (dr_FeePayer existing); iPayer = CanonicalSignatureIdentity chainID (dr_FeePayer incoming);
          eHash = CanonicalSignatureIdentity chainID (dr_TxHash existing); iHash = CanonicalSignatureIdentity chainID (dr_TxHash incoming);
          eScore = decodedResultSelectionScore chainID existing; iScore = decodedResultSelectionScore chainID incoming
      in if dr_BlockCursor existing \<noteq> dr_BlockCursor incoming then dr_BlockCursor incoming > dr_BlockCursor existing
         else if cmp \<noteq> 0 then cmp < 0
         else if eSuccess \<noteq> iSuccess then iSuccess
         else if eStatus \<noteq> iStatus then iStatus < eStatus
         else if eFee \<noteq> iFee then iFee < eFee
         else if ePayer \<noteq> iPayer then iPayer < ePayer
         else if iHash \<noteq> eHash then iHash < eHash
         else if drs_eventCount eScore \<noteq> drs_eventCount iScore then drs_eventCount iScore > drs_eventCount eScore
         else if drs_pathHintCount eScore \<noteq> drs_pathHintCount iScore then drs_pathHintCount iScore > drs_pathHintCount eScore
         else if drs_metadataCount eScore \<noteq> drs_metadataCount iScore then drs_metadataCount iScore > drs_metadataCount eScore
         else if drs_fingerprint eScore \<noteq> drs_fingerprint iScore then drs_fingerprint iScore < drs_fingerprint eScore
         else False)"

definition shouldReplaceDecodedResult :: "chain \<Rightarrow> transaction_result option \<Rightarrow> transaction_result option \<Rightarrow> bool" where
  "shouldReplaceDecodedResult chainID existing incoming = (case existing of
     None \<Rightarrow> incoming \<noteq> None
   | Some e \<Rightarrow> (case incoming of None \<Rightarrow> False | Some i \<Rightarrow> result_replaces chainID e i))"

section \<open>Merging decodings\<close>

text \<open>A deep copy, field by field.\<close>

definition cloneDecodedResult :: "transaction_result \<Rightarrow> transaction_result" where
  "cloneDecodedResult r = \<lparr>dr_TxHash = dr_TxHash r, dr_BlockCursor = dr_BlockCursor r, dr_BlockTime = dr_BlockTime r, dr_FeeAmount = dr_FeeAmount r,
     dr_FeePayer = dr_FeePayer r, dr_Status = dr_Status r, dr_Error = dr_Error r, dr_BalanceEvents = dr_BalanceEvents r\<rparr>"

definition add_missing :: "string_map \<Rightarrow> string_map \<Rightarrow> string_map" where
  "add_missing additional preferred = fold (\<lambda>(k, v) m. if map_of m k = None then AList.update k v m else m) additional preferred"

definition has_fee_split :: "string_map \<Rightarrow> bool" where
  "has_fee_split md \<longleftrightarrow> deriveBaseExecutionFeeFromMetadata md \<noteq> None \<and> deriveBaseDataFee md \<noteq> None"

definition mergeDecodedCoverageEventMetadata :: "chain \<Rightarrow> balance_event_info \<Rightarrow> balance_event_info \<Rightarrow> balance_event_info" where
  "mergeDecodedCoverageEventMetadata chainID preferred additional =
     (if bi_Metadata additional = [] then preferred
      else let preferredHad = IsEVMChain chainID \<and> has_fee_split (bi_Metadata preferred);
               additionalHas = IsEVMChain chainID \<and> has_fee_split (bi_Metadata additional);
               md = add_missing (bi_Metadata additional) (bi_Metadata preferred)
           in if \<not> IsEVMChain chainID then preferred\<lparr>bi_Metadata := md\<rparr>
              else if additionalHas \<and> \<not> preferredHad
              then preferred\<lparr>bi_Metadata := fold (\<lambda>key m. let value = TrimSpace (map_get (bi_Metadata additional) key) in
                     if value = '''' then m else AList.update key value m) baseFeeComponentMetadataKeys md\<rparr>
              else preferred\<lparr>bi_Metadata := md\<rparr>)"

type_synonym by_key = "(string \<times> balance_event_info) list"

text \<open>One lineage group: the keeper is chosen in the order of the keys, then the pathless members are merged into it.\<close>

definition group_keeper :: "chain \<Rightarrow> by_key \<Rightarrow> string list \<Rightarrow> string \<times> balance_event_info \<Rightarrow> string \<times> balance_event_info" where
  "group_keeper chainID byKey groupKeys start = foldl (\<lambda>(keeperKey, keeper) key.
     if key = keeperKey then (keeperKey, keeper)
     else case map_of byKey key of
       None \<Rightarrow> (keeperKey, keeper)
     | Some candidate \<Rightarrow> if shouldReplaceDecodedCoverageEvent chainID keeper candidate then (key, candidate) else (keeperKey, keeper)) start groupKeys"

definition absorb_pathless :: "chain \<Rightarrow> string \<Rightarrow> string list \<Rightarrow> balance_event_info \<times> by_key \<Rightarrow> balance_event_info \<times> by_key" where
  "absorb_pathless chainID keeperKey pathlessKeys st = foldl (\<lambda>(keeper, byKey) key.
     if key = keeperKey then (keeper, byKey)
     else (case map_of byKey key of None \<Rightarrow> keeper | Some be \<Rightarrow> mergeDecodedCoverageEventMetadata chainID keeper be, AList.delete key byKey))
     st pathlessKeys"

definition collapse_group :: "chain \<Rightarrow> string list \<Rightarrow> by_key \<Rightarrow> by_key" where
  "collapse_group chainID groupKeys byKey =
     (if length groupKeys < 2 then byKey
      else let hint = (\<lambda>key. case map_of byKey key of None \<Rightarrow> None | Some be \<Rightarrow> Some (decodedCoverageEventHasPathHint chainID be));
               pathHintedKeys = filter (\<lambda>key. hint key = Some True) groupKeys;
               pathlessKeys = filter (\<lambda>key. hint key = Some False) groupKeys
           in case pathHintedKeys of
             [first] \<Rightarrow>
               if pathlessKeys = [] then byKey
               else (case map_of byKey first of
                   None \<Rightarrow> byKey
                 | Some be \<Rightarrow>
                     let (keeperKey, keeper) = group_keeper chainID byKey groupKeys (first, be) in
                     if \<not> decodedCoverageEventHasPathHint chainID keeper then byKey
                     else let (keeper', byKey') = absorb_pathless chainID keeperKey pathlessKeys (keeper, byKey)
                       in AList.update keeperKey keeper' byKey')
           | _ \<Rightarrow> byKey)"

definition lineage_group :: "chain \<Rightarrow> by_key \<Rightarrow> string \<Rightarrow> string list" where
  "lineage_group chainID byKey lineageKey =
     sort (map fst (filter (\<lambda>(key, be). decodedCoverageEventLineageKey chainID be = lineageKey) byKey))"

definition reconcileDecodedCoverageLineageAliases :: "chain \<Rightarrow> by_key \<Rightarrow> by_key" where
  "reconcileDecodedCoverageLineageAliases chainID byKey =
     (if length byKey < 2 then byKey
      else let lineageKeys = sort (remdups (filter (\<lambda>k. k \<noteq> '''') (map (\<lambda>(key, be). decodedCoverageEventLineageKey chainID be) byKey)))
           in fold (\<lambda>lineageKey. collapse_group chainID (lineage_group chainID byKey lineageKey)) lineageKeys byKey)"

definition coverage_key :: "chain \<Rightarrow> balance_event_info \<Rightarrow> string" where
  "coverage_key chainID be = (let key = decodedCoverageEventKey chainID be in if key = '''' then decodedEventFingerprint chainID be else key)"

definition mergeDecodedBalanceEvents ::
  "chain \<Rightarrow> balance_event_info option list \<Rightarrow> balance_event_info option list \<Rightarrow> balance_event_info option list" where
  "mergeDecodedBalanceEvents chainID primary secondary =
     (if primary = [] \<and> secondary = [] then []
      else let events = filter (\<lambda>be. coverage_key chainID be \<noteq> '''') (somes primary @ somes secondary);
               byKey = keep_best (shouldReplaceDecodedCoverageEvent chainID) (map (\<lambda>be. (coverage_key chainID be, be)) events)
           in map Some (in_key_order (reconcileDecodedCoverageLineageAliases chainID byKey)))"

definition reconcileDecodedResultCoverage :: "chain \<Rightarrow> transaction_result option \<Rightarrow> transaction_result option \<Rightarrow> transaction_result option" where
  "reconcileDecodedResultCoverage chainID existing incoming = (case existing of
     None \<Rightarrow> incoming
   | Some e \<Rightarrow> (case incoming of
       None \<Rightarrow> existing
     | Some i \<Rightarrow>
         let (preferred, secondary) = (if shouldReplaceDecodedResult chainID existing incoming then (i, e) else (e, i))
         in Some ((cloneDecodedResult preferred)\<lparr>dr_BalanceEvents :=
              mergeDecodedBalanceEvents chainID (dr_BalanceEvents preferred) (dr_BalanceEvents secondary)\<rparr>)))"

definition decodedCoverageEventSet :: "chain \<Rightarrow> transaction_result option \<Rightarrow> string list" where
  "decodedCoverageEventSet chainID result = (case result of
     None \<Rightarrow> [] | Some r \<Rightarrow> remdups (filter (\<lambda>k. k \<noteq> '''') (map (coverage_key chainID) (somes (dr_BalanceEvents r)))))"

definition decodedCoverageDelta :: "chain \<Rightarrow> transaction_result option \<Rightarrow> transaction_result option \<Rightarrow> nat \<times> nat" where
  "decodedCoverageDelta chainID floor incoming =
     (let f = decodedCoverageEventSet chainID floor; i = decodedCoverageEventSet chainID incoming
      in (length (filter (\<lambda>k. k \<notin> set i) f), length (filter (\<lambda>k. k \<notin> set f) i)))"

end
