(* ===== verification/Decoded_Coverage.thy ===== *)
theory Decoded_Coverage
  imports Decoded_Result "HOL-Library.Product_Lexorder"
begin

text \<open>
  Merging several decodings of one transaction. An event of the merged result is an event of one of the
  decodings with, at most, more metadata; and every event of a decoding is represented by an event
  with the same coverage key or by one of the same lineage (category, address, asset, counterparty
  and amount). The choice among events of one coverage key follows a rank.
\<close>

section \<open>The rank of an event\<close>

definition coverage_rank :: "chain \<Rightarrow> balance_event_info \<Rightarrow> bool \<times> int \<times> int \<times> string" where
  "coverage_rank chainID be = (let s = decodedCoverageEventSelectionScore chainID be in
     (\<not> ces_pathHint s, - int (ces_metadataCount s), - int (ces_populatedFieldCount s), ces_fingerprint s))"

lemma prefer_more:
  fixes m n p q :: nat and s t :: string
  shows "(if g \<noteq> h then h else if m \<noteq> n then n > m else if p \<noteq> q then q > p else if s \<noteq> t then t < s else False) \<longleftrightarrow>
    (\<not> h, - int n, - int q, t) < (\<not> g, - int m, - int p, s)"
  by (cases g; cases h) (auto simp: less_prod_simp)

interpretation coverage: ranked_choice "shouldReplaceDecodedCoverageEvent chainID" "coverage_rank chainID" "\<lambda>_. True"
  by unfold_locales (simp only: shouldReplaceDecodedCoverageEvent_def coverage_rank_def Let_def prefer_more)

section \<open>Events up to metadata\<close>

definition same_event :: "balance_event_info \<Rightarrow> balance_event_info \<Rightarrow> bool" where
  "same_event x y \<longleftrightarrow> x\<lparr>bi_Metadata := []\<rparr> = y\<lparr>bi_Metadata := []\<rparr>"

lemma same_event_refl [simp]: "same_event x x"
  by (simp add: same_event_def)

lemma same_event_trans: "same_event x y \<Longrightarrow> same_event y z \<Longrightarrow> same_event x z"
  by (simp add: same_event_def)

lemma same_event_merge: "same_event (mergeDecodedCoverageEventMetadata c x y) x"
  by (simp add: same_event_def mergeDecodedCoverageEventMetadata_def Let_def)

lemma same_event_lineage: "same_event x y \<Longrightarrow> decodedCoverageEventLineageKey c x = decodedCoverageEventLineageKey c y"
proof -
  assume "same_event x y"
  then have e: "decodedCoverageEventLineageKey c (x\<lparr>bi_Metadata := []\<rparr>) = decodedCoverageEventLineageKey c (y\<lparr>bi_Metadata := []\<rparr>)"
    unfolding same_event_def by (rule arg_cong)
  have "decodedCoverageEventLineageKey c (z\<lparr>bi_Metadata := []\<rparr>) = decodedCoverageEventLineageKey c z" for z
    unfolding decodedCoverageEventLineageKey_def by (cases z) (simp only: balance_event_info.simps)
  then show ?thesis using e by (simp only:)
qed

section \<open>Collapsing a lineage group\<close>

lemma group_keeper_in_group:
  assumes "map_of m (fst start) = Some (snd start)" "set ks \<subseteq> G" "fst start \<in> G" "group_keeper c m ks start = (kk, kp)"
  shows "map_of m kk = Some kp \<and> kk \<in> G"
  using assms
proof (induction ks arbitrary: start)
  case Nil
  then show ?case by (simp add: group_keeper_def)
next
  case (Cons k ks)
  obtain k0 x0 where s: "start = (k0, x0)" by (cases start)
  let ?next = "if k = k0 then (k0, x0) else case map_of m k of None \<Rightarrow> (k0, x0)
     | Some y \<Rightarrow> if shouldReplaceDecodedCoverageEvent c x0 y then (k, y) else (k0, x0)"
  have "group_keeper c m ks ?next = (kk, kp)" using Cons.prems(4) by (simp add: group_keeper_def s)
  moreover have "map_of m (fst ?next) = Some (snd ?next)" "fst ?next \<in> G" using Cons.prems(1-3) s by (auto split: option.split)
  ultimately show ?case using Cons.IH [of ?next] Cons.prems(2) by simp
qed

lemma absorb_pathless_result:
  assumes "absorb_pathless c kk ps (kp, m) = (kp', m')"
  shows "same_event kp' kp \<and> (\<forall>k. map_of m' k = (if k \<in> set ps \<and> k \<noteq> kk then None else map_of m k)) \<and>
    (distinct (map fst m) \<longrightarrow> distinct (map fst m'))"
  using assms
proof (induction ps arbitrary: kp m)
  case Nil
  then show ?case by (simp add: absorb_pathless_def)
next
  case (Cons p ps)
  let ?kp = "if p = kk then kp else case map_of m p of None \<Rightarrow> kp | Some be \<Rightarrow> mergeDecodedCoverageEventMetadata c kp be"
  let ?m = "if p = kk then m else AList.delete p m"
  have "absorb_pathless c kk ps (?kp, ?m) = (kp', m')" using Cons.prems by (simp add: absorb_pathless_def split: if_splits)
  note ih = Cons.IH [OF this]
  have "same_event ?kp kp" by (auto simp: same_event_merge split: option.split)
  then have "same_event kp' kp" using ih same_event_trans by blast
  moreover have "distinct (map fst m) \<Longrightarrow> distinct (map fst ?m)" by (simp add: distinct_delete)
  ultimately show ?case using ih by (auto simp: delete_conv')
qed

definition keeps_group :: "string set \<Rightarrow> by_key \<Rightarrow> by_key \<Rightarrow> bool" where
  "keeps_group G m m' \<longleftrightarrow>
     (\<forall>k y. map_of m' k = Some y \<longrightarrow> (\<exists>x. map_of m k = Some x \<and> same_event y x)) \<and>
     (\<forall>k x. map_of m k = Some x \<longrightarrow> map_of m' k \<noteq> None \<or> k \<in> G \<and> (\<exists>k' \<in> G. map_of m' k' \<noteq> None))"

lemma keeps_group_refl: "keeps_group G m m"
  by (auto simp: keeps_group_def)

lemma collapse_group_keeps:
  assumes "distinct (map fst m)"
  shows "distinct (map fst (collapse_group c ks m)) \<and> keeps_group (set ks) m (collapse_group c ks m)"
proof -
  let ?hint = "\<lambda>key. case map_of m key of None \<Rightarrow> None | Some be \<Rightarrow> Some (decodedCoverageEventHasPathHint c be)"
  let ?hinted = "filter (\<lambda>key. ?hint key = Some True) ks" and ?pathless = "filter (\<lambda>key. ?hint key = Some False) ks"
  have hinted: "map_of m k \<noteq> None \<and> k \<in> set ks" if "?hinted = [k]" for k
  proof -
    have "k \<in> set ?hinted" by (simp only: that list.set_intros)
    then show ?thesis by (auto split: option.splits)
  qed
  show ?thesis
  proof (cases "2 \<le> length ks \<and> (\<exists>k. ?hinted = [k]) \<and> ?pathless \<noteq> []")
    case False
    then have "collapse_group c ks m = m"
      unfolding collapse_group_def Let_def by (auto split: list.split)
    then show ?thesis using assms keeps_group_refl by simp
  next
    case True
    then obtain k be where k: "?hinted = [k]" "map_of m k = Some be" "k \<in> set ks" using hinted by blast
    obtain kk kp where g: "group_keeper c m ks (k, be) = (kk, kp)" by fastforce
    have kk: "map_of m kk = Some kp" "kk \<in> set ks" using group_keeper_in_group [OF _ subset_refl _ g] k by auto
    obtain kp' m' where a: "absorb_pathless c kk ?pathless (kp, m) = (kp', m')" by fastforce
    note ab = absorb_pathless_result [OF a]
    have r: "collapse_group c ks m = (if decodedCoverageEventHasPathHint c kp then AList.update kk kp' m' else m)"
      unfolding collapse_group_def Let_def k(1) using True k(2) by (simp add: g a)
    have "keeps_group (set ks) m (AList.update kk kp' m')"
      unfolding keeps_group_def using ab kk by (auto simp: update_conv')
    then show ?thesis unfolding r using ab assms keeps_group_refl by (simp add: distinct_update)
  qed
qed

section \<open>All groups\<close>

definition represents :: "chain \<Rightarrow> by_key \<Rightarrow> by_key \<Rightarrow> bool" where
  "represents c m0 m \<longleftrightarrow> distinct (map fst m) \<and>
     (\<forall>k y. map_of m k = Some y \<longrightarrow> (\<exists>x. map_of m0 k = Some x \<and> same_event y x)) \<and>
     (\<forall>k x. map_of m0 k = Some x \<longrightarrow>
        (\<exists>k' y. map_of m k' = Some y \<and> decodedCoverageEventLineageKey c y = decodedCoverageEventLineageKey c x))"

lemma represents_collapse:
  assumes "represents c m0 m" "distinct (map fst m0)"
  shows "represents c m0 (collapse_group c (lineage_group c m0 lk) m)"
proof -
  let ?G = "set (lineage_group c m0 lk)" and ?m' = "collapse_group c (lineage_group c m0 lk) m"
  have G: "k \<in> ?G \<longleftrightarrow> (\<exists>x. map_of m0 k = Some x \<and> decodedCoverageEventLineageKey c x = lk)" for k
    using assms(2) by (force simp: lineage_group_def map_of_eq_Some_iff)
  have d: "distinct (map fst m)" using assms(1) by (simp add: represents_def)
  note cg = collapse_group_keeps [OF d, of c "lineage_group c m0 lk"]
  have origin: "\<exists>x. map_of m0 k = Some x \<and> same_event y x" if "map_of ?m' k = Some y" for k y
    using cg assms(1) that same_event_trans unfolding represents_def keeps_group_def by meson
  have lin: "decodedCoverageEventLineageKey c y = lk" if "k \<in> ?G" "map_of ?m' k = Some y" for k y
    using G [of k] that origin [OF that(2)] same_event_lineage by auto
  have "\<exists>k' y. map_of ?m' k' = Some y \<and> decodedCoverageEventLineageKey c y = decodedCoverageEventLineageKey c x" if x: "map_of m0 k = Some x" for k x
  proof -
    obtain k1 y1 where y1: "map_of m k1 = Some y1" "decodedCoverageEventLineageKey c y1 = decodedCoverageEventLineageKey c x"
      using assms(1) x unfolding represents_def by blast
    obtain x1 where x1: "map_of m0 k1 = Some x1" "same_event y1 x1" using assms(1) y1(1) unfolding represents_def by blast
    consider y where "map_of ?m' k1 = Some y" | k' y where "k1 \<in> ?G" "k' \<in> ?G" "map_of ?m' k' = Some y"
      using cg y1(1) unfolding keeps_group_def by blast
    then show ?thesis
    proof cases
      case 1
      then have "same_event y x1" using origin x1(1) by fastforce
      then show ?thesis using 1 x1(2) y1(2) same_event_lineage by metis
    next
      case 2
      have "decodedCoverageEventLineageKey c x1 = lk" using G [of k1] 2(1) x1(1) by auto
      then show ?thesis using 2 lin x1(2) y1(2) same_event_lineage by metis
    qed
  qed
  then show ?thesis using cg origin unfolding represents_def by blast
qed

lemma represents_aliases:
  assumes "distinct (map fst m0)"
  shows "represents c m0 (reconcileDecodedCoverageLineageAliases c m0)"
proof -
  have start: "represents c m0 m0" using assms by (auto simp: represents_def)
  have "represents c m0 m \<Longrightarrow> represents c m0 (fold (\<lambda>lk. collapse_group c (lineage_group c m0 lk)) lks m)" for lks m
    by (induction lks arbitrary: m) (simp_all add: represents_collapse assms)
  then show ?thesis using start by (simp add: reconcileDecodedCoverageLineageAliases_def Let_def)
qed

section \<open>The merged events\<close>

lemma coverage_key_not_empty [simp]: "coverage_key c be \<noteq> ''''"
  by (simp add: coverage_key_def decodedCoverageEventKey_def Let_def)

lemma merge_covers:
  fixes p s :: "balance_event_info option list" and c :: chain
  defines "inputs \<equiv> set (somes p) \<union> set (somes s)" and "merged \<equiv> set (somes (mergeDecodedBalanceEvents c p s))"
  shows "(\<forall>y \<in> merged. \<exists>x \<in> inputs. same_event y x) \<and>
    (\<forall>x \<in> inputs. \<exists>z \<in> inputs. \<exists>y \<in> merged. coverage_key c z = coverage_key c x \<and>
       decodedCoverageEventLineageKey c y = decodedCoverageEventLineageKey c z)"
proof -
  let ?kxs = "map (\<lambda>be. (coverage_key c be, be)) (somes p @ somes s)"
  let ?kept = "keep_best (shouldReplaceDecodedCoverageEvent c) ?kxs"
  let ?out = "reconcileDecodedCoverageLineageAliases c ?kept"
  note d = conjunct1 [OF keep_best_keys [of "shouldReplaceDecodedCoverageEvent c" ?kxs]]
    and keys = conjunct2 [OF keep_best_keys [of "shouldReplaceDecodedCoverageEvent c" ?kxs]]
  have rep: "represents c ?kept ?out" by (rule represents_aliases [OF d])
  have merged: "merged = snd ` set ?out"
  proof (cases "p = [] \<and> s = []")
    case True
    then have "?kxs = []" by (simp add: somes_def map_filter_simps)
    then have "?out = []" by (simp add: keep_best_def reconcileDecodedCoverageLineageAliases_def)
    then show ?thesis using True by (simp add: merged_def mergeDecodedBalanceEvents_def somes_def map_filter_simps)
  next
    case False
    have "mergeDecodedBalanceEvents c p s = map Some (in_key_order ?out)"
      unfolding mergeDecodedBalanceEvents_def Let_def if_not_P [OF False] by (simp add: filter_True)
    then show ?thesis by (simp only: merged_def somes_map_Some set_in_key_order)
  qed
  have dm: "distinct (map fst ?out)" using rep by (simp add: represents_def)
  have in0: "x \<in> inputs \<and> coverage_key c x = k" if "map_of ?kept k = Some x" for k x
    using keep_best_elem [OF map_of_SomeD [OF that]] by (auto simp: inputs_def)
  show ?thesis
  proof (intro conjI ballI)
    fix y assume "y \<in> merged"
    then obtain k where "map_of ?out k = Some y" using dm by (auto simp: merged map_of_eq_Some_iff)
    then show "\<exists>x \<in> inputs. same_event y x" using rep in0 unfolding represents_def by blast
  next
    fix x assume "x \<in> inputs"
    then have "coverage_key c x \<in> fst ` set ?kept" unfolding keys by (auto simp: inputs_def image_Un image_image)
    then obtain z where z: "map_of ?kept (coverage_key c x) = Some z" using d by (force simp: map_of_eq_Some_iff)
    then obtain k y where "map_of ?out k = Some y" "decodedCoverageEventLineageKey c y = decodedCoverageEventLineageKey c z"
      using rep unfolding represents_def by blast
    then show "\<exists>z \<in> inputs. \<exists>y \<in> merged. coverage_key c z = coverage_key c x \<and> decodedCoverageEventLineageKey c y = decodedCoverageEventLineageKey c z"
      using in0 [OF z] by (force simp: merged dest: map_of_SomeD)
  qed
qed

end
