(* ===== verification/Balance_Events.thy ===== *)
theory Balance_Events
  imports Decoded_Coverage
begin

text \<open>
  Canonical balance events (\<^verbatim>\<open>normalizer_balance.go\<close>, \<^verbatim>\<open>normalizer_balance_evm.go\<close>, \<^verbatim>\<open>normalizer_balance_btc.go\<close>):
  the decoded events of watched addresses, the fee events the normalizer adds, and their
  canonicalisation to one event per identifier. The identifier is the hexadecimal SHA-256 digest of
  a tagged text; the hash function is the parameter \<^verbatim>\<open>sum256\<close>. A set of watched addresses is a
  predicate on strings. The 32-bit conversions of instruction indices are written out.
\<close>

section \<open>Decoded events of watched addresses\<close>

abbreviation ActivitySelfTransfer :: activity_type where "ActivitySelfTransfer \<equiv> ''SELF_TRANSFER''"

definition zero_event :: normalized_balance_event where
  "zero_event = \<lparr>ne_OuterInstructionIndex = 0, ne_InnerInstructionIndex = 0, ne_ActivityType = '''', ne_EventAction = '''', ne_ProgramID = '''',
     ne_ContractAddress = '''', ne_Address = '''', ne_CounterpartyAddress = '''', ne_Delta = '''', ne_ChainData = None, ne_TokenSymbol = '''',
     ne_TokenName = '''', ne_TokenDecimals = 0, ne_TokenType = '''', ne_EventID = '''', ne_BlockHash = '''', ne_TxIndex = 0, ne_EventPath = '''',
     ne_EventPathType = '''', ne_ActorAddress = '''', ne_AssetType = '''', ne_AssetID = '''', ne_FinalityState = '''', ne_DecoderVersion = '''',
     ne_SchemaVersion = ''''\<rparr>"

definition event_of_info :: "balance_event_info \<Rightarrow> activity_type \<Rightarrow> string \<Rightarrow> string \<Rightarrow> normalized_balance_event" where
  "event_of_info be activity action delta = zero_event\<lparr>ne_OuterInstructionIndex := bi_OuterInstructionIndex be,
     ne_InnerInstructionIndex := bi_InnerInstructionIndex be, ne_ActivityType := activity, ne_EventAction := action, ne_ProgramID := bi_ProgramId be,
     ne_ContractAddress := bi_ContractAddress be, ne_Address := bi_Address be, ne_CounterpartyAddress := bi_CounterpartyAddress be, ne_Delta := delta,
     ne_ChainData := Some (Marshal (bi_Metadata be)), ne_TokenSymbol := bi_TokenSymbol be, ne_TokenName := bi_TokenName be,
     ne_TokenDecimals := bi_TokenDecimals be, ne_TokenType := bi_TokenType be, ne_AssetID := bi_ContractAddress be\<rparr>"

definition raw_event :: "bool \<Rightarrow> balance_event_info \<Rightarrow> normalized_balance_event" where
  "raw_event handleSelfTransfer be =
     (if handleSelfTransfer \<and> bi_EventCategory be = EventCategoryTransfer \<and> bi_CounterpartyAddress be = bi_Address be
      then event_of_info be ActivitySelfTransfer ''self_transfer'' ''0''
      else event_of_info be (ClassifyActivity (bi_EventCategory be) (bi_Delta be) True) (bi_EventAction be) (bi_Delta be))"

definition buildRawBalanceEventsMulti ::
  "balance_event_info option list \<Rightarrow> (string \<Rightarrow> bool) \<Rightarrow> bool \<Rightarrow> normalized_balance_event list" where
  "buildRawBalanceEventsMulti rawEvents watched handleSelfTransfer =
     map (raw_event handleSelfTransfer) (filter (\<lambda>be. watched (bi_Address be)) (somes rawEvents))"

section \<open>Shared helpers\<close>

definition isFeeEligibleStatus :: "string \<Rightarrow> bool" where
  "isFeeEligibleStatus txStatus \<longleftrightarrow> (let status = TrimSpace txStatus in EqualFold status TxStatusSuccess \<or> EqualFold status TxStatusFailed)"

definition shouldEmitSolanaFeeEvent :: "string \<Rightarrow> string \<Rightarrow> string \<Rightarrow> bool" where
  "shouldEmitSolanaFeeEvent txStatus feePayer feeAmount =
     (if \<not> isFeeEligibleStatus txStatus then False
      else if TrimSpace feePayer = '''' then False
      else case parseBigInt feeAmount of None \<Rightarrow> False | Some i \<Rightarrow> i \<noteq> 0)"

text \<open>\<^verbatim>\<open>hasSolanaFeeEvent\<close> and \<^verbatim>\<open>hasBTCFeeEvent\<close> are the same function.\<close>

definition hasFeeEvent :: "normalized_balance_event list \<Rightarrow> string \<Rightarrow> bool" where
  "hasFeeEvent events feePayer =
     (let payer = TrimSpace feePayer in
      if payer = '''' then False else list_ex (\<lambda>be. ne_ActivityType be = ActivityFee \<and> TrimSpace (ne_Address be) = payer) events)"

definition mapTokenTypeToAssetType :: "token_type \<Rightarrow> string" where
  "mapTokenTypeToAssetType t =
     (if t = TokenTypeNative then ''native'' else if t = TokenTypeNFT then ''nft'' else if t = TokenTypeFungible then ''fungible_token'' else ''unknown'')"

definition event_id_text :: "chain \<Rightarrow> network \<Rightarrow> string \<Rightarrow> string \<Rightarrow> string \<Rightarrow> string \<Rightarrow> activity_type \<Rightarrow> string" where
  "event_id_text c n txHash path actor asset activity =
     (let ident = CanonicalSignatureIdentity c txHash; tx = (if ident = '''' then TrimSpace txHash else ident) in
      ''chain='' @ c @ ''|network='' @ n @ ''|tx='' @ tx @ ''|path='' @ path @ ''|actor='' @ actor @ ''|asset='' @ asset @ ''|activity='' @ activity)"

definition buildCanonicalEventID ::
  "(string \<Rightarrow> string) \<Rightarrow> chain \<Rightarrow> network \<Rightarrow> string \<Rightarrow> string \<Rightarrow> string \<Rightarrow> string \<Rightarrow> activity_type \<Rightarrow> string" where
  "buildCanonicalEventID sum256 c n txHash path actor asset activity = sum256 (event_id_text c n txHash path actor asset activity)"

definition mergeMetadataJSON :: "string option \<Rightarrow> string_map \<Rightarrow> string" where
  "mergeMetadataJSON original additions = Marshal (fold (\<lambda>(k, v). AList.update k v) additions (metadataFromChainData original))"

section \<open>Solana\<close>

definition fee_event :: "activity_type \<Rightarrow> string \<Rightarrow> string \<Rightarrow> string \<Rightarrow> string \<Rightarrow> string \<Rightarrow> string \<Rightarrow> int \<Rightarrow> string \<Rightarrow> string \<Rightarrow> string \<Rightarrow> normalized_balance_event" where
  "fee_event activity action program asset symbol name payer decimals feeAmount data path = zero_event\<lparr>ne_OuterInstructionIndex := -1, ne_InnerInstructionIndex := -1,
     ne_ActivityType := activity, ne_EventAction := action, ne_ProgramID := program, ne_ContractAddress := asset, ne_Address := payer,
     ne_Delta := canonicalFeeDelta feeAmount, ne_ChainData := Some data, ne_TokenSymbol := symbol, ne_TokenName := name,
     ne_TokenDecimals := decimals, ne_TokenType := TokenTypeNative, ne_AssetID := asset, ne_EventPath := path\<rparr>"

definition solana_native :: string where
  "solana_native = replicate 32 CHR ''1''"

definition buildSolanaFeeBalanceEvent :: "string \<Rightarrow> string \<Rightarrow> normalized_balance_event" where
  "buildSolanaFeeBalanceEvent feePayer feeAmount =
     fee_event ActivityFee ''transaction_fee'' solana_native solana_native ''SOL'' ''Solana'' feePayer 9 feeAmount ''{}'' ''''"

definition solana_canonical_fields :: "chain \<Rightarrow> normalized_balance_event \<Rightarrow> normalized_balance_event" where
  "solana_canonical_fields c be0 =
     (let contract = canonicalizeAddressIdentity c (ne_ContractAddress be0); asset = canonicalizeAddressIdentity c (ne_AssetID be0);
          be = be0\<lparr>ne_Address := canonicalizeAddressIdentity c (ne_Address be0),
                   ne_CounterpartyAddress := canonicalizeAddressIdentity c (ne_CounterpartyAddress be0), ne_ContractAddress := contract,
                   ne_AssetID := if asset = '''' then contract else asset\<rparr>
      in if ne_ActivityType be = ActivityFee then be
         else case solanaInstructionPathFromChainData (ne_ChainData be) of
           None \<Rightarrow> be | Some (outer, inner) \<Rightarrow> be\<lparr>ne_OuterInstructionIndex := outer, ne_InnerInstructionIndex := inner\<rparr>)"

definition owner_key :: "normalized_balance_event \<Rightarrow> int \<times> string \<times> string \<times> activity_type" where
  "owner_key be = (ne_OuterInstructionIndex be, ne_Address be, ne_AssetID be, ne_ActivityType be)"

definition owns_outer :: "normalized_balance_event \<Rightarrow> bool" where
  "owns_outer be \<longleftrightarrow> ne_ActivityType be \<noteq> ActivityFee \<and> ne_OuterInstructionIndex be \<ge> 0 \<and> ne_InnerInstructionIndex be = -1"

definition solana_sort_key :: "normalized_balance_event \<Rightarrow> activity_type \<times> int \<times> int \<times> string \<times> string" where
  "solana_sort_key be = (ne_ActivityType be, ne_OuterInstructionIndex be, ne_InnerInstructionIndex be, ne_Address be, ne_ContractAddress be)"

record solana_selection =
  ss_FromOuterInstruction :: bool
  ss_OriginalInnerIndex :: int

definition stamp :: "(string \<Rightarrow> string) \<Rightarrow> chain \<Rightarrow> network \<Rightarrow> string \<Rightarrow> normalized_balance_event \<Rightarrow> normalized_balance_event" where
  "stamp sum256 c n txHash be = be\<lparr>ne_SchemaVersion := ''v2'',
     ne_EventID := buildCanonicalEventID sum256 c n txHash (ne_EventPath be) (ne_ActorAddress be) (ne_AssetID be) (ne_ActivityType be)\<rparr>"

text \<open>One event of the second loop: the canonical event and how it was selected.\<close>

definition solana_canonical_event ::
  "(string \<Rightarrow> string) \<Rightarrow> chain \<Rightarrow> network \<Rightarrow> string \<Rightarrow> string \<Rightarrow> (int \<times> string \<times> string \<times> activity_type) list \<Rightarrow> normalized_balance_event \<Rightarrow>
     normalized_balance_event \<times> solana_selection" where
  "solana_canonical_event sum256 c n txHash finalityState outerHasOwner be0 =
     (let fee = (ne_ActivityType be0 = ActivityFee);
          be1 = (if fee then be0\<lparr>ne_OuterInstructionIndex := -1, ne_InnerInstructionIndex := -1, ne_Delta := canonicalFeeDelta (ne_Delta be0),
                   ne_EventAction := ''transaction_fee''\<rparr> else be0);
          sel1 = \<lparr>ss_FromOuterInstruction = (ne_InnerInstructionIndex be1 = -1), ss_OriginalInnerIndex = wrap32 (ne_InnerInstructionIndex be1)\<rparr>;
          lifted = (\<not> fee \<and> ne_OuterInstructionIndex be1 \<ge> 0 \<and> ne_InnerInstructionIndex be1 > -1 \<and> owner_key be1 \<in> set outerHasOwner);
          be2 = (if lifted then be1\<lparr>ne_InnerInstructionIndex := -1\<rparr> else be1);
          sel = (if lifted then sel1\<lparr>ss_FromOuterInstruction := False\<rparr> else sel1);
          be3 = be2\<lparr>ne_ActorAddress := ne_Address be2, ne_AssetType := if fee then ''fee'' else mapTokenTypeToAssetType (ne_TokenType be2),
                    ne_EventPath := balanceEventPath (wrap32 (ne_OuterInstructionIndex be2)) (wrap32 (ne_InnerInstructionIndex be2)),
                    ne_EventPathType := ''solana_instruction'', ne_FinalityState := finalityState, ne_DecoderVersion := ''solana-decoder-v1''\<rparr>
      in (stamp sum256 c n txHash be3, sel))"

definition shouldReplaceCanonicalSolanaEvent ::
  "normalized_balance_event \<times> solana_selection \<Rightarrow> normalized_balance_event \<times> solana_selection \<Rightarrow> bool" where
  "shouldReplaceCanonicalSolanaEvent ex inc =
     (let (existing, eSel) = ex; (incoming, iSel) = inc; cmp = compareFinalityStateStrength (ne_FinalityState existing) (ne_FinalityState incoming) in
      if cmp \<noteq> 0 then cmp < 0
      else if ne_ActivityType existing = ActivityFee \<or> ne_ActivityType incoming = ActivityFee then
        (if ne_EventAction existing \<noteq> ne_EventAction incoming then ne_EventAction incoming < ne_EventAction existing
         else compareCanonicalDeltas (ne_Delta existing) (ne_Delta incoming) > 0)
      else if ss_FromOuterInstruction eSel \<noteq> ss_FromOuterInstruction iSel then ss_FromOuterInstruction iSel
      else if ss_OriginalInnerIndex eSel \<noteq> ss_OriginalInnerIndex iSel then ss_OriginalInnerIndex iSel < ss_OriginalInnerIndex eSel
      else if ne_EventAction existing \<noteq> ne_EventAction incoming then ne_EventAction incoming < ne_EventAction existing
      else if ne_ContractAddress existing \<noteq> ne_ContractAddress incoming then ne_ContractAddress incoming < ne_ContractAddress existing
      else compareCanonicalDeltas (ne_Delta existing) (ne_Delta incoming) > 0)"

definition canonicalizeSolanaBalanceEvents ::
  "(string \<Rightarrow> string) \<Rightarrow> chain \<Rightarrow> network \<Rightarrow> string \<Rightarrow> string \<Rightarrow> normalized_balance_event list \<Rightarrow> normalized_balance_event list" where
  "canonicalizeSolanaBalanceEvents sum256 c n txHash finalityState events0 =
     (let fs = normalizeFinalityStateOrDefault c finalityState;
          events = map (solana_canonical_fields c) events0;
          outerHasOwner = map owner_key (filter owns_outer events);
          canonical = map (solana_canonical_event sum256 c n txHash fs outerHasOwner) (sort_key solana_sort_key events)
      in map fst (in_key_order (keep_best shouldReplaceCanonicalSolanaEvent (map (\<lambda>x. (ne_EventID (fst x), x)) canonical))))"

definition buildCanonicalSolanaBalanceEventsMulti ::
  "(string \<Rightarrow> string) \<Rightarrow> chain \<Rightarrow> network \<Rightarrow> string \<Rightarrow> string \<Rightarrow> string \<Rightarrow> string \<Rightarrow> string \<Rightarrow> balance_event_info option list \<Rightarrow> (string \<Rightarrow> bool) \<Rightarrow>
     normalized_balance_event list" where
  "buildCanonicalSolanaBalanceEventsMulti sum256 c n txHash txStatus feePayer feeAmount finalityState rawEvents watched =
     (let fs = normalizeFinalityStateOrDefault c finalityState;
          raw = buildRawBalanceEventsMulti rawEvents watched True;
          events = (if watched feePayer \<and> shouldEmitSolanaFeeEvent txStatus feePayer feeAmount \<and> \<not> hasFeeEvent raw feePayer
                    then raw @ [buildSolanaFeeBalanceEvent feePayer feeAmount] else raw)
      in canonicalizeSolanaBalanceEvents sum256 c n txHash fs events)"

section \<open>EVM fee metadata\<close>

definition baseFeePathMetadataKeys :: "string list" where
  "baseFeePathMetadataKeys = [''event_path'', ''log_path'', ''log_index'', ''base_log_index'', ''base_event_path'']"

record fee_candidate =
  fc_metadata :: string_map
  fc_execution :: "int option"
  fc_data :: "int option"
  fc_pathHint :: bool
  fc_metadataCount :: nat
  fc_fingerprint :: string

definition newBaseFeeMetadataCandidate :: "balance_event_info \<Rightarrow> fee_candidate option" where
  "newBaseFeeMetadataCandidate be =
     (if bi_Metadata be = [] then None
      else Some \<lparr>fc_metadata = bi_Metadata be, fc_execution = deriveBaseExecutionFeeFromMetadata (bi_Metadata be),
        fc_data = deriveBaseDataFee (bi_Metadata be), fc_pathHint = (resolveBaseMetadataEventPath (bi_Metadata be) \<noteq> ''''),
        fc_metadataCount = length (bi_Metadata be), fc_fingerprint = decodedEventFingerprint ChainBase be\<rparr>)"

definition shouldPreferBaseFeeMetadataCandidate :: "fee_candidate \<Rightarrow> fee_candidate \<Rightarrow> bool" where
  "shouldPreferBaseFeeMetadataCandidate existing incoming =
     (if fc_pathHint existing \<noteq> fc_pathHint incoming then fc_pathHint incoming
      else if fc_metadataCount existing \<noteq> fc_metadataCount incoming then fc_metadataCount incoming > fc_metadataCount existing
      else if fc_fingerprint existing \<noteq> fc_fingerprint incoming then fc_fingerprint incoming < fc_fingerprint existing
      else False)"

definition pickBestBaseFeeMetadataCandidate :: "fee_candidate list \<Rightarrow> (fee_candidate \<Rightarrow> bool) \<Rightarrow> fee_candidate option" where
  "pickBestBaseFeeMetadataCandidate candidates predicate = pick_best shouldPreferBaseFeeMetadataCandidate (filter predicate candidates)"

definition applyBasePathMetadata :: "string_map \<Rightarrow> string_map \<Rightarrow> string_map" where
  "applyBasePathMetadata metadata out =
     (let out1 = fold AList.delete baseFeePathMetadataKeys out in
      if metadata = [] then out1
      else fold (\<lambda>key m. let value = TrimSpace (map_get metadata key) in if value = '''' then m else AList.update key value m) baseFeePathMetadataKeys out1)"

definition set_amount :: "string \<Rightarrow> int option \<Rightarrow> string_map \<Rightarrow> string_map" where
  "set_amount key amount m = (case amount of None \<Rightarrow> m | Some i \<Rightarrow> AList.update key (big_String i) m)"

definition reconcileBaseFeeComponentMetadata :: "balance_event_info list \<Rightarrow> string_map \<Rightarrow> string_map" where
  "reconcileBaseFeeComponentMetadata rawEvents out =
     (let candidates = List.map_filter newBaseFeeMetadataCandidate rawEvents;
          bestBoth = pickBestBaseFeeMetadataCandidate candidates (\<lambda>c. fc_execution c \<noteq> None \<and> fc_data c \<noteq> None);
          bestExecution = pickBestBaseFeeMetadataCandidate candidates (\<lambda>c. fc_execution c \<noteq> None);
          bestData = pickBestBaseFeeMetadataCandidate candidates (\<lambda>c. fc_data c \<noteq> None)
      in case (case bestBoth of Some c \<Rightarrow> Some c | None \<Rightarrow> (case bestExecution of Some c \<Rightarrow> Some c | None \<Rightarrow> bestData)) of
        None \<Rightarrow> out
      | Some selected \<Rightarrow>
          let out1 = fold AList.delete baseFeeComponentMetadataKeys out;
              executionSource = (if bestBoth \<noteq> None then bestBoth else bestExecution);
              dataSource = (if bestBoth \<noteq> None then bestBoth else bestData);
              out2 = set_amount ''fee_execution_l2'' (case executionSource of None \<Rightarrow> None | Some c \<Rightarrow> fc_execution c) out1;
              out3 = set_amount ''fee_data_l1'' (case dataSource of None \<Rightarrow> None | Some c \<Rightarrow> fc_data c) out2;
              pathSource = (if resolveBaseMetadataEventPath (fc_metadata selected) = ''''
                 then (case pickBestBaseFeeMetadataCandidate candidates fc_pathHint of None \<Rightarrow> selected | Some p \<Rightarrow> p) else selected)
          in applyBasePathMetadata (fc_metadata pathSource) out3)"

definition collectBaseMetadata :: "balance_event_info option list \<Rightarrow> string_map" where
  "collectBaseMetadata rawEvents =
     reconcileBaseFeeComponentMetadata (somes rawEvents) (fold (\<lambda>be. add_missing (bi_Metadata be)) (somes rawEvents) [])"

definition resolveBaseFeeEventPath :: "string_map \<Rightarrow> string" where
  "resolveBaseFeeEventPath md = (let p = resolveBaseMetadataEventPath md in if p \<noteq> '''' then p else ''log:0'')"

definition deriveBaseExecutionFee :: "string \<Rightarrow> string_map \<Rightarrow> int" where
  "deriveBaseExecutionFee totalFee md = (case deriveBaseExecutionFeeFromMetadata md of
     Some fee \<Rightarrow> fee | None \<Rightarrow> (case parseBigInt totalFee of Some fee \<Rightarrow> fee | None \<Rightarrow> 0))"

definition hasBaseFeeComponentMetaMismatch :: "string \<Rightarrow> string_map \<Rightarrow> bool" where
  "hasBaseFeeComponentMetaMismatch totalFee md = (case parseBigInt totalFee of
     None \<Rightarrow> False
   | Some tot \<Rightarrow> if tot = 0 then False
       else case (deriveBaseExecutionFeeFromMetadata md, deriveBaseDataFee md) of
         (Some exec, Some data) \<Rightarrow> exec + data \<noteq> tot | _ \<Rightarrow> False)"

section \<open>EVM events\<close>

definition evmNativeToken :: "chain \<Rightarrow> string \<times> string \<times> int" where
  "evmNativeToken c =
     (if c = ChainPolygon then (''POL'', ''POL'', 18) else if c = ChainBSC then (''BNB'', ''BNB'', 18) else (''ETH'', ''Ether'', 18))"

definition isEVML1Chain :: "chain \<Rightarrow> bool" where
  "isEVML1Chain c \<longleftrightarrow> c = ChainEthereum \<or> c = ChainPolygon \<or> c = ChainBSC"

definition evmDecoderVersion :: "chain \<Rightarrow> string" where
  "evmDecoderVersion c = (if isEVML1Chain c then ''evm-l1-decoder-v1'' else ''base-decoder-v1'')"

definition zero_program :: string where
  "zero_program = ''0x'' @ replicate 64 CHR ''0''"

definition buildEVML1FeeBalanceEvent :: "string \<Rightarrow> string \<Rightarrow> string \<Rightarrow> string \<times> string \<times> int \<Rightarrow> normalized_balance_event" where
  "buildEVML1FeeBalanceEvent feePayer feeAmount eventPath token =
     (let (symbol, name, decimals) = token in fee_event ActivityFee ''net_eth'' zero_program symbol symbol name feePayer decimals feeAmount ''{}'' eventPath)"

definition buildBaseFeeBalanceEvent :: "activity_type \<Rightarrow> string \<Rightarrow> string \<Rightarrow> string \<Rightarrow> string \<Rightarrow> normalized_balance_event" where
  "buildBaseFeeBalanceEvent activity feePayer feeAmount eventPath eventAction =
     fee_event activity eventAction zero_program ''ETH'' ''ETH'' ''Ether'' feePayer 18 feeAmount ''{}'' eventPath"

definition isBaseFeeActivity :: "activity_type \<Rightarrow> bool" where
  "isBaseFeeActivity a \<longleftrightarrow> a = ActivityFeeExecutionL2 \<or> a = ActivityFeeDataL1"

definition shouldReplaceCanonicalBaseEvent :: "normalized_balance_event \<Rightarrow> normalized_balance_event \<Rightarrow> bool" where
  "shouldReplaceCanonicalBaseEvent existing incoming =
     (let cmp = compareFinalityStateStrength (ne_FinalityState existing) (ne_FinalityState incoming) in
      if cmp \<noteq> 0 then cmp < 0
      else if ne_EventAction existing \<noteq> ne_EventAction incoming then ne_EventAction incoming < ne_EventAction existing
      else if ne_ContractAddress existing \<noteq> ne_ContractAddress incoming then ne_ContractAddress incoming < ne_ContractAddress existing
      else if ne_CounterpartyAddress existing \<noteq> ne_CounterpartyAddress incoming then ne_CounterpartyAddress incoming < ne_CounterpartyAddress existing
      else compareCanonicalDeltas (ne_Delta existing) (ne_Delta incoming) > 0)"

definition base_canonical_event :: "(string \<Rightarrow> string) \<Rightarrow> chain \<Rightarrow> network \<Rightarrow> string \<Rightarrow> string \<Rightarrow> normalized_balance_event \<Rightarrow> normalized_balance_event" where
  "base_canonical_event sum256 c n txHash finalityState be0 =
     (let be1 = (if isBaseFeeActivity (ne_ActivityType be0)
                 then be0\<lparr>ne_EventAction := ne_ActivityType be0, ne_Delta := canonicalFeeDelta (ne_Delta be0)\<rparr>
                 else if ne_ActivityType be0 = ActivityFee then be0\<lparr>ne_Delta := canonicalFeeDelta (ne_Delta be0)\<rparr> else be0);
          metadataPath = resolveBaseMetadataEventPath (metadataFromChainData (ne_ChainData be1));
          path0 = TrimSpace (if metadataPath \<noteq> '''' then metadataPath else ne_EventPath be1);
          path = (if path0 = '''' then balanceEventPath (wrap32 (ne_OuterInstructionIndex be1)) (wrap32 (ne_InnerInstructionIndex be1)) else path0);
          address = canonicalizeAddressIdentity c (ne_Address be1);
          contract = canonicalizeAddressIdentity c (ne_ContractAddress be1);
          asset0 = canonicalizeAddressIdentity c (ne_AssetID be1);
          be2 = be1\<lparr>ne_EventPath := path, ne_Address := address, ne_CounterpartyAddress := canonicalizeAddressIdentity c (ne_CounterpartyAddress be1),
                    ne_ContractAddress := contract, ne_AssetID := (if asset0 = '''' then contract else asset0),
                    ne_ActorAddress := canonicalizeAddressIdentity c address,
                    ne_AssetType := (if isBaseFeeActivity (ne_ActivityType be1) \<or> ne_ActivityType be1 = ActivityFee then ''fee''
                                     else mapTokenTypeToAssetType (ne_TokenType be1)),
                    ne_EventPathType := ''base_log'', ne_FinalityState := finalityState, ne_DecoderVersion := evmDecoderVersion c\<rparr>
      in stamp sum256 c n txHash be2)"

definition canonicalizeBaseBalanceEvents ::
  "(string \<Rightarrow> string) \<Rightarrow> chain \<Rightarrow> network \<Rightarrow> string \<Rightarrow> string \<Rightarrow> normalized_balance_event list \<Rightarrow> normalized_balance_event list" where
  "canonicalizeBaseBalanceEvents sum256 c n txHash finalityState events =
     in_key_order (keep_best shouldReplaceCanonicalBaseEvent (map (\<lambda>x. (ne_EventID x, x))
       (map (base_canonical_event sum256 c n txHash (normalizeFinalityStateOrDefault c finalityState)) events)))"

definition fee_marker :: "string \<Rightarrow> string_map \<Rightarrow> string_map" where
  "fee_marker feeAmount md =
     (if hasBaseFeeComponentMetaMismatch feeAmount md
      then [(''fee_total_mismatch'', ''true''),
            (''fee_execution_total_from_components'', big_String (case deriveBaseExecutionFeeFromMetadata md of None \<Rightarrow> 0 | Some i \<Rightarrow> i)),
            (''fee_data_total_from_components'', big_String (case deriveBaseDataFee md of None \<Rightarrow> 0 | Some i \<Rightarrow> i)),
            (''fee_amount_total'', feeAmount)] else []) @
     (if deriveBaseDataFee md = None then [(''data_fee_l1_unavailable'', ''true'')] else [])"

definition base_fee_events :: "chain \<Rightarrow> string \<Rightarrow> string \<Rightarrow> string_map \<Rightarrow> normalized_balance_event list" where
  "base_fee_events c feePayer feeAmount md =
     (let eventPath = resolveBaseFeeEventPath md in
      if isEVML1Chain c then [buildEVML1FeeBalanceEvent feePayer feeAmount eventPath (evmNativeToken c)]
      else let execution = buildBaseFeeBalanceEvent ActivityFeeExecutionL2 feePayer (big_String (deriveBaseExecutionFee feeAmount md)) eventPath ''net_base'';
               marker = fee_marker feeAmount md;
               execution' = (if marker \<noteq> [] then execution\<lparr>ne_ChainData := Some (mergeMetadataJSON (ne_ChainData execution) marker)\<rparr> else execution)
           in execution' # (case deriveBaseDataFee md of
                None \<Rightarrow> []
              | Some dataFee \<Rightarrow> [buildBaseFeeBalanceEvent ActivityFeeDataL1 feePayer (big_String dataFee) eventPath ''net_base_data'']))"

definition buildCanonicalBaseBalanceEventsMulti ::
  "(string \<Rightarrow> string) \<Rightarrow> chain \<Rightarrow> network \<Rightarrow> string \<Rightarrow> string \<Rightarrow> string \<Rightarrow> string \<Rightarrow> string \<Rightarrow> balance_event_info option list \<Rightarrow> (string \<Rightarrow> bool) \<Rightarrow>
     normalized_balance_event list" where
  "buildCanonicalBaseBalanceEventsMulti sum256 c n txHash txStatus feePayer feeAmount finalityState rawEvents watched =
     (let fs = normalizeFinalityStateOrDefault c finalityState;
          raw = (if EqualFold txStatus TxStatusFailed then [] else buildRawBalanceEventsMulti rawEvents watched True);
          md = collectBaseMetadata rawEvents;
          events = (if watched feePayer \<and> shouldEmitSolanaFeeEvent txStatus feePayer feeAmount then raw @ base_fee_events c feePayer feeAmount md else raw)
      in canonicalizeBaseBalanceEvents sum256 c n txHash fs events)"

section \<open>Bitcoin\<close>

definition resolveBTCEventPathFromMetadata :: "string_map \<Rightarrow> int \<Rightarrow> string" where
  "resolveBTCEventPathFromMetadata md outer =
     (let eventPath = TrimSpace (map_get md ''event_path'') in
      if eventPath \<noteq> '''' then eventPath
      else let t = ToLower (TrimSpace (map_get md ''utxo_path_type'')) in
        if (t = ''vin'' \<or> t = ''vout'') \<and> outer \<ge> 0 then t @ '':'' @ big_String outer else '''')"

definition canonicalizeBTCAssetID :: "string \<Rightarrow> string" where
  "canonicalizeBTCAssetID value =
     (let trimmed = TrimSpace value in if trimmed = '''' then ''BTC'' else if EqualFold trimmed ''btc'' then ''BTC'' else trimmed)"

definition shouldReplaceCanonicalBTCEvent :: "normalized_balance_event \<Rightarrow> normalized_balance_event \<Rightarrow> bool" where
  "shouldReplaceCanonicalBTCEvent existing incoming =
     (let cmp = compareFinalityStateStrength (ne_FinalityState existing) (ne_FinalityState incoming) in
      if cmp \<noteq> 0 then cmp < 0
      else if ne_EventAction existing \<noteq> ne_EventAction incoming then ne_EventAction incoming < ne_EventAction existing
      else if ne_ContractAddress existing \<noteq> ne_ContractAddress incoming then ne_ContractAddress incoming < ne_ContractAddress existing
      else if ne_CounterpartyAddress existing \<noteq> ne_CounterpartyAddress incoming then ne_CounterpartyAddress incoming < ne_CounterpartyAddress existing
      else compareCanonicalDeltas (ne_Delta existing) (ne_Delta incoming) > 0)"

definition btc_canonical_event :: "(string \<Rightarrow> string) \<Rightarrow> chain \<Rightarrow> network \<Rightarrow> string \<Rightarrow> string \<Rightarrow> normalized_balance_event \<Rightarrow> normalized_balance_event" where
  "btc_canonical_event sum256 c n txHash finalityState be =
     (let path0 = resolveBTCEventPathFromMetadata (metadataFromChainData (ne_ChainData be)) (wrap32 (ne_OuterInstructionIndex be));
          path = (if path0 = '''' then balanceEventPath (wrap32 (ne_OuterInstructionIndex be)) (wrap32 (ne_InnerInstructionIndex be)) else path0);
          address = canonicalizeAddressIdentity c (ne_Address be);
          contract = canonicalizeBTCAssetID (ne_ContractAddress be);
          asset0 = canonicalizeBTCAssetID (ne_AssetID be);
          fee = (ne_ActivityType be = ActivityFee)
      in stamp sum256 c n txHash (be\<lparr>ne_EventPath := path, ne_Address := address,
           ne_CounterpartyAddress := canonicalizeAddressIdentity c (ne_CounterpartyAddress be), ne_ContractAddress := contract,
           ne_AssetID := (if asset0 = '''' then contract else asset0), ne_ActorAddress := canonicalizeAddressIdentity c address,
           ne_AssetType := (if fee then ''fee'' else mapTokenTypeToAssetType (ne_TokenType be)),
           ne_EventPathType := (if fee then ''btc_fee'' else ''btc_utxo''), ne_FinalityState := finalityState,
           ne_DecoderVersion := ''btc-decoder-v1''\<rparr>))"

definition canonicalizeBTCBalanceEvents ::
  "(string \<Rightarrow> string) \<Rightarrow> chain \<Rightarrow> network \<Rightarrow> string \<Rightarrow> string \<Rightarrow> normalized_balance_event list \<Rightarrow> normalized_balance_event list" where
  "canonicalizeBTCBalanceEvents sum256 c n txHash finalityState events =
     in_key_order (keep_best shouldReplaceCanonicalBTCEvent (map (\<lambda>x. (ne_EventID x, x))
       (map (btc_canonical_event sum256 c n txHash (normalizeFinalityStateOrDefault c finalityState)) events)))"

text \<open>The loop over the events with its three flags: input spend, recipient, and change equal to the fee.\<close>

definition btc_fee_flags :: "string \<Rightarrow> int \<Rightarrow> normalized_balance_event \<Rightarrow> bool \<times> bool \<times> bool \<Rightarrow> bool \<times> bool \<times> bool" where
  "btc_fee_flags payer fee be flags =
     (let (spend, recipient, change) = flags; action = TrimSpace (ne_EventAction be) in
      if ne_ActivityType be \<noteq> ActivityDeposit \<and> ne_ActivityType be \<noteq> ActivityWithdrawal then flags
      else if action = ''vin_spend'' then (True, recipient, change)
      else if action \<noteq> ''vout_receive'' then flags
      else case parseBigInt (ne_Delta be) of
        None \<Rightarrow> flags
      | Some d \<Rightarrow> if d = 0 then flags
          else if canonicalizeAddressIdentity ChainBTC (ne_Address be) = payer then (spend, recipient, change \<or> d = fee)
          else (spend, True, change))"

definition hasBTCFeeRepresentedAsChangeOutput :: "normalized_balance_event list \<Rightarrow> string \<Rightarrow> string \<Rightarrow> bool" where
  "hasBTCFeeRepresentedAsChangeOutput events feePayer feeAmount =
     (let payer = canonicalizeAddressIdentity ChainBTC feePayer in
      if payer = '''' then False
      else case parseBigInt feeAmount of
        None \<Rightarrow> False
      | Some fee \<Rightarrow> if fee = 0 then False
          else let (spend, recipient, change) = fold (btc_fee_flags payer fee) events (False, False, False) in spend \<and> recipient \<and> change)"

definition shouldEmitBTCFeeEvent :: "string \<Rightarrow> string \<Rightarrow> string \<Rightarrow> normalized_balance_event list \<Rightarrow> bool" where
  "shouldEmitBTCFeeEvent txStatus feePayer feeAmount events =
     (if \<not> shouldEmitSolanaFeeEvent txStatus feePayer feeAmount then False else \<not> hasBTCFeeRepresentedAsChangeOutput events feePayer feeAmount)"

definition buildBTCFeeBalanceEvent :: "string \<Rightarrow> string \<Rightarrow> normalized_balance_event" where
  "buildBTCFeeBalanceEvent feePayer feeAmount =
     fee_event ActivityFee ''miner_fee'' ''btc'' ''BTC'' ''BTC'' ''Bitcoin'' feePayer 8 feeAmount (Marshal [(''event_path'', ''fee:miner'')]) ''''"

definition buildCanonicalBTCBalanceEventsMulti ::
  "(string \<Rightarrow> string) \<Rightarrow> chain \<Rightarrow> network \<Rightarrow> string \<Rightarrow> string \<Rightarrow> string \<Rightarrow> string \<Rightarrow> string \<Rightarrow> balance_event_info option list \<Rightarrow> (string \<Rightarrow> bool) \<Rightarrow>
     normalized_balance_event list" where
  "buildCanonicalBTCBalanceEventsMulti sum256 c n txHash txStatus feePayer feeAmount finalityState rawEvents watched =
     (let fs = normalizeFinalityStateOrDefault c finalityState;
          raw = buildRawBalanceEventsMulti rawEvents watched False;
          events = (if watched feePayer \<and> shouldEmitBTCFeeEvent txStatus feePayer feeAmount raw \<and> \<not> hasFeeEvent raw feePayer
                    then raw @ [buildBTCFeeBalanceEvent feePayer feeAmount] else raw)
      in canonicalizeBTCBalanceEvents sum256 c n txHash fs events)"

end
