(* ===== verification/Retry.thy ===== *)
theory Retry
  imports Go_Prelude
begin

text \<open>
  Error values and the retry policy (\<^verbatim>\<open>internal/pipeline/retry/retry.go\<close>).
  A Go error is a value of \<^verbatim>\<open>gerr\<close>: the constructors are the error types the indexer builds or
  inspects, \<^verbatim>\<open>ErrWrap p e\<close> is \<^verbatim>\<open>fmt.Errorf("p%w", e)\<close>, and \<^verbatim>\<open>Classified\<close> is \<^verbatim>\<open>classifiedError\<close>.
  \<^verbatim>\<open>errors.As\<close> and \<^verbatim>\<open>errors.Is\<close> search the unwrap chain from the outside in.
  The gRPC status package is not part of the repository: \<^verbatim>\<open>status.FromError\<close> is the parameter
  \<^verbatim>\<open>FromError\<close> of \<^verbatim>\<open>Classify\<close> and \<^verbatim>\<open>Code.String\<close> the parameter \<^verbatim>\<open>codeString\<close>.
  The lemmas show that an explicit mark decides before everything else, from any depth of
  wrapping, and that the decision on a typed error does not depend on the text around it.
\<close>

section \<open>Errors\<close>

datatype retry_class = ClassTerminal | ClassTransient

datatype gerr =
    ErrMsg string
  | ErrWrap string gerr
  | Classified gerr retry_class string
  | CtxCanceled
  | CtxDeadlineExceeded
  | NetErr bool string
  | SolRPCError int string
  | BaseRPCError int string
  | BtcRPCError int string
  | GrpcErr nat string

fun Error :: "gerr \<Rightarrow> string" where
  "Error (ErrMsg m) = m"
| "Error (ErrWrap p e) = p @ Error e"
| "Error (Classified e c r) = Error e"
| "Error CtxCanceled = ''context canceled''"
| "Error CtxDeadlineExceeded = ''context deadline exceeded''"
| "Error (NetErr t m) = m"
| "Error (SolRPCError c m) = m"
| "Error (BaseRPCError c m) = m"
| "Error (BtcRPCError c m) = m"
| "Error (GrpcErr c m) = m"

fun unwrap_chain :: "gerr \<Rightarrow> gerr list" where
  "unwrap_chain (ErrWrap p e) = ErrWrap p e # unwrap_chain e"
| "unwrap_chain (Classified e c r) = Classified e c r # unwrap_chain e"
| "unwrap_chain e = [e]"

text \<open>\<^verbatim>\<open>errors.As\<close>: the first error of the chain the view accepts.\<close>

fun first_some :: "('a \<Rightarrow> 'b option) \<Rightarrow> 'a list \<Rightarrow> 'b option" where
  "first_some f [] = None"
| "first_some f (x # xs) = (case f x of Some y \<Rightarrow> Some y | None \<Rightarrow> first_some f xs)"

definition errors_As :: "(gerr \<Rightarrow> 'b option) \<Rightarrow> gerr \<Rightarrow> 'b option" where
  "errors_As view e = first_some view (unwrap_chain e)"

definition errors_Is :: "gerr \<Rightarrow> gerr \<Rightarrow> bool" where
  "errors_Is e target \<longleftrightarrow> target \<in> set (unwrap_chain e)"

fun as_classified :: "gerr \<Rightarrow> (retry_class \<times> string) option" where
  "as_classified (Classified e c r) = Some (c, r)"
| "as_classified _ = None"

text \<open>\<^verbatim>\<open>net.Error\<close> is an interface: \<^verbatim>\<open>context.DeadlineExceeded\<close> implements it too.\<close>

fun as_net_timeout :: "gerr \<Rightarrow> bool option" where
  "as_net_timeout (NetErr t m) = Some t"
| "as_net_timeout CtxDeadlineExceeded = Some True"
| "as_net_timeout _ = None"

fun as_sol_code :: "gerr \<Rightarrow> int option" where
  "as_sol_code (SolRPCError c m) = Some c"
| "as_sol_code _ = None"

fun as_base_code :: "gerr \<Rightarrow> int option" where
  "as_base_code (BaseRPCError c m) = Some c"
| "as_base_code _ = None"

section \<open>Classification\<close>

record decision =
  d_Class :: retry_class
  d_Reason :: string

definition IsTransient :: "decision \<Rightarrow> bool" where
  "IsTransient d \<longleftrightarrow> d_Class d = ClassTransient"

definition Transient :: "gerr option \<Rightarrow> gerr option" where
  "Transient e = map_option (\<lambda>x. Classified x ClassTransient ''explicit_transient'') e"

definition Terminal :: "gerr option \<Rightarrow> gerr option" where
  "Terminal e = map_option (\<lambda>x. Classified x ClassTerminal ''explicit_terminal'') e"

definition classifyJSONRPCCode :: "int \<Rightarrow> decision" where
  "classifyJSONRPCCode code =
     (if code = -32603 \<or> code = -32005 then \<lparr>d_Class = ClassTransient, d_Reason = ''jsonrpc_server_transient''\<rparr>
      else if code \<le> -32000 \<and> code \<ge> -32099 then \<lparr>d_Class = ClassTransient, d_Reason = ''jsonrpc_server_range''\<rparr>
      else \<lparr>d_Class = ClassTerminal, d_Reason = ''jsonrpc_terminal''\<rparr>)"

fun containsAny :: "string \<Rightarrow> string list \<Rightarrow> bool" where
  "containsAny msg [] \<longleftrightarrow> False"
| "containsAny msg (token # tokens) \<longleftrightarrow> (if Contains msg token then True else containsAny msg tokens)"

definition transientMessageTokens :: "string list" where
  "transientMessageTokens =
     [''timeout'', ''timed out'', ''temporar'', ''temporary'', ''unavailable'', ''connection reset'',
      ''connection refused'', ''broken pipe'', ''econnreset'', ''econnrefused'', ''too many requests'',
      ''rate limit'', ''payload too large'', ''http status 429'', ''http status 502'',
      ''http status 503'', ''http status 504'', ''server closed idle connection'']"

definition terminalMessageTokens :: "string list" where
  "terminalMessageTokens =
     [''decode blocked'', ''length mismatch'', ''no decodable transactions'', ''invalid argument'',
      ''invalid params'', ''method not found'', ''parse error'', ''schema mismatch'',
      ''execution reverted'', ''insufficient funds'', ''not found'', ''constraint violation'']"

text \<open>The gRPC codes the switch names, by their wire numbers.\<close>

abbreviation (input) codes_Canceled :: nat where "codes_Canceled \<equiv> 1"
abbreviation (input) codes_DeadlineExceeded :: nat where "codes_DeadlineExceeded \<equiv> 4"
abbreviation (input) codes_ResourceExhausted :: nat where "codes_ResourceExhausted \<equiv> 8"
abbreviation (input) codes_Aborted :: nat where "codes_Aborted \<equiv> 10"
abbreviation (input) codes_Internal :: nat where "codes_Internal \<equiv> 13"
abbreviation (input) codes_Unavailable :: nat where "codes_Unavailable \<equiv> 14"

definition classify_message :: "string \<Rightarrow> decision" where
  "classify_message msg =
     (let lower = ToLower msg in
      if containsAny lower terminalMessageTokens then \<lparr>d_Class = ClassTerminal, d_Reason = ''message_terminal''\<rparr>
      else if containsAny lower transientMessageTokens then \<lparr>d_Class = ClassTransient, d_Reason = ''message_transient''\<rparr>
      else \<lparr>d_Class = ClassTerminal, d_Reason = ''unknown_terminal_default''\<rparr>)"

definition Classify :: "(gerr \<Rightarrow> nat option) \<Rightarrow> (nat \<Rightarrow> string) \<Rightarrow> gerr option \<Rightarrow> decision" where
  "Classify FromError codeString eo = (case eo of
     None \<Rightarrow> \<lparr>d_Class = ClassTerminal, d_Reason = ''nil_error''\<rparr>
   | Some e \<Rightarrow>
     (case errors_As as_classified e of
        Some (c, r) \<Rightarrow> \<lparr>d_Class = c, d_Reason = r\<rparr>
      | None \<Rightarrow>
        if errors_Is e CtxCanceled then \<lparr>d_Class = ClassTerminal, d_Reason = ''context_canceled''\<rparr>
        else if errors_Is e CtxDeadlineExceeded then \<lparr>d_Class = ClassTransient, d_Reason = ''context_deadline_exceeded''\<rparr>
        else case FromError e of
          Some code \<Rightarrow>
            if code = codes_Canceled then \<lparr>d_Class = ClassTerminal, d_Reason = ''grpc_canceled''\<rparr>
            else if code \<in> {codes_Unavailable, codes_DeadlineExceeded, codes_ResourceExhausted, codes_Aborted, codes_Internal}
            then \<lparr>d_Class = ClassTransient, d_Reason = ''grpc_'' @ ToLower (codeString code)\<rparr>
            else \<lparr>d_Class = ClassTerminal, d_Reason = ''grpc_'' @ ToLower (codeString code)\<rparr>
        | None \<Rightarrow>
          if errors_As as_net_timeout e = Some True then \<lparr>d_Class = ClassTransient, d_Reason = ''net_timeout''\<rparr>
          else case errors_As as_sol_code e of
            Some code \<Rightarrow> classifyJSONRPCCode code
          | None \<Rightarrow> (case errors_As as_base_code e of
              Some code \<Rightarrow> classifyJSONRPCCode code
            | None \<Rightarrow> classify_message (Error e))))"

section \<open>Wrapping\<close>

text \<open>An error wrapped by the messages \<^verbatim>\<open>ps\<close>, the first outermost.\<close>

primrec wrap_all :: "string list \<Rightarrow> gerr \<Rightarrow> gerr" where
  "wrap_all [] e = e"
| "wrap_all (p # ps) e = ErrWrap p (wrap_all ps e)"

lemma errors_As_wrap [simp]:
  "view (ErrWrap p e) = None \<Longrightarrow> errors_As view (ErrWrap p e) = errors_As view e"
  by (simp add: errors_As_def)

lemma errors_As_wrap_all:
  "(\<And>p e. view (ErrWrap p e) = None) \<Longrightarrow> errors_As view (wrap_all ps e) = errors_As view e"
  by (induction ps) simp_all

lemma errors_Is_wrap_all:
  "(\<And>p e. target \<noteq> ErrWrap p e) \<Longrightarrow> errors_Is (wrap_all ps e) target \<longleftrightarrow> errors_Is e target"
  by (induction ps) (simp_all add: errors_Is_def)

lemma errors_As_Classified [simp]: "errors_As as_classified (Classified e c r) = Some (c, r)"
  by (simp add: errors_As_def)

text \<open>The errors whose decision reads a type and never the message.\<close>

definition typed_error :: "gerr \<Rightarrow> bool" where
  "typed_error e \<longleftrightarrow> errors_As as_classified e \<noteq> None \<or> errors_Is e CtxCanceled \<or>
     errors_Is e CtxDeadlineExceeded \<or> errors_As as_net_timeout e = Some True \<or>
     errors_As as_sol_code e \<noteq> None \<or> errors_As as_base_code e \<noteq> None"

lemma Classify_wrap_all_typed:
  assumes "typed_error e" and grpc: "\<And>p x. FromError (ErrWrap p x) = FromError x"
  shows "Classify FromError cs (Some (wrap_all ps e)) = Classify FromError cs (Some e)"
proof -
  have g: "FromError (wrap_all ps e) = FromError e" by (induction ps) (simp_all add: grpc)
  from assms(1) show ?thesis
    by (auto simp: Classify_def typed_error_def errors_As_wrap_all errors_Is_wrap_all g split: option.splits)
qed

lemma classifyJSONRPCCode_transient:
  "IsTransient (classifyJSONRPCCode c) \<longleftrightarrow> c = -32603 \<or> (-32099 \<le> c \<and> c \<le> -32000)"
  by (auto simp: IsTransient_def classifyJSONRPCCode_def)

lemma containsAny_iff: "containsAny msg ts \<longleftrightarrow> (\<exists>t \<in> set ts. Contains msg t)"
  by (induction ts) auto

section \<open>Properties\<close>

text \<open>An explicit \<^verbatim>\<open>Transient\<close>/\<^verbatim>\<open>Terminal\<close> mark decides the retry class of an error whatever the
  marked error is and however many messages are wrapped around the mark, and the outermost of two
  marks wins.\<close>

theorem Classify_explicit_mark:
  "Classify F cs (map_option (wrap_all ps) (Transient (Some e))) =
     \<lparr>d_Class = ClassTransient, d_Reason = ''explicit_transient''\<rparr> \<and>
   Classify F cs (map_option (wrap_all ps) (Terminal (Some e))) =
     \<lparr>d_Class = ClassTerminal, d_Reason = ''explicit_terminal''\<rparr> \<and>
   Classify F cs (Terminal (map_option (wrap_all ps) (Transient (Some e)))) =
     \<lparr>d_Class = ClassTerminal, d_Reason = ''explicit_terminal''\<rparr>"
  by (simp add: Classify_def Transient_def Terminal_def errors_As_wrap_all)

text \<open>For every error that carries a type the policy looks at (a mark, a context error, a network
  timeout, a JSON-RPC error), wrapping it in any sequence of messages leaves the decision unchanged.\<close>

theorem Classify_wrap_invariant:
  assumes "\<And>p x. FromError (ErrWrap p x) = FromError x" and "typed_error e"
  shows "Classify FromError cs (Some (wrap_all ps e)) = Classify FromError cs (Some e)"
  using assms(2,1) by (rule Classify_wrap_all_typed)

theorem Classify_wrap_invariant_witness:
  "Classify (\<lambda>e. None) (\<lambda>c. '''') (Some (wrap_all [''get block: not found: ''] (BaseRPCError (-32603) ''x''))) =
     Classify (\<lambda>e. None) (\<lambda>c. '''') (Some (BaseRPCError (-32603) ''x''))"
  by (rule Classify_wrap_invariant) (simp_all add: typed_error_def errors_As_def)

end
