(* ===== verification/Keyed_Table.thy ===== *)
theory Keyed_Table
  imports Go_Prelude
begin

text \<open>
  Database tables with a unique key, as lists of rows in insertion order, and the statement
  \<^verbatim>\<open>INSERT ... ON CONFLICT (key) DO UPDATE SET ...\<close> the repositories of \<^verbatim>\<open>internal/store/postgres\<close>
  share: a row with a new key is appended, a row with an existing key is merged into the stored one.
  The locale \<^verbatim>\<open>keyed_table\<close> states what a repository's merge has to respect and proves the laws of
  the statement once; every repository theory interprets it on its own key and merge.
\<close>

fun table_upsert :: "('r \<Rightarrow> 'k) \<Rightarrow> ('r \<Rightarrow> 'r \<Rightarrow> 'r) \<Rightarrow> 'r \<Rightarrow> 'r list \<Rightarrow> 'r list" where
  "table_upsert key merge r [] = [r]"
| "table_upsert key merge r (x # xs) =
     (if key x = key r then merge x r # xs else x # table_upsert key merge r xs)"

definition table_lookup :: "('r \<Rightarrow> 'k) \<Rightarrow> 'k \<Rightarrow> 'r list \<Rightarrow> 'r option" where
  "table_lookup key k rows = find (\<lambda>r. key r = k) rows"

definition table_unique :: "('r \<Rightarrow> 'k) \<Rightarrow> 'r list \<Rightarrow> bool" where
  "table_unique key rows \<longleftrightarrow> distinct (map key rows)"

lemma table_lookup_simps [simp]:
  "table_lookup key k [] = None"
  "table_lookup key k (r # rows) = (if key r = k then Some r else table_lookup key k rows)"
  by (simp_all add: table_lookup_def)

lemma table_lookup_None: "table_lookup key k rows = None \<longleftrightarrow> k \<notin> key ` set rows"
  by (induction rows) auto

lemma table_lookup_SomeD: "table_lookup key k rows = Some r \<Longrightarrow> r \<in> set rows \<and> key r = k"
  by (induction rows) (auto split: if_splits)

lemma table_lookup_Some:
  "table_unique key rows \<Longrightarrow> table_lookup key k rows = Some r \<longleftrightarrow> r \<in> set rows \<and> key r = k"
  by (induction rows) (auto simp: table_unique_def)

lemma table_unique_filter: "table_unique key rows \<Longrightarrow> table_unique key (filter P rows)"
  by (simp add: table_unique_def distinct_map_filter)

lemma table_unique_map: "(\<And>r. key (f r) = key r) \<Longrightarrow> table_unique key (map f rows) = table_unique key rows"
  by (simp add: table_unique_def o_def)

text \<open>
  The multi-row form \<^verbatim>\<open>INSERT ... VALUES (..), (..) ON CONFLICT (key) DO UPDATE ... WHERE accept\<close>.
  PostgreSQL refuses a command that would change one row twice; a row the \<^verbatim>\<open>WHERE\<close> clause rejects is
  left alone. The flags are the returned \<^verbatim>\<open>xmax = 0\<close> column, None where no row is returned.
\<close>

fun bulk_upsert ::
  "('r \<Rightarrow> 'k) \<Rightarrow> ('r \<Rightarrow> 'r \<Rightarrow> bool) \<Rightarrow> ('r \<Rightarrow> 'r \<Rightarrow> 'r) \<Rightarrow> 'k list \<Rightarrow> 'r list \<Rightarrow> 'r list \<Rightarrow> ('r list \<times> bool option list) option" where
  "bulk_upsert key accept merge touched [] rows = Some (rows, [])"
| "bulk_upsert key accept merge touched (r # rs) rows =
     (if key r \<in> set touched then None
      else case table_lookup key (key r) rows of
        None \<Rightarrow> map_option (apsnd (Cons (Some True))) (bulk_upsert key accept merge (key r # touched) rs (table_upsert key merge r rows))
      | Some x \<Rightarrow>
          if accept x r
          then map_option (apsnd (Cons (Some False))) (bulk_upsert key accept merge (key r # touched) rs (table_upsert key merge r rows))
          else map_option (apsnd (Cons None)) (bulk_upsert key accept merge touched rs rows))"

locale keyed_table =
  fixes key :: "'r \<Rightarrow> 'k"
    and merge :: "'r \<Rightarrow> 'r \<Rightarrow> 'r"
  assumes merge_key: "key x = key r \<Longrightarrow> key (merge x r) = key x"
begin

lemma upsert_keys: "key ` set (table_upsert key merge r rows) = insert (key r) (key ` set rows)"
  by (induction rows) (auto simp: merge_key)

lemma upsert_unique: "table_unique key rows \<Longrightarrow> table_unique key (table_upsert key merge r rows)"
proof (induction rows)
  case (Cons x rows)
  then show ?case using upsert_keys [of r rows] by (auto simp: table_unique_def merge_key)
qed (simp add: table_unique_def)

lemma upsert_lookup:
  "table_lookup key k (table_upsert key merge r rows) =
     (if k = key r then Some (case table_lookup key k rows of None \<Rightarrow> r | Some x \<Rightarrow> merge x r)
      else table_lookup key k rows)"
  by (induction rows) (auto simp: merge_key)

lemma upsert_new: "table_lookup key (key r) rows = None \<Longrightarrow> table_upsert key merge r rows = rows @ [r]"
  by (induction rows) (auto split: if_splits)

text \<open>An additive measure of the rows changes by the difference between the merged and the stored row.\<close>

lemma upsert_sum:
  fixes f :: "'r \<Rightarrow> int"
  shows "sum_list (map f (table_upsert key merge r rows)) =
    sum_list (map f rows) + (case table_lookup key (key r) rows of None \<Rightarrow> f r | Some x \<Rightarrow> f (merge x r) - f x)"
  by (induction rows) auto

text \<open>New rows with different keys are appended in order.\<close>

lemma bulk_upsert_fresh:
  assumes "distinct (map key rs)" "key ` set rs \<inter> key ` set rows = {}" "key ` set rs \<inter> set touched = {}"
  shows "bulk_upsert key accept merge touched rs rows = Some (rows @ rs, replicate (length rs) (Some True))"
  using assms
proof (induction rs arbitrary: rows touched)
  case (Cons r rs)
  then have "table_lookup key (key r) rows = None" "key r \<notin> set touched" by (auto simp: table_lookup_None)
  moreover have "bulk_upsert key accept merge (key r # touched) rs (rows @ [r]) =
      Some ((rows @ [r]) @ rs, replicate (length rs) (Some True))"
    using Cons.prems by (intro Cons.IH) auto
  ultimately show ?case by (simp add: upsert_new)
qed simp

lemma bulk_upsert_unique:
  "bulk_upsert key accept merge touched rs rows = Some (rows', fs) \<Longrightarrow> table_unique key rows \<Longrightarrow> table_unique key rows'"
proof (induction rs arbitrary: rows touched fs)
  case (Cons r rs)
  then show ?case using upsert_unique [of rows r] by (auto split: if_splits option.splits)
qed simp

text \<open>A stored row only changes through accepted merges.\<close>

lemma bulk_upsert_rel:
  assumes "bulk_upsert key accept merge touched rs rows = Some (rows', fs)"
    and "\<And>x. R x x" "\<And>x y z. R x y \<Longrightarrow> R y z \<Longrightarrow> R x z"
    and "\<And>x r. key x = key r \<Longrightarrow> accept x r \<Longrightarrow> R x (merge x r)"
    and "table_lookup key k rows = Some x"
  shows "\<exists>y. table_lookup key k rows' = Some y \<and> R x y"
  using assms(1,5)
proof (induction rs arbitrary: rows touched fs x)
  case (Cons r rs)
  show ?case
  proof (cases "table_lookup key (key r) rows")
    case None
    then have "table_lookup key k (table_upsert key merge r rows) = Some x"
      using Cons.prems(2) by (auto simp: upsert_lookup)
    with Cons.IH Cons.prems(1) None show ?thesis by (auto split: if_splits)
  next
    case (Some z)
    show ?thesis
    proof (cases "accept z r")
      case False
      with Cons.IH Cons.prems Some show ?thesis by (auto split: if_splits)
    next
      case True
      have z: "key z = key r" using table_lookup_SomeD [OF Some] by simp
      obtain y where y: "table_lookup key k (table_upsert key merge r rows) = Some y" "R x y"
        using Cons.prems(2) Some assms(2) assms(4) [OF z True] by (cases "k = key r") (simp_all add: upsert_lookup)
      from Cons.prems(1) Some True obtain fs' where
        "bulk_upsert key accept merge (key r # touched) rs (table_upsert key merge r rows) = Some (rows', fs')"
        by (auto split: if_splits)
      from Cons.IH [OF this y(1)] y(2) assms(3) show ?thesis by blast
    qed
  qed
qed (use assms(2) in auto)

lemma upsert_twice:
  assumes "\<And>x. key x = key r \<Longrightarrow> merge (merge x r) r = merge x r" "merge r r = r"
  shows "table_upsert key merge r (table_upsert key merge r rows) = table_upsert key merge r rows"
  using assms by (induction rows) (auto simp: merge_key)

end

end
