(* ===== verification/Store_DB.thy ===== *)
theory Store_DB
  imports Identity Retry Keyed_Table "HOL-Library.Product_Lexorder"
begin

text \<open>
  The database of the indexer and the repositories the ingester writes through
  (\<^verbatim>\<open>internal/store/postgres\<close>, the SQL function \<^verbatim>\<open>finality_rank\<close> of migration 020, the keys of the
  migrations). A table with a unique key is a list of rows (theory \<^verbatim>\<open>Keyed_Table\<close>), \<^verbatim>\<open>balances\<close> and
  \<^verbatim>\<open>pipeline_watermarks\<close> are maps from their unique key. A repository method is the effect of its
  statements on this value: \<^verbatim>\<open>Inl\<close> is the error PostgreSQL raises. Failures of the connection are not
  here; the callers inject them at every statement.
  Generated identifiers come from the counter \<^verbatim>\<open>db_next\<close>. \<^verbatim>\<open>numeric(78,0)\<close> columns hold integers: a
  text is accepted if it is a decimal integer of at most 78 digits, surrounding spaces ignored.
  \<^verbatim>\<open>UPDATE ... FROM\<close> uses one unspecified joined row per target row; the parameter \<^verbatim>\<open>pick\<close> chooses it.
\<close>

section \<open>Numeric columns\<close>

definition numeric78 :: "string \<Rightarrow> int option" where
  "numeric78 s = (case SetString (TrimSpace s) of
     None \<Rightarrow> None | Some d \<Rightarrow> if \<bar>d\<bar> < 10 ^ 78 then Some d else None)"

definition delta_val :: "string \<Rightarrow> int" where
  "delta_val s = (case SetString (TrimSpace s) of None \<Rightarrow> 0 | Some d \<Rightarrow> d)"

lemma numeric78_big_String: "numeric78 (big_String i) = (if \<bar>i\<bar> < 10 ^ 78 then Some i else None)"
  by (simp add: numeric78_def TrimSpace_big_String SetString_big_String)

lemma delta_val_big_String [simp]: "delta_val (big_String i) = i"
  by (simp add: delta_val_def TrimSpace_big_String SetString_big_String)

lemma numeric78_delta_val: "numeric78 s = Some d \<Longrightarrow> delta_val s = d"
  by (auto simp: numeric78_def delta_val_def split: option.splits if_splits)

section \<open>The tables\<close>

type_synonym balance_key = "string \<times> uuid \<times> string"
type_synonym balance_pk = "chain \<times> network \<times> balance_key"

record token_deny_log =
  dl_TokenID :: uuid
  dl_ContractAddress :: string
  dl_Action :: string
  dl_Reason :: string
  dl_Source :: string

record db =
  db_transactions :: "transaction_row list"
  db_tokens :: "token_row list"
  db_denyLog :: "token_deny_log list"
  db_events :: "balance_event list"
  db_balances :: "balance_pk \<rightharpoonup> balance_row"
  db_blocks :: "indexed_block list"
  db_watermarks :: "chain \<times> network \<rightharpoonup> int"
  db_next :: uuid

definition empty_db :: db where
  "empty_db = \<lparr>db_transactions = [], db_tokens = [], db_denyLog = [], db_events = [], db_balances = Map.empty,
     db_blocks = [], db_watermarks = Map.empty, db_next = 1\<rparr>"

definition err_twice :: gerr where
  "err_twice = ErrMsg ''ON CONFLICT DO UPDATE command cannot affect row a second time''"
definition err_numeric :: gerr where
  "err_numeric = ErrMsg ''invalid input syntax for type numeric''"
definition err_overflow :: gerr where
  "err_overflow = ErrMsg ''numeric field overflow''"
definition err_unique :: gerr where
  "err_unique = ErrMsg ''duplicate key value violates unique constraint''"

text \<open>Every proposed row takes an identifier, also the one that then conflicts.\<close>

definition number_rows :: "(uuid \<Rightarrow> 'r \<Rightarrow> 'r) \<Rightarrow> uuid \<Rightarrow> 'r list \<Rightarrow> 'r list" where
  "number_rows set_id n rs = map (\<lambda>(i, r). set_id i r) (zip [n..<n + length rs] rs)"

lemma length_number_rows [simp]: "length (number_rows f n rs) = length rs"
  by (simp add: number_rows_def)

lemma map_number_rows: "(\<And>i r. g (f i r) = g r) \<Longrightarrow> map g (number_rows f n rs) = map g rs"
proof -
  assume "\<And>i r. g (f i r) = g r"
  then have "map g (number_rows f n rs) = map (g \<circ> snd) (zip [n..<n + length rs] rs)"
    by (simp add: number_rows_def case_prod_beta)
  also have "\<dots> = map g rs" by (simp flip: map_map)
  finally show ?thesis .
qed

section \<open>Transactions (\<^verbatim>\<open>transaction_repo.go\<close>)\<close>

definition tr_key :: "transaction_row \<Rightarrow> chain \<times> network \<times> string" where
  "tr_key t = (tr_Chain t, tr_Network t, tr_TxHash t)"

text \<open>\<^verbatim>\<open>DO UPDATE SET chain = transactions.chain\<close> leaves the stored row as it is.\<close>

definition tr_merge :: "transaction_row \<Rightarrow> transaction_row \<Rightarrow> transaction_row" where
  "tr_merge old new = old\<lparr>tr_Chain := tr_Chain old\<rparr>"

definition tx_UpsertTx :: "transaction_row \<Rightarrow> db \<Rightarrow> gerr + (uuid \<times> db)" where
  "tx_UpsertTx t d =
     (let rows = table_upsert tr_key tr_merge (t\<lparr>tr_ID := db_next d\<rparr>) (db_transactions d)
      in case table_lookup tr_key (tr_key t) rows of
           None \<Rightarrow> Inl (ErrMsg ''upsert transaction: no rows'')
         | Some r \<Rightarrow> Inr (tr_ID r, d\<lparr>db_transactions := rows, db_next := db_next d + 1\<rparr>))"

definition tx_BulkUpsertTx :: "transaction_row list \<Rightarrow> db \<Rightarrow> gerr + ((string \<rightharpoonup> uuid) \<times> db)" where
  "tx_BulkUpsertTx txns d =
     (if txns = [] then Inr (Map.empty, d)
      else case bulk_upsert tr_key (\<lambda>x r. True) tr_merge [] (number_rows (\<lambda>i r. r\<lparr>tr_ID := i\<rparr>) (db_next d) txns) (db_transactions d) of
        None \<Rightarrow> Inl (ErrWrap ''bulk upsert transactions: '' err_twice)
      | Some (rows, _) \<Rightarrow>
          Inr (map_of (rev (map (\<lambda>t. (tr_TxHash t, tr_ID (the (table_lookup tr_key (tr_key t) rows)))) txns)),
               d\<lparr>db_transactions := rows, db_next := db_next d + length txns\<rparr>))"

section \<open>Tokens (\<^verbatim>\<open>token_repo.go\<close>)\<close>

definition tk_key :: "token_row \<Rightarrow> chain \<times> network \<times> string" where
  "tk_key t = (tk_Chain t, tk_Network t, tk_ContractAddress t)"

definition tk_merge :: "token_row \<Rightarrow> token_row \<Rightarrow> token_row" where
  "tk_merge old new = old\<lparr>tk_Chain := tk_Chain old\<rparr>"

text \<open>The columns the statement does not list take their defaults: not denied, no score.\<close>

definition new_token :: "uuid \<Rightarrow> token_row \<Rightarrow> token_row" where
  "new_token i t = t\<lparr>tk_ID := i, tk_IsDenied := False, tk_DeniedReason := '''', tk_ScamScore := 0,
     tk_ScamSignals := [], tk_DeniedSource := ''''\<rparr>"

definition tk_UpsertTx :: "token_row \<Rightarrow> db \<Rightarrow> gerr + (uuid \<times> db)" where
  "tk_UpsertTx t d =
     (let rows = table_upsert tk_key tk_merge (new_token (db_next d) t) (db_tokens d)
      in case table_lookup tk_key (tk_key t) rows of
           None \<Rightarrow> Inl (ErrMsg ''upsert token: no rows'')
         | Some r \<Rightarrow> Inr (tk_ID r, d\<lparr>db_tokens := rows, db_next := db_next d + 1\<rparr>))"

definition tk_FindByID :: "uuid \<Rightarrow> db \<Rightarrow> token_row option" where
  "tk_FindByID i d = find (\<lambda>t. tk_ID t = i) (db_tokens d)"

definition tk_BulkUpsertTx :: "token_row list \<Rightarrow> db \<Rightarrow> gerr + ((string \<rightharpoonup> uuid) \<times> db)" where
  "tk_BulkUpsertTx tokens d =
     (if tokens = [] then Inr (Map.empty, d)
      else case bulk_upsert tk_key (\<lambda>x r. True) tk_merge [] (number_rows new_token (db_next d) tokens) (db_tokens d) of
        None \<Rightarrow> Inl (ErrWrap ''bulk upsert tokens: '' err_twice)
      | Some (rows, _) \<Rightarrow>
          Inr (map_of (rev (map (\<lambda>t. (tk_ContractAddress t, tk_ID (the (table_lookup tk_key (tk_key t) rows)))) tokens)),
               d\<lparr>db_tokens := rows, db_next := db_next d + length tokens\<rparr>))"

definition DenyTokenTx ::
  "chain \<Rightarrow> network \<Rightarrow> string \<Rightarrow> string \<Rightarrow> string \<Rightarrow> int \<Rightarrow> string list \<Rightarrow> db \<Rightarrow> db" where
  "DenyTokenTx c n contract reason source score signals d =
     (let hit = (\<lambda>t. tk_Chain t = c \<and> tk_Network t = n \<and> tk_ContractAddress t = contract) in
      d\<lparr>db_tokens := map (\<lambda>t. if hit t
            then t\<lparr>tk_IsDenied := True, tk_DeniedReason := reason, tk_ScamScore := score, tk_ScamSignals := signals,
                   tk_DeniedSource := source\<rparr>
            else t) (db_tokens d),
        db_denyLog := db_denyLog d @ map (\<lambda>t. \<lparr>dl_TokenID = tk_ID t, dl_ContractAddress = contract, dl_Action = ''deny'',
            dl_Reason = reason, dl_Source = source\<rparr>) (filter hit (db_tokens d))\<rparr>)"

definition BulkIsDeniedTx :: "chain \<Rightarrow> network \<Rightarrow> string list \<Rightarrow> db \<Rightarrow> string \<rightharpoonup> bool" where
  "BulkIsDeniedTx c n contracts d =
     (if contracts = [] then Map.empty
      else map_of (rev (map (\<lambda>t. (tk_ContractAddress t, tk_IsDenied t))
        (filter (\<lambda>t. tk_Chain t = c \<and> tk_Network t = n \<and> tk_ContractAddress t \<in> set contracts) (db_tokens d)))))"

section \<open>Balance events (\<^verbatim>\<open>balance_event_repo.go\<close>)\<close>

text \<open>Migration 020; \<^verbatim>\<open>TRIM\<close> removes blanks only.\<close>

definition sql_trim :: "string \<Rightarrow> string" where
  "sql_trim s = rev (dropWhile (\<lambda>c. c = CHR '' '') (rev (dropWhile (\<lambda>c. c = CHR '' '') s)))"

definition finality_rank :: "string \<Rightarrow> nat" where
  "finality_rank state =
     (let s = ToLower (sql_trim state) in
      if s = ''finalized'' then 4 else if s = ''safe'' then 3 else if s = ''confirmed'' then 2
      else if s = ''pending'' then 1 else 0)"

text \<open>The unique index on \<^verbatim>\<open>event_id\<close> is partial: rows with an empty \<^verbatim>\<open>event_id\<close> never conflict.\<close>

definition be_key :: "balance_event \<Rightarrow> string \<times> uuid" where
  "be_key e = (be_EventID e, if be_EventID e = '''' then be_ID e else 0)"

definition be_accept :: "balance_event \<Rightarrow> balance_event \<Rightarrow> bool" where
  "be_accept old new \<longleftrightarrow> finality_rank (be_FinalityState new) \<ge> finality_rank (be_FinalityState old)"

definition be_merge :: "balance_event \<Rightarrow> balance_event \<Rightarrow> balance_event" where
  "be_merge old new = old\<lparr>
     be_FinalityState := be_FinalityState new,
     be_BalanceApplied := (if be_BalanceApplied new \<and> \<not> be_BalanceApplied old then True else be_BalanceApplied old),
     be_BlockHash := (if be_BlockHash new = '''' then be_BlockHash old else be_BlockHash new),
     be_TxIndex := (if be_TxIndex new \<noteq> 0 then be_TxIndex new else be_TxIndex old),
     be_BlockCursor := max (be_BlockCursor old) (be_BlockCursor new),
     be_BlockTime := (case (be_BlockTime old, be_BlockTime new) of
        (Some a, Some b) \<Rightarrow> Some (max a b) | (Some a, None) \<Rightarrow> Some a | (None, b) \<Rightarrow> b),
     be_ChainData := be_ChainData new,
     be_DecoderVersion := (if be_DecoderVersion new = '''' then be_DecoderVersion old else be_DecoderVersion new),
     be_SchemaVersion := (if be_SchemaVersion new = '''' then be_SchemaVersion old else be_SchemaVersion new)\<rparr>"

definition coalesceBlockTime :: "time \<Rightarrow> time option \<Rightarrow> time" where
  "coalesceBlockTime now bt = (case bt of Some t \<Rightarrow> t | None \<Rightarrow> now)"

text \<open>The proposed row: generated identifier, block time filled in, delta read as a number.\<close>

definition event_row :: "time \<Rightarrow> uuid \<Rightarrow> balance_event \<Rightarrow> balance_event" where
  "event_row now i be = be\<lparr>be_ID := i, be_BlockTime := Some (coalesceBlockTime now (be_BlockTime be)),
     be_Delta := big_String (delta_val (be_Delta be))\<rparr>"

record upsert_result =
  ur_Inserted :: bool
  ur_FinalityCrossed :: bool

definition be_UpsertTx :: "time \<Rightarrow> balance_event \<Rightarrow> db \<Rightarrow> gerr + (upsert_result \<times> db)" where
  "be_UpsertTx now be d =
     (if be_EventID be = '''' then Inl (ErrMsg ''upsert balance event: event_id is required'')
      else if numeric78 (be_Delta be) = None then Inl (ErrWrap ''upsert balance event: '' err_numeric)
      else let row = event_row now (db_next d) be;
               old = table_lookup be_key (be_key row) (db_events d);
               d' = d\<lparr>db_events := table_upsert be_key be_merge row (db_events d), db_next := db_next d + 1\<rparr>
           in case old of
                None \<Rightarrow> Inr (\<lparr>ur_Inserted = True, ur_FinalityCrossed = False\<rparr>, d')
              | Some x \<Rightarrow>
                  if be_accept x row
                  then Inr (\<lparr>ur_Inserted = False, ur_FinalityCrossed = (\<not> be_BalanceApplied x \<and> be_BalanceApplied be)\<rparr>, d')
                  else Inr (\<lparr>ur_Inserted = False, ur_FinalityCrossed = False\<rparr>, d\<lparr>db_next := db_next d + 1\<rparr>))"

text \<open>One multi-row statement: the rows, the flags it returns, and the database after it.\<close>

definition event_statement :: "time \<Rightarrow> balance_event list \<Rightarrow> db \<Rightarrow> gerr + ((balance_event \<times> bool option) list \<times> db)" where
  "event_statement now chunk d =
     (if list_ex (\<lambda>be. numeric78 (be_Delta be) = None) chunk then Inl err_numeric
      else let rows = number_rows (event_row now) (db_next d) chunk in
        case bulk_upsert be_key be_accept be_merge [] rows (db_events d) of
          None \<Rightarrow> Inl err_twice
        | Some (rows', flags) \<Rightarrow>
            Inr (zip rows flags, d\<lparr>db_events := rows', db_next := db_next d + length chunk\<rparr>))"

record bulk_event_result =
  br_InsertedCount :: nat
  br_FinalityCrossedCount :: nat

text \<open>\<^verbatim>\<open>FROM upserted u LEFT JOIN existing e ON u.event_id = e.event_id\<close>, read against the rows before the statement.\<close>

definition joined_flags :: "db \<Rightarrow> db \<Rightarrow> (balance_event \<times> bool option) list \<Rightarrow> (bool \<times> bool \<times> bool) list" where
  "joined_flags d d' us =
     concat (map (\<lambda>(u, flag). case flag of None \<Rightarrow> []
       | Some inserted \<Rightarrow>
          (let now_applied = be_BalanceApplied (the (table_lookup be_key (be_key u) (db_events d')));
               es = filter (\<lambda>e. be_EventID e = be_EventID u) (db_events d)
           in if es = [] then [(inserted, False, now_applied)]
              else map (\<lambda>e. (inserted, be_BalanceApplied e, now_applied)) es)) us)"

definition bulkUpsertPerEvent :: "time \<Rightarrow> balance_event list \<Rightarrow> db \<Rightarrow> gerr + (bulk_event_result \<times> db)" where
  "bulkUpsertPerEvent now events d =
     (if events = [] then Inr (\<lparr>br_InsertedCount = 0, br_FinalityCrossedCount = 0\<rparr>, d)
      else case event_statement now events d of
        Inl e \<Rightarrow> Inl (ErrWrap ''bulk upsert per-event CTE: '' e)
      | Inr (us, d') \<Rightarrow>
          (let js = joined_flags d d' us in
           Inr (\<lparr>br_InsertedCount = length (filter (\<lambda>(inserted, was, now). inserted) js),
                  br_FinalityCrossedCount = length (filter (\<lambda>(inserted, was, now). \<not> inserted \<and> \<not> was \<and> now) js)\<rparr>, d')))"

definition execBulkChunk :: "time \<Rightarrow> balance_event list \<Rightarrow> db \<Rightarrow> gerr + (nat \<times> db)" where
  "execBulkChunk now chunk d = (case event_statement now chunk d of
     Inl e \<Rightarrow> Inl (ErrWrap ''bulk upsert balance events: '' e)
   | Inr (us, d') \<Rightarrow> Inr (length (filter (\<lambda>(u, flag). flag = Some True) us), d'))"

definition bulkChunkSize :: nat where "bulkChunkSize = 1500"
definition smallBatchThreshold :: nat where "smallBatchThreshold = 5"

fun exec_chunks :: "time \<Rightarrow> balance_event list list \<Rightarrow> nat \<Rightarrow> db \<Rightarrow> gerr + (bulk_event_result \<times> db)" where
  "exec_chunks now [] n d = Inr (\<lparr>br_InsertedCount = n, br_FinalityCrossedCount = 0\<rparr>, d)"
| "exec_chunks now (c # cs) n d = (case execBulkChunk now c d of
     Inl e \<Rightarrow> Inl e | Inr (k, d') \<Rightarrow> exec_chunks now cs (n + k) d')"

definition bulkUpsertMultiValues :: "time \<Rightarrow> balance_event list \<Rightarrow> db \<Rightarrow> gerr + (bulk_event_result \<times> db)" where
  "bulkUpsertMultiValues now events d = exec_chunks now (chunks bulkChunkSize events) 0 d"

definition be_BulkUpsertTx :: "time \<Rightarrow> balance_event list \<Rightarrow> db \<Rightarrow> gerr + (bulk_event_result \<times> db)" where
  "be_BulkUpsertTx now events d =
     (if events = [] then Inr (\<lparr>br_InsertedCount = 0, br_FinalityCrossedCount = 0\<rparr>, d)
      else if length events \<le> smallBatchThreshold then bulkUpsertPerEvent now events d
      else bulkUpsertMultiValues now events d)"

definition GetByBlockRange :: "chain \<Rightarrow> network \<Rightarrow> block_no \<Rightarrow> block_no \<Rightarrow> db \<Rightarrow> balance_event list" where
  "GetByBlockRange c n startBlock endBlock d =
     sort_key (\<lambda>e. (be_BlockCursor e, be_TxIndex e, be_EventPath e))
       (filter (\<lambda>e. be_Chain e = c \<and> be_Network e = n \<and> startBlock \<le> be_BlockCursor e \<and> be_BlockCursor e \<le> endBlock)
         (db_events d))"

section \<open>Balances (\<^verbatim>\<open>balance_repo.go\<close>)\<close>

record adjust_item =
  ai_Address :: string
  ai_TokenID :: uuid
  ai_WalletID :: "string option"
  ai_OrgID :: "string option"
  ai_Delta :: string
  ai_Cursor :: int
  ai_TxHash :: string
  ai_BalanceType :: string

definition ai_key :: "adjust_item \<Rightarrow> balance_key" where
  "ai_key i = (ai_Address i, ai_TokenID i, ai_BalanceType i)"

definition new_balance :: "adjust_item \<Rightarrow> balance_row" where
  "new_balance i = \<lparr>bal_WalletID = ai_WalletID i, bal_OrganizationID = ai_OrgID i, bal_Amount = delta_val (ai_Delta i),
     bal_LastUpdatedCursor = ai_Cursor i, bal_LastUpdatedTxHash = ai_TxHash i\<rparr>"

definition adjust_balance :: "balance_row \<Rightarrow> adjust_item \<Rightarrow> balance_row" where
  "adjust_balance b i = b\<lparr>bal_Amount := bal_Amount b + delta_val (ai_Delta i),
     bal_LastUpdatedCursor := max (bal_LastUpdatedCursor b) (ai_Cursor i), bal_LastUpdatedTxHash := ai_TxHash i\<rparr>"

definition amount_ok :: "balance_row \<Rightarrow> bool" where
  "amount_ok b \<longleftrightarrow> \<bar>bal_Amount b\<bar> < 10 ^ 78"

definition AdjustBalanceTx :: "chain \<Rightarrow> network \<Rightarrow> adjust_item \<Rightarrow> db \<Rightarrow> gerr + db" where
  "AdjustBalanceTx c n req d =
     (if numeric78 (ai_Delta req) = None then Inl (ErrWrap ''adjust balance: '' err_numeric)
      else let row = (case db_balances d (c, n, ai_key req) of None \<Rightarrow> new_balance req | Some b \<Rightarrow> adjust_balance b req)
           in if amount_ok row then Inr (d\<lparr>db_balances := (db_balances d)((c, n, ai_key req) \<mapsto> row)\<rparr>)
              else Inl (ErrWrap ''adjust balance: '' err_overflow))"

definition GetBalance :: "chain \<Rightarrow> network \<Rightarrow> balance_key \<Rightarrow> db \<Rightarrow> int" where
  "GetBalance c n k d = (case db_balances d (c, n, k) of None \<Rightarrow> 0 | Some b \<Rightarrow> bal_Amount b)"

record balance_info =
  bi_Amount :: string
  bi_Exists :: bool

definition BulkGetAmountWithExistsTx :: "chain \<Rightarrow> network \<Rightarrow> balance_key list \<Rightarrow> db \<Rightarrow> balance_key \<rightharpoonup> balance_info" where
  "BulkGetAmountWithExistsTx c n keys d =
     (\<lambda>k. if k \<notin> set keys then None
          else case db_balances d (c, n, k) of
            None \<Rightarrow> Some \<lparr>bi_Amount = ''0'', bi_Exists = False\<rparr>
          | Some b \<Rightarrow> Some \<lparr>bi_Amount = big_String (bal_Amount b), bi_Exists = True\<rparr>)"

text \<open>
  \<^verbatim>\<open>BulkAdjustBalanceTx\<close>: a stored balance joined by several items is updated with one of them; the
  items that match no stored balance are inserted, and two of them with one key violate the
  unique constraint.
\<close>

definition bulk_adjusted :: "(adjust_item list \<Rightarrow> adjust_item) \<Rightarrow> balance_row option \<Rightarrow> adjust_item list \<Rightarrow> balance_row option" where
  "bulk_adjusted pick b items = (case items of [] \<Rightarrow> b
     | i # _ \<Rightarrow> (case b of Some r \<Rightarrow> Some (adjust_balance r (pick items)) | None \<Rightarrow> Some (new_balance i)))"

definition items_for :: "balance_key \<Rightarrow> adjust_item list \<Rightarrow> adjust_item list" where
  "items_for k items = filter (\<lambda>i. ai_key i = k) items"

definition BulkAdjustBalanceTx ::
  "(adjust_item list \<Rightarrow> adjust_item) \<Rightarrow> chain \<Rightarrow> network \<Rightarrow> adjust_item list \<Rightarrow> db \<Rightarrow> gerr + db" where
  "BulkAdjustBalanceTx pick c n items d =
     (let unseen = filter (\<lambda>i. db_balances d (c, n, ai_key i) = None) items;
          bals = (\<lambda>(c', n', k). if c' = c \<and> n' = n
             then bulk_adjusted pick (db_balances d (c', n', k)) (items_for k items) else db_balances d (c', n', k))
      in if items = [] then Inr d
         else if list_ex (\<lambda>i. numeric78 (ai_Delta i) = None) items then Inl (ErrWrap ''bulk adjust balances: '' err_numeric)
         else if \<not> distinct (map ai_key unseen) then Inl (ErrWrap ''bulk adjust balances: '' err_unique)
         else if list_ex (\<lambda>i. \<not> amount_ok (the (bals (c, n, ai_key i)))) items then Inl (ErrWrap ''bulk adjust balances: '' err_overflow)
         else Inr (d\<lparr>db_balances := bals\<rparr>))"

section \<open>Indexed blocks (\<^verbatim>\<open>indexed_block_repo.go\<close>)\<close>

definition ib_key :: "indexed_block \<Rightarrow> chain \<times> network \<times> block_no" where
  "ib_key b = (ib_Chain b, ib_Network b, ib_BlockNumber b)"

definition ib_merge :: "indexed_block \<Rightarrow> indexed_block \<Rightarrow> indexed_block" where
  "ib_merge old new = old\<lparr>ib_BlockHash := ib_BlockHash new, ib_ParentHash := ib_ParentHash new,
     ib_FinalityState := ib_FinalityState new, ib_BlockTime := ib_BlockTime new\<rparr>"

definition ib_UpsertTx :: "indexed_block \<Rightarrow> db \<Rightarrow> db" where
  "ib_UpsertTx b d = d\<lparr>db_blocks := table_upsert ib_key ib_merge b (db_blocks d)\<rparr>"

definition ib_BulkUpsertTx :: "indexed_block list \<Rightarrow> db \<Rightarrow> gerr + db" where
  "ib_BulkUpsertTx blocks d =
     (if blocks = [] then Inr d
      else case bulk_upsert ib_key (\<lambda>x r. True) ib_merge [] blocks (db_blocks d) of
        None \<Rightarrow> Inl (ErrWrap ''bulk upsert indexed blocks: '' err_twice)
      | Some (rows, _) \<Rightarrow> Inr (d\<lparr>db_blocks := rows\<rparr>))"

text \<open>The newest 1000 blocks that are not finalized, in ascending order.\<close>

definition GetUnfinalized :: "chain \<Rightarrow> network \<Rightarrow> db \<Rightarrow> indexed_block list" where
  "GetUnfinalized c n d =
     sort_key ib_BlockNumber (take 1000 (rev (sort_key ib_BlockNumber
       (filter (\<lambda>b. ib_Chain b = c \<and> ib_Network b = n \<and> ib_FinalityState b \<noteq> ''finalized'') (db_blocks d)))))"

definition GetByBlockNumber :: "chain \<Rightarrow> network \<Rightarrow> block_no \<Rightarrow> db \<Rightarrow> indexed_block option" where
  "GetByBlockNumber c n num d = table_lookup ib_key (c, n, num) (db_blocks d)"

definition UpdateFinalityTx :: "chain \<Rightarrow> network \<Rightarrow> block_no \<Rightarrow> string \<Rightarrow> db \<Rightarrow> db" where
  "UpdateFinalityTx c n upToBlock newState d =
     d\<lparr>db_blocks := map (\<lambda>b. if ib_Chain b = c \<and> ib_Network b = n \<and> ib_BlockNumber b \<le> upToBlock \<and> ib_FinalityState b \<noteq> newState
         then b\<lparr>ib_FinalityState := newState\<rparr> else b) (db_blocks d)\<rparr>"

definition DeleteFromBlockTx :: "chain \<Rightarrow> network \<Rightarrow> block_no \<Rightarrow> db \<Rightarrow> nat \<times> db" where
  "DeleteFromBlockTx c n fromBlock d =
     (let hit = (\<lambda>b. ib_Chain b = c \<and> ib_Network b = n \<and> ib_BlockNumber b \<ge> fromBlock) in
      (length (filter hit (db_blocks d)), d\<lparr>db_blocks := filter (\<lambda>b. \<not> hit b) (db_blocks d)\<rparr>))"

definition PurgeFinalizedBefore :: "chain \<Rightarrow> network \<Rightarrow> block_no \<Rightarrow> db \<Rightarrow> nat \<times> db" where
  "PurgeFinalizedBefore c n beforeBlock d =
     (let hit = (\<lambda>b. ib_Chain b = c \<and> ib_Network b = n \<and> ib_FinalityState b = ''finalized'' \<and> ib_BlockNumber b < beforeBlock) in
      (length (filter hit (db_blocks d)), d\<lparr>db_blocks := filter (\<lambda>b. \<not> hit b) (db_blocks d)\<rparr>))"

section \<open>Watermarks (\<^verbatim>\<open>indexer_config_repo.go\<close>)\<close>

definition GetWatermark :: "chain \<Rightarrow> network \<Rightarrow> db \<Rightarrow> int option" where
  "GetWatermark c n d = db_watermarks d (c, n)"

definition UpdateWatermarkTx :: "chain \<Rightarrow> network \<Rightarrow> int \<Rightarrow> db \<Rightarrow> db" where
  "UpdateWatermarkTx c n sequence d =
     d\<lparr>db_watermarks := (db_watermarks d)((c, n) \<mapsto>
        (case db_watermarks d (c, n) of None \<Rightarrow> sequence | Some w \<Rightarrow> max w sequence))\<rparr>"

definition RewindWatermarkTx :: "chain \<Rightarrow> network \<Rightarrow> int \<Rightarrow> db \<Rightarrow> db" where
  "RewindWatermarkTx c n sequence d = d\<lparr>db_watermarks := (db_watermarks d)((c, n) \<mapsto> sequence)\<rparr>"

section \<open>The tables respect their keys\<close>

interpretation transactions: keyed_table tr_key tr_merge
  by unfold_locales (simp add: tr_key_def tr_merge_def)

interpretation tokens: keyed_table tk_key tk_merge
  by unfold_locales (simp add: tk_key_def tk_merge_def)

interpretation events: keyed_table be_key be_merge
  by unfold_locales (simp add: be_key_def be_merge_def)

interpretation blocks: keyed_table ib_key ib_merge
  by unfold_locales (simp add: ib_key_def ib_merge_def)

end
