(* ===== verification/Ingester_Rules.thy ===== *)
theory Ingester_Rules
  imports Store_DB Go_Text
begin

text \<open>
  The decisions of the ingester that touch no state (\<^verbatim>\<open>internal/pipeline/ingester/ingester.go\<close>): cursor
  drift and rollback points, decimal arithmetic, the finality and dust thresholds, scam signals,
  the synthetic fee event of a failed transaction, native tokens, reversal and promotion items, and
  the retry delay on 64-bit durations. \<^verbatim>\<open>json.Unmarshal\<close> into a string map is the parameter \<^verbatim>\<open>unmarshal\<close>,
  \<^verbatim>\<open>rand.Int64N\<close> the parameter \<^verbatim>\<open>rnd\<close>.
\<close>

section \<open>Cursors\<close>

definition cursor_identity :: "chain \<Rightarrow> string \<Rightarrow> string" where
  "cursor_identity c v = (let i = CanonicalSignatureIdentity c v in if i = '''' then TrimSpace v else i)"

definition isCanonicalityDrift :: "normalized_batch \<Rightarrow> bool" where
  "isCanonicalityDrift batch = (case (nb_PreviousCursorValue batch, nb_NewCursorValue batch) of
     (Some prev, Some new) \<Rightarrow>
       if nb_PreviousCursorSequence batch = 0 then False
       else if nb_NewCursorSequence batch < nb_PreviousCursorSequence batch then True
       else if nb_NewCursorSequence batch = nb_PreviousCursorSequence batch \<and>
               cursor_identity (nb_Chain batch) prev \<noteq> cursor_identity (nb_Chain batch) new
       then nb_Transactions batch = [] else False
   | _ \<Rightarrow> False)"

definition isBTCRestartAnchorReplay :: "normalized_batch \<Rightarrow> bool" where
  "isBTCRestartAnchorReplay batch =
     (if nb_Chain batch \<noteq> ChainBTC then False
      else case (nb_PreviousCursorValue batch, nb_NewCursorValue batch) of
        (Some prev, Some new) \<Rightarrow>
          if nb_PreviousCursorSequence batch \<noteq> nb_NewCursorSequence batch \<or> nb_NewCursorSequence batch \<le> 0 then False
          else if nb_Transactions batch \<noteq> [] then False
          else let p = cursor_identity (nb_Chain batch) prev; q = cursor_identity (nb_Chain batch) new
               in if p = '''' \<or> q = '''' then False else p \<noteq> q
      | _ \<Rightarrow> False)"

definition rollbackBTCEarliestCompetingSequence :: "normalized_batch \<Rightarrow> int option" where
  "rollbackBTCEarliestCompetingSequence batch =
     (if nb_Chain batch \<noteq> ChainBTC \<or> nb_Transactions batch = [] then None
      else let earliest = foldl (\<lambda>acc tx. if nt_BlockCursor tx \<le> 0 then acc
                   else if acc = 0 \<or> nt_BlockCursor tx < acc then nt_BlockCursor tx else acc) 0 (nb_Transactions batch)
           in if earliest = 0 \<or> earliest \<ge> nb_NewCursorSequence batch then None else Some earliest)"

definition rollbackForkCursorSequence :: "normalized_batch \<Rightarrow> int" where
  "rollbackForkCursorSequence batch =
     (if nb_NewCursorSequence batch < nb_PreviousCursorSequence batch
      then (case rollbackBTCEarliestCompetingSequence batch of Some floor \<Rightarrow> floor | None \<Rightarrow> nb_NewCursorSequence batch)
      else nb_PreviousCursorSequence batch)"

definition withRollbackForkCursor :: "normalized_batch \<Rightarrow> normalized_batch" where
  "withRollbackForkCursor batch = batch\<lparr>nb_PreviousCursorSequence := rollbackForkCursorSequence batch\<rparr>"

definition shouldContinueCompetingBranchReplay :: "normalized_batch \<Rightarrow> bool" where
  "shouldContinueCompetingBranchReplay batch \<longleftrightarrow> nb_Chain batch = ChainBTC \<and> nb_Transactions batch \<noteq> []"

definition shouldAdvanceCommitCheckpoint :: "normalized_batch \<Rightarrow> bool" where
  "shouldAdvanceCommitCheckpoint batch =
     (if nb_Transactions batch \<noteq> [] then True
      else if nb_NewCursorSequence batch \<noteq> nb_PreviousCursorSequence batch then True
      else case (nb_PreviousCursorValue batch, nb_NewCursorValue batch) of
        (None, None) \<Rightarrow> False
      | (Some p, Some q) \<Rightarrow> p \<noteq> q
      | _ \<Rightarrow> True)"

section \<open>Decimal amounts and thresholds\<close>

definition addDecimalStrings :: "string \<Rightarrow> string \<Rightarrow> decimal_error + string" where
  "addDecimalStrings a b = (case SetString (TrimSpace a) of
     None \<Rightarrow> Inl (InvalidDecimal a)
   | Some left \<Rightarrow> (case SetString (TrimSpace b) of
       None \<Rightarrow> Inl (InvalidDecimal b)
     | Some right \<Rightarrow>
        (let result = big_String (left + right);
             digits = (if hd result = CHR ''-'' then tl result else result)
         in if length digits > 78 then Inl (BalanceOverflow (length digits)) else Inr result)))"

definition finalityStateRank :: "string \<Rightarrow> int" where
  "finalityStateRank state =
     (let s = ToLower (TrimSpace state) in
      if s = '''' then 4
      else if s = ''processed'' \<or> s = ''pending'' \<or> s = ''latest'' \<or> s = ''unsafe'' then 1
      else if s = ''confirmed'' \<or> s = ''accepted'' then 2
      else if s = ''safe'' then 3
      else if s = ''finalized'' then 4
      else 0)"

definition meetsBalanceThreshold :: "chain \<Rightarrow> string \<Rightarrow> token_type \<Rightarrow> string \<Rightarrow> bool" where
  "meetsBalanceThreshold c finality tokenType amount =
     (let finalityOK = (if c = ChainSolana then True else finalityStateRank finality \<ge> 2) in
      if \<not> finalityOK then False
      else if tokenType = TokenTypeNative then True
      else case SetString (TrimSpace amount) of None \<Rightarrow> False | Some v \<Rightarrow> v \<noteq> 0)"

definition detectScamSignal ::
  "(string \<Rightarrow> (string \<rightharpoonup> string) option) \<Rightarrow> chain \<Rightarrow> normalized_balance_event \<Rightarrow> string \<Rightarrow> bool \<Rightarrow> string" where
  "detectScamSignal unmarshal c be balanceBefore balanceExists =
     (if ne_TokenType be = TokenTypeNative then ''''
      else if c = ChainBTC then ''''
      else let signal = (case ne_ChainData be of
                 Some cd \<Rightarrow> (if Contains cd ''\"scam_signal\"''
                    then (case unmarshal cd of Some m \<Rightarrow> (case m ''scam_signal'' of Some s \<Rightarrow> s | None \<Rightarrow> '''') | None \<Rightarrow> '''')
                    else '''')
               | None \<Rightarrow> '''');
               trimmed = TrimSpace (ne_Delta be)
           in if signal \<noteq> '''' then signal
              else if length trimmed > 1 \<and> hd trimmed = CHR ''-'' \<and> tl trimmed \<noteq> ''0'' \<and> \<not> balanceExists
              then ''zero_balance_withdrawal'' else '''')"

section \<open>Tokens and the synthetic fee event\<close>

definition emptyJSONObject :: string where "emptyJSONObject = ''{}''"

definition defaultTokenSymbol :: "normalized_balance_event \<Rightarrow> string" where
  "defaultTokenSymbol be =
     (if ne_TokenSymbol be \<noteq> '''' then ne_TokenSymbol be
      else if ne_TokenType be = TokenTypeNative then ''SOL'' else ''UNKNOWN'')"

definition defaultTokenName :: "normalized_balance_event \<Rightarrow> string" where
  "defaultTokenName be =
     (if ne_TokenName be \<noteq> '''' then ne_TokenName be
      else if ne_TokenType be = TokenTypeNative then ''Solana'' else ''Unknown Token'')"

definition nativeTokenContract :: "chain \<Rightarrow> string" where
  "nativeTokenContract c =
     (if c = ChainSolana then ''So11111111111111111111111111111111111111112''
      else if c = ChainBTC then ''btc_native''
      else ''0x0000000000000000000000000000000000000000'')"

definition nativeTokenSymbol :: "chain \<Rightarrow> string" where
  "nativeTokenSymbol c =
     (if c = ChainSolana then ''SOL''
      else if c = ChainEthereum \<or> c = ChainBase \<or> c = ChainArbitrum then ''ETH''
      else if c = ChainPolygon then ''MATIC''
      else if c = ChainBSC then ''BNB''
      else if c = ChainBTC then ''BTC'' else ''NATIVE'')"

definition nativeTokenName :: "chain \<Rightarrow> string" where
  "nativeTokenName c =
     (if c = ChainSolana then ''Solana''
      else if c = ChainEthereum \<or> c = ChainBase \<or> c = ChainArbitrum then ''Ether''
      else if c = ChainPolygon then ''MATIC''
      else if c = ChainBSC then ''BNB''
      else if c = ChainBTC then ''Bitcoin'' else ''Native Token'')"

definition nativeTokenDecimals :: "chain \<Rightarrow> int" where
  "nativeTokenDecimals c = (if c = ChainSolana then 9 else if c = ChainBTC then 8 else 18)"

definition buildFeeOnlyEvent :: "normalized_transaction \<Rightarrow> normalized_batch \<Rightarrow> normalized_balance_event" where
  "buildFeeOnlyEvent ntx batch =
     (let negFee = (if HasPrefix (nt_FeeAmount ntx) ''-'' then nt_FeeAmount ntx else ''-'' @ nt_FeeAmount ntx) in
      \<lparr>ne_OuterInstructionIndex = 0, ne_InnerInstructionIndex = 0, ne_ActivityType = ActivityFee,
       ne_EventAction = ''fee_only_failed_tx'', ne_ProgramID = '''', ne_ContractAddress = nativeTokenContract (nb_Chain batch),
       ne_Address = nt_FeePayer ntx, ne_CounterpartyAddress = '''', ne_Delta = negFee, ne_ChainData = Some emptyJSONObject,
       ne_TokenSymbol = nativeTokenSymbol (nb_Chain batch), ne_TokenName = nativeTokenName (nb_Chain batch),
       ne_TokenDecimals = nativeTokenDecimals (nb_Chain batch), ne_TokenType = TokenTypeNative,
       ne_EventID = ''fee:'' @ nb_Chain batch @ '':'' @ nt_TxHash ntx, ne_BlockHash = nt_BlockHash ntx, ne_TxIndex = 0,
       ne_EventPath = ''fee_only'', ne_EventPathType = ''synthetic'', ne_ActorAddress = '''', ne_AssetType = '''',
       ne_AssetID = '''', ne_FinalityState = '''', ne_DecoderVersion = '''', ne_SchemaVersion = ''''\<rparr>)"

text \<open>The guard in front of it in \<^verbatim>\<open>collectEvents\<close>.\<close>

definition fee_event_due :: "normalized_transaction \<Rightarrow> bool" where
  "fee_event_due ntx \<longleftrightarrow> nt_Status ntx = TxStatusFailed \<and> nt_BalanceEvents ntx = [] \<and>
     nt_FeeAmount ntx \<noteq> '''' \<and> nt_FeeAmount ntx \<noteq> ''0'' \<and> nt_FeePayer ntx \<noteq> ''''"

definition fee_amount_valid :: "normalized_transaction \<Rightarrow> bool" where
  "fee_amount_valid ntx = (case SetString (TrimSpace (nt_FeeAmount ntx)) of None \<Rightarrow> False | Some v \<Rightarrow> \<not> v < 0)"

section \<open>Reversal and promotion items\<close>

record rollback_event =
  rv_TokenID :: uuid
  rv_Address :: string
  rv_Delta :: string
  rv_BlockCursor :: int
  rv_TxHash :: string
  rv_WalletID :: "string option"
  rv_OrganizationID :: "string option"
  rv_ActivityType :: activity_type
  rv_BalanceApplied :: bool

text \<open>\<^verbatim>\<open>scanRollbackEvents\<close> and \<^verbatim>\<open>scanPromotedEvents\<close> read the same columns of a row.\<close>

definition scan_event :: "balance_event \<Rightarrow> rollback_event" where
  "scan_event e = \<lparr>rv_TokenID = be_TokenID e, rv_Address = be_Address e, rv_Delta = be_Delta e, rv_BlockCursor = be_BlockCursor e,
     rv_TxHash = be_TxHash e, rv_WalletID = be_WalletID e, rv_OrganizationID = be_OrganizationID e,
     rv_ActivityType = be_ActivityType e, rv_BalanceApplied = be_BalanceApplied e\<rparr>"

definition event_item :: "rollback_event \<Rightarrow> string \<Rightarrow> string \<Rightarrow> adjust_item" where
  "event_item be delta ty = \<lparr>ai_Address = rv_Address be, ai_TokenID = rv_TokenID be, ai_WalletID = rv_WalletID be,
     ai_OrgID = rv_OrganizationID be, ai_Delta = delta, ai_Cursor = rv_BlockCursor be, ai_TxHash = rv_TxHash be, ai_BalanceType = ty\<rparr>"

definition decimal_gerr :: "decimal_error \<Rightarrow> gerr" where
  "decimal_gerr e = (case e of InvalidDecimal v \<Rightarrow> ErrMsg (''invalid decimal value: '' @ v)
     | BalanceOverflow k \<Rightarrow> ErrMsg (''balance overflow: result has '' @ nat_String k @ '' digits (max 78)''))"

fun buildReversalAdjustItems :: "rollback_event list \<Rightarrow> gerr + adjust_item list" where
  "buildReversalAdjustItems [] = Inr []"
| "buildReversalAdjustItems (be # events) =
     (if \<not> rv_BalanceApplied be then buildReversalAdjustItems events
      else case NegateDecimalString (rv_Delta be) of
        Inl e \<Rightarrow> Inl (ErrWrap (''negate delta for '' @ rv_TxHash be @ '': '') (decimal_gerr e))
      | Inr invertedDelta \<Rightarrow> (case buildReversalAdjustItems events of
          Inl e \<Rightarrow> Inl e
        | Inr items \<Rightarrow> Inr (event_item be invertedDelta '''' #
            (if IsStakingActivity (rv_ActivityType be) then event_item be (rv_Delta be) ''staked'' # items else items))))"

fun buildPromotionAdjustItems :: "rollback_event list \<Rightarrow> gerr + adjust_item list" where
  "buildPromotionAdjustItems [] = Inr []"
| "buildPromotionAdjustItems (pe # events) =
     (if IsStakingActivity (rv_ActivityType pe)
      then (case NegateDecimalString (rv_Delta pe) of
          Inl e \<Rightarrow> Inl (ErrWrap ''negate staking delta: '' (decimal_gerr e))
        | Inr invertedDelta \<Rightarrow> (case buildPromotionAdjustItems events of
            Inl e \<Rightarrow> Inl e
          | Inr items \<Rightarrow> Inr (event_item pe (rv_Delta pe) '''' # event_item pe invertedDelta ''staked'' # items)))
      else (case buildPromotionAdjustItems events of
          Inl e \<Rightarrow> Inl e | Inr items \<Rightarrow> Inr (event_item pe (rv_Delta pe) '''' # items)))"

section \<open>Retry delay\<close>

definition effectiveRetryMaxAttempts :: "int \<Rightarrow> nat" where
  "effectiveRetryMaxAttempts retryMaxAttempts = (if retryMaxAttempts \<le> 0 then 1 else nat retryMaxAttempts)"

text \<open>Durations are \<^verbatim>\<open>int64\<close>: multiplication wraps.\<close>

fun double_delay :: "nat \<Rightarrow> duration \<Rightarrow> duration \<Rightarrow> duration" where
  "double_delay 0 delayMax delay = delay"
| "double_delay (Suc n) delayMax delay =
     (let d = wrap64 (delay * 2) in if delayMax > 0 \<and> d \<ge> delayMax then delayMax else double_delay n delayMax d)"

text \<open>None is the panic of \<^verbatim>\<open>rand.Int64N\<close> for an argument that is not positive.\<close>

definition retryDelay :: "(int \<Rightarrow> int) \<Rightarrow> duration \<Rightarrow> duration \<Rightarrow> nat \<Rightarrow> duration option" where
  "retryDelay rnd delayStart delayMax attempt =
     (if delayStart \<le> 0 then Some 0
      else let delay = (if attempt \<le> 1
             then (if delayMax > 0 \<and> delayStart > delayMax then delayMax else delayStart)
             else double_delay (attempt - 1) delayMax delayStart)
        in if delay > 0
           then (if delay div 4 \<le> 0 then None else Some (wrap64 (delay + rnd (delay div 4))))
           else Some delay)"

section \<open>Lemmas\<close>

text \<open>Doubling from a positive start stays between the start and the cap, and never wraps.\<close>

lemma double_delay_bounds:
  assumes "4 \<le> delayMax" "delayMax < 2 ^ 62" "4 \<le> delay" "delay < 2 ^ 62"
  shows "4 \<le> double_delay n delayMax delay \<and> (double_delay n delayMax delay \<le> max delay delayMax) \<and>
    (0 < n \<longrightarrow> double_delay n delayMax delay \<le> delayMax)"
  using assms
proof (induction n arbitrary: delay)
  case (Suc n)
  have w: "wrap64 (delay * 2) = delay * 2" using Suc.prems by (intro wrap64_id) auto
  show ?case
  proof (cases "delay * 2 \<ge> delayMax")
    case True
    then show ?thesis using Suc.prems by (simp add: w Let_def)
  next
    case False
    with Suc.IH [of "delay * 2"] Suc.prems show ?thesis by (simp add: w Let_def max_def split: if_splits)
  qed
qed simp

lemma earliest_fold:
  fixes txs :: "normalized_transaction list"
  defines "f \<equiv> \<lambda>acc tx. if nt_BlockCursor tx \<le> 0 then acc
                   else if acc = 0 \<or> nt_BlockCursor tx < acc then nt_BlockCursor tx else acc"
  assumes "0 \<le> acc"
  shows "0 \<le> foldl f acc txs \<and> (acc \<noteq> 0 \<longrightarrow> foldl f acc txs \<noteq> 0 \<and> foldl f acc txs \<le> acc) \<and>
    (\<forall>tx \<in> set txs. 0 < nt_BlockCursor tx \<longrightarrow> foldl f acc txs \<noteq> 0 \<and> foldl f acc txs \<le> nt_BlockCursor tx)"
  using assms(2)
proof (induction txs arbitrary: acc)
  case (Cons tx txs)
  have nn: "0 \<le> f acc tx" using Cons.prems by (simp add: f_def)
  have st: "acc \<noteq> 0 \<longrightarrow> f acc tx \<noteq> 0 \<and> f acc tx \<le> acc" "0 < nt_BlockCursor tx \<longrightarrow> f acc tx \<noteq> 0 \<and> f acc tx \<le> nt_BlockCursor tx"
    using Cons.prems by (auto simp: f_def)
  from Cons.IH [OF nn] st show ?case by fastforce
qed simp

lemma hd_big_String_sign: "hd (big_String i) = CHR ''-'' \<longleftrightarrow> i < 0"
proof (cases "i < 0")
  case False
  then have "hd (big_String i) = hd (nat_String (nat i))" by (simp add: big_String_def)
  with nat_String_hd_digit [of "nat i"] digit_not_sign show ?thesis using False by metis
qed (simp add: big_String_def)

lemma addDecimalStrings_digits:
  "length (if hd (big_String i) = CHR ''-'' then tl (big_String i) else big_String i) \<le> 78 \<longleftrightarrow> \<bar>i\<bar> < 10 ^ 78"
proof (cases "i < 0")
  case True
  then have "tl (big_String i) = nat_String (nat \<bar>i\<bar>)" by (simp add: big_String_def)
  then show ?thesis using True length_nat_String [of 78 "nat \<bar>i\<bar>"] by (simp add: hd_big_String_sign nat_less_iff)
next
  case False
  then have h: "hd (big_String i) \<noteq> CHR ''-''" by (simp add: hd_big_String_sign)
  from False have "big_String i = nat_String (nat \<bar>i\<bar>)" by (simp add: big_String_def)
  then have "length (big_String i) \<le> 78 \<longleftrightarrow> \<bar>i\<bar> < 10 ^ 78" using length_nat_String [of 78 "nat \<bar>i\<bar>"] by (simp add: nat_less_iff)
  then show ?thesis unfolding if_not_P [OF h] .
qed

lemma addDecimalStrings_Inr:
  "addDecimalStrings a b = Inr s \<longleftrightarrow>
     (\<exists>x y. SetString (TrimSpace a) = Some x \<and> SetString (TrimSpace b) = Some y \<and> \<bar>x + y\<bar> < 10 ^ 78 \<and> s = big_String (x + y))"
proof (cases "SetString (TrimSpace a)"; cases "SetString (TrimSpace b)")
  fix x y assume "SetString (TrimSpace a) = Some x" "SetString (TrimSpace b) = Some y"
  then show ?thesis using addDecimalStrings_digits [of "x + y"] by (auto simp: addDecimalStrings_def Let_def not_less)
qed (simp_all add: addDecimalStrings_def)

section \<open>Properties\<close>

text \<open>The balance arithmetic is exact. \<^verbatim>\<open>addDecimalStrings\<close> succeeds precisely when both texts are
  integers (spaces around them ignored) and the sum has at most 78 digits, and then returns the
  decimal text of the exact sum.\<close>

theorem addDecimalStrings_exact:
  "addDecimalStrings a b = Inr s \<longleftrightarrow>
     (\<exists>x y. SetString (TrimSpace a) = Some x \<and> SetString (TrimSpace b) = Some y \<and> \<bar>x + y\<bar> < 10 ^ 78 \<and> s = big_String (x + y))"
  by (rule addDecimalStrings_Inr)

text \<open>The retry delay is bounded and does not overflow. With a start and a cap of at least 4ns (and
  below \<open>2 ^ 62\<close> ns), every attempt waits at least 4ns and less than 5/4 of the cap.\<close>

theorem ingester_retryDelay_bounded:
  assumes "\<And>n. 0 < n \<Longrightarrow> 0 \<le> rnd n \<and> rnd n < n" "4 \<le> delayStart" "delayStart < 2 ^ 62" "4 \<le> delayMax" "delayMax < 2 ^ 62"
  shows "\<exists>d. retryDelay rnd delayStart delayMax attempt = Some d \<and> 4 \<le> d \<and> 4 * d < 5 * delayMax"
proof -
  define delay where "delay = (if attempt \<le> 1 then (if delayMax > 0 \<and> delayStart > delayMax then delayMax else delayStart)
    else double_delay (attempt - 1) delayMax delayStart)"
  have b: "4 \<le> delay" "delay \<le> delayMax"
    using double_delay_bounds [of delayMax delayStart "attempt - 1"] assms by (auto simp: delay_def)
  have j: "0 \<le> rnd (delay div 4)" "rnd (delay div 4) < delay div 4" using assms(1) [of "delay div 4"] b by auto
  then have "wrap64 (delay + rnd (delay div 4)) = delay + rnd (delay div 4)" using b assms(5) by (intro wrap64_id) auto
  then have "retryDelay rnd delayStart delayMax attempt = Some (delay + rnd (delay div 4))"
    using b assms(2) unfolding retryDelay_def Let_def delay_def [symmetric] by simp
  moreover have "4 * (delay div 4) \<le> delay" by simp
  moreover have "4 * q \<le> delay \<Longrightarrow> r < q \<Longrightarrow> 4 * (delay + r) < 5 * delayMax" for q r using b by presburger
  ultimately have "4 * (delay + rnd (delay div 4)) < 5 * delayMax" using j(2) by blast
  with \<open>retryDelay rnd delayStart delayMax attempt = Some (delay + rnd (delay div 4))\<close> show ?thesis using b j by force
qed

theorem ingester_retryDelay_bounded_witness:
  "\<exists>d. retryDelay (\<lambda>n. n - 1) 100000000 1000000000 3 = Some d \<and> 4 \<le> d \<and> 4 * d < 5 * 1000000000"
  by (rule ingester_retryDelay_bounded) simp_all

text \<open>When a competing branch is replayed after a rollback, the rollback has removed everything from the
  earliest replayed block on: no transaction of the batch with a positive block cursor lies below
  the fork point, and the fork point is not above the new cursor.\<close>

theorem competing_branch_rolled_back:
  assumes "isCanonicalityDrift batch" "shouldContinueCompetingBranchReplay batch"
  shows "rollbackForkCursorSequence batch \<le> nb_NewCursorSequence batch \<and>
    (\<forall>tx \<in> set (nb_Transactions batch). 0 < nt_BlockCursor tx \<longrightarrow> rollbackForkCursorSequence batch \<le> nt_BlockCursor tx)"
proof -
  let ?e = "foldl (\<lambda>acc tx. if nt_BlockCursor tx \<le> 0 then acc
    else if acc = 0 \<or> nt_BlockCursor tx < acc then nt_BlockCursor tx else acc) 0 (nb_Transactions batch)"
  have btc: "nb_Chain batch = ChainBTC" and txs: "nb_Transactions batch \<noteq> []"
    using assms(2) by (auto simp: shouldContinueCompetingBranchReplay_def)
  have less: "nb_NewCursorSequence batch < nb_PreviousCursorSequence batch"
    using assms(1) txs by (auto simp: isCanonicalityDrift_def split: option.splits if_splits)
  have fork: "rollbackForkCursorSequence batch = (if ?e = 0 \<or> ?e \<ge> nb_NewCursorSequence batch then nb_NewCursorSequence batch else ?e)"
    using less btc txs by (simp add: rollbackForkCursorSequence_def rollbackBTCEarliestCompetingSequence_def Let_def)
  have "\<forall>tx \<in> set (nb_Transactions batch). 0 < nt_BlockCursor tx \<longrightarrow> ?e \<noteq> 0 \<and> ?e \<le> nt_BlockCursor tx"
    using earliest_fold [of 0 "nb_Transactions batch"] by simp
  then show ?thesis unfolding fork by (auto split: if_splits)
qed

definition sample_tx :: "string \<Rightarrow> int \<Rightarrow> normalized_transaction" where
  "sample_tx h cursor = \<lparr>nt_TxHash = h, nt_BlockCursor = cursor, nt_BlockTime = None, nt_FeeAmount = ''0'', nt_FeePayer = '''',
     nt_Status = TxStatusSuccess, nt_Err = None, nt_ChainData = None, nt_BlockHash = '''', nt_ParentHash = '''', nt_BalanceEvents = []\<rparr>"

definition sample_drift :: normalized_batch where
  "sample_drift = \<lparr>nb_Chain = ''btc'', nb_Network = ''mainnet'', nb_Address = ''bc1'', nb_WalletID = None, nb_OrgID = None,
     nb_PreviousCursorValue = Some ''aa'', nb_PreviousCursorSequence = 20, nb_Transactions = [sample_tx ''t1'' 15, sample_tx ''t2'' 17],
     nb_NewCursorValue = Some ''bb'', nb_NewCursorSequence = 18, nb_BlockScanMode = False, nb_WatchedAddresses = []\<rparr>"

theorem competing_branch_rolled_back_witness:
  "rollbackForkCursorSequence sample_drift \<le> 18 \<and> rollbackForkCursorSequence sample_drift \<le> 15"
proof -
  have "isCanonicalityDrift sample_drift" "shouldContinueCompetingBranchReplay sample_drift"
    by (simp_all add: isCanonicalityDrift_def shouldContinueCompetingBranchReplay_def sample_drift_def)
  from competing_branch_rolled_back [OF this] show ?thesis by (simp add: sample_drift_def sample_tx_def)
qed

end
