(* ===== verification/Cache_Interface.thy ===== *)
theory Cache_Interface
  imports Go_Prelude
begin

text \<open>
  The contract of \<^verbatim>\<open>cache.Cache\<close> (\<^verbatim>\<open>internal/cache/sharded_lru.go\<close>, interface \<^verbatim>\<open>Cache\<close>) as a locale, with
  what a client may conclude from it. \<^verbatim>\<open>lookup\<close> reads the stored entry of a key: its value and its
  expiry. A provider may drop entries at any time (eviction), but it never alters one.
  \<^verbatim>\<open>LRU_Cache\<close> interprets the locale for \<^verbatim>\<open>LRU\<close> and for \<^verbatim>\<open>ShardedLRU\<close>.
\<close>

datatype ('k, 'v) cache_op = CPut time 'k 'v | CGet time 'k

fun op_key :: "('k, 'v) cache_op \<Rightarrow> 'k" where
  "op_key (CPut t k v) = k"
| "op_key (CGet t k) = k"

text \<open>The value and the time of the most recent \<^verbatim>\<open>Put\<close> of a key in a history, oldest call first.\<close>

fun last_put :: "'k \<Rightarrow> ('v \<times> time) option \<Rightarrow> ('k, 'v) cache_op list \<Rightarrow> ('v \<times> time) option" where
  "last_put k p [] = p"
| "last_put k p (CPut t j v # ops) = last_put k (if j = k then Some (v, t) else p) ops"
| "last_put k p (CGet t j # ops) = last_put k p ops"

text \<open>A history of calls on one cache.\<close>

primrec cache_call ::
  "(time \<Rightarrow> 'k \<Rightarrow> 'c \<Rightarrow> 'v option \<times> 'c) \<Rightarrow> (time \<Rightarrow> 'k \<Rightarrow> 'v \<Rightarrow> 'c \<Rightarrow> 'c) \<Rightarrow> ('k, 'v) cache_op \<Rightarrow> 'c \<Rightarrow> 'c" where
  "cache_call cget cput (CPut t k v) c = cput t k v c"
| "cache_call cget cput (CGet t k) c = snd (cget t k c)"

definition cache_run ::
  "(time \<Rightarrow> 'k \<Rightarrow> 'c \<Rightarrow> 'v option \<times> 'c) \<Rightarrow> (time \<Rightarrow> 'k \<Rightarrow> 'v \<Rightarrow> 'c \<Rightarrow> 'c) \<Rightarrow> ('k, 'v) cache_op list \<Rightarrow> 'c \<Rightarrow> 'c" where
  "cache_run cget cput ops c = foldl (\<lambda>x op. cache_call cget cput op x) c ops"

lemma cache_run_simps [simp]:
  "cache_run cget cput [] c = c"
  "cache_run cget cput (op # ops) c = cache_run cget cput ops (cache_call cget cput op c)"
  by (simp_all add: cache_run_def)

locale cache =
  fixes cget :: "time \<Rightarrow> 'k \<Rightarrow> 'c \<Rightarrow> 'v option \<times> 'c"
    and cput :: "time \<Rightarrow> 'k \<Rightarrow> 'v \<Rightarrow> 'c \<Rightarrow> 'c"
    and lookup :: "'c \<Rightarrow> 'k \<Rightarrow> ('v \<times> time) option"
    and inv :: "'c \<Rightarrow> bool"
    and ttl :: "'c \<Rightarrow> duration"
  assumes get_inv: "inv c \<Longrightarrow> inv (snd (cget now k c))"
    and put_inv: "inv c \<Longrightarrow> inv (cput now k v c)"
    and get_ttl: "ttl (snd (cget now k c)) = ttl c"
    and put_ttl: "ttl (cput now k v c) = ttl c"
    and get_result: "inv c \<Longrightarrow> fst (cget now k c) =
      (case lookup c k of None \<Rightarrow> None | Some (v, x) \<Rightarrow> if now > x then None else Some v)"
    and get_frame: "inv c \<Longrightarrow> lookup (snd (cget now k c)) j \<in> {None, lookup c j}"
    and put_same: "inv c \<Longrightarrow> lookup (cput now k v c) k = Some (v, now + ttl c)"
    and put_frame: "inv c \<Longrightarrow> j \<noteq> k \<Longrightarrow> lookup (cput now k v c) j \<in> {None, lookup c j}"
begin

abbreviation call :: "('k, 'v) cache_op \<Rightarrow> 'c \<Rightarrow> 'c" where
  "call \<equiv> cache_call cget cput"

abbreviation run :: "('k, 'v) cache_op list \<Rightarrow> 'c \<Rightarrow> 'c" where
  "run \<equiv> cache_run cget cput"

lemma call_inv: "inv c \<Longrightarrow> inv (call op c)"
  by (cases op) (simp_all add: get_inv put_inv)

lemma call_ttl [simp]: "ttl (call op c) = ttl c"
  by (cases op) (simp_all add: get_ttl put_ttl)

lemma run_inv: "inv c \<Longrightarrow> inv (run ops c)"
  by (induction ops arbitrary: c) (simp_all add: call_inv)

lemma run_ttl: "ttl (run ops c) = ttl c"
  by (induction ops arbitrary: c) simp_all

text \<open>Calls on other keys leave an entry alone or drop it.\<close>

lemma run_frame: "inv c \<Longrightarrow> k \<notin> op_key ` set ops \<Longrightarrow> lookup (run ops c) k \<in> {None, lookup c k}"
proof (induction ops arbitrary: c)
  case (Cons op ops)
  have "lookup (call op c) k \<in> {None, lookup c k}"
    using Cons.prems put_frame [of c k] get_frame [of c] by (cases op) auto
  with Cons.IH [OF call_inv [OF Cons.prems(1), of op]] Cons.prems(2) show ?case by auto
qed simp

text \<open>The stored entry is the one of the last \<^verbatim>\<open>Put\<close>, or it is gone.\<close>

definition agrees :: "'c \<Rightarrow> 'k \<Rightarrow> ('v \<times> time) option \<Rightarrow> bool" where
  "agrees c k p \<longleftrightarrow> lookup c k \<in> {None, map_option (\<lambda>(v, t). (v, t + ttl c)) p}"

lemma run_agrees: "inv c \<Longrightarrow> agrees c k p \<Longrightarrow> agrees (run ops c) k (last_put k p ops)"
proof (induction ops arbitrary: c p)
  case (Cons op ops)
  have inv: "inv (call op c)" using Cons.prems(1) by (rule call_inv)
  show ?case
  proof (cases op)
    case (CPut t j v)
    have "agrees (call op c) k (if j = k then Some (v, t) else p)"
      using CPut Cons.prems put_same put_frame [of c k j t v] put_ttl by (auto simp: agrees_def)
    from Cons.IH [OF inv this] show ?thesis by (simp add: CPut)
  next
    case (CGet t j)
    have "agrees (call op c) k p"
      using CGet Cons.prems get_frame [of c t j k] get_ttl by (auto simp: agrees_def)
    from Cons.IH [OF inv this] show ?thesis by (simp add: CGet)
  qed
qed simp

lemma hit_is_last_put:
  assumes "inv c" "lookup c k = None" "fst (cget now k (run ops c)) = Some v"
  shows "\<exists>t. last_put k None ops = Some (v, t) \<and> now \<le> t + ttl c"
proof -
  have "agrees c k None" using assms(2) by (simp add: agrees_def)
  from run_agrees [OF assms(1) this, of ops] have a: "agrees (run ops c) k (last_put k None ops)" .
  have t: "ttl (run ops c) = ttl c" by (rule run_ttl)
  from assms(3) get_result [OF run_inv [OF assms(1)], of now k ops] a t show ?thesis
    by (cases "last_put k None ops") (auto simp: agrees_def split: option.splits if_splits)
qed

lemma get_after_put: "inv c \<Longrightarrow> now \<le> t + ttl c \<Longrightarrow> fst (cget now k (cput t k v c)) = Some v"
  by (simp add: get_result put_inv put_same)

end

end
