(* ===== verification/LRU_Cache.thy ===== *)
theory LRU_Cache
  imports Cache_Interface "HOL-Library.Word"
begin

unbundle bit_operations_syntax

text \<open>
  The LRU cache with expiry (\<^verbatim>\<open>internal/cache/lru.go\<close>) and its sharded variant
  (\<^verbatim>\<open>internal/cache/sharded_lru.go\<close>). The struct keeps a map from keys to list elements and a doubly
  linked list, most recently used first; a list element is modelled by an identity (a number
  allocated by \<^verbatim>\<open>PushFront\<close>) paired with its entry. The pair of the map and the list refines a plain
  list of entries (\<^verbatim>\<open>abs_put\<close>, \<^verbatim>\<open>abs_get\<close>), on which the cache laws are proved; both types interpret
  the locale \<^verbatim>\<open>cache\<close>.
\<close>

section \<open>The LRU struct\<close>

record ('k, 'v) lru_entry =
  le_key :: 'k
  le_value :: 'v
  le_expiresAt :: time

type_synonym ('k, 'v) element = "nat \<times> ('k, 'v) lru_entry"

record ('k, 'v) lru =
  lru_capacity :: int
  lru_ttl :: duration
  lru_items :: "'k \<rightharpoonup> nat"
  lru_order :: "('k, 'v) element list"
  lru_next :: nat
  lru_hits :: int
  lru_misses :: int

definition NewLRU :: "int \<Rightarrow> duration \<Rightarrow> ('k, 'v) lru" where
  "NewLRU capacity ttl =
     \<lparr>lru_capacity = capacity, lru_ttl = ttl, lru_items = Map.empty, lru_order = [], lru_next = 0,
      lru_hits = 0, lru_misses = 0\<rparr>"

text \<open>\<^verbatim>\<open>container/list\<close>: removal and \<^verbatim>\<open>MoveToFront\<close> of the element with identity \<^verbatim>\<open>i\<close>.\<close>

definition list_Remove :: "nat \<Rightarrow> ('k, 'v) element list \<Rightarrow> ('k, 'v) element list" where
  "list_Remove i xs = filter (\<lambda>p. fst p \<noteq> i) xs"

definition removeElement :: "('k, 'v) element \<Rightarrow> ('k, 'v) lru \<Rightarrow> ('k, 'v) lru" where
  "removeElement elem c =
     c\<lparr>lru_order := list_Remove (fst elem) (lru_order c), lru_items := (lru_items c)(le_key (snd elem) := None)\<rparr>"

definition evictOldest :: "('k, 'v) lru \<Rightarrow> ('k, 'v) lru" where
  "evictOldest c = (if lru_order c = [] then c else removeElement (last (lru_order c)) c)"

text \<open>\<^verbatim>\<open>items[key]\<close> followed by the dereference of the element. The map only holds elements of the list.\<close>

definition lru_elem :: "'k \<Rightarrow> ('k, 'v) lru \<Rightarrow> ('k, 'v) element option" where
  "lru_elem k c = (case lru_items c k of
     None \<Rightarrow> None | Some i \<Rightarrow> map_option (Pair i) (map_of (lru_order c) i))"

definition lru_Get :: "time \<Rightarrow> 'k \<Rightarrow> ('k, 'v) lru \<Rightarrow> 'v option \<times> ('k, 'v) lru" where
  "lru_Get now k c = (case lru_elem k c of
     None \<Rightarrow> (None, c\<lparr>lru_misses := lru_misses c + 1\<rparr>)
   | Some (i, e) \<Rightarrow>
       if now > le_expiresAt e then (None, (removeElement (i, e) c)\<lparr>lru_misses := lru_misses c + 1\<rparr>)
       else (Some (le_value e),
             c\<lparr>lru_order := (i, e) # list_Remove i (lru_order c), lru_hits := lru_hits c + 1\<rparr>))"

definition lru_Put :: "time \<Rightarrow> 'k \<Rightarrow> 'v \<Rightarrow> ('k, 'v) lru \<Rightarrow> ('k, 'v) lru" where
  "lru_Put now k v c = (case lru_elem k c of
     Some (i, e) \<Rightarrow>
       c\<lparr>lru_order := (i, e\<lparr>le_value := v, le_expiresAt := now + lru_ttl c\<rparr>) # list_Remove i (lru_order c)\<rparr>
   | None \<Rightarrow>
       (let c1 = (if int (length (lru_order c)) \<ge> lru_capacity c then evictOldest c else c);
            e = \<lparr>le_key = k, le_value = v, le_expiresAt = now + lru_ttl c\<rparr>
        in c1\<lparr>lru_order := (lru_next c1, e) # lru_order c1,
              lru_items := (lru_items c1)(k \<mapsto> lru_next c1), lru_next := lru_next c1 + 1\<rparr>))"

definition lru_Len :: "('k, 'v) lru \<Rightarrow> nat" where
  "lru_Len c = length (lru_order c)"

definition lru_Stats :: "('k, 'v) lru \<Rightarrow> int \<times> int" where
  "lru_Stats c = (lru_hits c, lru_misses c)"

section \<open>Well-formed structs and the list of entries they represent\<close>

definition lru_entries :: "('k, 'v) lru \<Rightarrow> ('k, 'v) lru_entry list" where
  "lru_entries c = map snd (lru_order c)"

definition lru_wf :: "('k, 'v) lru \<Rightarrow> bool" where
  "lru_wf c \<longleftrightarrow> distinct (map fst (lru_order c)) \<and> distinct (map le_key (lru_entries c)) \<and>
     (\<forall>p \<in> set (lru_order c). fst p < lru_next c) \<and>
     (\<forall>k i. lru_items c k = Some i \<longleftrightarrow> (\<exists>e. (i, e) \<in> set (lru_order c) \<and> le_key e = k))"

definition find_key :: "'k \<Rightarrow> ('k, 'v) lru_entry list \<Rightarrow> ('k, 'v) lru_entry option" where
  "find_key k xs = find (\<lambda>e. le_key e = k) xs"

definition drop_key :: "'k \<Rightarrow> ('k, 'v) lru_entry list \<Rightarrow> ('k, 'v) lru_entry list" where
  "drop_key k xs = filter (\<lambda>e. le_key e \<noteq> k) xs"

definition abs_get :: "time \<Rightarrow> 'k \<Rightarrow> ('k, 'v) lru_entry list \<Rightarrow> 'v option \<times> ('k, 'v) lru_entry list" where
  "abs_get now k xs = (case find_key k xs of
     None \<Rightarrow> (None, xs)
   | Some e \<Rightarrow> if now > le_expiresAt e then (None, drop_key k xs) else (Some (le_value e), e # drop_key k xs))"

definition abs_put :: "int \<Rightarrow> duration \<Rightarrow> time \<Rightarrow> 'k \<Rightarrow> 'v \<Rightarrow> ('k, 'v) lru_entry list \<Rightarrow> ('k, 'v) lru_entry list" where
  "abs_put cap ttl now k v xs =
     \<lparr>le_key = k, le_value = v, le_expiresAt = now + ttl\<rparr> #
     (if find_key k xs \<noteq> None then drop_key k xs
      else if int (length xs) \<ge> cap then butlast xs else xs)"

lemma lru_wf_unique:
  assumes "lru_wf c" "(i, e) \<in> set (lru_order c)" "(j, f) \<in> set (lru_order c)"
  shows "i = j \<longleftrightarrow> le_key e = le_key f"
proof -
  have a: "inj_on fst (set (lru_order c))" and b: "inj_on (le_key \<circ> snd) (set (lru_order c))"
    using assms(1) by (auto simp: lru_wf_def lru_entries_def distinct_map)
  show ?thesis
    using assms(2,3) inj_onD [OF a, of "(i, e)" "(j, f)"] inj_onD [OF b, of "(i, e)" "(j, f)"] by auto
qed

lemma lru_elem_Some:
  assumes "lru_wf c"
  shows "lru_elem k c = Some (i, e) \<longleftrightarrow> (i, e) \<in> set (lru_order c) \<and> le_key e = k"
proof
  assume "lru_elem k c = Some (i, e)"
  then have i: "lru_items c k = Some i" and e: "(i, e) \<in> set (lru_order c)"
    by (auto simp: lru_elem_def map_of_Some_in_set split: option.splits)
  from i assms obtain f where "(i, f) \<in> set (lru_order c)" "le_key f = k"
    unfolding lru_wf_def by blast
  with lru_wf_unique [OF assms e this(1)] e show "(i, e) \<in> set (lru_order c) \<and> le_key e = k" by simp
next
  assume a: "(i, e) \<in> set (lru_order c) \<and> le_key e = k"
  with assms have "lru_items c k = Some i" "map_of (lru_order c) i = Some e"
    unfolding lru_wf_def by (blast, simp)
  then show "lru_elem k c = Some (i, e)" by (simp add: lru_elem_def)
qed

lemma lru_elem_None: "lru_wf c \<Longrightarrow> lru_elem k c = None \<longleftrightarrow> k \<notin> le_key ` set (lru_entries c)"
  using lru_elem_Some [of c k] by (cases "lru_elem k c") (force simp: lru_entries_def)+

lemma find_key_Some:
  "distinct (map le_key xs) \<Longrightarrow> find_key k xs = Some e \<longleftrightarrow> e \<in> set xs \<and> le_key e = k"
  unfolding find_key_def by (induction xs) (auto simp: image_iff)

lemma find_key_None: "find_key k xs = None \<longleftrightarrow> k \<notin> le_key ` set xs"
  unfolding find_key_def by (auto simp: find_None_iff)

lemma find_key_elem: "lru_wf c \<Longrightarrow> find_key k (lru_entries c) = map_option snd (lru_elem k c)"
proof (cases "lru_elem k c")
  case (Some p)
  assume wf: "lru_wf c"
  obtain i e where p: "p = (i, e)" by (cases p)
  with Some lru_elem_Some [OF wf] have "(i, e) \<in> set (lru_order c)" "le_key e = k" by auto
  moreover have "distinct (map le_key (lru_entries c))" using wf by (simp add: lru_wf_def)
  ultimately show ?thesis using p Some
    by (auto simp: find_key_Some lru_entries_def image_iff intro: bexI [of _ "(i, e)"])
next
  case None
  assume "lru_wf c"
  with None have "find_key k (lru_entries c) = None" by (simp add: find_key_None lru_elem_None)
  with None show ?thesis by simp
qed

lemma list_Remove_entries:
  assumes "lru_wf c" "(i, e) \<in> set (lru_order c)"
  shows "map snd (list_Remove i (lru_order c)) = drop_key (le_key e) (lru_entries c)"
proof -
  have "fst p \<noteq> i \<longleftrightarrow> le_key (snd p) \<noteq> le_key e" if "p \<in> set (lru_order c)" for p
    using lru_wf_unique [OF assms, of "fst p" "snd p"] that by auto
  then have "list_Remove i (lru_order c) = filter (\<lambda>p. le_key (snd p) \<noteq> le_key e) (lru_order c)"
    unfolding list_Remove_def by (rule filter_cong [OF refl])
  then show ?thesis by (simp add: drop_key_def lru_entries_def filter_map o_def)
qed

lemma set_list_Remove: "(j, f) \<in> set (list_Remove i xs) \<longleftrightarrow> (j, f) \<in> set xs \<and> j \<noteq> i"
  by (auto simp: list_Remove_def)

lemma distinct_list_Remove: "distinct (map fst xs) \<Longrightarrow> distinct (map fst (list_Remove i xs))"
  unfolding list_Remove_def by (rule distinct_map_filter)

lemma drop_key_props:
  "distinct (map le_key xs) \<Longrightarrow> distinct (map le_key (drop_key k xs))"
  "le_key ` set (drop_key k xs) = le_key ` set xs - {k}"
  by (auto simp: drop_key_def distinct_map_filter)

lemma lru_items_iff:
  "lru_wf c \<Longrightarrow> lru_items c k = Some i \<longleftrightarrow> (\<exists>e. (i, e) \<in> set (lru_order c) \<and> le_key e = k)"
  by (simp add: lru_wf_def)

lemma lru_wfI:
  assumes "distinct (map fst (lru_order c))" "distinct (map le_key (lru_entries c))"
    and "\<And>i e. (i, e) \<in> set (lru_order c) \<Longrightarrow> i < lru_next c"
    and "\<And>k i. lru_items c k = Some i \<longleftrightarrow> (\<exists>e. (i, e) \<in> set (lru_order c) \<and> le_key e = k)"
  shows "lru_wf c"
  using assms by (force simp: lru_wf_def)

lemma lru_wfD:
  assumes "lru_wf c"
  shows "distinct (map fst (lru_order c))" "distinct (map le_key (lru_entries c))"
    "(i, e) \<in> set (lru_order c) \<Longrightarrow> i < lru_next c"
  using assms by (auto simp: lru_wf_def)

lemma lru_entries_remove:
  "lru_wf c \<Longrightarrow> (i, e) \<in> set (lru_order c) \<Longrightarrow>
     lru_entries (removeElement (i, e) c) = drop_key (le_key e) (lru_entries c)"
  unfolding lru_entries_def [of "removeElement (i, e) c"] by (simp add: removeElement_def list_Remove_entries)

lemma lru_wf_remove:
  assumes wf: "lru_wf c" and e: "(i, e) \<in> set (lru_order c)"
  shows "lru_wf (removeElement (i, e) c)" (is "lru_wf ?c")
proof (rule lru_wfI)
  fix k j
  show "lru_items ?c k = Some j \<longleftrightarrow> (\<exists>f. (j, f) \<in> set (lru_order ?c) \<and> le_key f = k)"
    unfolding removeElement_def using lru_items_iff [OF wf, of k j] lru_wf_unique [OF wf e, of j]
    by (simp add: set_list_Remove) metis
next
  show "distinct (map le_key (lru_entries ?c))"
    using wf e by (simp add: lru_entries_remove drop_key_props lru_wfD(2))
next
  show "distinct (map fst (lru_order ?c))"
    using lru_wfD(1) [OF wf] by (simp add: removeElement_def distinct_list_Remove)
next
  fix j f assume "(j, f) \<in> set (lru_order ?c)"
  then show "j < lru_next ?c" using lru_wfD(3) [OF wf, of j f] by (simp add: removeElement_def set_list_Remove)
qed

lemma lru_wf_front:
  assumes wf: "lru_wf c" and e: "(i, e) \<in> set (lru_order c)" and k: "le_key e' = le_key e"
  shows "lru_wf (c\<lparr>lru_order := (i, e') # list_Remove i (lru_order c)\<rparr>)" (is "lru_wf ?c")
proof (rule lru_wfI)
  fix k' j
  show "lru_items ?c k' = Some j \<longleftrightarrow> (\<exists>f. (j, f) \<in> set (lru_order ?c) \<and> le_key f = k')"
    using lru_items_iff [OF wf, of k' j] lru_wf_unique [OF wf e, of j] e k
    by (simp add: set_list_Remove) metis
next
  have "le_key e' \<notin> le_key ` set (drop_key (le_key e) (lru_entries c))" using k by (simp add: drop_key_props(2))
  then show "distinct (map le_key (lru_entries ?c))"
    using wf e by (simp add: lru_entries_def [of ?c] list_Remove_entries drop_key_props(1) lru_wfD(2))
next
  have "i \<notin> fst ` set (list_Remove i (lru_order c))" by (auto simp: set_list_Remove)
  then show "distinct (map fst (lru_order ?c))" using lru_wfD(1) [OF wf] by (simp add: distinct_list_Remove)
next
  fix j f assume "(j, f) \<in> set (lru_order ?c)"
  then show "j < lru_next ?c" using lru_wfD(3) [OF wf] e by (auto simp: set_list_Remove)
qed

lemma drop_key_last:
  assumes "distinct (map le_key xs)" "xs \<noteq> []"
  shows "drop_key (le_key (last xs)) xs = butlast xs"
proof -
  obtain ys y where "xs = ys @ [y]" using assms(2) rev_exhaust by blast
  with assms(1) show ?thesis by (auto simp: drop_key_def filter_id_conv image_iff)
qed

lemma evictOldest_wf:
  assumes "lru_wf c"
  shows "lru_wf (evictOldest c)" "lru_entries (evictOldest c) = butlast (lru_entries c)"
proof -
  have m: "lru_order c \<noteq> [] \<Longrightarrow> (fst (last (lru_order c)), snd (last (lru_order c))) \<in> set (lru_order c)" by simp
  show "lru_wf (evictOldest c)"
    using lru_wf_remove [OF assms m] assms by (auto simp: evictOldest_def)
  show "lru_entries (evictOldest c) = butlast (lru_entries c)"
    using lru_entries_remove [OF assms m] assms drop_key_last [of "lru_entries c"]
    by (auto simp: evictOldest_def lru_wf_def lru_entries_def last_map)
qed

lemma lru_wf_push:
  assumes wf: "lru_wf c" and k: "k \<notin> le_key ` set (lru_entries c)" "le_key e = k"
  shows "lru_wf (c\<lparr>lru_order := (lru_next c, e) # lru_order c,
    lru_items := (lru_items c)(k \<mapsto> lru_next c), lru_next := lru_next c + 1\<rparr>)" (is "lru_wf ?c")
proof (rule lru_wfI)
  fix j i
  have "le_key f \<noteq> k" if "(i, f) \<in> set (lru_order c)" for i f using that k(1) by (force simp: lru_entries_def)
  moreover have "(lru_next c, f) \<notin> set (lru_order c)" for f using lru_wfD(3) [OF wf] by blast
  ultimately show "lru_items ?c j = Some i \<longleftrightarrow> (\<exists>f. (i, f) \<in> set (lru_order ?c) \<and> le_key f = j)"
    using lru_items_iff [OF wf, of j i] k(2) by (simp add: fun_upd_def) metis
next
  have "lru_next c \<notin> fst ` set (lru_order c)" using lru_wfD(3) [OF wf] by fastforce
  then show "distinct (map fst (lru_order ?c))" using lru_wfD(1) [OF wf] by simp
next
  show "distinct (map le_key (lru_entries ?c))" using lru_wfD(2) [OF wf] k by (simp add: lru_entries_def image_image)
next
  fix j f assume "(j, f) \<in> set (lru_order ?c)"
  then show "j < lru_next ?c" using lru_wfD(3) [OF wf] by (auto simp: less_SucI)
qed

section \<open>The struct refines the list of entries\<close>

lemma lru_Get_refines:
  assumes wf: "lru_wf c"
  shows "lru_wf (snd (lru_Get now k c))"
    "(fst (lru_Get now k c), lru_entries (snd (lru_Get now k c))) = abs_get now k (lru_entries c)"
proof -
  have upd: "lru_wf (x\<lparr>lru_misses := m\<rparr>) = lru_wf x" "lru_wf (x\<lparr>lru_hits := m\<rparr>) = lru_wf x"
    "lru_entries (x\<lparr>lru_misses := m\<rparr>) = lru_entries x" "lru_entries (x\<lparr>lru_hits := m\<rparr>) = lru_entries x"
    for x :: "('a, 'b) lru" and m by (simp_all add: lru_wf_def lru_entries_def)
  show "lru_wf (snd (lru_Get now k c))"
    using wf lru_elem_Some [OF wf, of k]
    by (auto simp: lru_Get_def upd lru_wf_remove lru_wf_front split: option.split)
  show "(fst (lru_Get now k c), lru_entries (snd (lru_Get now k c))) = abs_get now k (lru_entries c)"
  proof (cases "lru_elem k c")
    case (Some p)
    moreover obtain i e where p: "p = (i, e)" by (cases p)
    ultimately have e: "(i, e) \<in> set (lru_order c)" "le_key e = k" using lru_elem_Some [OF wf] by auto
    have m: "lru_entries (c\<lparr>lru_order := (i, e) # list_Remove i (lru_order c)\<rparr>) = e # drop_key k (lru_entries c)"
      unfolding lru_entries_def [of "lru_order_update _ _"] using list_Remove_entries [OF wf e(1)] e(2) by simp
    show ?thesis
      using Some p e lru_entries_remove [OF wf e(1)]
      by (simp add: lru_Get_def abs_get_def find_key_elem [OF wf] upd m)
  qed (simp add: lru_Get_def abs_get_def find_key_elem [OF wf] upd)
qed

lemma lru_Put_refines:
  assumes wf: "lru_wf c"
  shows "lru_wf (lru_Put now k v c)"
    "lru_entries (lru_Put now k v c) = abs_put (lru_capacity c) (lru_ttl c) now k v (lru_entries c)"
proof -
  have "lru_wf (lru_Put now k v c) \<and>
    lru_entries (lru_Put now k v c) = abs_put (lru_capacity c) (lru_ttl c) now k v (lru_entries c)"
  proof (cases "lru_elem k c")
    case None
    define c1 where "c1 = (if int (length (lru_order c)) \<ge> lru_capacity c then evictOldest c else c)"
    define e where "e = \<lparr>le_key = k, le_value = v, le_expiresAt = now + lru_ttl c\<rparr>"
    have c1: "lru_wf c1" "lru_entries c1 = (if int (length (lru_entries c)) \<ge> lru_capacity c then butlast (lru_entries c) else lru_entries c)"
      using wf evictOldest_wf [OF wf] by (auto simp: c1_def lru_entries_def)
    have k: "k \<notin> le_key ` set (lru_entries c)" using None lru_elem_None [OF wf] by blast
    then have "k \<notin> le_key ` set (lru_entries c1)" using c1(2) by (auto dest: in_set_butlastD split: if_splits)
    from lru_wf_push [OF c1(1) this, of e] have "lru_wf (lru_Put now k v c)"
      by (simp add: lru_Put_def None c1_def [symmetric] e_def [symmetric] Let_def) (simp add: e_def)
    moreover have "lru_entries (lru_Put now k v c) = e # lru_entries c1"
      by (simp add: lru_Put_def None c1_def e_def Let_def lru_entries_def)
    ultimately show ?thesis using c1(2) k by (simp add: abs_put_def e_def find_key_None)
  next
    case (Some p)
    moreover obtain i e where p: "p = (i, e)" by (cases p)
    ultimately have e: "(i, e) \<in> set (lru_order c)" "le_key e = k" using lru_elem_Some [OF wf] by auto
    have eq: "e\<lparr>le_value := v, le_expiresAt := now + lru_ttl c\<rparr> = \<lparr>le_key = k, le_value = v, le_expiresAt = now + lru_ttl c\<rparr>"
      using e(2) by (cases e) simp
    have "find_key k (lru_entries c) \<noteq> None" using Some by (simp add: find_key_elem [OF wf])
    then show ?thesis
      using Some p lru_wf_front [OF wf e(1)] list_Remove_entries [OF wf e(1)] e(2)
      by (simp add: lru_Put_def abs_put_def eq lru_entries_def [of "lru_order_update _ _"])
  qed
  then show "lru_wf (lru_Put now k v c)"
    "lru_entries (lru_Put now k v c) = abs_put (lru_capacity c) (lru_ttl c) now k v (lru_entries c)" by simp_all
qed

section \<open>The cache laws\<close>

definition lru_lookup :: "('k, 'v) lru \<Rightarrow> 'k \<Rightarrow> ('v \<times> time) option" where
  "lru_lookup c k = map_option (\<lambda>e. (le_value e, le_expiresAt e)) (find_key k (lru_entries c))"

lemma find_key_simps [simp]:
  "find_key k [] = None"
  "find_key k (e # xs) = (if le_key e = k then Some e else find_key k xs)"
  by (simp_all add: find_key_def)

lemma find_key_drop_key: "find_key j (drop_key k xs) = (if j = k then None else find_key j xs)"
  by (induction xs) (auto simp: drop_key_def)

lemma find_key_butlast: "find_key j (butlast xs) \<in> {None, find_key j xs}"
proof (cases xs rule: rev_cases)
  case (snoc ys y)
  have "find_key j (ys @ [y]) = (case find_key j ys of None \<Rightarrow> find_key j [y] | Some e \<Rightarrow> Some e)"
    by (induction ys) simp_all
  then show ?thesis by (auto simp: snoc split: option.splits)
qed simp

lemma abs_get_frame: "find_key j (snd (abs_get now k xs)) \<in> {None, find_key j xs}"
proof (cases "find_key k xs")
  case (Some e)
  then have "le_key e = k" by (auto simp: find_key_def find_Some_iff)
  with Some show ?thesis by (auto simp: abs_get_def find_key_drop_key)
qed (simp add: abs_get_def)

lemma abs_put_find:
  "find_key k (abs_put cap ttl now k v xs) = Some \<lparr>le_key = k, le_value = v, le_expiresAt = now + ttl\<rparr>"
  "j \<noteq> k \<Longrightarrow> find_key j (abs_put cap ttl now k v xs) \<in> {None, find_key j xs}"
  using find_key_butlast [of j xs] by (auto simp: abs_put_def find_key_drop_key)

lemma lru_params [simp]:
  "lru_ttl (snd (lru_Get now k c)) = lru_ttl c" "lru_capacity (snd (lru_Get now k c)) = lru_capacity c"
  "lru_ttl (lru_Put now k v c) = lru_ttl c" "lru_capacity (lru_Put now k v c) = lru_capacity c"
  by (auto simp: lru_Get_def lru_Put_def removeElement_def evictOldest_def Let_def split: option.split)

lemma lru_entries_Get: "lru_wf c \<Longrightarrow> lru_entries (snd (lru_Get now k c)) = snd (abs_get now k (lru_entries c))"
  and lru_result_Get: "lru_wf c \<Longrightarrow> fst (lru_Get now k c) = fst (abs_get now k (lru_entries c))"
  using lru_Get_refines(2) [of c now k] by (simp_all add: prod_eq_iff)

interpretation lru: cache lru_Get lru_Put lru_lookup lru_wf lru_ttl
proof (unfold_locales, goal_cases)
  case (1 c now k) then show ?case by (rule lru_Get_refines)
next
  case (2 c now k v) then show ?case by (rule lru_Put_refines)
next
  case (5 c now k) then show ?case
    by (auto simp: lru_result_Get abs_get_def lru_lookup_def split: option.split)
next
  case (6 c now k j) then show ?case
    using abs_get_frame [of j now k "lru_entries c"] by (auto simp: lru_lookup_def lru_entries_Get)
next
  case (7 c now k v) then show ?case by (simp add: lru_lookup_def lru_Put_refines abs_put_find)
next
  case (8 c j k now v) then show ?case
    using abs_put_find(2) [of j k "lru_capacity c" "lru_ttl c" now v "lru_entries c"]
    by (auto simp: lru_lookup_def lru_Put_refines)
qed simp_all

section \<open>Size and eviction order\<close>

definition lru_bounded :: "('k, 'v) lru \<Rightarrow> bool" where
  "lru_bounded c \<longleftrightarrow> int (lru_Len c) \<le> max 1 (lru_capacity c)"

lemma lru_Len_entries: "lru_Len c = length (lru_entries c)"
  by (simp add: lru_Len_def lru_entries_def)

lemma length_drop_key: "find_key k xs \<noteq> None \<Longrightarrow> length (drop_key k xs) < length xs"
  unfolding drop_key_def find_key_None by (auto intro!: length_filter_less)

lemma lru_bounded_Get: "lru_wf c \<Longrightarrow> lru_bounded c \<Longrightarrow> lru_bounded (snd (lru_Get now k c))"
  using length_drop_key [of k "lru_entries c"]
  by (auto simp: lru_bounded_def lru_Len_entries lru_entries_Get abs_get_def split: option.split)

lemma lru_bounded_Put: "lru_wf c \<Longrightarrow> lru_bounded c \<Longrightarrow> lru_bounded (lru_Put now k v c)"
  using length_drop_key [of k "lru_entries c"]
  by (auto simp: lru_bounded_def lru_Len_entries lru_Put_refines abs_put_def)

abbreviation "lru_run \<equiv> cache_run lru_Get lru_Put"

lemma lru_NewLRU: "lru_wf (NewLRU cap ttl)" "lru_bounded (NewLRU cap ttl)" "lru_lookup (NewLRU cap ttl) k = None"
  "lru_capacity (NewLRU cap ttl) = cap" "lru_ttl (NewLRU cap ttl) = ttl"
  by (simp_all add: NewLRU_def lru_wf_def lru_bounded_def lru_Len_def lru_lookup_def lru_entries_def)

lemma lru_run_capacity: "lru_capacity (lru_run ops c) = lru_capacity c"
proof (induction ops arbitrary: c)
  case (Cons op ops)
  then show ?case by (cases op) simp_all
qed simp

lemma lru_run_bounded: "lru_wf c \<Longrightarrow> lru_bounded c \<Longrightarrow> lru_bounded (lru_run ops c)"
proof (induction ops arbitrary: c)
  case (Cons op ops)
  then show ?case
    using lru.call_inv [of c op] by (cases op) (simp_all add: lru_bounded_Get lru_bounded_Put)
qed simp

text \<open>The entries in front of key \<^verbatim>\<open>k\<close>: those used more recently.\<close>

definition front_keys :: "'k \<Rightarrow> ('k, 'v) lru_entry list \<Rightarrow> 'k list" where
  "front_keys k xs = takeWhile (\<lambda>j. j \<noteq> k) (map le_key xs)"

definition recent :: "'k \<Rightarrow> 'k set \<Rightarrow> ('k, 'v) lru_entry list \<Rightarrow> bool" where
  "recent k S xs \<longleftrightarrow> distinct (map le_key xs) \<and> k \<in> le_key ` set xs \<and> set (front_keys k xs) \<subseteq> S"

lemma front_keys_drop: "j \<noteq> k \<Longrightarrow> set (front_keys k (drop_key j xs)) \<subseteq> set (front_keys k xs)"
  unfolding front_keys_def drop_key_def by (induction xs) auto

lemma front_keys_butlast: "set (front_keys k (butlast xs)) \<subseteq> set (front_keys k xs)"
  unfolding front_keys_def by (induction xs) auto

lemma front_keys_Cons [simp]:
  "front_keys k (e # xs) = (if le_key e = k then [] else le_key e # front_keys k xs)"
  by (simp add: front_keys_def)

lemma recent_drop: "recent k S xs \<Longrightarrow> j \<noteq> k \<Longrightarrow> recent k S (drop_key j xs)"
  using front_keys_drop [of j k xs] by (auto simp: recent_def drop_key_props)

lemma recent_Cons:
  "recent k S xs \<Longrightarrow> le_key e \<noteq> k \<Longrightarrow> le_key e \<notin> le_key ` set xs \<Longrightarrow> recent k (insert (le_key e) S) (e # xs)"
  by (auto simp: recent_def)

text \<open>If the last entry is the one of \<^verbatim>\<open>k\<close>, every other key of the list has been used since.\<close>

lemma front_keys_last:
  assumes "distinct (map le_key xs)" "xs \<noteq> []" "le_key (last xs) = k"
  shows "front_keys k xs = map le_key (butlast xs)"
proof -
  obtain ys y where "xs = ys @ [y]" using assms(2) rev_exhaust by blast
  moreover from this assms have "takeWhile (\<lambda>j. j \<noteq> k) (map le_key ys @ [k]) = map le_key ys @ takeWhile (\<lambda>j. j \<noteq> k) [k]"
    by (intro takeWhile_append2) (auto simp: image_iff)
  ultimately show ?thesis using assms(3) by (simp add: front_keys_def)
qed

lemma recent_butlast:
  assumes r: "recent k S xs" and j: "j \<notin> le_key ` set xs" and fin: "finite S"
    and cap: "int (card (insert j S)) < cap" and full: "int (length xs) \<ge> cap"
  shows "recent k S (butlast xs)"
proof -
  have d: "distinct (map le_key xs)" and k: "k \<in> le_key ` set xs" and f: "set (front_keys k xs) \<subseteq> S"
    using r by (simp_all add: recent_def)
  have ne: "xs \<noteq> []" using k by auto
  have "le_key (last xs) \<noteq> k"
  proof
    assume l: "le_key (last xs) = k"
    have "set (map le_key (butlast xs)) \<subseteq> S" using f front_keys_last [OF d ne l] by simp
    moreover have "j \<notin> set (map le_key (butlast xs))" using j by (auto dest: in_set_butlastD)
    ultimately have "card (insert j (set (map le_key (butlast xs)))) \<le> card (insert j S)"
      using fin by (intro card_mono) auto
    moreover have "distinct (map le_key (butlast xs))" using d by (simp add: map_butlast distinct_butlast)
    then have "card (insert j (set (map le_key (butlast xs)))) = length xs"
      using \<open>j \<notin> set (map le_key (butlast xs))\<close> ne distinct_card [of "map le_key (butlast xs)"] by simp
    ultimately show False using cap full by simp
  qed
  moreover have "set xs = insert (last xs) (set (butlast xs))"
    using append_butlast_last_id [OF ne] by (metis Un_insert_right list.simps(15) set_append sup_bot.right_neutral empty_set)
  ultimately have "k \<in> le_key ` set (butlast xs)" using k by auto
  then show ?thesis
    using d f front_keys_butlast [of k xs] by (auto simp: recent_def map_butlast distinct_butlast)
qed

lemma recent_get:
  assumes "recent k S xs" "j \<noteq> k"
  shows "recent k (insert j S) (snd (abs_get now j xs))"
proof (cases "find_key j xs")
  case (Some e)
  then have "le_key e = j" by (auto simp: find_key_def find_Some_iff)
  moreover have "recent k S (drop_key j xs)" using assms by (rule recent_drop)
  ultimately show ?thesis
    using Some recent_Cons [of k S "drop_key j xs" e] assms(2)
    by (auto simp: abs_get_def drop_key_props recent_def)
qed (use assms in \<open>auto simp: abs_get_def recent_def\<close>)

lemma recent_put:
  assumes r: "recent k S xs" and "j \<noteq> k" "finite S" "int (card (insert j S)) < cap"
  shows "recent k (insert j S) (abs_put cap ttl now j v xs)"
proof -
  let ?e = "\<lparr>le_key = j, le_value = v, le_expiresAt = now + ttl\<rparr>"
  have "recent k S (drop_key j xs)" using r assms(2) by (rule recent_drop)
  then have "recent k (insert j S) (?e # drop_key j xs)"
    using recent_Cons [of k S _ ?e] assms(2) by (simp add: drop_key_props)
  moreover have "recent k (insert j S) (?e # butlast xs)"
    if "find_key j xs = None" "int (length xs) \<ge> cap"
    using recent_Cons [of k S _ ?e] recent_butlast [OF r _ assms(3,4)] that assms(2)
    by (auto simp: find_key_None dest: in_set_butlastD)
  moreover have "recent k (insert j S) (?e # xs)" if "find_key j xs = None"
    using recent_Cons [of k S _ ?e] r that assms(2) by (simp add: find_key_None)
  ultimately show ?thesis by (auto simp: abs_put_def)
qed

lemma lru_run_recent:
  assumes "lru_wf c" "recent k S (lru_entries c)" "finite S" "k \<notin> op_key ` set ops"
    and "int (card (S \<union> op_key ` set ops)) < lru_capacity c"
  shows "recent k (S \<union> op_key ` set ops) (lru_entries (lru_run ops c))"
  using assms
proof (induction ops arbitrary: c S)
  case (Cons op ops)
  let ?c = "cache_call lru_Get lru_Put op c" and ?S = "insert (op_key op) S"
  have "card ?S \<le> card (S \<union> op_key ` set (op # ops))" using Cons.prems(3) by (intro card_mono) auto
  then have "recent k ?S (lru_entries ?c)"
    using Cons.prems recent_get [of k S "lru_entries c"] recent_put [of k S "lru_entries c"]
    by (cases op) (auto simp: lru_entries_Get lru_Put_refines)
  moreover have "lru_capacity ?c = lru_capacity c" by (cases op) simp_all
  ultimately show ?case
    using Cons.IH [of ?c ?S] Cons.prems lru.call_inv [of c op] by simp
qed simp

section \<open>The sharded cache\<close>

record ('k, 'v) sharded_lru =
  sh_shards :: "('k, 'v) lru list"
  sh_count :: nat
  sh_keyToStr :: "'k \<Rightarrow> string"

definition defaultShardCount :: int where
  "defaultShardCount = 16"

definition per_shard :: "int \<Rightarrow> int \<Rightarrow> int" where
  "per_shard totalCapacity shardCount =
     (let perShard = (if totalCapacity < 0 then 0 else totalCapacity div shardCount) in
      if perShard < 1 then 1 else perShard)"

definition NewShardedLRUWithCount ::
  "int \<Rightarrow> duration \<Rightarrow> ('k \<Rightarrow> string) \<Rightarrow> int \<Rightarrow> ('k, 'v) sharded_lru" where
  "NewShardedLRUWithCount totalCapacity ttl keyFn shardCount =
     (let n = (if shardCount \<le> 0 then defaultShardCount else shardCount) in
      \<lparr>sh_shards = replicate (nat n) (NewLRU (per_shard totalCapacity n) ttl), sh_count = nat n, sh_keyToStr = keyFn\<rparr>)"

definition NewShardedLRU :: "int \<Rightarrow> duration \<Rightarrow> ('k \<Rightarrow> string) \<Rightarrow> ('k, 'v) sharded_lru" where
  "NewShardedLRU totalCapacity ttl keyFn = NewShardedLRUWithCount totalCapacity ttl keyFn defaultShardCount"

text \<open>FNV-32a on the bytes of the key's string, in 32-bit arithmetic.\<close>

definition fnv32a :: "string \<Rightarrow> 32 word" where
  "fnv32a str = foldl (\<lambda>h ch. (h XOR of_nat (of_char ch)) * 16777619) 2166136261 str"

definition shard_index :: "('k, 'v) sharded_lru \<Rightarrow> 'k \<Rightarrow> nat" where
  "shard_index s key = unat (fnv32a (sh_keyToStr s key)) mod sh_count s"

definition sh_Get :: "time \<Rightarrow> 'k \<Rightarrow> ('k, 'v) sharded_lru \<Rightarrow> 'v option \<times> ('k, 'v) sharded_lru" where
  "sh_Get now k s =
     (let i = shard_index s k; (r, c) = lru_Get now k (sh_shards s ! i)
      in (r, s\<lparr>sh_shards := (sh_shards s)[i := c]\<rparr>))"

definition sh_Put :: "time \<Rightarrow> 'k \<Rightarrow> 'v \<Rightarrow> ('k, 'v) sharded_lru \<Rightarrow> ('k, 'v) sharded_lru" where
  "sh_Put now k v s =
     (let i = shard_index s k in s\<lparr>sh_shards := (sh_shards s)[i := lru_Put now k v (sh_shards s ! i)]\<rparr>)"

definition sh_Len :: "('k, 'v) sharded_lru \<Rightarrow> nat" where
  "sh_Len s = foldl (\<lambda>total sh. total + lru_Len sh) 0 (sh_shards s)"

definition sh_Stats :: "('k, 'v) sharded_lru \<Rightarrow> int \<times> int" where
  "sh_Stats s = foldl (\<lambda>(hits, misses) sh. let (h, m) = lru_Stats sh in (hits + h, misses + m)) (0, 0) (sh_shards s)"

definition sh_ttl :: "('k, 'v) sharded_lru \<Rightarrow> duration" where
  "sh_ttl s = lru_ttl (hd (sh_shards s))"

definition sh_lookup :: "('k, 'v) sharded_lru \<Rightarrow> 'k \<Rightarrow> ('v \<times> time) option" where
  "sh_lookup s k = lru_lookup (sh_shards s ! shard_index s k) k"

definition sh_wf :: "('k, 'v) sharded_lru \<Rightarrow> bool" where
  "sh_wf s \<longleftrightarrow> 0 < sh_count s \<and> length (sh_shards s) = sh_count s \<and>
     (\<forall>c \<in> set (sh_shards s). lru_wf c \<and> lru_ttl c = sh_ttl s)"

lemma shard_index_lt: "sh_wf s \<Longrightarrow> shard_index s k < length (sh_shards s)"
  by (simp add: sh_wf_def shard_index_def)

lemma sh_update_index [simp]: "shard_index (s\<lparr>sh_shards := xs\<rparr>) k = shard_index s k"
  by (simp add: shard_index_def)

lemma sh_shard_wf: "sh_wf s \<Longrightarrow> lru_wf (sh_shards s ! shard_index s k) \<and> lru_ttl (sh_shards s ! shard_index s k) = sh_ttl s"
  using shard_index_lt [of s k] by (simp add: sh_wf_def)

lemma sh_ttl_upd:
  "lru_ttl c = lru_ttl (sh_shards s ! i) \<Longrightarrow> sh_ttl (s\<lparr>sh_shards := (sh_shards s)[i := c]\<rparr>) = sh_ttl s"
  by (cases "sh_shards s"; cases i) (simp_all add: sh_ttl_def)

lemma sh_wf_upd:
  assumes "sh_wf s" "lru_wf c" "lru_ttl c = lru_ttl (sh_shards s ! i)" "i < length (sh_shards s)"
  shows "sh_wf (s\<lparr>sh_shards := (sh_shards s)[i := c]\<rparr>)"
proof -
  have "lru_ttl c = sh_ttl s" using assms by (simp add: sh_wf_def)
  with assms(1,2) show ?thesis
    using set_update_subset_insert [of "sh_shards s" i c] sh_ttl_upd [OF assms(3)] unfolding sh_wf_def
    by auto
qed

lemma sh_Get_simps:
  "fst (sh_Get now k s) = fst (lru_Get now k (sh_shards s ! shard_index s k))"
  "snd (sh_Get now k s) = s\<lparr>sh_shards := (sh_shards s)[shard_index s k := snd (lru_Get now k (sh_shards s ! shard_index s k))]\<rparr>"
  by (simp_all add: sh_Get_def Let_def case_prod_beta)

interpretation sharded: cache sh_Get sh_Put sh_lookup sh_wf sh_ttl
proof (unfold_locales, goal_cases)
  case (1 s now k)
  then show ?case unfolding sh_Get_simps
    using sh_shard_wf [OF 1] by (intro sh_wf_upd shard_index_lt lru.get_inv) simp_all
next
  case (2 s now k v)
  then show ?case unfolding sh_Put_def Let_def
    using sh_shard_wf [OF 2] by (intro sh_wf_upd shard_index_lt lru.put_inv) simp_all
next
  case (3 now k s) show ?case unfolding sh_Get_simps by (rule sh_ttl_upd) simp
next
  case (4 now k v s) show ?case unfolding sh_Put_def Let_def by (rule sh_ttl_upd) simp
next
  case (5 s now k) then show ?case
    unfolding sh_Get_simps sh_lookup_def using sh_shard_wf [OF 5] by (intro lru.get_result) simp
next
  case (6 s now k j)
  then show ?case
    using lru.get_frame [of "sh_shards s ! shard_index s k" now k j] sh_shard_wf [OF 6, of k] shard_index_lt [OF 6, of k]
    by (cases "shard_index s j = shard_index s k") (simp_all add: sh_lookup_def sh_Get_simps)
next
  case (7 s now k v)
  then show ?case
    using lru.put_same [of "sh_shards s ! shard_index s k" now k v] sh_shard_wf [OF 7, of k] shard_index_lt [OF 7, of k]
    by (simp add: sh_lookup_def sh_Put_def Let_def)
next
  case (8 s j k now v)
  then show ?case
    using lru.put_frame [of "sh_shards s ! shard_index s k" j k now v] sh_shard_wf [OF 8(1), of k] shard_index_lt [OF 8(1), of k]
    by (cases "shard_index s j = shard_index s k") (simp_all add: sh_lookup_def sh_Put_def Let_def)
qed

abbreviation "sh_run \<equiv> cache_run sh_Get sh_Put"

definition sh_bounded :: "int \<Rightarrow> ('k, 'v) sharded_lru \<Rightarrow> bool" where
  "sh_bounded cap s \<longleftrightarrow> sh_wf s \<and> (\<forall>c \<in> set (sh_shards s). lru_bounded c \<and> lru_capacity c = cap)"

lemma sh_bounded_upd:
  assumes "sh_bounded cap s" "sh_wf (s\<lparr>sh_shards := (sh_shards s)[i := c]\<rparr>)" "lru_bounded c" "lru_capacity c = cap"
  shows "sh_bounded cap (s\<lparr>sh_shards := (sh_shards s)[i := c]\<rparr>)"
  using assms set_update_subset_insert [of "sh_shards s" i c] by (auto simp: sh_bounded_def)

lemma sh_call_bounded:
  assumes b: "sh_bounded cap s"
  shows "sh_bounded cap (cache_call sh_Get sh_Put op s) \<and> sh_count (cache_call sh_Get sh_Put op s) = sh_count s"
proof -
  have wf: "sh_wf s" using b by (simp add: sh_bounded_def)
  have c: "lru_bounded (sh_shards s ! shard_index s k)" "lru_capacity (sh_shards s ! shard_index s k) = cap" for k
    using b shard_index_lt [OF wf, of k] by (simp_all add: sh_bounded_def)
  have inv: "sh_wf (cache_call sh_Get sh_Put op s)" using wf by (rule sharded.call_inv)
  show ?thesis
  proof (cases op)
    case (CPut t k v)
    have "sh_bounded cap (sh_Put t k v s)" unfolding sh_Put_def Let_def
      by (rule sh_bounded_upd [OF b]) (use inv CPut c sh_shard_wf [OF wf, of k] in \<open>simp_all add: sh_Put_def Let_def lru_bounded_Put\<close>)
    then show ?thesis by (simp add: CPut sh_Put_def Let_def)
  next
    case (CGet t k)
    have "sh_bounded cap (snd (sh_Get t k s))" unfolding sh_Get_simps
      by (rule sh_bounded_upd [OF b]) (use inv CGet c sh_shard_wf [OF wf, of k] in \<open>simp_all add: sh_Get_simps lru_bounded_Get\<close>)
    then show ?thesis by (simp add: CGet sh_Get_simps)
  qed
qed

lemma sh_run_bounded:
  "sh_bounded cap s \<Longrightarrow> sh_bounded cap (sh_run ops s) \<and> sh_count (sh_run ops s) = sh_count s"
proof (induction ops arbitrary: s)
  case (Cons op ops)
  from sh_call_bounded [OF Cons.prems, of op] Cons.IH [of "cache_call sh_Get sh_Put op s"] show ?case by simp
qed simp

lemma sh_Len_bound:
  assumes "sh_bounded cap s"
  shows "int (sh_Len s) \<le> int (sh_count s) * max 1 cap"
proof -
  have l: "foldl (\<lambda>total sh. total + lru_Len sh) n cs = n + sum_list (map lru_Len cs)"
    for cs :: "('a, 'b) lru list" and n by (induction cs arbitrary: n) simp_all
  have "int (sum_list (map lru_Len cs)) \<le> int (length cs) * max 1 cap"
    if "\<forall>c \<in> set cs. int (lru_Len c) \<le> max 1 cap" for cs :: "('a, 'b) lru list"
    using that by (induction cs) (simp_all add: algebra_simps)
  moreover have "\<forall>c \<in> set (sh_shards s). int (lru_Len c) \<le> max 1 cap" "length (sh_shards s) = sh_count s"
    using assms by (auto simp: sh_bounded_def sh_wf_def lru_bounded_def)
  ultimately show ?thesis by (metis sh_Len_def l add_0)
qed

lemma sh_New:
  fixes keyFn :: "'k \<Rightarrow> string" and cnt :: int
  defines "n \<equiv> if cnt \<le> 0 then defaultShardCount else cnt"
  shows "sh_bounded (per_shard tot n) (NewShardedLRUWithCount tot ttl keyFn cnt)"
    "sh_count (NewShardedLRUWithCount tot ttl keyFn cnt) = nat n"
    "sh_ttl (NewShardedLRUWithCount tot ttl keyFn cnt) = ttl"
    "sh_lookup (NewShardedLRUWithCount tot ttl keyFn cnt) k = None"
proof -
  have n: "0 < n" by (simp add: n_def defaultShardCount_def)
  have def: "NewShardedLRUWithCount tot ttl keyFn cnt =
    \<lparr>sh_shards = replicate (nat n) (NewLRU (per_shard tot n) ttl), sh_count = nat n, sh_keyToStr = keyFn\<rparr>"
    by (simp add: NewShardedLRUWithCount_def Let_def n_def)
  show ttl: "sh_ttl (NewShardedLRUWithCount tot ttl keyFn cnt) = ttl"
    using n by (simp add: def sh_ttl_def lru_NewLRU)
  show "sh_bounded (per_shard tot n) (NewShardedLRUWithCount tot ttl keyFn cnt)"
    using n by (simp add: def sh_bounded_def sh_wf_def sh_ttl_def lru_NewLRU)
  show "sh_count (NewShardedLRUWithCount tot ttl keyFn cnt) = nat n" by (simp add: def)
  show "sh_lookup (NewShardedLRUWithCount tot ttl keyFn cnt) k = None"
    using n by (simp add: def sh_lookup_def shard_index_def lru_NewLRU)
qed

lemma per_shard_total: "0 < n \<Longrightarrow> n * max 1 (per_shard tot n) \<le> max tot n"
proof -
  assume n: "0 < n"
  have "n * (tot div n) \<le> tot" using n by (simp add: minus_mod_eq_mult_div [symmetric])
  then show ?thesis
    using n by (cases "tot < 0 \<or> tot div n < 1") (auto simp: per_shard_def Let_def max.coboundedI1 max.absorb2)
qed

section \<open>Properties\<close>

text \<open>The LRU guarantee. After \<^verbatim>\<open>Put\<close> of a key, on a cache in any state it can reach, calls on other
  keys cannot evict it as long as they touch fewer distinct keys than the capacity: a \<^verbatim>\<open>Get\<close> within the
  time to live still returns the value.\<close>

theorem lru_keeps_recently_used:
  assumes "k \<notin> op_key ` set ops" "int (card (op_key ` set ops)) < cap" "now \<le> t + ttl"
  shows "fst (lru_Get now k (lru_run ops (lru_Put t k v (lru_run ops0 (NewLRU cap ttl))))) = Some v"
proof -
  let ?init = "lru_run ops0 (NewLRU cap ttl)"
  let ?c = "lru_Put t k v ?init" and ?f = "lru_run ops (lru_Put t k v ?init)"
  have ttl: "lru_ttl ?init = ttl" using lru.run_ttl [of ops0 "NewLRU cap ttl"] by (simp add: lru_NewLRU)
  have wf: "lru_wf ?init" "lru_wf ?c" by (simp_all add: lru.run_inv lru.put_inv lru_NewLRU)
  have "recent k {} (lru_entries ?c)"
    using lru_wfD(2) [OF wf(2)] lru_Put_refines(2) [OF wf(1), of t k v] by (simp add: recent_def abs_put_def)
  then have "recent k (op_key ` set ops) (lru_entries ?f)"
    using lru_run_recent [OF wf(2), of k "{}" ops] assms lru_run_capacity [of ops0 "NewLRU cap ttl"]
    by (simp add: lru_NewLRU)
  then have "lru_lookup ?f k \<noteq> None" by (simp add: lru_lookup_def recent_def find_key_None)
  moreover have "lru_lookup ?c k = Some (v, t + ttl)" using lru.put_same [OF wf(1), of t k v] ttl by simp
  ultimately have "lru_lookup ?f k = Some (v, t + ttl)"
    using lru.run_frame [OF wf(2) assms(1)] by auto
  then show ?thesis using assms(3) lru.get_result [OF lru.run_inv [OF wf(2)], of now k ops] by simp
qed

theorem lru_keeps_recently_used_witness:
  "fst (lru_Get 9 ''a'' (lru_run [CPut 2 ''b'' 7, CGet 3 ''c''] (lru_Put 1 ''a'' (5 :: nat) (lru_run [] (NewLRU 3 10))))) = Some 5"
  by (rule lru_keeps_recently_used) (simp_all add: card_insert_if)

text \<open>C20: a hit is never stale. Whatever was called before, in whatever order, a value returned by
  \<^verbatim>\<open>Get\<close> on a sharded cache is the value of the most recent \<^verbatim>\<open>Put\<close> of that key, and that \<^verbatim>\<open>Put\<close> is not older
  than the time to live.\<close>

theorem sharded_cache_hit_fresh:
  assumes "fst (sh_Get now k (sh_run ops (NewShardedLRUWithCount tot ttl keyFn cnt))) = Some v"
  shows "\<exists>t. last_put k None ops = Some (v, t) \<and> now \<le> t + ttl"
proof -
  have "sh_wf (NewShardedLRUWithCount tot ttl keyFn cnt)" using sh_New(1) [of tot cnt ttl keyFn] unfolding sh_bounded_def by (rule conjunct1)
  from sharded.hit_is_last_put [OF this sh_New(4) assms] show ?thesis by (simp add: sh_New(3))
qed

theorem sharded_cache_hit_fresh_witness:
  "\<exists>t. last_put ''a'' None [CPut 1 ''a'' (5 :: nat)] = Some (5, t) \<and> (4 :: time) \<le> t + 10"
  by (rule sharded_cache_hit_fresh [where tot = 4 and cnt = 2 and keyFn = "\<lambda>k. k"])
    (simp add: sharded.get_after_put sh_New [unfolded sh_bounded_def])

text \<open>An LRU never holds more than its capacity (one entry if the capacity is not positive), and a
  sharded cache never more than the total capacity, or one entry per shard if that is more.\<close>

theorem cache_len_bounds:
  "int (lru_Len (lru_run ops (NewLRU cap ttl))) \<le> max 1 cap \<and>
   int (sh_Len (sh_run ops' (NewShardedLRUWithCount tot ttl keyFn cnt))) \<le> max tot (if cnt \<le> 0 then 16 else cnt)"
proof -
  have "lru_bounded (lru_run ops (NewLRU cap ttl))" by (rule lru_run_bounded) (rule lru_NewLRU)+
  moreover have "int (sh_Len (sh_run ops' (NewShardedLRUWithCount tot ttl keyFn cnt))) \<le>
      int (nat (if cnt \<le> 0 then defaultShardCount else cnt)) * max 1 (per_shard tot (if cnt \<le> 0 then defaultShardCount else cnt))"
    using sh_Len_bound sh_run_bounded [OF sh_New(1)] sh_New(2) by metis
  moreover have "\<dots> \<le> max tot (if cnt \<le> 0 then 16 else cnt)"
    using per_shard_total [of "if cnt \<le> 0 then defaultShardCount else cnt" tot] by (auto simp: defaultShardCount_def)
  ultimately show ?thesis by (simp add: lru_bounded_def lru_run_capacity lru_NewLRU)
qed

end
