(* ===== verification/Circuit_Breaker.thy ===== *)
theory Circuit_Breaker
  imports Go_Prelude
begin

text \<open>
  The circuit breaker (\<^verbatim>\<open>internal/circuitbreaker/breaker.go\<close>). Every exported method takes the mutex,
  so a method is one atomic step on the struct; \<^verbatim>\<open>time.Now()\<close> is the argument \<^verbatim>\<open>now\<close>, and the calls
  of \<^verbatim>\<open>onStateChange\<close> are collected in the ghost field \<^verbatim>\<open>cb_changes\<close>, oldest first.
  Every sequence of calls keeps the counters below their thresholds and reports only legal
  transitions, and the struct refines the three-state machine \<^verbatim>\<open>spec_state\<close> with one counter each.
\<close>

section \<open>Definitions\<close>

datatype breaker_state = StateClosed | StateOpen | StateHalfOpen

record breaker =
  cb_state :: breaker_state
  cb_failureCount :: int
  cb_successCount :: int
  cb_failureThreshold :: int
  cb_successThreshold :: int
  cb_openTimeout :: duration
  cb_lastFailureAt :: time
  cb_changes :: "(breaker_state \<times> breaker_state) list"

record breaker_config =
  cfg_FailureThreshold :: int
  cfg_SuccessThreshold :: int
  cfg_OpenTimeout :: duration

definition breaker_New :: "breaker_config \<Rightarrow> breaker" where
  "breaker_New cfg =
     \<lparr>cb_state = StateClosed, cb_failureCount = 0, cb_successCount = 0,
      cb_failureThreshold = (if cfg_FailureThreshold cfg \<le> 0 then 5 else cfg_FailureThreshold cfg),
      cb_successThreshold = (if cfg_SuccessThreshold cfg \<le> 0 then 2 else cfg_SuccessThreshold cfg),
      cb_openTimeout = (if cfg_OpenTimeout cfg \<le> 0 then 30 * 1000000000 else cfg_OpenTimeout cfg),
      cb_lastFailureAt = 0, cb_changes = []\<rparr>"

definition setState :: "breaker_state \<Rightarrow> breaker \<Rightarrow> breaker" where
  "setState to b =
     (let from = cb_state b in
      if from = to then b
      else (let b1 = b\<lparr>cb_state := to, cb_successCount := 0\<rparr>;
                b2 = (if to = StateClosed then b1\<lparr>cb_failureCount := 0\<rparr> else b1)
            in b2\<lparr>cb_changes := cb_changes b2 @ [(from, to)]\<rparr>))"

text \<open>The boolean is the returned error: True is \<^verbatim>\<open>nil\<close>, False is \<^verbatim>\<open>ErrCircuitOpen\<close>.\<close>

definition Allow :: "time \<Rightarrow> breaker \<Rightarrow> bool \<times> breaker" where
  "Allow now b = (case cb_state b of
     StateClosed \<Rightarrow> (True, b)
   | StateOpen \<Rightarrow> (if now - cb_lastFailureAt b > cb_openTimeout b then (True, setState StateHalfOpen b) else (False, b))
   | StateHalfOpen \<Rightarrow> (True, b))"

definition RecordSuccess :: "breaker \<Rightarrow> breaker" where
  "RecordSuccess b =
     (let b1 = b\<lparr>cb_failureCount := 0\<rparr> in
      if cb_state b1 = StateHalfOpen
      then (let b2 = b1\<lparr>cb_successCount := cb_successCount b1 + 1\<rparr> in
            if cb_successCount b2 \<ge> cb_successThreshold b2 then setState StateClosed b2 else b2)
      else b1)"

definition RecordFailure :: "time \<Rightarrow> breaker \<Rightarrow> breaker" where
  "RecordFailure now b =
     (let b1 = b\<lparr>cb_failureCount := cb_failureCount b + 1, cb_successCount := 0, cb_lastFailureAt := now\<rparr> in
      if cb_state b1 = StateHalfOpen then setState StateOpen b1
      else if cb_state b1 = StateClosed \<and> cb_failureCount b1 \<ge> cb_failureThreshold b1 then setState StateOpen b1
      else b1)"

definition GetState :: "time \<Rightarrow> breaker \<Rightarrow> breaker_state \<times> breaker" where
  "GetState now b =
     (let b1 = (if cb_state b = StateOpen \<and> now - cb_lastFailureAt b > cb_openTimeout b
                then setState StateHalfOpen b else b)
      in (cb_state b1, b1))"

fun breaker_state_String :: "breaker_state \<Rightarrow> string" where
  "breaker_state_String StateClosed = ''closed''"
| "breaker_state_String StateOpen = ''open''"
| "breaker_state_String StateHalfOpen = ''half-open''"

lemmas breaker_defs = setState_def Allow_def RecordSuccess_def RecordFailure_def GetState_def Let_def

section \<open>Calls and reachable states\<close>

datatype breaker_op = OpAllow time | OpSuccess | OpFailure time | OpGetState time

fun breaker_call :: "breaker_op \<Rightarrow> breaker \<Rightarrow> breaker" where
  "breaker_call (OpAllow now) b = snd (Allow now b)"
| "breaker_call OpSuccess b = RecordSuccess b"
| "breaker_call (OpFailure now) b = RecordFailure now b"
| "breaker_call (OpGetState now) b = snd (GetState now b)"

inductive breaker_reachable :: "breaker_config \<Rightarrow> breaker \<Rightarrow> bool" for cfg where
  reach_new: "breaker_reachable cfg (breaker_New cfg)"
| reach_call: "breaker_reachable cfg b \<Longrightarrow> breaker_reachable cfg (breaker_call op b)"

fun legal_change :: "breaker_state \<times> breaker_state \<Rightarrow> bool" where
  "legal_change (StateClosed, StateOpen) = True"
| "legal_change (StateOpen, StateHalfOpen) = True"
| "legal_change (StateHalfOpen, StateOpen) = True"
| "legal_change (StateHalfOpen, StateClosed) = True"
| "legal_change _ = False"

text \<open>The reported transitions form a path from \<^verbatim>\<open>StateClosed\<close> to the present state.\<close>

fun change_path :: "breaker_state \<Rightarrow> (breaker_state \<times> breaker_state) list \<Rightarrow> breaker_state \<Rightarrow> bool" where
  "change_path s [] t \<longleftrightarrow> s = t"
| "change_path s ((a, b) # cs) t \<longleftrightarrow> s = a \<and> legal_change (a, b) \<and> change_path b cs t"

definition breaker_inv :: "breaker \<Rightarrow> bool" where
  "breaker_inv b \<longleftrightarrow>
     0 < cb_failureThreshold b \<and> 0 < cb_successThreshold b \<and> 0 < cb_openTimeout b \<and>
     0 \<le> cb_failureCount b \<and> 0 \<le> cb_successCount b \<and>
     (cb_state b = StateClosed \<longrightarrow> cb_failureCount b < cb_failureThreshold b) \<and>
     (if cb_state b = StateHalfOpen then cb_successCount b < cb_successThreshold b else cb_successCount b = 0) \<and>
     change_path StateClosed (cb_changes b) (cb_state b)"

lemma change_path_snoc [simp]:
  "change_path s (cs @ [(a, b)]) t \<longleftrightarrow> change_path s cs a \<and> legal_change (a, b) \<and> b = t"
  by (induction s cs t rule: change_path.induct) auto

lemma breaker_inv_New: "breaker_inv (breaker_New cfg)"
  by (simp add: breaker_inv_def breaker_New_def)

lemma breaker_inv_call: "breaker_inv b \<Longrightarrow> breaker_inv (breaker_call op b)"
  by (cases op; cases "cb_state b") (auto simp: breaker_inv_def breaker_defs)

lemma breaker_reachable_inv: "breaker_reachable cfg b \<Longrightarrow> breaker_inv b"
  by (induction rule: breaker_reachable.induct) (simp_all add: breaker_inv_New breaker_inv_call)

section \<open>The abstract machine\<close>

text \<open>Each state keeps only what decides its future: the consecutive failures, the time of the last
  failure, the consecutive successes.\<close>

datatype spec_state = SClosed int | SOpen time | SHalfOpen int

fun spec_half :: "duration \<Rightarrow> time \<Rightarrow> spec_state \<Rightarrow> spec_state" where
  "spec_half timeout now (SOpen t) = (if now - t > timeout then SHalfOpen 0 else SOpen t)"
| "spec_half timeout now s = s"

fun spec_call :: "int \<Rightarrow> int \<Rightarrow> duration \<Rightarrow> breaker_op \<Rightarrow> spec_state \<Rightarrow> spec_state" where
  "spec_call ft st timeout (OpAllow now) s = spec_half timeout now s"
| "spec_call ft st timeout (OpGetState now) s = spec_half timeout now s"
| "spec_call ft st timeout OpSuccess (SClosed n) = SClosed 0"
| "spec_call ft st timeout OpSuccess (SOpen t) = SOpen t"
| "spec_call ft st timeout OpSuccess (SHalfOpen n) = (if n + 1 \<ge> st then SClosed 0 else SHalfOpen (n + 1))"
| "spec_call ft st timeout (OpFailure now) (SClosed n) = (if n + 1 \<ge> ft then SOpen now else SClosed (n + 1))"
| "spec_call ft st timeout (OpFailure now) _ = SOpen now"

definition breaker_abs :: "breaker \<Rightarrow> spec_state" where
  "breaker_abs b = (case cb_state b of
     StateClosed \<Rightarrow> SClosed (cb_failureCount b)
   | StateOpen \<Rightarrow> SOpen (cb_lastFailureAt b)
   | StateHalfOpen \<Rightarrow> SHalfOpen (cb_successCount b))"

lemma breaker_call_thresholds [simp]:
  "cb_failureThreshold (breaker_call op b) = cb_failureThreshold b"
  "cb_successThreshold (breaker_call op b) = cb_successThreshold b"
  "cb_openTimeout (breaker_call op b) = cb_openTimeout b"
  by (cases op; simp add: breaker_defs split: breaker_state.split)+

lemma breaker_simulation:
  "breaker_abs (breaker_call op b) =
     spec_call (cb_failureThreshold b) (cb_successThreshold b) (cb_openTimeout b) op (breaker_abs b)"
  by (cases op; cases "cb_state b") (auto simp: breaker_abs_def breaker_defs)

lemma breaker_failures_closed:
  assumes "breaker_abs b = SClosed k" "k + int (length ts) < cb_failureThreshold b"
  shows "breaker_abs (foldl (\<lambda>x t. RecordFailure t x) b ts) = SClosed (k + int (length ts))"
  using assms
proof (induction ts arbitrary: b k)
  case (Cons t ts)
  have "breaker_abs (RecordFailure t b) = SClosed (k + 1)"
    using breaker_simulation [of "OpFailure t" b] Cons.prems by simp
  with Cons.IH [of "RecordFailure t b" "k + 1"] breaker_call_thresholds [of "OpFailure t" b] Cons.prems
  show ?case by (simp add: algebra_simps)
qed simp

section \<open>Properties\<close>

text \<open>In every state a breaker can reach, the thresholds and the timeout are positive, a closed breaker
  has counted fewer failures than its threshold, a half-open one fewer successes than its threshold, the
  success counter is zero elsewhere, and the calls of \<^verbatim>\<open>onStateChange\<close> form a path of legal transitions
  from closed to the present state.\<close>

theorem breaker_invariant:
  assumes "breaker_reachable cfg b"
  shows "breaker_inv b"
  using assms by (rule breaker_reachable_inv)

theorem breaker_invariant_witness:
  "breaker_inv (breaker_call (OpFailure 7) (breaker_New \<lparr>cfg_FailureThreshold = 1, cfg_SuccessThreshold = 0, cfg_OpenTimeout = 0\<rparr>))"
  by (rule breaker_invariant) (rule reach_call, rule reach_new)

text \<open>C19: any sequence of calls on the struct, observed through its abstraction, is the run of the
  three-state machine, and the answer of \<^verbatim>\<open>Allow\<close> is a refusal exactly when that machine is open and the
  timeout has not passed.\<close>

theorem breaker_refines_spec:
  "breaker_abs (foldl (\<lambda>x op. breaker_call op x) b ops) =
     foldl (\<lambda>s op. spec_call (cb_failureThreshold b) (cb_successThreshold b) (cb_openTimeout b) op s)
       (breaker_abs b) ops \<and>
   (fst (Allow now b) \<longleftrightarrow> \<not> (\<exists>t. breaker_abs b = SOpen t \<and> now - t \<le> cb_openTimeout b))"
proof (rule conjI)
  show "breaker_abs (foldl (\<lambda>x op. breaker_call op x) b ops) =
     foldl (\<lambda>s op. spec_call (cb_failureThreshold b) (cb_successThreshold b) (cb_openTimeout b) op s)
       (breaker_abs b) ops"
    by (induction ops arbitrary: b) (simp_all add: breaker_simulation)
  show "fst (Allow now b) \<longleftrightarrow> \<not> (\<exists>t. breaker_abs b = SOpen t \<and> now - t \<le> cb_openTimeout b)"
    by (cases "cb_state b") (auto simp: Allow_def breaker_abs_def)
qed

end
