(* ===== verification/Normalizer.thy ===== *)
theory Normalizer
  imports Balance_Events Ingester_Rules LRU_Cache Circuit_Breaker Retry
begin

text \<open>
  The normalizer (\<^verbatim>\<open>internal/pipeline/normalizer/normalizer.go\<close> and the batch-level functions of
  \<^verbatim>\<open>normalizer_identity_decode.go\<close>): a raw batch goes to the decoder sidecar, and the decoded results become a
  normalized batch. The environment of a run gives the answer of the sidecar, the clock, and the
  outcomes of the channel send and of the sleep between attempts. A worker returns the batches it
  sent; the state it keeps is the circuit breaker and the coverage floor.
\<close>

section \<open>State and environment\<close>

record normalizer =
  nz_retryMaxAttempts :: int
  nz_retryDelayStart :: duration
  nz_retryDelayMax :: duration
  nz_cbFailureThreshold :: int
  nz_cbSuccessThreshold :: int
  nz_cbOpenTimeout :: duration
  nz_circuitBreaker :: "breaker option"
  nz_coverageFloor :: "(string, transaction_result) sharded_lru"

record decode_response =
  rs_Results :: "transaction_result option list"
  rs_Errors :: "decode_error option list"

record norm_env =
  nv_now :: time
  nv_clock :: "nat \<Rightarrow> time"
  nv_decode :: "(string \<times> string) list \<Rightarrow> string list \<Rightarrow> gerr + decode_response"
  nv_send :: "gerr option"
  nv_ctxErr :: "gerr option"
  nv_sleep :: "gerr option"
  nv_sum256 :: "string \<Rightarrow> string"
  nv_FromError :: "gerr \<Rightarrow> nat option"
  nv_codeString :: "nat \<Rightarrow> string"

definition NewNormalizer :: normalizer where
  "NewNormalizer = \<lparr>nz_retryMaxAttempts = 3, nz_retryDelayStart = 100000000, nz_retryDelayMax = 1000000000, nz_cbFailureThreshold = 0,
     nz_cbSuccessThreshold = 0, nz_cbOpenTimeout = 0, nz_circuitBreaker = None, nz_coverageFloor = NewShardedLRU 50000 600000000000 (\<lambda>k. k)\<rparr>"

definition norm_WithRetryConfig :: "int \<Rightarrow> duration \<Rightarrow> duration \<Rightarrow> normalizer \<Rightarrow> normalizer" where
  "norm_WithRetryConfig maxAttempts delayInitial delayMax n =
     n\<lparr>nz_retryMaxAttempts := maxAttempts, nz_retryDelayStart := delayInitial, nz_retryDelayMax := delayMax\<rparr>"

definition norm_WithCircuitBreaker :: "int \<Rightarrow> int \<Rightarrow> duration \<Rightarrow> normalizer \<Rightarrow> normalizer" where
  "norm_WithCircuitBreaker failureThreshold successThreshold openTimeout n =
     n\<lparr>nz_cbFailureThreshold := failureThreshold, nz_cbSuccessThreshold := successThreshold, nz_cbOpenTimeout := openTimeout\<rparr>"

definition init_breaker :: "normalizer \<Rightarrow> normalizer" where
  "init_breaker n = (case nz_circuitBreaker n of
     Some b \<Rightarrow> n
   | None \<Rightarrow> n\<lparr>nz_circuitBreaker := Some (breaker_New
       \<lparr>cfg_FailureThreshold = (if nz_cbFailureThreshold n \<le> 0 then 5 else nz_cbFailureThreshold n),
        cfg_SuccessThreshold = (if nz_cbSuccessThreshold n \<le> 0 then 2 else nz_cbSuccessThreshold n),
        cfg_OpenTimeout = (if nz_cbOpenTimeout n \<le> 0 then 30000000000 else nz_cbOpenTimeout n)\<rparr>)\<rparr>)"

section \<open>Signatures and decode errors\<close>

definition shouldReplaceCanonicalSignature :: "signature_info \<Rightarrow> signature_info \<Rightarrow> bool" where
  "shouldReplaceCanonicalSignature existing incoming =
     (if sig_Sequence existing \<noteq> sig_Sequence incoming then sig_Sequence incoming > sig_Sequence existing
      else sig_Hash incoming < sig_Hash existing)"

definition canonicalizeBatchSignatures :: "chain \<Rightarrow> signature_info list \<Rightarrow> signature_info list" where
  "canonicalizeBatchSignatures chainID sigs =
     (let candidates = filter (\<lambda>s. sig_Hash s \<noteq> '''') (map (\<lambda>s. s\<lparr>sig_Hash := CanonicalSignatureIdentity chainID (sig_Hash s)\<rparr>) sigs);
          byIdentity = keep_best shouldReplaceCanonicalSignature (map (\<lambda>s. (sig_Hash s, s)) candidates)
      in sort_key (\<lambda>s. (sig_Sequence s, sig_Hash s)) (map snd byIdentity))"

definition pad3 :: "nat \<Rightarrow> string" where
  "pad3 n = (let s = nat_String n in replicate (3 - length s) CHR ''0'' @ s)"

text \<open>The maps of terminal and of transient reasons by signature.\<close>

definition decode_error_step ::
  "(gerr \<Rightarrow> nat option) \<Rightarrow> (nat \<Rightarrow> string) \<Rightarrow> chain \<Rightarrow> nat \<times> decode_error \<Rightarrow> string_map \<times> string_map \<Rightarrow> string_map \<times> string_map" where
  "decode_error_step FromError codeString chainID ie st =
     (let (idx, err) = ie; (terminal, transient) = st;
          key0 = CanonicalSignatureIdentity chainID (de_Signature err);
          key = (if key0 = '''' then ''<unknown:'' @ pad3 idx @ ''>'' else key0);
          reason0 = TrimSpace (de_Error err);
          reason = (if reason0 = '''' then ''decode failed'' else reason0);
          put = (\<lambda>m. case map_of m key of None \<Rightarrow> AList.update key reason m | Some ex \<Rightarrow> if reason < ex then AList.update key reason m else m)
      in if IsTransient (Classify FromError codeString (Some (ErrMsg (''sidecar decode error: '' @ reason))))
         then (AList.delete key terminal, put transient)
         else if map_of transient key \<noteq> None then (terminal, transient)
         else (put terminal, transient))"

definition classifyDecodeErrors ::
  "(gerr \<Rightarrow> nat option) \<Rightarrow> (nat \<Rightarrow> string) \<Rightarrow> chain \<Rightarrow> decode_error option list \<Rightarrow> string_map \<times> string_map" where
  "classifyDecodeErrors FromError codeString chainID errs =
     fold (\<lambda>(idx, e) st. case e of None \<Rightarrow> st | Some err \<Rightarrow> decode_error_step FromError codeString chainID (idx, err) st)
       (zip [0..<length errs] errs) ([], [])"

definition formatDecodeDiagnostics :: "string_map \<Rightarrow> string" where
  "formatDecodeDiagnostics m =
     (if m = [] then ''<none>'' else Join '','' (map (\<lambda>(s, r). s @ ''='' @ r) (sort_key fst m)))"

section \<open>Results by signature\<close>

type_synonym results_by_key = "(string \<times> transaction_result) list"

record sorted_results =
  sr_bySignature :: results_by_key
  sr_unexpectedNames :: "string list"
  sr_unexpected :: results_by_key

definition store_result :: "chain \<Rightarrow> string \<Rightarrow> transaction_result \<Rightarrow> results_by_key \<Rightarrow> results_by_key" where
  "store_result chainID key result m = (case reconcileDecodedResultCoverage chainID (map_of m key) (Some result) of
     None \<Rightarrow> m | Some r \<Rightarrow> AList.update key r m)"

definition sort_result :: "chain \<Rightarrow> string list \<Rightarrow> transaction_result \<Rightarrow> sorted_results \<Rightarrow> sorted_results" where
  "sort_result chainID expected result s =
     (let key = CanonicalSignatureIdentity chainID (dr_TxHash result) in
      if key = '''' then s\<lparr>sr_unexpectedNames := List.insert ''<empty>'' (sr_unexpectedNames s)\<rparr>
      else if key \<notin> set expected
      then s\<lparr>sr_unexpectedNames := List.insert key (sr_unexpectedNames s), sr_unexpected := store_result chainID key result (sr_unexpected s)\<rparr>
      else s\<lparr>sr_bySignature := store_result chainID key result (sr_bySignature s)\<rparr>)"

definition sort_results :: "chain \<Rightarrow> string list \<Rightarrow> transaction_result option list \<Rightarrow> sorted_results" where
  "sort_results chainID expected results =
     fold (sort_result chainID expected) (somes results) \<lparr>sr_bySignature = [], sr_unexpectedNames = [], sr_unexpected = []\<rparr>"

definition sortedSignatureKeys :: "string list \<Rightarrow> string list" where
  "sortedSignatureKeys names = sort names"

definition singleSignatureFallbackResult :: "results_by_key \<Rightarrow> transaction_result option" where
  "singleSignatureFallbackResult m = (case m of [(k, r)] \<Rightarrow> Some r | _ \<Rightarrow> None)"

section \<open>One transaction\<close>

definition resolveWatchedAddressSet :: "raw_batch \<Rightarrow> string \<Rightarrow> bool" where
  "resolveWatchedAddressSet batch =
     (if rb_BlockScanMode batch \<and> rb_WatchedAddresses batch \<noteq> []
      then (\<lambda>a. a \<noteq> '''' \<and> a \<in> set (map (\<lambda>addr. let canonical = canonicalizeAddressIdentity (rb_Chain batch) addr in
                if canonical = '''' then addr else canonical) (rb_WatchedAddresses batch)))
      else if rb_Address batch \<noteq> '''' then (\<lambda>a. a = rb_Address batch) else (\<lambda>a. False))"

definition result_events :: "(string \<Rightarrow> string) \<Rightarrow> chain \<Rightarrow> network \<Rightarrow> string \<Rightarrow> transaction_result \<Rightarrow> (string \<Rightarrow> bool) \<Rightarrow> normalized_balance_event list" where
  "result_events sum256 c n txHash r watched =
     (let build = (if IsEVMChain c then buildCanonicalBaseBalanceEventsMulti
                   else if c = ChainBTC then buildCanonicalBTCBalanceEventsMulti else buildCanonicalSolanaBalanceEventsMulti)
      in build sum256 c n txHash (dr_Status r) (dr_FeePayer r) (dr_FeeAmount r) (resolveResultFinalityState c (Some r)) (dr_BalanceEvents r) watched)"

definition result_hash :: "chain \<Rightarrow> transaction_result \<Rightarrow> string" where
  "result_hash c r = (let h = CanonicalSignatureIdentity c (dr_TxHash r) in if h = '''' then dr_TxHash r else h)"

definition normalizedTxFromResult ::
  "(string \<Rightarrow> string) \<Rightarrow> raw_batch \<Rightarrow> transaction_result \<Rightarrow> time option \<Rightarrow> (string \<Rightarrow> bool) \<Rightarrow> normalized_transaction" where
  "normalizedTxFromResult sum256 batch r sigTime watched =
     (let txHash = result_hash (rb_Chain batch) r in
      \<lparr>nt_TxHash = txHash, nt_BlockCursor = dr_BlockCursor r,
       nt_BlockTime = (if dr_BlockTime r \<noteq> 0 then Some (dr_BlockTime r * 1000000000) else sigTime),
       nt_FeeAmount = dr_FeeAmount r, nt_FeePayer = dr_FeePayer r, nt_Status = dr_Status r, nt_Err = dr_Error r, nt_ChainData = Some ''{}'',
       nt_BlockHash = '''', nt_ParentHash = '''',
       nt_BalanceEvents = result_events sum256 (rb_Chain batch) (rb_Network batch) txHash r watched\<rparr>)"

definition ReplayNormalizeTxResult :: "(string \<Rightarrow> string) \<Rightarrow> chain \<Rightarrow> network \<Rightarrow> transaction_result \<Rightarrow> (string \<Rightarrow> bool) \<Rightarrow> normalized_transaction" where
  "ReplayNormalizeTxResult sum256 c n r watched =
     (let txHash = result_hash c r in
      \<lparr>nt_TxHash = txHash, nt_BlockCursor = dr_BlockCursor r,
       nt_BlockTime = (if dr_BlockTime r \<noteq> 0 then Some (dr_BlockTime r * 1000000000) else None),
       nt_FeeAmount = dr_FeeAmount r, nt_FeePayer = dr_FeePayer r, nt_Status = dr_Status r, nt_Err = dr_Error r, nt_ChainData = Some ''{}'',
       nt_BlockHash = '''', nt_ParentHash = '''', nt_BalanceEvents = result_events sum256 c n txHash r watched\<rparr>)"

section \<open>The coverage floor\<close>

definition coverageFloorKey :: "chain \<Rightarrow> network \<Rightarrow> string \<Rightarrow> string \<Rightarrow> string" where
  "coverageFloorKey c n address signature =
     (let a0 = canonicalizeAddressIdentity c address; a = (if a0 = '''' then TrimSpace address else a0) in c @ ''|'' @ n @ ''|'' @ a @ ''|'' @ signature)"

definition reconcileCoverageRegressionFlap ::
  "time \<Rightarrow> raw_batch \<Rightarrow> string \<Rightarrow> transaction_result \<Rightarrow> (string, transaction_result) sharded_lru \<Rightarrow>
     transaction_result \<times> (string, transaction_result) sharded_lru" where
  "reconcileCoverageRegressionFlap now batch signatureKey incoming floor =
     (if signatureKey = '''' then (incoming, floor)
      else let key = coverageFloorKey (rb_Chain batch) (rb_Network batch) (rb_Address batch) signatureKey;
               (existing, floor1) = sh_Get now key floor
           in case reconcileDecodedResultCoverage (rb_Chain batch) existing (Some incoming) of
             None \<Rightarrow> (incoming, floor1)
           | Some reconciled \<Rightarrow> (reconciled, sh_Put now key (cloneDecodedResult reconciled) floor1))"

section \<open>The loop over the signatures\<close>

definition shouldAdvanceCanonicalCursor :: "int \<Rightarrow> string option \<Rightarrow> int \<Rightarrow> string \<Rightarrow> bool" where
  "shouldAdvanceCanonicalCursor currentSequence currentValue candidateSequence candidateValue =
     (if candidateSequence > currentSequence then True
      else if candidateSequence < currentSequence then False
      else let candidate = TrimSpace candidateValue in
        if candidate = '''' then False
        else case currentValue of
          None \<Rightarrow> True
        | Some v \<Rightarrow> let current = TrimSpace v in if current = '''' then True else candidate > current)"

record decode_state =
  ds_results :: results_by_key
  ds_unexpected :: results_by_key
  ds_floor :: "(string, transaction_result) sharded_lru"
  ds_txs :: "normalized_transaction list"
  ds_cursorValue :: "string option"
  ds_cursorSequence :: int
  ds_failures :: "(string \<times> string) list"

definition isolate :: "string \<Rightarrow> string \<Rightarrow> decode_state \<Rightarrow> decode_state" where
  "isolate signature reason s = s\<lparr>ds_failures := ds_failures s @ [(signature, reason)]\<rparr>"

definition take_result :: "chain \<Rightarrow> bool \<Rightarrow> string \<Rightarrow> decode_state \<Rightarrow> transaction_result option \<times> decode_state" where
  "take_result chainID single key s = (case map_of (ds_results s) key of
     Some r \<Rightarrow> (Some r, s\<lparr>ds_results := AList.delete key (ds_results s)\<rparr>)
   | None \<Rightarrow>
       if single then (case singleSignatureFallbackResult (ds_unexpected s) of
           None \<Rightarrow> (None, s)
         | Some r \<Rightarrow> (Some r, s\<lparr>ds_unexpected := AList.delete (CanonicalSignatureIdentity chainID (dr_TxHash r)) (ds_unexpected s)\<rparr>))
       else (None, s))"

definition accept_result ::
  "norm_env \<Rightarrow> raw_batch \<Rightarrow> (string \<Rightarrow> bool) \<Rightarrow> nat \<Rightarrow> signature_info \<Rightarrow> string \<Rightarrow> transaction_result \<Rightarrow> decode_state \<Rightarrow> decode_state" where
  "accept_result env batch watched i sig key r0 s =
     (let (r, floor) = reconcileCoverageRegressionFlap (nv_clock env i) batch key r0 (ds_floor s);
          s1 = s\<lparr>ds_floor := floor, ds_txs := ds_txs s @ [normalizedTxFromResult (nv_sum256 env) batch r (sig_Time sig) watched]\<rparr>
      in if shouldAdvanceCanonicalCursor (ds_cursorSequence s1) (ds_cursorValue s1) (sig_Sequence sig) key
         then s1\<lparr>ds_cursorValue := Some key, ds_cursorSequence := sig_Sequence sig\<rparr> else s1)"

definition decode_signature ::
  "norm_env \<Rightarrow> raw_batch \<Rightarrow> (string \<Rightarrow> bool) \<Rightarrow> string_map \<Rightarrow> string list \<Rightarrow> bool \<Rightarrow> nat \<times> signature_info \<Rightarrow> decode_state \<Rightarrow> decode_state" where
  "decode_signature env batch watched errorBySignature unexpectedSignatures single isig s =
     (let (i, sig) = isig; signature = TrimSpace (sig_Hash sig); key = CanonicalSignatureIdentity (rb_Chain batch) signature in
      if key = '''' then isolate ''<empty>'' ''empty signature'' s
      else case map_of errorBySignature key of
        Some msg \<Rightarrow> isolate signature (if msg = '''' then ''decode failed'' else msg) s
      | None \<Rightarrow>
          (case take_result (rb_Chain batch) single key s of
             (None, s1) \<Rightarrow> isolate signature
               (if unexpectedSignatures \<noteq> [] then ''missing decode result (unexpected='' @ Join ''|'' unexpectedSignatures @ '')'' else ''missing decode result'') s1
           | (Some r, s1) \<Rightarrow> accept_result env batch watched i sig key r s1))"

section \<open>A batch\<close>

definition batch_shell :: "raw_batch \<Rightarrow> normalized_batch" where
  "batch_shell batch = \<lparr>nb_Chain = rb_Chain batch, nb_Network = rb_Network batch, nb_Address = rb_Address batch, nb_WalletID = rb_WalletID batch,
     nb_OrgID = rb_OrgID batch, nb_PreviousCursorValue = CanonicalizeCursorValue (rb_Chain batch) (rb_PreviousCursorValue batch),
     nb_PreviousCursorSequence = rb_PreviousCursorSequence batch, nb_Transactions = [],
     nb_NewCursorValue = CanonicalizeCursorValue (rb_Chain batch) (rb_NewCursorValue batch), nb_NewCursorSequence = rb_NewCursorSequence batch,
     nb_BlockScanMode = rb_BlockScanMode batch, nb_WatchedAddresses = rb_WatchedAddresses batch\<rparr>"

definition start_cursor :: "raw_batch \<Rightarrow> string option \<times> int" where
  "start_cursor batch = (case CanonicalizeCursorValue (rb_Chain batch) (rb_PreviousCursorValue batch) of
     None \<Rightarrow> (CanonicalizeCursorValue (rb_Chain batch) (rb_NewCursorValue batch), rb_NewCursorSequence batch)
   | Some v \<Rightarrow> (Some v, rb_PreviousCursorSequence batch))"

definition decode_all :: "norm_env \<Rightarrow> raw_batch \<Rightarrow> signature_info list \<Rightarrow> string_map \<Rightarrow> decode_response \<Rightarrow> (string, transaction_result) sharded_lru \<Rightarrow> decode_state" where
  "decode_all env batch sigs errorBySignature resp floor =
     (let expected = filter (\<lambda>k. k \<noteq> '''') (map (\<lambda>s. CanonicalSignatureIdentity (rb_Chain batch) (sig_Hash s)) sigs);
          sorted = sort_results (rb_Chain batch) expected (rs_Results resp);
          unexpectedSignatures = sortedSignatureKeys (sr_unexpectedNames sorted);
          start = \<lparr>ds_results = sr_bySignature sorted, ds_unexpected = sr_unexpected sorted, ds_floor = floor, ds_txs = [],
            ds_cursorValue = fst (start_cursor batch), ds_cursorSequence = snd (start_cursor batch), ds_failures = []\<rparr>
      in fold (decode_signature env batch (resolveWatchedAddressSet batch) errorBySignature unexpectedSignatures (length sigs = 1))
           (zip [0..<length sigs] sigs) start)"

definition allow_call :: "norm_env \<Rightarrow> normalizer \<Rightarrow> bool \<times> normalizer" where
  "allow_call env nz = (case nz_circuitBreaker nz of
     None \<Rightarrow> (True, nz)
   | Some b \<Rightarrow> (let (ok, b') = Allow (nv_now env) b in (ok, nz\<lparr>nz_circuitBreaker := Some b'\<rparr>)))"

definition record_call :: "norm_env \<Rightarrow> gerr option \<Rightarrow> normalizer \<Rightarrow> normalizer" where
  "record_call env err nz = (case nz_circuitBreaker nz of
     None \<Rightarrow> nz
   | Some b \<Rightarrow> (case err of
       None \<Rightarrow> nz\<lparr>nz_circuitBreaker := Some (RecordSuccess b)\<rparr>
     | Some e \<Rightarrow> if IsTransient (Classify (nv_FromError env) (nv_codeString env) (Some e))
         then nz\<lparr>nz_circuitBreaker := Some (RecordFailure (nv_now env) b)\<rparr> else nz))"

type_synonym norm_result = "gerr option \<times> normalized_batch option \<times> normalizer"

definition send_batch :: "norm_env \<Rightarrow> normalized_batch \<Rightarrow> normalizer \<Rightarrow> norm_result" where
  "send_batch env nb nz = (case nv_send env of None \<Rightarrow> (None, Some nb, nz) | Some e \<Rightarrow> (Some e, None, nz))"

definition finish_batch :: "norm_env \<Rightarrow> raw_batch \<Rightarrow> signature_info list \<Rightarrow> decode_response \<Rightarrow> normalizer \<Rightarrow> norm_result" where
  "finish_batch env batch sigs resp nz =
     (let (terminal, transient) = classifyDecodeErrors (nv_FromError env) (nv_codeString env) (rb_Chain batch) (rs_Errors resp) in
      if transient \<noteq> []
      then (Transient (Some (ErrMsg (''decode transient stage=normalizer.decode_batch signatures='' @ nat_String (length transient) @ '' diagnostics='' @
              formatDecodeDiagnostics transient))), None, nz)
      else let s = decode_all env batch sigs terminal resp (nz_coverageFloor nz); nz' = nz\<lparr>nz_coverageFloor := ds_floor s\<rparr> in
        if ds_txs s = [] \<and> sigs \<noteq> []
        then (Some (ErrMsg (''decode collapse stage=normalizer.decode_batch no decodable transactions in batch (diagnostics='' @
                Join '','' (if ds_failures s = [] then [''<unknown>=missing decode result''] else map (\<lambda>(g, r). g @ ''='' @ r) (ds_failures s)) @ '')'')),
              None, nz')
        else send_batch env ((batch_shell batch)\<lparr>nb_Transactions := ds_txs s, nb_NewCursorValue := ds_cursorValue s,
               nb_NewCursorSequence := ds_cursorSequence s\<rparr>) nz')"

definition norm_processBatch :: "norm_env \<Rightarrow> raw_batch \<Rightarrow> normalizer \<Rightarrow> norm_result" where
  "norm_processBatch env batch nz =
     (if rb_RawTransactions batch = [] \<and> rb_Signatures batch = [] then send_batch env (batch_shell batch) nz
      else if length (rb_RawTransactions batch) \<noteq> length (rb_Signatures batch)
      then (Some (ErrMsg (''raw/signature length mismatch: raw='' @ nat_String (length (rb_RawTransactions batch)) @ '' signatures='' @
              nat_String (length (rb_Signatures batch)))), None, nz)
      else let sigs = canonicalizeBatchSignatures (rb_Chain batch) (rb_Signatures batch) in
        if sigs = [] \<and> rb_Signatures batch \<noteq> []
        then (Some (ErrMsg ''decode collapse stage=normalizer.decode_batch no canonical signatures in batch''), None, nz)
        else let (ok, nz1) = allow_call env nz in
          if \<not> ok then (Transient (Some (ErrWrap ''sidecar circuit breaker open: '' (ErrMsg ''circuit breaker is open''))), None, nz1)
          else let watchedAddrs = (if rb_BlockScanMode batch \<and> rb_WatchedAddresses batch \<noteq> [] then rb_WatchedAddresses batch else [rb_Address batch])
            in case nv_decode env (zip (map sig_Hash (rb_Signatures batch)) (rb_RawTransactions batch)) watchedAddrs of
              Inl e \<Rightarrow> (Some (ErrWrap ''sidecar decode: '' e), None, record_call env (Some e) nz1)
            | Inr resp \<Rightarrow> finish_batch env batch sigs resp (record_call env None nz1))"

section \<open>Attempts and workers\<close>

fun norm_retry :: "(nat \<Rightarrow> norm_env) \<Rightarrow> nat \<Rightarrow> nat \<Rightarrow> raw_batch \<Rightarrow> normalizer \<Rightarrow> norm_result" where
  "norm_retry envs attempt 0 batch nz = (Some (ErrMsg ''transient_recovery_exhausted''), None, nz)"
| "norm_retry envs attempt (Suc left) batch nz =
     (case norm_processBatch (envs attempt) batch nz of
        (None, sent, nz') \<Rightarrow> (None, sent, nz')
      | (Some e, _, nz') \<Rightarrow>
          (let env = envs attempt; decision = Classify (nv_FromError env) (nv_codeString env) (Some e) in
           if nv_ctxErr env \<noteq> None then (nv_ctxErr env, None, nz')
           else if \<not> IsTransient decision
           then (Some (ErrWrap (''terminal_failure stage=normalizer.decode_batch attempt='' @ nat_String attempt @ '' reason='' @ d_Reason decision @ '': '') e), None, nz')
           else if left = 0
           then (Some (ErrWrap (''transient_recovery_exhausted stage=normalizer.decode_batch attempts='' @ nat_String attempt @ '' reason='' @ d_Reason decision @ '': '') e),
                 None, nz')
           else if nv_sleep env \<noteq> None then (nv_sleep env, None, nz')
           else norm_retry envs (attempt + 1) left batch nz'))"

definition norm_processBatchWithRetry :: "(nat \<Rightarrow> norm_env) \<Rightarrow> raw_batch \<Rightarrow> normalizer \<Rightarrow> norm_result" where
  "norm_processBatchWithRetry envs batch nz = norm_retry envs 1 (effectiveRetryMaxAttempts (nz_retryMaxAttempts nz)) batch nz"

text \<open>
  A worker over what its select yields, a batch or the cancellation of its context; the end of the
  list is the closed channel. It returns the error that stopped it and the batches it sent.
\<close>

datatype worker_input = Received raw_batch | Cancelled gerr

fun norm_worker ::
  "(nat \<Rightarrow> nat \<Rightarrow> norm_env) \<Rightarrow> nat \<Rightarrow> worker_input list \<Rightarrow> normalizer \<Rightarrow> gerr option \<times> normalized_batch list \<times> normalizer" where
  "norm_worker envs i [] nz = (None, [], nz)"
| "norm_worker envs i (Cancelled e # ins) nz = (Some e, [], nz)"
| "norm_worker envs i (Received b # ins) nz = (case norm_processBatchWithRetry (envs i) b nz of
     (Some e, _, nz') \<Rightarrow> (Some (ErrWrap (''normalizer process batch failed: address='' @ rb_Address b @ '': '') e), [], nz')
   | (None, sent, nz') \<Rightarrow> (let (err, out, nz'') = norm_worker envs (i + 1) ins nz' in (err, (case sent of None \<Rightarrow> out | Some nb \<Rightarrow> nb # out), nz'')))"

end
