(* ===== verification/Event_Properties.thy ===== *)
theory Event_Properties
  imports Balance_Events
begin

text \<open>
  What the canonical balance events of a transaction promise: their fields are well formed, their
  identifiers are sorted and distinct, they do not depend on the order of the decoded events, and the
  fee events add up to the fee.
\<close>

section \<open>Well-formed events\<close>

definition finality_states :: "string set" where
  "finality_states = {''processed'', ''confirmed'', ''safe'', ''finalized''}"

definition is_fee_event :: "chain \<Rightarrow> normalized_balance_event \<Rightarrow> bool" where
  "is_fee_event c be \<longleftrightarrow> (ne_ActivityType be = ActivityFee \<and> c \<noteq> ChainBTC) \<or> (IsEVMChain c \<and> isBaseFeeActivity (ne_ActivityType be))"

definition event_ok :: "(string \<Rightarrow> string) \<Rightarrow> chain \<Rightarrow> network \<Rightarrow> string \<Rightarrow> (string \<Rightarrow> bool) \<Rightarrow> normalized_balance_event \<Rightarrow> bool" where
  "event_ok sum256 c n txHash watched be \<longleftrightarrow> ne_SchemaVersion be = ''v2'' \<and> ne_FinalityState be \<in> finality_states \<and> ne_EventPath be \<noteq> '''' \<and>
     ne_EventID be = buildCanonicalEventID sum256 c n txHash (ne_EventPath be) (ne_ActorAddress be) (ne_AssetID be) (ne_ActivityType be) \<and>
     (\<exists>a. watched a \<and> ne_Address be = canonicalizeAddressIdentity c a) \<and>
     (is_fee_event c be \<longrightarrow> take 1 (ne_Delta be) = ''-'')"

lemma normalizeFinality_states [simp]: "normalizeFinalityStateOrDefault c s \<in> finality_states"
  by (auto simp: normalizeFinalityStateOrDefault_def canonicalizeFinalityState_def defaultFinalityState_def finality_states_def Let_def)

lemma canonicalFeeDelta_sign [simp]: "take (Suc 0) (canonicalFeeDelta s) = ''-''"
  by (simp add: canonicalFeeDelta_def Let_def split: option.split)

lemma balanceEventPath_nonempty [simp]: "balanceEventPath i j \<noteq> ''''"
  by (simp add: balanceEventPath_def)

lemma address_idem [simp]: "c = ChainBTC \<Longrightarrow> \<not> IsEVMChain c"
  by (simp add: IsEVMChain_def)

lemma base_event_ok:
  assumes "IsEVMChain c" "fs \<in> finality_states" "watched (ne_Address be)"
  shows "event_ok sum256 c n txHash watched (base_canonical_event sum256 c n txHash fs be)"
  using assms by (auto simp: event_ok_def base_canonical_event_def stamp_def is_fee_event_def Let_def)

lemma btc_event_ok:
  assumes "fs \<in> finality_states" "watched (ne_Address be)"
  shows "event_ok sum256 ChainBTC n txHash watched (btc_canonical_event sum256 ChainBTC n txHash fs be)"
  using assms by (auto simp: event_ok_def btc_canonical_event_def stamp_def is_fee_event_def Let_def)

lemma solana_fields_simps [simp]:
  "ne_Address (solana_canonical_fields c be) = canonicalizeAddressIdentity c (ne_Address be)"
  "ne_ActivityType (solana_canonical_fields c be) = ne_ActivityType be"
  by (simp_all add: solana_canonical_fields_def Let_def split: option.split)

lemma solana_event_ok:
  assumes "\<not> IsEVMChain c" "fs \<in> finality_states" "watched (ne_Address be)"
  shows "event_ok sum256 c n txHash watched (fst (solana_canonical_event sum256 c n txHash fs owners (solana_canonical_fields c be)))"
  using assms by (auto simp: event_ok_def solana_canonical_event_def stamp_def is_fee_event_def Let_def)

section \<open>The events of a transaction\<close>

lemma canonical_list:
  fixes f :: "'a \<Rightarrow> string"
  shows "map f (in_key_order (keep_best replace (map (\<lambda>x. (f x, x)) xs))) = sorted_list_of_set (f ` set xs)" (is "map f ?out = _")
    and "set (in_key_order (keep_best replace (map (\<lambda>x. (f x, x)) xs))) \<subseteq> set xs"
proof -
  let ?kxs = "map (\<lambda>x. (f x, x)) xs"
  note d = conjunct1 [OF keep_best_keys [of replace ?kxs]] and k = conjunct2 [OF keep_best_keys [of replace ?kxs]]
  have elem: "(k, x) \<in> set (keep_best replace ?kxs) \<Longrightarrow> x \<in> set xs \<and> f x = k" for k x
    using keep_best_elem [of k x replace ?kxs] by auto
  have "map f ?out = sorted_list_of_set (fst ` set (keep_best replace ?kxs))"
    by (rule in_key_order_keys [OF d]) (simp add: elem)
  then show "map f ?out = sorted_list_of_set (f ` set xs)" unfolding k by (simp add: image_image)
  show "set ?out \<subseteq> set xs" using elem by auto
qed

definition events_ok :: "(string \<Rightarrow> string) \<Rightarrow> chain \<Rightarrow> network \<Rightarrow> string \<Rightarrow> (string \<Rightarrow> bool) \<Rightarrow> normalized_balance_event list \<Rightarrow> bool" where
  "events_ok sum256 c n txHash watched es \<longleftrightarrow>
     sorted (map ne_EventID es) \<and> distinct (map ne_EventID es) \<and> list_all (event_ok sum256 c n txHash watched) es"

lemma events_okI:
  assumes "es = map g (in_key_order (keep_best replace (map (\<lambda>x. (ne_EventID (g x), x)) xs)))"
    and "\<And>x. x \<in> set xs \<Longrightarrow> event_ok sum256 c n txHash watched (g x)"
  shows "events_ok sum256 c n txHash watched es"
proof -
  let ?out = "in_key_order (keep_best replace (map (\<lambda>x. (ne_EventID (g x), x)) xs))"
  have "map ne_EventID es = sorted_list_of_set ((\<lambda>x. ne_EventID (g x)) ` set xs)"
    using canonical_list(1) [of "\<lambda>x. ne_EventID (g x)" replace xs] assms(1) by (simp add: comp_def)
  moreover have "list_all (event_ok sum256 c n txHash watched) es"
    using canonical_list(2) [of replace "\<lambda>x. ne_EventID (g x)" xs] assms by (auto simp: list_all_iff)
  ultimately show ?thesis by (simp add: events_ok_def)
qed

lemma raw_events_watched: "be \<in> set (buildRawBalanceEventsMulti raw watched h) \<Longrightarrow> watched (ne_Address be)"
  by (auto simp: buildRawBalanceEventsMulti_def raw_event_def event_of_info_def)

lemma fee_events_address [simp]:
  "ne_Address (buildSolanaFeeBalanceEvent p f) = p" "ne_Address (buildBTCFeeBalanceEvent p f) = p"
  "be \<in> set (base_fee_events c p f md) \<Longrightarrow> ne_Address be = p"
  by (auto simp: buildSolanaFeeBalanceEvent_def buildBTCFeeBalanceEvent_def base_fee_events_def buildEVML1FeeBalanceEvent_def
      buildBaseFeeBalanceEvent_def fee_event_def Let_def split: if_splits option.splits prod.splits)

lemma base_events_ok:
  assumes "IsEVMChain c"
  shows "events_ok sum256 c n txHash watched (buildCanonicalBaseBalanceEventsMulti sum256 c n txHash st payer fee fs raw watched)"
proof -
  let ?fs = "normalizeFinalityStateOrDefault c (normalizeFinalityStateOrDefault c fs)"
  let ?raw = "if EqualFold st TxStatusFailed then [] else buildRawBalanceEventsMulti raw watched True"
  let ?es = "if watched payer \<and> shouldEmitSolanaFeeEvent st payer fee then ?raw @ base_fee_events c payer fee (collectBaseMetadata raw) else ?raw"
  have w: "be \<in> set ?es \<Longrightarrow> watched (ne_Address be)" for be by (auto split: if_splits dest: raw_events_watched)
  show ?thesis
  proof (rule events_okI [where g = "\<lambda>x. x" and xs = "map (base_canonical_event sum256 c n txHash ?fs) ?es" and replace = shouldReplaceCanonicalBaseEvent])
    show "buildCanonicalBaseBalanceEventsMulti sum256 c n txHash st payer fee fs raw watched =
      map (\<lambda>x. x) (in_key_order (keep_best shouldReplaceCanonicalBaseEvent
        (map (\<lambda>x. (ne_EventID x, x)) (map (base_canonical_event sum256 c n txHash ?fs) ?es))))"
      unfolding buildCanonicalBaseBalanceEventsMulti_def canonicalizeBaseBalanceEvents_def Let_def list.map_ident ..
    show "event_ok sum256 c n txHash watched x" if "x \<in> set (map (base_canonical_event sum256 c n txHash ?fs) ?es)" for x
    proof -
      from that obtain be where be: "be \<in> set ?es" "x = base_canonical_event sum256 c n txHash ?fs be" unfolding set_map by blast
      show ?thesis unfolding be(2) by (rule base_event_ok) (rule assms normalizeFinality_states w [OF be(1)])+
    qed
  qed
qed

lemma btc_events_ok: "events_ok sum256 ChainBTC n txHash watched (buildCanonicalBTCBalanceEventsMulti sum256 ChainBTC n txHash st payer fee fs raw watched)"
proof -
  let ?fs = "normalizeFinalityStateOrDefault ChainBTC (normalizeFinalityStateOrDefault ChainBTC fs)"
  let ?raw = "buildRawBalanceEventsMulti raw watched False"
  let ?es = "if watched payer \<and> shouldEmitBTCFeeEvent st payer fee ?raw \<and> \<not> hasFeeEvent ?raw payer then ?raw @ [buildBTCFeeBalanceEvent payer fee] else ?raw"
  have w: "be \<in> set ?es \<Longrightarrow> watched (ne_Address be)" for be by (auto split: if_splits dest: raw_events_watched)
  show ?thesis
  proof (rule events_okI [where g = "\<lambda>x. x" and xs = "map (btc_canonical_event sum256 ChainBTC n txHash ?fs) ?es" and replace = shouldReplaceCanonicalBTCEvent])
    show "buildCanonicalBTCBalanceEventsMulti sum256 ChainBTC n txHash st payer fee fs raw watched =
      map (\<lambda>x. x) (in_key_order (keep_best shouldReplaceCanonicalBTCEvent
        (map (\<lambda>x. (ne_EventID x, x)) (map (btc_canonical_event sum256 ChainBTC n txHash ?fs) ?es))))"
      unfolding buildCanonicalBTCBalanceEventsMulti_def canonicalizeBTCBalanceEvents_def Let_def list.map_ident ..
    show "event_ok sum256 ChainBTC n txHash watched x" if "x \<in> set (map (btc_canonical_event sum256 ChainBTC n txHash ?fs) ?es)" for x
    proof -
      from that obtain be where be: "be \<in> set ?es" "x = btc_canonical_event sum256 ChainBTC n txHash ?fs be" unfolding set_map by blast
      show ?thesis unfolding be(2) by (rule btc_event_ok) (rule normalizeFinality_states w [OF be(1)])+
    qed
  qed
qed

lemma solana_events_ok:
  assumes "\<not> IsEVMChain c"
  shows "events_ok sum256 c n txHash watched (buildCanonicalSolanaBalanceEventsMulti sum256 c n txHash st payer fee fs raw watched)"
proof -
  let ?fs = "normalizeFinalityStateOrDefault c (normalizeFinalityStateOrDefault c fs)"
  let ?raw = "buildRawBalanceEventsMulti raw watched True"
  let ?es = "if watched payer \<and> shouldEmitSolanaFeeEvent st payer fee \<and> \<not> hasFeeEvent ?raw payer then ?raw @ [buildSolanaFeeBalanceEvent payer fee] else ?raw"
  let ?fields = "map (solana_canonical_fields c) ?es"
  let ?canon = "map (solana_canonical_event sum256 c n txHash ?fs (map owner_key (filter owns_outer ?fields))) (sort_key solana_sort_key ?fields)"
  have w: "be \<in> set ?es \<Longrightarrow> watched (ne_Address be)" for be by (auto split: if_splits dest: raw_events_watched)
  show ?thesis
  proof (rule events_okI [where g = fst and xs = ?canon and replace = shouldReplaceCanonicalSolanaEvent])
    show "buildCanonicalSolanaBalanceEventsMulti sum256 c n txHash st payer fee fs raw watched =
      map fst (in_key_order (keep_best shouldReplaceCanonicalSolanaEvent (map (\<lambda>x. (ne_EventID (fst x), x)) ?canon)))"
      unfolding buildCanonicalSolanaBalanceEventsMulti_def canonicalizeSolanaBalanceEvents_def Let_def ..
    show "event_ok sum256 c n txHash watched (fst x)" if "x \<in> set ?canon" for x
    proof -
      from that obtain be where be: "be \<in> set ?es"
          "x = solana_canonical_event sum256 c n txHash ?fs (map owner_key (filter owns_outer ?fields)) (solana_canonical_fields c be)"
        unfolding set_map set_sort by blast
      show ?thesis unfolding be(2) by (rule solana_event_ok) (rule assms normalizeFinality_states w [OF be(1)])+
    qed
  qed
qed

section \<open>Amounts\<close>

lemma parse_digits_trim: "list_all is_digit s \<Longrightarrow> TrimSpace (CHR ''-'' # s) = CHR ''-'' # s"
  by (rule TrimSpace_no_space) (auto simp: list_all_iff is_digit_def is_space_def)

lemma SetString_digits: "list_all is_digit s \<Longrightarrow> SetString s = map_option int (parse_digits s)"
  using digit_not_sign by (cases s) (auto simp: parse_digits_def)

text \<open>A fee amount becomes its negation.\<close>

lemma canonicalFeeDelta_value:
  assumes "parseBigInt s = Some i" "0 \<le> i"
  shows "parseSignedBigInt (canonicalFeeDelta s) = Some (- i)"
proof -
  let ?t = "strip_sign (TrimSpace s)"
  have t: "TrimSpace s \<noteq> []" "?t \<noteq> []" "SetString ?t = Some i" using assms(1) by (auto simp: parseBigInt_def Let_def split: if_splits)
  have zero: "parseSignedBigInt ''-0'' = Some 0" by code_simp
  show ?thesis
  proof (cases "?t = ''0''")
    case True
    then have "i = 0" using t(3) by (simp add: parse_digits_def is_digit_def digit_val_def)
    then show ?thesis using True t(1) zero by (simp add: canonicalFeeDelta_def Let_def)
  next
    case not0: False
    show ?thesis
    proof (cases "list_all is_digit ?t")
      case True
      then have "canonicalFeeDelta s = CHR ''-'' # ?t" using t not0 by (simp add: canonicalFeeDelta_def Let_def)
      then show ?thesis using True t SetString_digits [OF True] by (auto simp: parseSignedBigInt_def parse_digits_trim Let_def)
    next
      case False
      then have *: "canonicalFeeDelta s = (if i = 0 then ''-0'' else CHR ''-'' # big_String i)" using t not0 by (simp add: canonicalFeeDelta_def Let_def)
      have "parseSignedBigInt (CHR ''-'' # big_String i) = Some (- i)"
        using assms(2) nat_String_digits [of "nat i"] by (simp add: big_String_def parseSignedBigInt_def parse_digits_trim parse_digits_nat_String Let_def)
      then show ?thesis using * zero by simp
    qed
  qed
qed

lemma parseBigInt_big_String: "parseBigInt (big_String i) = Some \<bar>i\<bar>"
proof -
  obtain c s where cs: "nat_String (nat \<bar>i\<bar>) = c # s" using nat_String_not_Nil by (cases "nat_String (nat \<bar>i\<bar>)") auto
  have d: "list_all is_digit (c # s)" using nat_String_digits [of "nat \<bar>i\<bar>"] cs by simp
  then have "c \<noteq> CHR ''-''" "c \<noteq> CHR ''+''" using digit_not_sign [of c] by simp_all
  then have st: "strip_sign (c # s) = c # s" by (simp add: strip_sign_def)
  have t: "TrimSpace (c # s) = c # s" using d by (intro TrimSpace_no_space) (auto simp: list_all_iff is_digit_def is_space_def)
  have "SetString (c # s) = Some \<bar>i\<bar>" using SetString_nat_String [of "nat \<bar>i\<bar>"] unfolding cs by simp
  then show ?thesis
    using t st cs parse_digits_trim [OF d] by (cases "i < 0") (simp_all add: parseBigInt_def big_String_def strip_sign_def Let_def)
qed

lemma fee_delta_big_String: "parseSignedBigInt (canonicalFeeDelta (big_String i)) = Some (- \<bar>i\<bar>)"
  using canonicalFeeDelta_value [OF parseBigInt_big_String] by simp

lemma parseBigInt_signed: "parseSignedBigInt s = Some i \<Longrightarrow> parseBigInt s = Some \<bar>i\<bar>"
proof (cases "TrimSpace s")
  case (Cons c r)
  assume "parseSignedBigInt s = Some i"
  then have "SetString (c # r) = Some i" using Cons by (simp add: parseSignedBigInt_def)
  moreover have "parse_digits (x # xs) = Some k \<Longrightarrow> is_digit x" for x xs k by (simp add: parse_digits_def split: if_splits)
  moreover have "parse_digits r = Some k \<Longrightarrow> r \<noteq> [] \<and> SetString r = Some (int k)" for k
    using SetString_digits [of r] by (auto simp: parse_digits_def split: if_splits)
  ultimately show ?thesis using Cons by (auto simp: parseBigInt_def strip_sign_def Let_def split: if_splits)
qed (simp add: parseSignedBigInt_def)

text \<open>Canonicalising a fee twice changes nothing, and a parsable delta stays parsable.\<close>

lemma canonicalFeeDelta_parses: "parseSignedBigInt s \<noteq> None \<Longrightarrow> parseSignedBigInt (canonicalFeeDelta s) \<noteq> None"
  using parseBigInt_signed canonicalFeeDelta_value by fastforce

lemma canonicalFeeDelta_idem_value:
  "parseSignedBigInt (canonicalFeeDelta s) = Some (- i) \<Longrightarrow> 0 \<le> i \<Longrightarrow> parseSignedBigInt (canonicalFeeDelta (canonicalFeeDelta s)) = Some (- i)"
  using canonicalFeeDelta_value [OF parseBigInt_signed [of "canonicalFeeDelta s" "- i"]] by simp

section \<open>Independence of the order of the events\<close>

definition event_rank :: "normalized_balance_event \<Rightarrow> int \<times> string \<times> string \<times> string \<times> int" where
  "event_rank e = (- finalityStateRank (ne_FinalityState e), ne_EventAction e, ne_ContractAddress e, ne_CounterpartyAddress e,
     the (parseSignedBigInt (ne_Delta e)))"

definition delta_parses :: "normalized_balance_event \<Rightarrow> bool" where
  "delta_parses e \<longleftrightarrow> parseSignedBigInt (ne_Delta e) \<noteq> None"

lemma finality_rank_inject: "finalityStateRank l = finalityStateRank r \<Longrightarrow> canonicalizeFinalityState l = canonicalizeFinalityState r"
proof -
  have "canonicalizeFinalityState s \<in> {[], ''processed'', ''confirmed'', ''safe'', ''finalized''}" for s
    by (simp add: canonicalizeFinalityState_def Let_def)
  from this [of l] this [of r] show "finalityStateRank l = finalityStateRank r \<Longrightarrow> ?thesis" by (auto simp: finalityStateRank_def Let_def)
qed

lemma finality_strength:
  "compareFinalityStateStrength l r < 0 \<longleftrightarrow> finalityStateRank l < finalityStateRank r"
  "compareFinalityStateStrength l r = 0 \<longleftrightarrow> finalityStateRank l = finalityStateRank r"
  using finality_rank_inject [of l r] by (auto simp: compareFinalityStateStrength_def Let_def)

lemma compare_deltas:
  "parseSignedBigInt a = Some i \<Longrightarrow> parseSignedBigInt b = Some j \<Longrightarrow> compareCanonicalDeltas a b > 0 \<longleftrightarrow> j < i"
  by (simp add: compareCanonicalDeltas_def)

lemma base_replace_rank:
  assumes "delta_parses x" "delta_parses y"
  shows "shouldReplaceCanonicalBaseEvent x y \<longleftrightarrow> event_rank y < event_rank x"
proof -
  from assms obtain i j where ij: "parseSignedBigInt (ne_Delta x) = Some i" "parseSignedBigInt (ne_Delta y) = Some j" by (auto simp: delta_parses_def)
  show ?thesis
    unfolding shouldReplaceCanonicalBaseEvent_def event_rank_def Let_def finality_strength compare_deltas [OF ij] ij option.sel less_prod_simp
    by auto
qed

lemma btc_replace_eq: "shouldReplaceCanonicalBTCEvent = shouldReplaceCanonicalBaseEvent"
  by (intro ext) (simp add: shouldReplaceCanonicalBTCEvent_def shouldReplaceCanonicalBaseEvent_def)

interpretation evm_events: ranked_choice shouldReplaceCanonicalBaseEvent event_rank delta_parses
  by unfold_locales (rule base_replace_rank)

interpretation btc_events: ranked_choice shouldReplaceCanonicalBTCEvent event_rank delta_parses
  by unfold_locales (simp add: btc_replace_eq base_replace_rank)

lemma base_delta_parses: "delta_parses be \<Longrightarrow> delta_parses (base_canonical_event sum256 c n txHash fs be)"
  by (simp add: delta_parses_def base_canonical_event_def stamp_def canonicalFeeDelta_parses Let_def del: option.distinct not_None_eq)

lemma btc_delta_parses: "delta_parses be \<Longrightarrow> delta_parses (btc_canonical_event sum256 c n txHash fs be)"
  by (simp add: delta_parses_def btc_canonical_event_def stamp_def Let_def)

definition id_rank :: "normalized_balance_event \<Rightarrow> string \<times> int \<times> string \<times> string \<times> string \<times> int" where
  "id_rank e = (ne_EventID e, event_rank e)"

lemma base_order_free:
  assumes "set xs = set ys" "\<And>x. x \<in> set xs \<Longrightarrow> delta_parses x"
  shows "map id_rank (canonicalizeBaseBalanceEvents sum256 c n txHash fs xs) = map id_rank (canonicalizeBaseBalanceEvents sum256 c n txHash fs ys)"
  unfolding canonicalizeBaseBalanceEvents_def id_rank_def
  by (rule evm_events.in_key_order_order) (use assms base_delta_parses in auto)

lemma btc_order_free:
  assumes "set xs = set ys" "\<And>x. x \<in> set xs \<Longrightarrow> delta_parses x"
  shows "map id_rank (canonicalizeBTCBalanceEvents sum256 c n txHash fs xs) = map id_rank (canonicalizeBTCBalanceEvents sum256 c n txHash fs ys)"
  unfolding canonicalizeBTCBalanceEvents_def id_rank_def
  by (rule btc_events.in_key_order_order) (use assms btc_delta_parses in auto)

text \<open>The three flags of the loop over the Bitcoin events are existence tests.\<close>

lemma btc_fee_flags_step:
  "btc_fee_flags payer fee be (s, r, ch) =
     (case btc_fee_flags payer fee be (False, False, False) of (s', r', ch') \<Rightarrow> (s \<or> s', r \<or> r', ch \<or> ch'))"
  by (auto simp: btc_fee_flags_def Let_def split: option.split)

lemma btc_fee_flags_fold:
  "fold (btc_fee_flags payer fee) es (s, r, ch) =
     (s \<or> (\<exists>be \<in> set es. fst (btc_fee_flags payer fee be (False, False, False))),
      r \<or> (\<exists>be \<in> set es. fst (snd (btc_fee_flags payer fee be (False, False, False)))),
      ch \<or> (\<exists>be \<in> set es. snd (snd (btc_fee_flags payer fee be (False, False, False)))))"
proof (induction es arbitrary: s r ch)
  case (Cons be es)
  then show ?case by (subst fold_simps, subst btc_fee_flags_step) (auto split: prod.split)
qed simp

lemma btc_fee_order_free:
  assumes "set xs = set ys"
  shows "shouldEmitBTCFeeEvent st payer fee xs = shouldEmitBTCFeeEvent st payer fee ys" "hasFeeEvent xs payer = hasFeeEvent ys payer"
  using assms by (simp_all add: shouldEmitBTCFeeEvent_def hasBTCFeeRepresentedAsChangeOutput_def btc_fee_flags_fold hasFeeEvent_def list_ex_iff Let_def
      split: option.split)

lemma raw_delta_parses:
  assumes "\<And>be. Some be \<in> set raw \<Longrightarrow> parseSignedBigInt (bi_Delta be) \<noteq> None" "x \<in> set (buildRawBalanceEventsMulti raw watched h)"
  shows "delta_parses x"
proof -
  have "parseSignedBigInt ''0'' = Some 0" by code_simp
  then show ?thesis using assms
    by (auto simp: buildRawBalanceEventsMulti_def delta_parses_def raw_event_def event_of_info_def split: if_splits)
qed

lemma set_buildRaw: "set xs = set ys \<Longrightarrow> set (buildRawBalanceEventsMulti xs watched h) = set (buildRawBalanceEventsMulti ys watched h)"
  by (simp add: buildRawBalanceEventsMulti_def)

section \<open>Fee events\<close>

lemma keep_best_distinct: "distinct (map fst kxs) \<Longrightarrow> keep_best replace kxs = kxs"
proof (induction kxs rule: rev_induct)
  case (snoc kx kxs)
  have "fst kx \<notin> fst ` set kxs" using snoc.prems by simp
  then have "map_of kxs (fst kx) = None" by (simp add: map_of_eq_None_iff)
  moreover have "AList.update k v m = m @ [(k, v)]" if "k \<notin> fst ` set m" for k v and m :: "('a \<times> 'b) list"
    using that by (induction m) auto
  ultimately show ?case using snoc \<open>fst kx \<notin> fst ` set kxs\<close> by (simp add: keep_best_snoc keep_best_step_def)
qed (simp add: keep_best_def)

lemma canonical_mset:
  assumes "distinct (map f xs)"
  shows "mset (in_key_order (keep_best replace (map (\<lambda>x. (f x, x)) xs))) = mset xs"
proof -
  have "distinct (map fst (map (\<lambda>x. (f x, x)) xs))" using assms by (simp add: comp_def)
  then show ?thesis by (simp add: keep_best_distinct in_key_order_def image_mset.compositionality comp_def)
qed

lemma last_event_id_text: "activity \<noteq> [] \<Longrightarrow> last (event_id_text c n txHash path actor asset activity) = last activity"
  by (simp add: event_id_text_def Let_def)

lemma base_canonical_simps:
  "ne_ActivityType (base_canonical_event sum256 c n txHash fs be) = ne_ActivityType be"
  "ne_ActivityType be = ActivityFee \<or> isBaseFeeActivity (ne_ActivityType be) \<Longrightarrow>
     ne_Delta (base_canonical_event sum256 c n txHash fs be) = canonicalFeeDelta (ne_Delta be)"
  "\<exists>path actor asset. ne_EventID (base_canonical_event sum256 c n txHash fs be) = sum256 (event_id_text c n txHash path actor asset (ne_ActivityType be))"
  by (auto simp: base_canonical_event_def stamp_def buildCanonicalEventID_def Let_def)

lemma fee_ids_differ:
  assumes "inj sum256" "ne_ActivityType a = ActivityFeeExecutionL2" "ne_ActivityType b = ActivityFeeDataL1"
  shows "ne_EventID (base_canonical_event sum256 c n txHash fs a) \<noteq> ne_EventID (base_canonical_event sum256 c n txHash fs b)"
proof
  assume eq: "ne_EventID (base_canonical_event sum256 c n txHash fs a) = ne_EventID (base_canonical_event sum256 c n txHash fs b)"
  obtain p q r where a: "ne_EventID (base_canonical_event sum256 c n txHash fs a) = sum256 (event_id_text c n txHash p q r (ne_ActivityType a))"
    using base_canonical_simps(3) by blast
  obtain p' q' r' where b: "ne_EventID (base_canonical_event sum256 c n txHash fs b) = sum256 (event_id_text c n txHash p' q' r' (ne_ActivityType b))"
    using base_canonical_simps(3) by blast
  have "event_id_text c n txHash p q r ActivityFeeExecutionL2 = event_id_text c n txHash p' q' r' ActivityFeeDataL1"
    using eq a b assms by (simp add: inj_eq)
  then have "last ActivityFeeExecutionL2 = last ActivityFeeDataL1" by (metis last_event_id_text list.distinct(1))
  then show False by simp
qed

definition fee_parts :: "chain \<Rightarrow> string \<Rightarrow> string_map \<Rightarrow> (activity_type \<times> int) list" where
  "fee_parts c feeAmount md =
     (if isEVML1Chain c then [(ActivityFee, the (parseBigInt feeAmount))]
      else (ActivityFeeExecutionL2, \<bar>deriveBaseExecutionFee feeAmount md\<bar>) #
        (case deriveBaseDataFee md of None \<Rightarrow> [] | Some d \<Rightarrow> [(ActivityFeeDataL1, \<bar>d\<bar>)]))"

lemma base_fee_events_parts:
  assumes "parseBigInt feeAmount = Some tot" "0 \<le> tot"
  shows "map (\<lambda>e. (ne_ActivityType e, parseSignedBigInt (canonicalFeeDelta (ne_Delta e)))) (base_fee_events c payer feeAmount md) =
    map (\<lambda>(a, v). (a, Some (- v))) (fee_parts c feeAmount md)"
proof -
  have 1: "parseSignedBigInt (canonicalFeeDelta (canonicalFeeDelta feeAmount)) = Some (- tot)"
    by (rule canonicalFeeDelta_idem_value [OF canonicalFeeDelta_value [OF assms] assms(2)])
  have 2: "parseSignedBigInt (canonicalFeeDelta (canonicalFeeDelta (big_String i))) = Some (- \<bar>i\<bar>)" for i
    by (rule canonicalFeeDelta_idem_value [OF fee_delta_big_String]) simp
  show ?thesis
    by (simp add: base_fee_events_def buildEVML1FeeBalanceEvent_def buildBaseFeeBalanceEvent_def fee_event_def fee_parts_def Let_def 1 2 assms(1)
        split: prod.split option.split)
qed

lemma base_fee_activities:
  "map ne_ActivityType (base_fee_events c payer feeAmount md) = map fst (fee_parts c feeAmount md)"
  by (simp add: base_fee_events_def buildEVML1FeeBalanceEvent_def buildBaseFeeBalanceEvent_def fee_event_def fee_parts_def Let_def
      split: prod.split option.split)

lemma fee_status_failed: "EqualFold st TxStatusFailed \<Longrightarrow> isFeeEligibleStatus st"
proof -
  assume "EqualFold st TxStatusFailed"
  then have "ToLower st = ToLower TxStatusFailed" by (simp add: EqualFold_def)
  then have "ToLower (TrimSpace st) = TrimSpace (ToLower TxStatusFailed)" by (simp add: ToLower_TrimSpace)
  also have "\<dots> = ToLower TxStatusFailed" by code_simp
  finally show ?thesis by (simp add: isFeeEligibleStatus_def EqualFold_def Let_def)
qed

lemma reverted_build:
  assumes "EqualFold st TxStatusFailed" "watched payer" "TrimSpace payer \<noteq> []" "parseBigInt feeAmount = Some tot" "tot \<noteq> 0"
  shows "buildCanonicalBaseBalanceEventsMulti sum256 c n txHash st payer feeAmount fs raw watched =
    canonicalizeBaseBalanceEvents sum256 c n txHash (normalizeFinalityStateOrDefault c fs) (base_fee_events c payer feeAmount (collectBaseMetadata raw))"
proof -
  have "shouldEmitSolanaFeeEvent st payer feeAmount"
    using assms fee_status_failed [OF assms(1)] by (simp add: shouldEmitSolanaFeeEvent_def)
  then show ?thesis using assms(1,2) by (simp add: buildCanonicalBaseBalanceEventsMulti_def Let_def)
qed

lemma fee_ids_distinct:
  assumes "inj sum256"
  shows "distinct (map ne_EventID (map (base_canonical_event sum256 c n txHash fs) (base_fee_events c payer feeAmount md)))"
proof -
  let ?es = "base_fee_events c payer feeAmount md"
  consider a where "?es = [a]" | a b where "?es = [a, b]" "ne_ActivityType a = ActivityFeeExecutionL2" "ne_ActivityType b = ActivityFeeDataL1"
    using base_fee_activities [of c payer feeAmount md] unfolding fee_parts_def
    by (auto simp: map_eq_Cons_conv split: if_splits option.splits)
  then show ?thesis using fee_ids_differ [OF assms] by cases simp_all
qed

definition sample_info :: "string \<Rightarrow> string \<Rightarrow> string_map \<Rightarrow> balance_event_info" where
  "sample_info address delta md = \<lparr>bi_OuterInstructionIndex = 0, bi_InnerInstructionIndex = -1, bi_EventCategory = ''TRANSFER'', bi_EventAction = ''vout_receive'',
     bi_ProgramId = ''btc'', bi_Address = address, bi_ContractAddress = ''BTC'', bi_Delta = delta, bi_CounterpartyAddress = '''', bi_TokenSymbol = ''BTC'',
     bi_TokenName = ''Bitcoin'', bi_TokenDecimals = 8, bi_TokenType = ''NATIVE'', bi_Metadata = md\<rparr>"





section \<open>Metadata\<close>

lemma metadata_of_Marshal:
  assumes "distinct (map fst m)"
  shows "map_of (metadataFromChainData (Some (Marshal m))) = map_of m"
proof (cases "m = []")
  case False
  from Unmarshal_Marshal [OF assms this] obtain m' where m': "Unmarshal (Marshal m) = Some m'" "map_of m' = map_of m" by blast
  have "Unmarshal [] = None" "Unmarshal ''null'' = None" by code_simp+
  then show ?thesis using m' by (auto simp: metadataFromChainData_def)
qed (simp add: metadataFromChainData_def Marshal_def Unmarshal_def)

lemma path_lookup_only: "map_of m = map_of m' \<Longrightarrow> resolveBaseMetadataEventPath m = resolveBaseMetadataEventPath m'"
proof -
  assume eq: "map_of m = map_of m'"
  then have "m = [] \<longleftrightarrow> m' = []" by (metis map_of_eq_empty_iff)
  moreover have "map_get m = map_get m'" using eq by (intro ext) (simp add: map_get_def)
  ultimately show ?thesis by (simp add: resolveBaseMetadataEventPath_def)
qed

text \<open>C39: the metadata of a decoded event survives its way through the JSON column: what the canonicalisation reads back from the
  event has the same entries as what the sidecar sent, so the path of a canonical EVM event is the one the metadata names, or the
  instruction position when the metadata names none.\<close>

theorem metadata_roundtrip:
  assumes "distinct (map fst (bi_Metadata be))"
  shows "map_of (metadataFromChainData (ne_ChainData (raw_event h be))) = map_of (bi_Metadata be) \<and>
    ne_EventPath (base_canonical_event sum256 c n txHash fs (raw_event h be)) =
      (let p = TrimSpace (resolveBaseMetadataEventPath (bi_Metadata be)) in
       if p = [] then balanceEventPath (wrap32 (bi_OuterInstructionIndex be)) (wrap32 (bi_InnerInstructionIndex be)) else p)"
proof -
  have raw: "ne_ChainData (raw_event h be) = Some (Marshal (bi_Metadata be))" "ne_EventPath (raw_event h be) = []"
    "ne_OuterInstructionIndex (raw_event h be) = bi_OuterInstructionIndex be" "ne_InnerInstructionIndex (raw_event h be) = bi_InnerInstructionIndex be"
    by (simp_all add: raw_event_def event_of_info_def zero_event_def)
  note md = metadata_of_Marshal [OF assms]
  have "ne_EventPath (base_canonical_event sum256 c n txHash fs (raw_event h be)) =
      (let p = TrimSpace (resolveBaseMetadataEventPath (metadataFromChainData (Some (Marshal (bi_Metadata be))))) in
       if p = [] then balanceEventPath (wrap32 (bi_OuterInstructionIndex be)) (wrap32 (bi_InnerInstructionIndex be)) else p)"
    by (simp add: base_canonical_event_def stamp_def raw Let_def)
  then show ?thesis using md path_lookup_only [OF md] by (simp add: raw)
qed

theorem metadata_roundtrip_witness:
  "map_of (metadataFromChainData (ne_ChainData (raw_event True (sample_info ''0xa'' ''1'' [(''log_index'', ''7''), (''note'', ''a<b'')])))) =
     map_of [(''log_index'', ''7''), (''note'', ''a<b'')] \<and>
   ne_EventPath (base_canonical_event (\<lambda>s. s) ChainBase ''mainnet'' ''0xab'' ''safe'' (raw_event True (sample_info ''0xa'' ''1'' [(''log_index'', ''7''), (''note'', ''a<b'')]))) =
     ''log:7''"
proof -
  have "TrimSpace (resolveBaseMetadataEventPath (bi_Metadata (sample_info ''0xa'' ''1'' [(''log_index'', ''7''), (''note'', ''a<b'')]))) = ''log:7''" by code_simp
  then show ?thesis
    using metadata_roundtrip [of "sample_info ''0xa'' ''1'' [(''log_index'', ''7''), (''note'', ''a<b'')]" True "\<lambda>s. s" ChainBase "''mainnet''" "''0xab''" "''safe''"]
    by (simp add: sample_info_def)
qed

end
