(* ===== verification/Normalizer_Properties.thy ===== *)
theory Normalizer_Properties
  imports Normalizer Event_Properties
begin

text \<open>
  What the normalizer promises of the batches it sends: well-formed events with identifiers unique in
  the batch, a cursor that never moves back, and a coverage floor that loses no decoded event.
\<close>

section \<open>The loop over the signatures\<close>

abbreviation result_key :: "chain \<Rightarrow> transaction_result \<Rightarrow> string" where
  "result_key c r \<equiv> CanonicalSignatureIdentity c (dr_TxHash r)"

abbreviation signature_key :: "chain \<Rightarrow> signature_info \<Rightarrow> string" where
  "signature_key c s \<equiv> CanonicalSignatureIdentity c (TrimSpace (sig_Hash s))"

lemma decode_signature_cases:
  obtains (isolated) sig reason s1 where "decode_signature env batch watched errs unexp single isig s = isolate sig reason s1"
      "s1 = s \<or> s1 = snd (take_result (rb_Chain batch) single (signature_key (rb_Chain batch) (snd isig)) s)"
  | (accepted) r s1 where "signature_key (rb_Chain batch) (snd isig) \<noteq> []"
      "take_result (rb_Chain batch) single (signature_key (rb_Chain batch) (snd isig)) s = (Some r, s1)"
      "decode_signature env batch watched errs unexp single isig s =
         accept_result env batch watched (fst isig) (snd isig) (signature_key (rb_Chain batch) (snd isig)) r s1"
proof (cases "signature_key (rb_Chain batch) (snd isig) = []")
  case True
  then show ?thesis by (intro isolated [of "''<empty>''" "''empty signature''" s]) (simp_all add: decode_signature_def Let_def case_prod_beta)
next
  case ne: False
  show ?thesis
  proof (cases "map_of errs (signature_key (rb_Chain batch) (snd isig))")
    case (Some msg)
    then show ?thesis
      by (intro isolated [of "TrimSpace (sig_Hash (snd isig))" "if msg = [] then ''decode failed'' else msg" s])
        (simp_all add: decode_signature_def Let_def case_prod_beta ne)
  next
    case None
    obtain res s1 where t: "take_result (rb_Chain batch) single (signature_key (rb_Chain batch) (snd isig)) s = (res, s1)" by fastforce
    show ?thesis
    proof (cases res)
      case [simp]: None
      show ?thesis
        by (rule isolated [of "TrimSpace (sig_Hash (snd isig))"
              "if unexp \<noteq> [] then ''missing decode result (unexpected='' @ Join ''|'' unexp @ '')'' else ''missing decode result''" s1])
          (simp_all add: decode_signature_def Let_def case_prod_beta ne t \<open>map_of errs _ = None\<close>)
    next
      case [simp]: (Some r)
      show ?thesis
        by (rule accepted [OF ne, of r s1]) (simp_all add: decode_signature_def Let_def case_prod_beta ne t \<open>map_of errs _ = None\<close>)
    qed
  qed
qed

lemma isolate_simps [simp]:
  "ds_results (isolate g r s) = ds_results s" "ds_unexpected (isolate g r s) = ds_unexpected s" "ds_floor (isolate g r s) = ds_floor s"
  "ds_txs (isolate g r s) = ds_txs s" "ds_cursorValue (isolate g r s) = ds_cursorValue s" "ds_cursorSequence (isolate g r s) = ds_cursorSequence s"
  "length (ds_failures (isolate g r s)) = Suc (length (ds_failures s))"
  by (simp_all add: isolate_def)

lemma take_result_simps [simp]:
  "ds_floor (snd (take_result c single key s)) = ds_floor s" "ds_txs (snd (take_result c single key s)) = ds_txs s"
  "ds_cursorValue (snd (take_result c single key s)) = ds_cursorValue s" "ds_cursorSequence (snd (take_result c single key s)) = ds_cursorSequence s"
  "ds_failures (snd (take_result c single key s)) = ds_failures s"
  by (auto simp: take_result_def split: option.splits)

text \<open>One signature adds a transaction or a failure, and moves the cursor to the signature or not at all.\<close>

definition advanced :: "raw_batch \<Rightarrow> signature_info \<Rightarrow> decode_state \<Rightarrow> decode_state \<Rightarrow> bool" where
  "advanced batch sig s t \<longleftrightarrow> ds_cursorSequence s \<le> ds_cursorSequence t \<and>
     ((ds_cursorValue t, ds_cursorSequence t) = (ds_cursorValue s, ds_cursorSequence s) \<or>
      (ds_cursorValue t, ds_cursorSequence t) = (Some (signature_key (rb_Chain batch) sig), sig_Sequence sig))"

lemma accept_result_simps:
  fixes env batch watched i sig key r s
  defines "t \<equiv> accept_result env batch watched i sig key r s"
    and "rc \<equiv> reconcileCoverageRegressionFlap (nv_clock env i) batch key r (ds_floor s)"
  shows "ds_floor t = snd rc" "ds_txs t = ds_txs s @ [normalizedTxFromResult (nv_sum256 env) batch (fst rc) (sig_Time sig) watched]"
    "ds_failures t = ds_failures s" "ds_results t = ds_results s" "ds_unexpected t = ds_unexpected s"
    "ds_cursorSequence s \<le> ds_cursorSequence t"
    "(ds_cursorValue t, ds_cursorSequence t) = (ds_cursorValue s, ds_cursorSequence s) \<or> (ds_cursorValue t, ds_cursorSequence t) = (Some key, sig_Sequence sig)"
  by (simp_all add: t_def rc_def accept_result_def case_prod_beta Let_def shouldAdvanceCanonicalCursor_def)

lemma decode_signature_advanced: "advanced batch (snd isig) s (decode_signature env batch watched errs unexp single isig s)"
proof (cases rule: decode_signature_cases [of env batch watched errs unexp single isig s])
  case (isolated g r s1)
  then show ?thesis by (auto simp: advanced_def)
next
  case (accepted r s1)
  then have s1: "ds_cursorValue s1 = ds_cursorValue s" "ds_cursorSequence s1 = ds_cursorSequence s"
    using take_result_simps [of "rb_Chain batch" single "signature_key (rb_Chain batch) (snd isig)" s] by simp_all
  show ?thesis unfolding advanced_def accepted(3) using accept_result_simps(6,7) unfolding s1 [symmetric] by blast
qed

lemma decode_signature_count:
  "length (ds_txs (decode_signature env batch watched errs unexp single isig s)) + length (ds_failures (decode_signature env batch watched errs unexp single isig s)) =
    Suc (length (ds_txs s) + length (ds_failures s))"
proof (cases rule: decode_signature_cases [of env batch watched errs unexp single isig s])
  case (isolated g r s1)
  then show ?thesis by auto
next
  case (accepted r s1)
  then have s1: "ds_txs s1 = ds_txs s" "ds_failures s1 = ds_failures s"
    using take_result_simps [of "rb_Chain batch" single "signature_key (rb_Chain batch) (snd isig)" s] by simp_all
  show ?thesis unfolding accepted(3) accept_result_simps s1 by simp
qed

lemma decode_signature_txs:
  "set (ds_txs (decode_signature env batch watched errs unexp single isig s)) \<subseteq>
    set (ds_txs s) \<union> range (\<lambda>(r, tm). normalizedTxFromResult (nv_sum256 env) batch r tm watched)"
proof (cases rule: decode_signature_cases [of env batch watched errs unexp single isig s])
  case (isolated g r s1)
  then show ?thesis by auto
next
  case (accepted r s1)
  then have s1: "ds_txs s1 = ds_txs s"
    using take_result_simps [of "rb_Chain batch" single "signature_key (rb_Chain batch) (snd isig)" s] by simp_all
  show ?thesis unfolding accepted(3) accept_result_simps s1 by auto
qed

lemma decode_loop:
  fixes env batch watched errs unexp single xs s
  defines "t \<equiv> fold (decode_signature env batch watched errs unexp single) xs s"
  shows "length (ds_txs t) + length (ds_failures t) = length (ds_txs s) + length (ds_failures s) + length xs"
    and "ds_cursorSequence s \<le> ds_cursorSequence t"
    and "(ds_cursorValue t, ds_cursorSequence t) = (ds_cursorValue s, ds_cursorSequence s) \<or>
      (\<exists>sig \<in> snd ` set xs. (ds_cursorValue t, ds_cursorSequence t) = (Some (signature_key (rb_Chain batch) sig), sig_Sequence sig))"
    and "set (ds_txs t) \<subseteq> set (ds_txs s) \<union> range (\<lambda>(r, tm). normalizedTxFromResult (nv_sum256 env) batch r tm watched)"
  unfolding t_def
proof (induction xs arbitrary: s)
  case (Cons x xs)
  let ?d = "decode_signature env batch watched errs unexp single x"
  note adv = decode_signature_advanced [of batch x _ env watched errs unexp single, unfolded advanced_def]
  have sum: "a = b + n \<Longrightarrow> b = Suc c \<Longrightarrow> a = c + (n + Suc 0)" for a b c n :: nat by simp
  { case (1 s) show ?case unfolding fold_simps list.size by (rule sum [OF Cons.IH(1) decode_signature_count]) }
  { case (2 s) show ?case unfolding fold_simps by (rule order_trans [OF conjunct1 [OF adv] Cons.IH(2)]) }
  { case (3 s) show ?case unfolding fold_simps list.set image_insert using Cons.IH(3) [of "?d s"] conjunct2 [OF adv, of s] by fastforce }
  { case (4 s) show ?case unfolding fold_simps using Cons.IH(4) [of "?d s"] decode_signature_txs [of env batch watched errs unexp single x s] by blast }
qed simp_all

lemma decode_all_facts:
  fixes env batch sigs errs resp floor
  defines "t \<equiv> decode_all env batch sigs errs resp floor"
  shows "length (ds_txs t) + length (ds_failures t) = length sigs"
    and "snd (start_cursor batch) \<le> ds_cursorSequence t"
    and "(ds_cursorValue t, ds_cursorSequence t) = start_cursor batch \<or>
      (\<exists>sig \<in> set sigs. (ds_cursorValue t, ds_cursorSequence t) = (Some (signature_key (rb_Chain batch) sig), sig_Sequence sig))"
    and "set (ds_txs t) \<subseteq> range (\<lambda>(r, tm). normalizedTxFromResult (nv_sum256 env) batch r tm (resolveWatchedAddressSet batch))"
proof -
  let ?sorted = "sort_results (rb_Chain batch) (filter (\<lambda>k. k \<noteq> []) (map (\<lambda>s. CanonicalSignatureIdentity (rb_Chain batch) (sig_Hash s)) sigs)) (rs_Results resp)"
  let ?s = "\<lparr>ds_results = sr_bySignature ?sorted, ds_unexpected = sr_unexpected ?sorted, ds_floor = floor, ds_txs = [],
    ds_cursorValue = fst (start_cursor batch), ds_cursorSequence = snd (start_cursor batch), ds_failures = []\<rparr>"
  have t: "t = fold (decode_signature env batch (resolveWatchedAddressSet batch) errs (sortedSignatureKeys (sr_unexpectedNames ?sorted)) (length sigs = 1))
      (zip [0..<length sigs] sigs) ?s" by (simp add: t_def decode_all_def Let_def)
  have z: "snd ` set (zip [0..<length sigs] sigs) = set sigs" by (metis length_map map_nth map_snd_zip set_map length_upt minus_nat.diff_0)
  note loop = decode_loop [where env = env and batch = batch and watched = "resolveWatchedAddressSet batch" and errs = errs and
      unexp = "sortedSignatureKeys (sr_unexpectedNames ?sorted)" and single = "length sigs = 1" and xs = "zip [0..<length sigs] sigs" and s = ?s, folded t]
  show "length (ds_txs t) + length (ds_failures t) = length sigs" using loop(1) by simp
  show "snd (start_cursor batch) \<le> ds_cursorSequence t" using loop(2) by simp
  show "(ds_cursorValue t, ds_cursorSequence t) = start_cursor batch \<or>
      (\<exists>sig \<in> set sigs. (ds_cursorValue t, ds_cursorSequence t) = (Some (signature_key (rb_Chain batch) sig), sig_Sequence sig))"
    using loop(3) unfolding z by (simp only: decode_state.simps prod.collapse)
  show "set (ds_txs t) \<subseteq> range (\<lambda>(r, tm). normalizedTxFromResult (nv_sum256 env) batch r tm (resolveWatchedAddressSet batch))"
    using loop(4) by simp
qed

section \<open>A batch that was sent\<close>

lemma record_call_floor [simp]: "nz_coverageFloor (record_call env e nz) = nz_coverageFloor nz"
  by (simp add: record_call_def split: option.split)

lemma allow_call_floor: "allow_call env nz = (ok, nz') \<Longrightarrow> nz_coverageFloor nz' = nz_coverageFloor nz"
  by (auto simp: allow_call_def Let_def split: option.splits prod.splits)

lemma send_batch_sent: "send_batch env b nz = (None, Some nb, nz') \<longleftrightarrow> nv_send env = None \<and> nb = b \<and> nz' = nz"
  by (auto simp: send_batch_def split: option.split)

definition sent_batch :: "raw_batch \<Rightarrow> decode_state \<Rightarrow> normalized_batch" where
  "sent_batch batch s = (batch_shell batch)\<lparr>nb_Transactions := ds_txs s, nb_NewCursorValue := ds_cursorValue s, nb_NewCursorSequence := ds_cursorSequence s\<rparr>"

lemma finish_batch_sent:
  assumes "finish_batch env batch sigs resp nz = (None, Some nb, nz')"
  obtains errs s where "s = decode_all env batch sigs errs resp (nz_coverageFloor nz)" "ds_txs s \<noteq> [] \<or> sigs = []" "nb = sent_batch batch s"
    "nz_coverageFloor nz' = ds_floor s"
  using assms unfolding finish_batch_def
  by (auto simp: Let_def send_batch_sent sent_batch_def Transient_def split: prod.splits if_splits)

lemma processBatch_sent:
  assumes "norm_processBatch env batch nz = (None, Some nb, nz')"
  obtains (sentinel) "rb_Signatures batch = []" "nb = batch_shell batch" "nz' = nz"
  | (decoded) resp ws errs s where "rb_Signatures batch \<noteq> []" "canonicalizeBatchSignatures (rb_Chain batch) (rb_Signatures batch) \<noteq> []"
      "nv_decode env (zip (map sig_Hash (rb_Signatures batch)) (rb_RawTransactions batch)) ws = Inr resp"
      "s = decode_all env batch (canonicalizeBatchSignatures (rb_Chain batch) (rb_Signatures batch)) errs resp (nz_coverageFloor nz)"
      "ds_txs s \<noteq> []" "nb = sent_batch batch s" "nz_coverageFloor nz' = ds_floor s"
proof (cases "rb_RawTransactions batch = [] \<and> rb_Signatures batch = []")
  case True
  then show ?thesis using assms sentinel by (simp add: norm_processBatch_def send_batch_sent)
next
  case False
  let ?sigs = "canonicalizeBatchSignatures (rb_Chain batch) (rb_Signatures batch)"
  have len: "length (rb_RawTransactions batch) = length (rb_Signatures batch)"
    using assms False by (auto simp: norm_processBatch_def split: if_splits)
  then have ne: "rb_Signatures batch \<noteq> []" using False by auto
  then have sigs: "?sigs \<noteq> []" using assms False len by (auto simp: norm_processBatch_def Let_def split: if_splits)
  obtain ok nz1 where a: "allow_call env nz = (ok, nz1)" by fastforce
  have ok: "ok" using assms False len sigs a by (auto simp: norm_processBatch_def Let_def Transient_def split: if_splits)
  let ?ws = "if rb_BlockScanMode batch \<and> rb_WatchedAddresses batch \<noteq> [] then rb_WatchedAddresses batch else [rb_Address batch]"
  let ?txs = "zip (map sig_Hash (rb_Signatures batch)) (rb_RawTransactions batch)"
  have *: "norm_processBatch env batch nz = (case nv_decode env ?txs ?ws of
      Inl e \<Rightarrow> (Some (ErrWrap ''sidecar decode: '' e), None, record_call env (Some e) nz1)
    | Inr resp \<Rightarrow> finish_batch env batch ?sigs resp (record_call env None nz1))"
    using len sigs a ok ne by (simp add: norm_processBatch_def Let_def)
  then obtain resp where d: "nv_decode env ?txs ?ws = Inr resp" and f: "finish_batch env batch ?sigs resp (record_call env None nz1) = (None, Some nb, nz')"
    using assms by (cases "nv_decode env ?txs ?ws") simp_all
  from f obtain errs s where s: "s = decode_all env batch ?sigs errs resp (nz_coverageFloor nz)" "ds_txs s \<noteq> [] \<or> ?sigs = []"
      "nb = sent_batch batch s" "nz_coverageFloor nz' = ds_floor s"
    by (rule finish_batch_sent) (simp add: allow_call_floor [OF a])
  show ?thesis by (rule decoded [OF ne sigs d s(1) _ s(3,4)]) (use s(2) sigs in simp)
qed

section \<open>The events of a sent batch\<close>

lemma result_events_ok: "events_ok sum256 c n txHash watched (result_events sum256 c n txHash r watched)"
  by (simp add: result_events_def base_events_ok btc_events_ok solana_events_ok Let_def)

lemma sent_batch_simps [simp]:
  "nb_Transactions (sent_batch batch s) = ds_txs s" "nb_NewCursorValue (sent_batch batch s) = ds_cursorValue s"
  "nb_NewCursorSequence (sent_batch batch s) = ds_cursorSequence s" "nb_Chain (sent_batch batch s) = rb_Chain batch"
  "nb_PreviousCursorValue (sent_batch batch s) = CanonicalizeCursorValue (rb_Chain batch) (rb_PreviousCursorValue batch)"
  "nb_PreviousCursorSequence (sent_batch batch s) = rb_PreviousCursorSequence batch"
  by (simp_all add: sent_batch_def batch_shell_def)

definition sample_result :: transaction_result where
  "sample_result = \<lparr>dr_TxHash = ''sig1'', dr_BlockCursor = 12, dr_BlockTime = 0, dr_FeeAmount = ''5'', dr_FeePayer = ''payer'', dr_Status = ''SUCCESS'',
     dr_Error = None, dr_BalanceEvents = []\<rparr>"

definition sample_norm_env :: norm_env where
  "sample_norm_env = \<lparr>nv_now = 0, nv_clock = (\<lambda>_. 0), nv_decode = (\<lambda>txs ws. Inr \<lparr>rs_Results = [Some sample_result], rs_Errors = []\<rparr>), nv_send = None,
     nv_ctxErr = None, nv_sleep = None, nv_sum256 = (\<lambda>s. s), nv_FromError = (\<lambda>_. None), nv_codeString = (\<lambda>_. [])\<rparr>"

definition sample_raw_batch :: raw_batch where
  "sample_raw_batch = \<lparr>rb_Chain = ChainSolana, rb_Network = ''mainnet'', rb_Address = ''payer'', rb_WalletID = None, rb_OrgID = None,
     rb_PreviousCursorValue = None, rb_PreviousCursorSequence = 0, rb_RawTransactions = [''{}''],
     rb_Signatures = [\<lparr>sig_Hash = ''sig1'', sig_Sequence = 12, sig_Time = None\<rparr>], rb_NewCursorValue = None, rb_NewCursorSequence = 0,
     rb_BlockScanMode = False, rb_WatchedAddresses = []\<rparr>"

lemma fresh_floor: "sh_wf (nz_coverageFloor NewNormalizer)" "sh_lookup (nz_coverageFloor NewNormalizer) k = None"
  by (simp_all add: NewNormalizer_def NewShardedLRU_def sh_New(4) conjunct1 [OF sh_New(1) [unfolded sh_bounded_def]])

lemma reconcile_fresh:
  assumes "sh_wf floor" "\<And>k. sh_lookup floor k = None"
  shows "fst (reconcileCoverageRegressionFlap now batch key r floor) = r"
proof -
  have "fst (sh_Get now k floor) = None" for k using sharded.get_result [OF assms(1), of now k] assms(2) by simp
  then show ?thesis by (auto simp: reconcileCoverageRegressionFlap_def reconcileDecodedResultCoverage_def Let_def case_prod_beta)
qed

text \<open>A batch with one signature, decoded by a new normalizer.\<close>

definition sig1 :: signature_info where
  "sig1 = \<lparr>sig_Hash = ''sig1'', sig_Sequence = 12, sig_Time = None\<rparr>"

lemma single_sent:
  assumes b: "rb_Chain b = ChainSolana" "rb_Signatures b = [sig1]" "rb_RawTransactions b = [raw]" "start_cursor b = (None, q)" "q < 12"
    and e: "\<And>txs ws. nv_decode env txs ws = Inr \<lparr>rs_Results = [Some r], rs_Errors = []\<rparr>" "nv_send env = None" "dr_TxHash r = ''sig1''"
  shows "\<exists>nz'. norm_processBatch env b NewNormalizer = (None, Some ((batch_shell b)\<lparr>nb_NewCursorValue := Some ''sig1'', nb_NewCursorSequence := 12,
    nb_Transactions := [normalizedTxFromResult (nv_sum256 env) b r None (resolveWatchedAddressSet b)]\<rparr>), nz')"
proof -
  let ?resp = "\<lparr>rs_Results = [Some r], rs_Errors = []\<rparr> :: decode_response"
  have parts: "canonicalizeBatchSignatures ChainSolana [sig1] = [sig1]" "CanonicalSignatureIdentity ChainSolana ''sig1'' = ''sig1''" "TrimSpace ''sig1'' = ''sig1''"
    by code_simp+
  have res: "sort_results ChainSolana [''sig1''] [Some r] = \<lparr>sr_bySignature = [(''sig1'', r)], sr_unexpectedNames = [], sr_unexpected = []\<rparr>"
    by (simp add: sort_results_def sort_result_def store_result_def somes_def map_filter_simps reconcileDecodedResultCoverage_def e(3) parts(2))
  have sig: "sig_Hash sig1 = ''sig1''" "sig_Sequence sig1 = 12" "sig_Time sig1 = None" by (simp_all add: sig1_def)
  have floor: "fst (reconcileCoverageRegressionFlap now batch key r (nz_coverageFloor NewNormalizer)) = r" for now batch key r
    by (rule reconcile_fresh) (rule fresh_floor)+
  have all: "ds_txs s = [normalizedTxFromResult (nv_sum256 env) b r None (resolveWatchedAddressSet b)] \<and> ds_cursorValue s = Some ''sig1'' \<and> ds_cursorSequence s = 12"
    if "s = decode_all env b [sig1] [] ?resp (nz_coverageFloor NewNormalizer)" for s
    unfolding that decode_all_def
    by (simp add: Let_def b sig parts(2,3) res decode_signature_def take_result_def accept_result_def case_prod_beta floor shouldAdvanceCanonicalCursor_def)
  have "classifyDecodeErrors (nv_FromError env) (nv_codeString env) ChainSolana [] = ([], [])" by (simp add: classifyDecodeErrors_def)
  moreover have "allow_call env NewNormalizer = (True, NewNormalizer)" "record_call env None NewNormalizer = NewNormalizer"
    by (simp_all add: allow_call_def record_call_def NewNormalizer_def)
  ultimately show ?thesis
    using all [OF refl] by (simp add: norm_processBatch_def finish_batch_def b parts(1) e Let_def send_batch_def)
qed

definition sample_sent :: normalized_batch where
  "sample_sent = (batch_shell sample_raw_batch)\<lparr>nb_NewCursorValue := Some ''sig1'', nb_NewCursorSequence := 12,
     nb_Transactions := [normalizedTxFromResult (\<lambda>s. s) sample_raw_batch sample_result None (resolveWatchedAddressSet sample_raw_batch)]\<rparr>"

lemma sample_sent_ok: "\<exists>nz'. norm_processBatch sample_norm_env sample_raw_batch NewNormalizer = (None, Some sample_sent, nz')"
proof -
  have "start_cursor sample_raw_batch = (None, 0)" by code_simp
  from single_sent [OF _ _ _ this, of "''{}''" sample_norm_env sample_result] show ?thesis
    by (simp add: sample_raw_batch_def sig1_def sample_norm_env_def sample_result_def sample_sent_def)
qed

section \<open>Unique identifiers in a batch\<close>

text \<open>A signature in canonical form without the separator of the tagged texts.\<close>

definition plain :: "chain \<Rightarrow> string \<Rightarrow> bool" where
  "plain c h \<longleftrightarrow> h \<noteq> [] \<and> CHR ''|'' \<notin> set h \<and> CanonicalSignatureIdentity c h = h"

lemma takeWhile_bar: "CHR ''|'' \<notin> set a \<Longrightarrow> takeWhile (\<lambda>x. x \<noteq> CHR ''|'') (a @ CHR ''|'' # p) = a"
  by (induction a) auto

lemma bar_split_last:
  assumes "p @ CHR ''|'' # a = q @ CHR ''|'' # b" "CHR ''|'' \<notin> set a" "CHR ''|'' \<notin> set b"
  shows "a = b"
proof -
  have r: "takeWhile (\<lambda>x. x \<noteq> CHR ''|'') (rev (p @ CHR ''|'' # a)) = rev a" if "CHR ''|'' \<notin> set a" for p a :: string
    using that takeWhile_bar [of "rev a" "rev p"] by simp
  have "rev a = takeWhile (\<lambda>x. x \<noteq> CHR ''|'') (rev (p @ CHR ''|'' # a))" by (rule r [OF assms(2), symmetric])
  also have "\<dots> = takeWhile (\<lambda>x. x \<noteq> CHR ''|'') (rev (q @ CHR ''|'' # b))" by (simp only: assms(1))
  also have "\<dots> = rev b" by (rule r [OF assms(3)])
  finally show ?thesis by simp
qed

lemma bar_split_first:
  assumes "a @ CHR ''|'' # p = b @ CHR ''|'' # q" "CHR ''|'' \<notin> set a" "CHR ''|'' \<notin> set b"
  shows "a = b"
proof -
  have "a = takeWhile (\<lambda>x. x \<noteq> CHR ''|'') (a @ CHR ''|'' # p)" by (rule takeWhile_bar [OF assms(2), symmetric])
  also have "\<dots> = takeWhile (\<lambda>x. x \<noteq> CHR ''|'') (b @ CHR ''|'' # q)" by (simp only: assms(1))
  also have "\<dots> = b" by (rule takeWhile_bar [OF assms(3)])
  finally show ?thesis .
qed

lemma event_id_text_tx:
  assumes "event_id_text c n h path actor asset activity = event_id_text c n h' path' actor' asset' activity'" "plain c h" "plain c h'"
  shows "h = h'"
proof -
  have "event_id_text c n k p a s v = (''chain='' @ c @ ''|network='' @ n @ ''|tx='') @ k @ CHR ''|'' # (''path='' @ p @ ''|actor='' @ a @ ''|asset='' @ s @ ''|activity='' @ v)"
    if "plain c k" for k p a s v using that by (simp add: event_id_text_def plain_def Let_def)
  then show ?thesis using assms bar_split_first [of h _ h'] by (simp add: plain_def)
qed

lemma distinct_ids:
  assumes "inj sum256" "distinct (map nt_TxHash txs)" "\<And>t. t \<in> set txs \<Longrightarrow> plain c (nt_TxHash t)"
    and "\<And>t. t \<in> set txs \<Longrightarrow> events_ok sum256 c n (nt_TxHash t) watched (nt_BalanceEvents t)"
  shows "distinct (concat (map (\<lambda>t. map ne_EventID (nt_BalanceEvents t)) txs))"
proof -
  have tx: "\<exists>path actor asset activity. i = sum256 (event_id_text c n (nt_TxHash t) path actor asset activity)"
    if "t \<in> set txs" "i \<in> ne_EventID ` set (nt_BalanceEvents t)" for t i
    using assms(4) [OF that(1)] that(2) by (force simp: events_ok_def event_ok_def list_all_iff buildCanonicalEventID_def)
  have disjoint: "ne_EventID ` set (nt_BalanceEvents t) \<inter> ne_EventID ` set (nt_BalanceEvents u) = {}"
    if "t \<in> set txs" "u \<in> set txs" "nt_TxHash t \<noteq> nt_TxHash u" for t u
  proof -
    have False if i: "i \<in> ne_EventID ` set (nt_BalanceEvents t)" "i \<in> ne_EventID ` set (nt_BalanceEvents u)" for i
    proof -
      obtain p a s v where 1: "i = sum256 (event_id_text c n (nt_TxHash t) p a s v)" using tx [OF \<open>t \<in> set txs\<close> i(1)] by blast
      obtain p' a' s' v' where 2: "i = sum256 (event_id_text c n (nt_TxHash u) p' a' s' v')" using tx [OF \<open>u \<in> set txs\<close> i(2)] by blast
      have "event_id_text c n (nt_TxHash t) p a s v = event_id_text c n (nt_TxHash u) p' a' s' v'" using injD [OF assms(1)] 1 2 by metis
      from this assms(3) [OF \<open>t \<in> set txs\<close>] assms(3) [OF \<open>u \<in> set txs\<close>] have "nt_TxHash t = nt_TxHash u" by (rule event_id_text_tx)
      then show False using \<open>nt_TxHash t \<noteq> nt_TxHash u\<close> by blast
    qed
    then show ?thesis by blast
  qed
  have "distinct (concat (map (\<lambda>t. map ne_EventID (nt_BalanceEvents t)) us))" if "set us \<subseteq> set txs" "distinct (map nt_TxHash us)" for us
    using that
  proof (induction us)
    case (Cons u us)
    have "distinct (map ne_EventID (nt_BalanceEvents u))" using assms(4) [of u] Cons.prems(1) by (simp add: events_ok_def)
    moreover have "ne_EventID ` set (nt_BalanceEvents u) \<inter> ne_EventID ` set (nt_BalanceEvents v) = {}" if "v \<in> set us" for v
      by (rule disjoint) (use Cons.prems that in \<open>auto simp: image_iff\<close>)
    ultimately show ?case using Cons by auto
  qed simp
  then show ?thesis using assms(2) by blast
qed

text \<open>The floor stores under the key of a signature only results of that signature.\<close>

definition floor_sound :: "chain \<Rightarrow> (string, transaction_result) sharded_lru \<Rightarrow> bool" where
  "floor_sound c floor \<longleftrightarrow> sh_wf floor \<and> (\<forall>k v x. sh_lookup floor k = Some (v, x) \<longrightarrow>
     CHR ''|'' \<notin> set (result_key c v) \<and> (\<exists>p. k = p @ CHR ''|'' # result_key c v))"

lemma floor_sound_fresh: "floor_sound c (nz_coverageFloor NewNormalizer)"
  by (simp add: floor_sound_def fresh_floor)

lemma floor_sound_hit:
  assumes "floor_sound c floor" "fst (sh_Get now (p @ CHR ''|'' # key) floor) = Some v" "CHR ''|'' \<notin> set key"
  shows "result_key c v = key"
proof -
  have wf: "sh_wf floor" using assms(1) by (simp add: floor_sound_def)
  then obtain x where "sh_lookup floor (p @ CHR ''|'' # key) = Some (v, x)"
    using assms(2) sharded.get_result [OF wf] by (auto split: option.splits if_splits)
  then obtain q where "CHR ''|'' \<notin> set (result_key c v)" "p @ CHR ''|'' # key = q @ CHR ''|'' # result_key c v"
    using assms(1) unfolding floor_sound_def by blast
  then show ?thesis using bar_split_last assms(3) by metis
qed

lemma floor_sound_get: "floor_sound c floor \<Longrightarrow> floor_sound c (snd (sh_Get now k floor))"
  unfolding floor_sound_def using sharded.get_inv sharded.get_frame [of floor now k] by (metis insertE option.distinct(1) singletonD)

lemma floor_sound_put:
  assumes "floor_sound c floor" "result_key c v = key" "CHR ''|'' \<notin> set key"
  shows "floor_sound c (sh_Put now (p @ CHR ''|'' # key) v floor)"
proof -
  have wf: "sh_wf floor" using assms(1) by (simp add: floor_sound_def)
  have "CHR ''|'' \<notin> set (result_key c w) \<and> (\<exists>q. k = q @ CHR ''|'' # result_key c w)"
    if "sh_lookup (sh_Put now (p @ CHR ''|'' # key) v floor) k = Some (w, x)" for k w x
  proof (cases "k = p @ CHR ''|'' # key")
    case True
    then show ?thesis using that sharded.put_same [OF wf, of now "p @ CHR ''|'' # key" v] assms(2,3) by auto
  next
    case False
    then show ?thesis using that sharded.put_frame [OF wf False, of now v] assms(1) unfolding floor_sound_def by (metis insertE option.distinct(1) singletonD)
  qed
  then show ?thesis using sharded.put_inv [OF wf] by (simp add: floor_sound_def)
qed

lemma reconcile_result_key:
  assumes "reconcileDecodedResultCoverage c ex (Some r) = Some r'" "\<And>e. ex = Some e \<Longrightarrow> result_key c e = key" "result_key c r = key"
  shows "result_key c r' = key"
  using assms by (auto simp: reconcileDecodedResultCoverage_def cloneDecodedResult_def Let_def split: option.splits if_splits)

lemma reconcile_floor_sound:
  assumes "floor_sound c floor" "rb_Chain batch = c" "result_key c r = key" "plain c key"
  shows "result_key c (fst (reconcileCoverageRegressionFlap now batch key r floor)) = key \<and>
    floor_sound c (snd (reconcileCoverageRegressionFlap now batch key r floor))"
proof -
  let ?k = "coverageFloorKey (rb_Chain batch) (rb_Network batch) (rb_Address batch) key"
  have "\<exists>p. ?k = p @ CHR ''|'' # key"
    by (rule exI [of _ "rb_Chain batch @ ''|'' @ rb_Network batch @ ''|'' @ (let a = canonicalizeAddressIdentity (rb_Chain batch) (rb_Address batch) in
        if a = [] then TrimSpace (rb_Address batch) else a)"]) (simp add: coverageFloorKey_def Let_def)
  then obtain p where p: "?k = p @ CHR ''|'' # key" ..
  have bar: "CHR ''|'' \<notin> set key" "key \<noteq> []" using assms(4) by (auto simp: plain_def)
  let ?ex = "fst (sh_Get now ?k floor)" and ?f = "snd (sh_Get now ?k floor)"
  have "reconcileDecodedResultCoverage c ?ex (Some r) \<noteq> None"
    by (simp add: reconcileDecodedResultCoverage_def Let_def split: option.split prod.split)
  then obtain r' where r': "reconcileDecodedResultCoverage c ?ex (Some r) = Some r'" by blast
  have key: "result_key c r' = key"
    by (rule reconcile_result_key [OF r' _ assms(3)]) (rule floor_sound_hit [OF assms(1) _ bar(1)], simp add: p)
  have "floor_sound c (sh_Put now ?k (cloneDecodedResult r') ?f)"
    unfolding p by (rule floor_sound_put [OF floor_sound_get [OF assms(1)]]) (simp_all add: key cloneDecodedResult_def bar)
  then show ?thesis
    using key r' assms(2) bar(2) by (simp add: reconcileCoverageRegressionFlap_def Let_def case_prod_beta)
qed

text \<open>What the loop over the signatures keeps, when no result is unexpected.\<close>

definition loop_ok :: "chain \<Rightarrow> decode_state \<Rightarrow> bool" where
  "loop_ok c s \<longleftrightarrow> floor_sound c (ds_floor s) \<and> (\<forall>k r. map_of (ds_results s) k = Some r \<longrightarrow> result_key c r = k) \<and> ds_unexpected s = [] \<and>
     distinct (map nt_TxHash (ds_txs s)) \<and> (\<forall>t \<in> set (ds_txs s). map_of (ds_results s) (nt_TxHash t) = None \<and> plain c (nt_TxHash t))"

lemma take_result_ok:
  assumes "loop_ok (rb_Chain batch) s"
  shows "loop_ok (rb_Chain batch) (snd (take_result (rb_Chain batch) single key s))"
    and "take_result (rb_Chain batch) single key s = (Some r, s1) \<Longrightarrow>
      result_key (rb_Chain batch) r = key \<and> map_of (ds_results s) key = Some r \<and> s1 = s\<lparr>ds_results := AList.delete key (ds_results s)\<rparr>"
proof -
  have u: "ds_unexpected s = []" using assms by (simp add: loop_ok_def)
  have d: "map_of (AList.delete key al) k = (if k = key then None else map_of al k)" for k and al :: results_by_key
    by (simp add: delete_conv')
  show "loop_ok (rb_Chain batch) (snd (take_result (rb_Chain batch) single key s))"
    using assms by (auto simp: take_result_def loop_ok_def singleSignatureFallbackResult_def d split: option.splits)
  show "take_result (rb_Chain batch) single key s = (Some r, s1) \<Longrightarrow>
      result_key (rb_Chain batch) r = key \<and> map_of (ds_results s) key = Some r \<and> s1 = s\<lparr>ds_results := AList.delete key (ds_results s)\<rparr>"
    using assms u by (auto simp: take_result_def loop_ok_def singleSignatureFallbackResult_def split: option.splits if_splits)
qed

lemma decode_signature_ok:
  assumes "loop_ok (rb_Chain batch) s" "plain (rb_Chain batch) (sig_Hash (snd isig))"
  shows "loop_ok (rb_Chain batch) (decode_signature env batch watched errs unexp single isig s)"
proof -
  let ?c = "rb_Chain batch" and ?key = "signature_key (rb_Chain batch) (snd isig)"
  have key: "plain ?c ?key" using assms(2) by (simp add: plain_def CanonicalSignatureIdentity_TrimSpace)
  show ?thesis
  proof (cases rule: decode_signature_cases [of env batch watched errs unexp single isig s])
    case (isolated g r s1)
    then have "loop_ok ?c s1" using assms(1) take_result_ok(1) by auto
    then show ?thesis unfolding isolated(1) by (simp add: loop_ok_def)
  next
    case (accepted r s1)
    note t = take_result_ok(2) [OF assms(1) accepted(2)]
    have s1: "ds_floor s1 = ds_floor s" "ds_txs s1 = ds_txs s" "ds_unexpected s1 = []" "ds_results s1 = AList.delete ?key (ds_results s)"
      using t assms(1) by (auto simp: loop_ok_def)
    let ?rc = "reconcileCoverageRegressionFlap (nv_clock env (fst isig)) batch ?key r (ds_floor s1)"
    have rc: "result_key ?c (fst ?rc) = ?key" "floor_sound ?c (snd ?rc)"
      using reconcile_floor_sound [of ?c "ds_floor s1" batch r ?key] t key assms(1) s1 by (auto simp: loop_ok_def)
    let ?t = "normalizedTxFromResult (nv_sum256 env) batch (fst ?rc) (sig_Time (snd isig)) watched"
    have hash: "nt_TxHash ?t = ?key" using rc(1) accepted(1) by (simp add: normalizedTxFromResult_def result_hash_def Let_def)
    have fresh: "\<forall>u \<in> set (ds_txs s). nt_TxHash u \<noteq> ?key" using t assms(1) unfolding loop_ok_def by force
    show ?thesis
      using rc(2) hash fresh key assms(1)
      by (auto simp: loop_ok_def accepted(3) accept_result_simps s1 delete_conv' image_iff)
  qed
qed

lemma decode_loop_ok:
  assumes "loop_ok (rb_Chain batch) s" "\<And>x. x \<in> set xs \<Longrightarrow> plain (rb_Chain batch) (sig_Hash (snd x))"
  shows "loop_ok (rb_Chain batch) (fold (decode_signature env batch watched errs unexp single) xs s)"
  using assms by (induction xs arbitrary: s) (simp_all add: decode_signature_ok)

lemma store_result_keys:
  assumes "\<And>k r. map_of m k = Some r \<Longrightarrow> result_key c r = k" "map_of (store_result c (result_key c r0) r0 m) k = Some r"
  shows "result_key c r = k"
proof (cases "reconcileDecodedResultCoverage c (map_of m (result_key c r0)) (Some r0)")
  case None
  then show ?thesis using assms by (simp add: store_result_def)
next
  case (Some r')
  have "result_key c r' = result_key c r0" by (rule reconcile_result_key [OF Some]) (use assms(1) in auto)
  then show ?thesis using assms Some by (auto simp: store_result_def update_conv' split: if_splits)
qed

lemma sort_results_ok:
  assumes "\<And>r. Some r \<in> set results \<Longrightarrow> result_key c r \<in> set expected" "[] \<notin> set expected"
  shows "sr_unexpected (sort_results c expected results) = [] \<and>
    (\<forall>k r. map_of (sr_bySignature (sort_results c expected results)) k = Some r \<longrightarrow> result_key c r = k)"
proof -
  have "sr_unexpected (fold (sort_result c expected) rs s) = [] \<and> (\<forall>k r. map_of (sr_bySignature (fold (sort_result c expected) rs s)) k = Some r \<longrightarrow> result_key c r = k)"
    if "\<And>r. r \<in> set rs \<Longrightarrow> result_key c r \<in> set expected" "sr_unexpected s = []" "\<And>k r. map_of (sr_bySignature s) k = Some r \<Longrightarrow> result_key c r = k" for rs s
    using that
  proof (induction rs arbitrary: s)
    case (Cons r rs)
    have e: "result_key c r \<in> set expected" "result_key c r \<noteq> []" using Cons.prems(1) [of r] assms(2) by auto
    then have s: "sort_result c expected r s = s\<lparr>sr_bySignature := store_result c (result_key c r) r (sr_bySignature s)\<rparr>"
      by (simp add: sort_result_def Let_def)
    have keys: "result_key c r' = k" if "map_of (store_result c (result_key c r) r (sr_bySignature s)) k = Some r'" for k r'
      using Cons.prems(3) that by (rule store_result_keys)
    let ?s = "s\<lparr>sr_bySignature := store_result c (result_key c r) r (sr_bySignature s)\<rparr>"
    have sel: "sr_bySignature ?s = store_result c (result_key c r) r (sr_bySignature s)" by simp
    have "map_of (sr_bySignature ?s) k = Some r' \<Longrightarrow> result_key c r' = k" for k r' unfolding sel by (rule keys)
    moreover have "sr_unexpected ?s = []" using Cons.prems(2) by simp
    moreover have "r' \<in> set rs \<Longrightarrow> result_key c r' \<in> set expected" for r' by (rule Cons.prems(1)) simp
    ultimately show ?case unfolding fold_simps s by (intro Cons.IH)
  qed simp
  from this [of "somes results" "\<lparr>sr_bySignature = [], sr_unexpectedNames = [], sr_unexpected = []\<rparr>"]
  show ?thesis using assms(1) by (simp add: sort_results_def)
qed

lemma decode_all_ok:
  assumes "floor_sound (rb_Chain batch) floor" "\<And>x. x \<in> set sigs \<Longrightarrow> plain (rb_Chain batch) (sig_Hash x)"
    and "\<And>r. Some r \<in> set (rs_Results resp) \<Longrightarrow> result_key (rb_Chain batch) r \<in> sig_Hash ` set sigs"
  shows "loop_ok (rb_Chain batch) (decode_all env batch sigs errs resp floor)"
proof -
  let ?expected = "filter (\<lambda>k. k \<noteq> []) (map (\<lambda>s. CanonicalSignatureIdentity (rb_Chain batch) (sig_Hash s)) sigs)"
  have "set ?expected = sig_Hash ` set sigs" using assms(2) by (force simp: plain_def image_iff)
  then have "sr_unexpected (sort_results (rb_Chain batch) ?expected (rs_Results resp)) = [] \<and>
    (\<forall>k r. map_of (sr_bySignature (sort_results (rb_Chain batch) ?expected (rs_Results resp))) k = Some r \<longrightarrow> result_key (rb_Chain batch) r = k)"
    by (intro sort_results_ok) (use assms(3) in auto)
  then show ?thesis unfolding decode_all_def Let_def
    by (intro decode_loop_ok) (use assms(1,2) in \<open>auto simp: loop_ok_def dest!: set_zip_rightD\<close>)
qed

lemma decode_all_events_ok:
  assumes "t \<in> set (ds_txs (decode_all env batch sigs errs resp floor))"
  shows "events_ok (nv_sum256 env) (rb_Chain batch) (rb_Network batch) (nt_TxHash t) (resolveWatchedAddressSet batch) (nt_BalanceEvents t)"
  using subsetD [OF decode_all_facts(4) assms] by (auto simp: normalizedTxFromResult_def Let_def result_events_ok)

section \<open>Properties\<close>

text \<open>C13: every transaction of a batch that the normalizer sends has its events sorted by identifier and without repetition, and every
  event is well formed: schema version v2, one of the four finality states, a path, the identifier computed from its own path, actor,
  asset and activity, the canonical form of a watched address, and a negative sign on a fee. This holds whatever the sidecar answers.\<close>

theorem normalized_events_well_formed:
  assumes "norm_processBatch env batch nz = (None, Some nb, nz')"
  shows "list_all (\<lambda>t. events_ok (nv_sum256 env) (rb_Chain batch) (rb_Network batch) (nt_TxHash t) (resolveWatchedAddressSet batch) (nt_BalanceEvents t))
    (nb_Transactions nb)"
  using assms
proof (cases rule: processBatch_sent)
  case sentinel
  then show ?thesis by (simp add: batch_shell_def)
next
  case (decoded resp ws errs s)
  have "events_ok (nv_sum256 env) (rb_Chain batch) (rb_Network batch) (nt_TxHash t) (resolveWatchedAddressSet batch) (nt_BalanceEvents t)"
    if "t \<in> set (ds_txs s)" for t
    using that unfolding decoded(4) by (rule decode_all_events_ok)
  then show ?thesis unfolding decoded(6) by (simp add: list_all_iff)
qed

theorem normalized_events_well_formed_witness:
  "list_all (\<lambda>t. events_ok (\<lambda>s. s) ChainSolana ''mainnet'' (nt_TxHash t) (resolveWatchedAddressSet sample_raw_batch) (nt_BalanceEvents t)) (nb_Transactions sample_sent)"
proof -
  obtain nz' where "norm_processBatch sample_norm_env sample_raw_batch NewNormalizer = (None, Some sample_sent, nz')" using sample_sent_ok by blast
  from normalized_events_well_formed [OF this] show ?thesis by (simp add: sample_norm_env_def sample_raw_batch_def)
qed

text \<open>The balance-event identifiers of a batch are unique, also between its transactions, when the hash has no collisions, the canonical
  signatures contain no separator, and the sidecar answers only for signatures it was asked for.\<close>

lemma sent_unique:
  assumes "norm_processBatch env batch nz = (None, Some nb, nz')" "floor_sound (rb_Chain batch) (nz_coverageFloor nz)" "inj (nv_sum256 env)"
    and "\<And>s. s \<in> set (canonicalizeBatchSignatures (rb_Chain batch) (rb_Signatures batch)) \<Longrightarrow> plain (rb_Chain batch) (sig_Hash s)"
    and "\<And>txs ws resp r. nv_decode env txs ws = Inr resp \<Longrightarrow> Some r \<in> set (rs_Results resp) \<Longrightarrow>
      CanonicalSignatureIdentity (rb_Chain batch) (dr_TxHash r) \<in> sig_Hash ` set (canonicalizeBatchSignatures (rb_Chain batch) (rb_Signatures batch))"
  shows "distinct (concat (map (\<lambda>t. map ne_EventID (nt_BalanceEvents t)) (nb_Transactions nb)))"
    and "distinct (map nt_TxHash (nb_Transactions nb))" and "floor_sound (rb_Chain batch) (nz_coverageFloor nz')"
proof -
  have "distinct (concat (map (\<lambda>t. map ne_EventID (nt_BalanceEvents t)) (nb_Transactions nb))) \<and> distinct (map nt_TxHash (nb_Transactions nb)) \<and>
      floor_sound (rb_Chain batch) (nz_coverageFloor nz')"
    using assms(1)
  proof (cases rule: processBatch_sent)
    case sentinel
    then show ?thesis using assms(2) by (simp add: batch_shell_def)
  next
    case (decoded resp ws errs s)
    have ok: "loop_ok (rb_Chain batch) s"
      unfolding decoded(4) by (rule decode_all_ok [OF assms(2)]) (rule assms(4), assumption, rule assms(5) [OF decoded(3)], assumption)
    have ev: "events_ok (nv_sum256 env) (rb_Chain batch) (rb_Network batch) (nt_TxHash t) (resolveWatchedAddressSet batch) (nt_BalanceEvents t)"
      if "t \<in> set (ds_txs s)" for t
      using that unfolding decoded(4) by (rule decode_all_events_ok)
    have "distinct (concat (map (\<lambda>t. map ne_EventID (nt_BalanceEvents t)) (ds_txs s)))"
      by (rule distinct_ids [OF assms(3) _ _ ev]) (use ok in \<open>auto simp: loop_ok_def\<close>)
    then show ?thesis using ok decoded(6,7) by (simp add: loop_ok_def)
  qed
  then show "distinct (concat (map (\<lambda>t. map ne_EventID (nt_BalanceEvents t)) (nb_Transactions nb)))"
    "distinct (map nt_TxHash (nb_Transactions nb))" "floor_sound (rb_Chain batch) (nz_coverageFloor nz')"
    by blast+
qed

text \<open>A batch with signatures that is sent has at least one transaction and at most one for each canonical signature. Its cursor is where
  the batch started or at one of the signatures, and its sequence never lies before the start.\<close>

theorem normalizer_cursor:
  assumes "norm_processBatch env batch nz = (None, Some nb, nz')" "rb_Signatures batch \<noteq> []"
  shows "nb_Transactions nb \<noteq> [] \<and> length (nb_Transactions nb) \<le> length (canonicalizeBatchSignatures (rb_Chain batch) (rb_Signatures batch)) \<and>
    snd (start_cursor batch) \<le> nb_NewCursorSequence nb \<and>
    ((nb_NewCursorValue nb, nb_NewCursorSequence nb) = start_cursor batch \<or>
     (\<exists>s \<in> set (canonicalizeBatchSignatures (rb_Chain batch) (rb_Signatures batch)).
        (nb_NewCursorValue nb, nb_NewCursorSequence nb) = (Some (CanonicalSignatureIdentity (rb_Chain batch) (TrimSpace (sig_Hash s))), sig_Sequence s)))"
  using assms(1)
proof (cases rule: processBatch_sent)
  case sentinel
  then show ?thesis using assms(2) by simp
next
  case (decoded resp ws errs s)
  have "length (ds_txs s) \<le> length (canonicalizeBatchSignatures (rb_Chain batch) (rb_Signatures batch))"
    unfolding decoded(4) by (metis decode_all_facts(1) le_add1)
  moreover note decode_all_facts(2,3) [where env = env and batch = batch and errs = errs and resp = resp and floor = "nz_coverageFloor nz" and
      sigs = "canonicalizeBatchSignatures (rb_Chain batch) (rb_Signatures batch)", folded decoded(4)]
  ultimately show ?thesis unfolding decoded(6) sent_batch_simps using decoded(5) by blast
qed

theorem normalizer_cursor_witness:
  "nb_Transactions sample_sent \<noteq> [] \<and> snd (start_cursor sample_raw_batch) \<le> nb_NewCursorSequence sample_sent"
proof -
  obtain nz' where "norm_processBatch sample_norm_env sample_raw_batch NewNormalizer = (None, Some sample_sent, nz')" using sample_sent_ok by blast
  from normalizer_cursor [OF this] show ?thesis by (simp add: sample_raw_batch_def)
qed

section \<open>The coverage floor\<close>

lemma reconcile_hit:
  assumes "fst (sh_Get now (coverageFloorKey (rb_Chain batch) (rb_Network batch) (rb_Address batch) key) floor) = Some ex" "key \<noteq> []"
  obtains p s where "p = ex \<and> s = incoming \<or> p = incoming \<and> s = ex"
    "dr_BalanceEvents (fst (reconcileCoverageRegressionFlap now batch key incoming floor)) =
       mergeDecodedBalanceEvents (rb_Chain batch) (dr_BalanceEvents p) (dr_BalanceEvents s)"
proof (cases "shouldReplaceDecodedResult (rb_Chain batch) (Some ex) (Some incoming)")
  case True
  then show ?thesis using assms
    by (intro that [of incoming ex]) (simp_all add: reconcileCoverageRegressionFlap_def reconcileDecodedResultCoverage_def Let_def case_prod_beta)
next
  case False
  then show ?thesis using assms
    by (intro that [of ex incoming]) (simp_all add: reconcileCoverageRegressionFlap_def reconcileDecodedResultCoverage_def Let_def case_prod_beta)
qed

text \<open>A group whose members all name their paths is not collapsed.\<close>

lemma collapse_group_hinted:
  assumes "\<And>k. k \<in> set g \<Longrightarrow> \<exists>be. map_of m k = Some be \<and> decodedCoverageEventHasPathHint c be"
  shows "collapse_group c g m = m"
proof -
  have "filter (\<lambda>k. (case map_of m k of None \<Rightarrow> None | Some be \<Rightarrow> Some (decodedCoverageEventHasPathHint c be)) = Some False) g = []"
    using assms by (fastforce simp: filter_empty_conv)
  then show ?thesis by (simp add: collapse_group_def Let_def split: list.split)
qed

lemma merge_two_paths:
  assumes "decodedCoverageEventHasPathHint c x" "decodedCoverageEventHasPathHint c y" "coverage_key c x \<noteq> coverage_key c y"
  shows "set (somes (mergeDecodedBalanceEvents c [Some x] [Some y])) = {x, y}"
proof -
  let ?m = "[(coverage_key c x, x), (coverage_key c y, y)]"
  have keep: "keep_best (shouldReplaceDecodedCoverageEvent c) ?m = ?m" by (rule keep_best_distinct) (use assms(3) in simp)
  have "collapse_group c (lineage_group c ?m lk) ?m = ?m" for lk
    by (rule collapse_group_hinted) (use assms in \<open>auto simp: lineage_group_def split: if_splits\<close>)
  then have "fold (\<lambda>lk. collapse_group c (lineage_group c ?m lk)) lks ?m = ?m" for lks by (induction lks) simp_all
  then have "reconcileDecodedCoverageLineageAliases c ?m = ?m" unfolding reconcileDecodedCoverageLineageAliases_def Let_def by simp
  moreover have "somes [Some x] = [x]" "somes [Some y] = [y]" using somes_map_Some [of "[x]"] somes_map_Some [of "[y]"] by simp_all
  ultimately show ?thesis using keep by (simp add: mergeDecodedBalanceEvents_def Let_def)
qed

text \<open>C14: a transaction decoded again while its earlier decoding is in the coverage floor loses no event and gains none: every event of the
  result is, up to metadata, an event of one of the two decodings, and every event of either decoding has a representative with its
  lineage in the result, whatever block each decoding reports.\<close>

theorem coverage_floor_keeps_events:
  assumes "fst (sh_Get now (coverageFloorKey (rb_Chain batch) (rb_Network batch) (rb_Address batch) key) floor) = Some ex" "key \<noteq> []"
  shows "let inputs = set (somes (dr_BalanceEvents ex)) \<union> set (somes (dr_BalanceEvents incoming));
             events = set (somes (dr_BalanceEvents (fst (reconcileCoverageRegressionFlap now batch key incoming floor))))
         in (\<forall>y \<in> events. \<exists>x \<in> inputs. same_event y x) \<and>
            (\<forall>x \<in> inputs. \<exists>z \<in> inputs. \<exists>y \<in> events. coverage_key (rb_Chain batch) z = coverage_key (rb_Chain batch) x \<and>
               decodedCoverageEventLineageKey (rb_Chain batch) y = decodedCoverageEventLineageKey (rb_Chain batch) z)"
proof -
  obtain p s where ps: "p = ex \<and> s = incoming \<or> p = incoming \<and> s = ex"
      "dr_BalanceEvents (fst (reconcileCoverageRegressionFlap now batch key incoming floor)) =
         mergeDecodedBalanceEvents (rb_Chain batch) (dr_BalanceEvents p) (dr_BalanceEvents s)"
    by (rule reconcile_hit [OF assms])
  have eq: "set (somes (dr_BalanceEvents ex)) \<union> set (somes (dr_BalanceEvents incoming)) = set (somes (dr_BalanceEvents p)) \<union> set (somes (dr_BalanceEvents s))"
    using ps(1) by (elim disjE conjE) (simp_all only: Un_commute)
  show ?thesis unfolding ps(2) Let_def eq by (rule merge_covers)
qed

text \<open>C15: when a reorganisation moves a transfer to another log position, the earlier decoding in the coverage floor is merged into the new
  one: with one event before and one after, each naming its path, and different coverage keys, the transaction carries both events
  although the chain has one.\<close>

theorem moved_event_counted_twice:
  assumes "fst (sh_Get now (coverageFloorKey (rb_Chain batch) (rb_Network batch) (rb_Address batch) key) floor) = Some ex" "key \<noteq> []"
    and "dr_BalanceEvents ex = [Some x]" "dr_BalanceEvents incoming = [Some y]"
    and "decodedCoverageEventHasPathHint (rb_Chain batch) x" "decodedCoverageEventHasPathHint (rb_Chain batch) y"
    and "coverage_key (rb_Chain batch) x \<noteq> coverage_key (rb_Chain batch) y"
  shows "set (somes (dr_BalanceEvents (fst (reconcileCoverageRegressionFlap now batch key incoming floor)))) = {x, y}"
proof -
  obtain p s where ps: "p = ex \<and> s = incoming \<or> p = incoming \<and> s = ex"
      "dr_BalanceEvents (fst (reconcileCoverageRegressionFlap now batch key incoming floor)) =
         mergeDecodedBalanceEvents (rb_Chain batch) (dr_BalanceEvents p) (dr_BalanceEvents s)"
    by (rule reconcile_hit [OF assms(1,2)])
  have "set (somes (mergeDecodedBalanceEvents (rb_Chain batch) (dr_BalanceEvents p) (dr_BalanceEvents s))) = {x, y}"
    using ps(1)
  proof (elim disjE conjE)
    assume "p = ex" "s = incoming"
    then show ?thesis using merge_two_paths [OF assms(5,6,7)] by (simp only: assms(3,4))
  next
    assume "p = incoming" "s = ex"
    then show ?thesis using merge_two_paths [OF assms(6,5) assms(7) [symmetric]] by (simp only: assms(3,4) insert_commute)
  qed
  then show ?thesis unfolding ps(2) .
qed

lemma hit_after_put: "fst (sh_Get 0 k (sh_Put 0 k v (nz_coverageFloor NewNormalizer))) = Some v"
proof -
  let ?f = "nz_coverageFloor NewNormalizer"
  have "sh_ttl ?f = 600000000000" by (simp add: NewNormalizer_def NewShardedLRU_def sh_New(3))
  then show ?thesis
    using sharded.get_result [OF sharded.put_inv [OF fresh_floor(1), of 0 k v], of 0 k] sharded.put_same [OF fresh_floor(1), of 0 k v] by simp
qed

definition sample_scan :: raw_batch where
  "sample_scan = sample_raw_batch\<lparr>rb_Chain := ChainBase, rb_Address := ''0xa''\<rparr>"

definition sample_decoding :: "int \<Rightarrow> string \<Rightarrow> transaction_result" where
  "sample_decoding block logIndex = sample_result\<lparr>dr_TxHash := ''0xab'', dr_BlockCursor := block,
     dr_BalanceEvents := [Some (sample_info ''0xa'' ''5'' [(''log_index'', logIndex)])]\<rparr>"

definition sample_floor :: "(string, transaction_result) sharded_lru" where
  "sample_floor = sh_Put 0 (coverageFloorKey (rb_Chain sample_scan) (rb_Network sample_scan) (rb_Address sample_scan) ''0xab'') (sample_decoding 100 ''5'')
     (nz_coverageFloor NewNormalizer)"

theorem coverage_floor_keeps_events_witness:
  "\<exists>y \<in> set (somes (dr_BalanceEvents (fst (reconcileCoverageRegressionFlap 0 sample_scan ''0xab'' (sample_decoding 101 ''7'') sample_floor)))).
     decodedCoverageEventLineageKey ChainBase y = decodedCoverageEventLineageKey ChainBase (sample_info ''0xa'' ''5'' [(''log_index'', ''5'')])"
proof -
  have "fst (sh_Get 0 (coverageFloorKey (rb_Chain sample_scan) (rb_Network sample_scan) (rb_Address sample_scan) ''0xab'') sample_floor) = Some (sample_decoding 100 ''5'')"
    unfolding sample_floor_def by (rule hit_after_put)
  note cover = coverage_floor_keeps_events [OF this list.distinct(2), of "sample_decoding 101 ''7''", unfolded Let_def]
  have lineage: "decodedCoverageEventLineageKey ChainBase (sample_info ''0xa'' ''5'' [(''log_index'', l)]) =
      decodedCoverageEventLineageKey ChainBase (sample_info ''0xa'' ''5'' [])" for l
    by (rule same_event_lineage) (simp add: same_event_def sample_info_def)
  have mem: "z \<in> set (somes (dr_BalanceEvents (sample_decoding b l))) \<longleftrightarrow> z = sample_info ''0xa'' ''5'' [(''log_index'', l)]" for z b l
    by (auto simp: sample_decoding_def)
  have c: "rb_Chain sample_scan = ChainBase" by (simp add: sample_scan_def)
  let ?x = "sample_info ''0xa'' ''5'' [(''log_index'', ''5'')]"
  have "?x \<in> set (somes (dr_BalanceEvents (sample_decoding 100 ''5''))) \<union> set (somes (dr_BalanceEvents (sample_decoding 101 ''7'')))"
    unfolding Un_iff mem by (rule disjI1) (rule refl)
  from bspec [OF conjunct2 [OF cover] this] obtain z y where
    z: "z \<in> set (somes (dr_BalanceEvents (sample_decoding 100 ''5''))) \<union> set (somes (dr_BalanceEvents (sample_decoding 101 ''7'')))" and
    y: "y \<in> set (somes (dr_BalanceEvents (fst (reconcileCoverageRegressionFlap 0 sample_scan ''0xab'' (sample_decoding 101 ''7'') sample_floor))))"
      "decodedCoverageEventLineageKey ChainBase y = decodedCoverageEventLineageKey ChainBase z"
    unfolding c by (elim bexE conjE) (rule that)
  have "decodedCoverageEventLineageKey ChainBase z = decodedCoverageEventLineageKey ChainBase ?x"
    using z unfolding Un_iff mem by (elim disjE) (simp_all only: lineage)
  with y(2) have eq: "decodedCoverageEventLineageKey ChainBase y = decodedCoverageEventLineageKey ChainBase ?x" by (rule trans)
  show ?thesis by (rule bexI [OF _ y(1)]) (rule eq)
qed

theorem moved_event_counted_twice_witness:
  "set (somes (dr_BalanceEvents (fst (reconcileCoverageRegressionFlap 0 sample_scan ''0xab'' (sample_decoding 101 ''7'') sample_floor)))) =
    {sample_info ''0xa'' ''5'' [(''log_index'', ''5'')], sample_info ''0xa'' ''5'' [(''log_index'', ''7'')]}"
proof (rule moved_event_counted_twice)
  show "fst (sh_Get 0 (coverageFloorKey (rb_Chain sample_scan) (rb_Network sample_scan) (rb_Address sample_scan) ''0xab'') sample_floor) = Some (sample_decoding 100 ''5'')"
    unfolding sample_floor_def by (rule hit_after_put)
  show "dr_BalanceEvents (sample_decoding 100 ''5'') = [Some (sample_info ''0xa'' ''5'' [(''log_index'', ''5'')])]"
    "dr_BalanceEvents (sample_decoding 101 ''7'') = [Some (sample_info ''0xa'' ''5'' [(''log_index'', ''7'')])]"
    by (simp_all add: sample_decoding_def)
qed code_simp+

end
