(* ===== verification/Ledger.thy ===== *)
theory Ledger
  imports Store_DB
begin

text \<open>
  What the repositories guarantee together. The ledger of a balance is the sum of the deltas of its
  applied events (negated for the \<^verbatim>\<open>staked\<close> balance of staking events); \<^verbatim>\<open>ledger_ok\<close> says that every
  stored balance is its ledger. The lemmas describe how \<^verbatim>\<open>BulkUpsertTx\<close> and \<^verbatim>\<open>BulkAdjustBalanceTx\<close> move
  the two sides: they are what the ingester's proofs rest on. The theory also shows that stored
  events are never lost, duplicated or demoted by an upsert, and that a bulk adjustment with two
  items for one balance drops one of them.
\<close>

section \<open>The ledger\<close>

fun effect :: "balance_event \<Rightarrow> balance_pk \<Rightarrow> int" where
  "effect e (c, n, a, t, ty) =
     (if be_BalanceApplied e \<and> be_Chain e = c \<and> be_Network e = n \<and> be_Address e = a \<and> be_TokenID e = t
      then (if ty = '''' then delta_val (be_Delta e)
            else if ty = ''staked'' \<and> IsStakingActivity (be_ActivityType e) then - delta_val (be_Delta e)
            else 0)
      else 0)"

definition effects :: "balance_event list \<Rightarrow> balance_pk \<Rightarrow> int" where
  "effects es k = sum_list (map (\<lambda>e. effect e k) es)"

definition ledger_ok :: "db \<Rightarrow> bool" where
  "ledger_ok d \<longleftrightarrow> (\<forall>c n k. GetBalance c n k d = effects (db_events d) (c, n, k))"

definition item_sum :: "balance_key \<Rightarrow> adjust_item list \<Rightarrow> int" where
  "item_sum k items = sum_list (map (\<lambda>i. delta_val (ai_Delta i)) (items_for k items))"

definition pick_ok :: "(adjust_item list \<Rightarrow> adjust_item) \<Rightarrow> bool" where
  "pick_ok pick \<longleftrightarrow> (\<forall>xs. xs \<noteq> [] \<longrightarrow> pick xs \<in> set xs)"

lemma effects_simps [simp]:
  "effects [] k = 0" "effects (e # es) k = effect e k + effects es k" "effects (es @ es') k = effects es k + effects es' k"
  by (simp_all add: effects_def)

lemma effects_filter_split: "effects es k = effects (filter P es) k + effects (filter (\<lambda>e. \<not> P e) es) k"
  by (induction es) auto

lemma item_sum_simps [simp]:
  "item_sum k [] = 0" "item_sum k (i # is) = (if ai_key i = k then delta_val (ai_Delta i) else 0) + item_sum k is"
  "item_sum k (is @ js) = item_sum k is + item_sum k js"
  by (simp_all add: item_sum_def items_for_def)

section \<open>Bulk adjustment\<close>

lemma items_for_distinct:
  "distinct (map ai_key items) \<Longrightarrow> items_for k items = [] \<or> (\<exists>i. items_for k items = [i] \<and> ai_key i = k)"
proof (induction items)
  case (Cons i items)
  have "items_for k items = []" if "ai_key i = k"
  proof -
    have "k \<notin> ai_key ` set items" using Cons.prems that by auto
    then show ?thesis by (auto simp: items_for_def filter_empty_conv)
  qed
  with Cons show ?case by (auto simp: items_for_def)
qed (simp add: items_for_def)

lemma BulkAdjust_frame:
  assumes "BulkAdjustBalanceTx pick c n items d = Inr d'"
  shows "\<exists>bals. d' = d\<lparr>db_balances := bals\<rparr>"
proof (cases "items = []")
  case True
  then have "d' = d\<lparr>db_balances := db_balances d\<rparr>" using assms by (simp add: BulkAdjustBalanceTx_def)
  then show ?thesis by blast
qed (use assms in \<open>auto simp: BulkAdjustBalanceTx_def Let_def split: if_splits\<close>)

lemma BulkAdjust_balances:
  assumes "BulkAdjustBalanceTx pick c n items d = Inr d'"
  shows "db_balances d' (c', n', k) =
    (if c' = c \<and> n' = n then bulk_adjusted pick (db_balances d (c', n', k)) (items_for k items)
     else db_balances d (c', n', k))"
  using assms by (auto simp: BulkAdjustBalanceTx_def Let_def items_for_def bulk_adjusted_def split: if_splits)

lemma BulkAdjust_distinct:
  assumes "pick_ok pick" and adj: "BulkAdjustBalanceTx pick c n items d = Inr d'" and "distinct (map ai_key items)"
  shows "GetBalance c' n' k d' = GetBalance c' n' k d + (if c' = c \<and> n' = n then item_sum k items else 0)"
proof (cases "c' = c \<and> n' = n")
  case True
  from items_for_distinct [OF assms(3), of k] show ?thesis
  proof
    assume "items_for k items = []"
    then show ?thesis using True by (simp add: GetBalance_def BulkAdjust_balances [OF adj] bulk_adjusted_def item_sum_def)
  next
    assume "\<exists>i. items_for k items = [i] \<and> ai_key i = k"
    then obtain i where i: "items_for k items = [i]" by blast
    have "pick [i] = i" using assms(1) unfolding pick_ok_def by (metis list.discI list.set(1) list.set(2) singletonD)
    then show ?thesis using True i
      by (simp add: GetBalance_def BulkAdjust_balances [OF adj] bulk_adjusted_def item_sum_def new_balance_def
          adjust_balance_def split: option.split)
  qed
next
  case False
  then have "db_balances d' (c', n', k) = db_balances d (c', n', k)" by (auto simp: BulkAdjust_balances [OF adj])
  then show ?thesis using False by (auto simp: GetBalance_def)
qed

section \<open>Upserting events\<close>

lemma event_row_simps [simp]:
  "be_EventID (event_row now i e) = be_EventID e" "effect (event_row now i e) k = effect e k"
  "be_BalanceApplied (event_row now i e) = be_BalanceApplied e" "be_BlockCursor (event_row now i e) = be_BlockCursor e"
  by (cases k; simp add: event_row_def)+

lemma number_rows_append:
  "number_rows f n (xs @ ys) = number_rows f n xs @ number_rows f (n + length xs) ys"
proof -
  have "[n..<n + (length xs + length ys)] = [n..<n + length xs] @ [n + length xs..<n + length xs + length ys]"
    by (metis add.assoc upt_add_eq_append le_add1)
  then show ?thesis by (simp add: number_rows_def)
qed

lemma effects_number_rows: "effects (number_rows (event_row now) n es) k = effects es k"
  unfolding effects_def by (simp add: map_number_rows)

text \<open>Events that are new to the table: non-empty identifiers, all different, none stored.\<close>

definition fresh_events :: "balance_event list \<Rightarrow> db \<Rightarrow> bool" where
  "fresh_events es d \<longleftrightarrow> '''' \<notin> be_EventID ` set es \<and> distinct (map be_EventID es) \<and>
     be_EventID ` set es \<inter> be_EventID ` set (db_events d) = {}"

lemma fresh_events_append:
  assumes "fresh_events (xs @ ys) d"
  shows "fresh_events xs d"
    "be_EventID ` set (db_events d') = be_EventID ` set (db_events d) \<union> be_EventID ` set xs \<Longrightarrow> fresh_events ys d'"
  using assms by (auto simp: fresh_events_def image_Un Int_Un_distrib Int_Un_distrib2 Int_commute)

lemma event_statement_fresh:
  assumes "fresh_events es d" "event_statement now es d = Inr (us, d')"
  shows "d' = d\<lparr>db_events := db_events d @ number_rows (event_row now) (db_next d) es, db_next := db_next d + length es\<rparr>"
proof -
  let ?rows = "number_rows (event_row now) (db_next d) es"
  have ids: "map be_EventID ?rows = map be_EventID es" by (rule map_number_rows) simp
  have ne: "'''' \<notin> be_EventID ` set ?rows" using assms(1) ids unfolding fresh_events_def by (metis list.set_map)
  then have k: "map be_key ?rows = map (\<lambda>i. (i, 0)) (map be_EventID ?rows)" by (force simp: be_key_def)
  have "distinct (map be_key ?rows)"
    unfolding k ids using assms(1) by (simp add: distinct_map inj_on_def fresh_events_def)
  moreover have "fst ` be_key ` S = be_EventID ` S" for S by (simp add: image_image be_key_def)
  moreover have "be_EventID ` set ?rows = be_EventID ` set es" using ids by (metis set_map)
  ultimately have "distinct (map be_key ?rows)" "fst ` be_key ` set ?rows = be_EventID ` set es"
    "fst ` be_key ` set (db_events d) = be_EventID ` set (db_events d)" by simp_all
  moreover from this(2,3) have "be_key ` set ?rows \<inter> be_key ` set (db_events d) = {}"
    using assms(1) unfolding fresh_events_def by blast
  ultimately have "bulk_upsert be_key be_accept be_merge [] ?rows (db_events d) =
      Some (db_events d @ ?rows, replicate (length ?rows) (Some True))"
    by (intro events.bulk_upsert_fresh) auto
  with assms(2) show ?thesis by (auto simp: event_statement_def Let_def split: if_splits)
qed

lemma exec_chunks_fresh:
  "fresh_events (concat cs) d \<Longrightarrow> exec_chunks now cs n d = Inr (r, d') \<Longrightarrow>
     d' = d\<lparr>db_events := db_events d @ number_rows (event_row now) (db_next d) (concat cs), db_next := db_next d + length (concat cs)\<rparr>"
proof (induction now cs n d rule: exec_chunks.induct)
  case (1 now n d) then show ?case by (simp add: number_rows_def)
next
  case (2 now c cs n d)
  from "2.prems"(2) obtain m d1 where s: "execBulkChunk now c d = Inr (m, d1)" "exec_chunks now cs (n + m) d1 = Inr (r, d')"
    by (auto split: sum.splits prod.splits)
  from s(1) obtain us where st: "event_statement now c d = Inr (us, d1)"
    by (auto simp: execBulkChunk_def split: sum.splits prod.splits)
  have f: "fresh_events c d" using "2.prems"(1) by (simp add: fresh_events_append(1))
  note d1 = event_statement_fresh [OF f st]
  have "be_EventID ` set (number_rows (event_row now) (db_next d) c) = be_EventID ` set c"
    using map_number_rows [of be_EventID "event_row now"] by (simp flip: set_map)
  then have "be_EventID ` set (db_events d1) = be_EventID ` set (db_events d) \<union> be_EventID ` set c"
    by (simp add: d1 image_Un)
  then have "fresh_events (concat cs) d1" using "2.prems"(1) fresh_events_append(2) [of c "concat cs" d d1] by simp
  from "2.IH" [OF s(1) refl this s(2)] show ?case by (simp add: d1 number_rows_append)
qed

lemma be_BulkUpsertTx_fresh:
  assumes "fresh_events es d" "be_BulkUpsertTx now es d = Inr (r, d')"
  shows "d' = d\<lparr>db_events := db_events d @ number_rows (event_row now) (db_next d) es, db_next := db_next d + length es\<rparr>"
proof (cases "length es \<le> smallBatchThreshold")
  case True
  then show ?thesis
    using assms event_statement_fresh [OF assms(1), of now]
    by (auto simp: be_BulkUpsertTx_def bulkUpsertPerEvent_def number_rows_def Let_def split: if_splits sum.splits prod.splits)
next
  case False
  have "concat (chunks bulkChunkSize es) = es" by (rule concat_chunks) (simp add: bulkChunkSize_def)
  moreover have "es \<noteq> []" using False by auto
  then have "exec_chunks now (chunks bulkChunkSize es) 0 d = Inr (r, d')"
    using False assms(2) by (simp add: be_BulkUpsertTx_def bulkUpsertMultiValues_def)
  ultimately show ?thesis using exec_chunks_fresh [of "chunks bulkChunkSize es" d now 0] assms(1) by simp
qed

section \<open>Stored events only grow\<close>

text \<open>The identity and the amount of an event stay, its finality, its cursor and \<^verbatim>\<open>balance_applied\<close> only go up.\<close>

definition event_le :: "balance_event \<Rightarrow> balance_event \<Rightarrow> bool" where
  "event_le x y \<longleftrightarrow> be_ID y = be_ID x \<and> be_EventID y = be_EventID x \<and> be_Chain y = be_Chain x \<and> be_Network y = be_Network x \<and>
     be_Address y = be_Address x \<and> be_TokenID y = be_TokenID x \<and> be_Delta y = be_Delta x \<and> be_ActivityType y = be_ActivityType x \<and>
     (be_BalanceApplied x \<longrightarrow> be_BalanceApplied y) \<and>
     finality_rank (be_FinalityState x) \<le> finality_rank (be_FinalityState y) \<and> be_BlockCursor x \<le> be_BlockCursor y"

lemma event_le_refl: "event_le x x"
  by (simp add: event_le_def)

lemma event_le_trans: "event_le x y \<Longrightarrow> event_le y z \<Longrightarrow> event_le x z"
  by (simp add: event_le_def)

lemma event_le_merge: "be_accept x r \<Longrightarrow> event_le x (be_merge x r)"
  by (simp add: event_le_def be_merge_def be_accept_def)

definition events_grow :: "db \<Rightarrow> db \<Rightarrow> bool" where
  "events_grow d d' \<longleftrightarrow> table_unique be_key (db_events d') \<and>
     (\<forall>e \<in> set (db_events d). \<exists>e' \<in> set (db_events d'). event_le e e')"

lemma events_grow_trans: "events_grow d1 d2 \<Longrightarrow> events_grow d2 d3 \<Longrightarrow> events_grow d1 d3"
  unfolding events_grow_def by (meson event_le_trans)

lemma event_statement_grow:
  assumes u: "table_unique be_key (db_events d)" and s: "event_statement now es d = Inr (us, d')"
  shows "events_grow d d'"
proof -
  from s obtain fs where b: "bulk_upsert be_key be_accept be_merge [] (number_rows (event_row now) (db_next d) es) (db_events d) =
      Some (db_events d', fs)"
    by (auto simp: event_statement_def Let_def split: if_splits option.splits)
  have "\<exists>e' \<in> set (db_events d'). event_le e e'" if "e \<in> set (db_events d)" for e
  proof -
    have "table_lookup be_key (be_key e) (db_events d) = Some e" using u that by (simp add: table_lookup_Some)
    with events.bulk_upsert_rel [OF b, of event_le] event_le_refl event_le_trans event_le_merge
    have "\<exists>y. table_lookup be_key (be_key e) (db_events d') = Some y \<and> event_le e y" by blast
    then show ?thesis by (blast dest: table_lookup_SomeD)
  qed
  then show ?thesis using events.bulk_upsert_unique [OF b u] by (simp add: events_grow_def)
qed

lemma exec_chunks_grow:
  "table_unique be_key (db_events d) \<Longrightarrow> exec_chunks now cs n d = Inr (r, d') \<Longrightarrow> events_grow d d'"
proof (induction now cs n d rule: exec_chunks.induct)
  case (1 now n d)
  then show ?case by (auto simp: events_grow_def intro: event_le_refl)
next
  case (2 now c cs n d)
  from "2.prems"(2) obtain m d1 where s: "execBulkChunk now c d = Inr (m, d1)" "exec_chunks now cs (n + m) d1 = Inr (r, d')"
    by (auto split: sum.splits prod.splits)
  from s(1) obtain us where "event_statement now c d = Inr (us, d1)"
    by (auto simp: execBulkChunk_def split: sum.splits prod.splits)
  from event_statement_grow [OF "2.prems"(1) this] have g: "events_grow d d1" .
  then have "table_unique be_key (db_events d1)" by (simp add: events_grow_def)
  from "2.IH" [OF s(1) refl this s(2)] g show ?case by (blast intro: events_grow_trans)
qed

lemma be_BulkUpsertTx_grow:
  assumes "table_unique be_key (db_events d)" "be_BulkUpsertTx now es d = Inr (r, d')"
  shows "events_grow d d'"
proof (cases "length es \<le> smallBatchThreshold")
  case True
  then show ?thesis
    using assms event_statement_grow [OF assms(1), of now es]
    by (auto simp: be_BulkUpsertTx_def bulkUpsertPerEvent_def Let_def events_grow_def
        split: if_splits sum.splits prod.splits intro: event_le_refl)
next
  case False
  moreover from this have "es \<noteq> []" by auto
  ultimately have "exec_chunks now (chunks bulkChunkSize es) 0 d = Inr (r, d')"
    using assms(2) by (simp add: be_BulkUpsertTx_def bulkUpsertMultiValues_def)
  with assms(1) show ?thesis by (rule exec_chunks_grow)
qed

section \<open>Properties\<close>

text \<open>Upserting events, on the small and on the chunked path, keeps the identifiers unique, keeps every
  stored event with its amount and address, and never lowers its finality, its block cursor or
  its \<^verbatim>\<open>balance_applied\<close> flag.\<close>

theorem event_upsert_monotone:
  assumes "table_unique be_key (db_events d)" "be_BulkUpsertTx now es d = Inr (r, d')"
  shows "table_unique be_key (db_events d') \<and> (\<forall>e \<in> set (db_events d). \<exists>e' \<in> set (db_events d'). event_le e e')"
  using be_BulkUpsertTx_grow [OF assms] by (simp add: events_grow_def)

definition sample_event :: "string \<Rightarrow> string \<Rightarrow> bool \<Rightarrow> balance_event" where
  "sample_event eid finality applied =
     \<lparr>be_ID = 0, be_Chain = ''base'', be_Network = ''mainnet'', be_TransactionID = 1, be_TxHash = ''0xaa'',
      be_OuterInstructionIndex = 0, be_InnerInstructionIndex = 0, be_TokenID = 2, be_ActivityType = ActivityDeposit,
      be_EventAction = '''', be_ProgramID = '''', be_Address = ''0xab'', be_CounterpartyAddress = '''', be_Delta = ''7'',
      be_BalanceBefore = None, be_BalanceAfter = None, be_WatchedAddress = None, be_WalletID = None, be_OrganizationID = None,
      be_BlockCursor = 10, be_BlockTime = None, be_ChainData = '''', be_BalanceApplied = applied, be_EventID = eid,
      be_BlockHash = '''', be_TxIndex = 0, be_EventPath = '''', be_EventPathType = '''', be_ActorAddress = '''',
      be_AssetType = '''', be_AssetID = '''', be_FinalityState = finality, be_DecoderVersion = '''', be_SchemaVersion = ''''\<rparr>"

theorem event_upsert_monotone_witness:
  "\<exists>r d'. be_BulkUpsertTx 0 [sample_event ''e1'' ''finalized'' True] (empty_db\<lparr>db_events := [sample_event ''e1'' ''pending'' False]\<rparr>) = Inr (r, d') \<and>
     br_FinalityCrossedCount r = 1 \<and> table_unique be_key (db_events d') \<and>
     (\<forall>e \<in> set [sample_event ''e1'' ''pending'' False]. \<exists>e' \<in> set (db_events d'). event_le e e')"
proof -
  let ?d = "empty_db\<lparr>db_events := [sample_event ''e1'' ''pending'' False]\<rparr>"
  have u: "table_unique be_key (db_events ?d)" by (simp add: table_unique_def)
  have "case be_BulkUpsertTx 0 [sample_event ''e1'' ''finalized'' True] ?d of
      Inl e \<Rightarrow> False | Inr (r, d') \<Rightarrow> br_FinalityCrossedCount r = 1" by code_simp
  then obtain r d' where r: "be_BulkUpsertTx 0 [sample_event ''e1'' ''finalized'' True] ?d = Inr (r, d')" "br_FinalityCrossedCount r = 1"
    by (auto split: sum.splits)
  from event_upsert_monotone [OF u r(1)] r show ?thesis by auto
qed

text \<open>A bulk adjustment whose items name different balances adds to every balance exactly the delta
  of its item, leaves every other balance alone, and changes no other table.\<close>

theorem bulk_adjust_exact:
  assumes "pick_ok pick" "BulkAdjustBalanceTx pick c n items d = Inr d'" "distinct (map ai_key items)"
  shows "GetBalance c' n' k d' = GetBalance c' n' k d + (if c' = c \<and> n' = n then item_sum k items else 0) \<and>
    (\<exists>bals. d' = d\<lparr>db_balances := bals\<rparr>)"
  using BulkAdjust_distinct [OF assms] BulkAdjust_frame [OF assms(2)] by blast

definition sample_item :: "string \<Rightarrow> string \<Rightarrow> adjust_item" where
  "sample_item delta ty = \<lparr>ai_Address = ''0xab'', ai_TokenID = 2, ai_WalletID = None, ai_OrgID = None, ai_Delta = delta,
     ai_Cursor = 10, ai_TxHash = ''0xaa'', ai_BalanceType = ty\<rparr>"

theorem bulk_adjust_exact_witness:
  "\<exists>d'. BulkAdjustBalanceTx hd ''base'' ''mainnet'' [sample_item ''5'' '''', sample_item ''-5'' ''staked''] empty_db = Inr d' \<and>
     GetBalance ''base'' ''mainnet'' (''0xab'', 2, ''staked'') d' =
       GetBalance ''base'' ''mainnet'' (''0xab'', 2, ''staked'') empty_db +
       (if ''base'' = ''base'' \<and> ''mainnet'' = ''mainnet'' then item_sum (''0xab'', 2, ''staked'') [sample_item ''5'' '''', sample_item ''-5'' ''staked''] else 0)"
proof -
  let ?items = "[sample_item ''5'' '''', sample_item ''-5'' ''staked'']"
  have "\<not> isl (BulkAdjustBalanceTx hd ''base'' ''mainnet'' ?items empty_db)" by code_simp
  then obtain d' where d': "BulkAdjustBalanceTx hd ''base'' ''mainnet'' ?items empty_db = Inr d'" by (metis sum.collapse(2))
  have "pick_ok hd" by (simp add: pick_ok_def)
  moreover have "distinct (map ai_key ?items)" by (simp add: sample_item_def ai_key_def)
  ultimately show ?thesis using bulk_adjust_exact [OF _ d', of "''base''" "''mainnet''" "(''0xab'', 2, ''staked'')"] d' by blast
qed

text \<open>A bulk adjustment with several items for one stored balance applies only one of them: the
  balance moves by the delta of a single item, whichever row the database picks. The other deltas
  are lost without an error.\<close>

theorem bulk_adjust_drops_duplicates:
  assumes "pick_ok pick" "BulkAdjustBalanceTx pick c n items d = Inr d'"
    and "db_balances d (c, n, k) \<noteq> None" "items_for k items \<noteq> []"
  shows "\<exists>i \<in> set (items_for k items). GetBalance c n k d' = GetBalance c n k d + delta_val (ai_Delta i)"
proof -
  have p: "pick (items_for k items) \<in> set (items_for k items)" using assms(1,4) by (auto simp: pick_ok_def)
  from assms(3) obtain b where b: "db_balances d (c, n, k) = Some b" by blast
  from assms(4) obtain i xs where "items_for k items = i # xs" by (cases "items_for k items") auto
  then have "db_balances d' (c, n, k) = Some (adjust_balance b (pick (items_for k items)))"
    using b by (simp add: BulkAdjust_balances [OF assms(2)] bulk_adjusted_def)
  with b p show ?thesis by (auto simp: GetBalance_def adjust_balance_def)
qed

theorem bulk_adjust_drops_duplicates_witness:
  "\<exists>d'. BulkAdjustBalanceTx hd ''base'' ''mainnet'' [sample_item ''5'' '''', sample_item ''7'' '''']
       (empty_db\<lparr>db_balances := [(''base'', ''mainnet'', ''0xab'', 2, '''') \<mapsto> new_balance (sample_item ''100'' '''')]\<rparr>) = Inr d' \<and>
     GetBalance ''base'' ''mainnet'' (''0xab'', 2, '''') d' \<in> {105, 107}"
proof -
  let ?items = "[sample_item ''5'' '''', sample_item ''7'' '''']"
  let ?d = "empty_db\<lparr>db_balances := [(''base'', ''mainnet'', ''0xab'', 2, '''') \<mapsto> new_balance (sample_item ''100'' '''')]\<rparr>"
  have "\<not> isl (BulkAdjustBalanceTx hd ''base'' ''mainnet'' ?items ?d)" by code_simp
  then obtain d' where d': "BulkAdjustBalanceTx hd ''base'' ''mainnet'' ?items ?d = Inr d'" by (metis sum.collapse(2))
  have "pick_ok hd" by (simp add: pick_ok_def)
  moreover have "items_for (''0xab'', 2, '''') ?items = ?items" by (simp add: items_for_def ai_key_def sample_item_def)
  moreover have "GetBalance ''base'' ''mainnet'' (''0xab'', 2, '''') ?d = 100" "delta_val ''5'' = 5" "delta_val ''7'' = 7" by code_simp+
  moreover have "ai_Delta (sample_item x y) = x" for x y by (simp add: sample_item_def)
  ultimately have "GetBalance ''base'' ''mainnet'' (''0xab'', 2, '''') d' \<in> {105, 107}"
    using bulk_adjust_drops_duplicates [OF _ d', of "(''0xab'', 2, '''')"] by auto
  with d' show ?thesis by blast
qed

end
