(* ===== verification/Watched_Addresses.thy ===== *)
theory Watched_Addresses
  imports Domain_Model Keyed_Table
begin

text \<open>
  The table of watched addresses and its repository
  (\<^verbatim>\<open>internal/store/postgres/watched_address_repo.go\<close>). The rows are in the order of \<^verbatim>\<open>created_at\<close>;
  each operation is the effect of its SQL statement. The generated \<^verbatim>\<open>id\<close> of an inserted row is the
  argument \<^verbatim>\<open>newid\<close>; rows inserted through \<^verbatim>\<open>Upsert\<close> have no backfill start.
\<close>

definition wa_key :: "watched_address \<Rightarrow> chain \<times> network \<times> string" where
  "wa_key a = (wa_Chain a, wa_Network a, wa_Address a)"

definition wa_merge :: "watched_address \<Rightarrow> watched_address \<Rightarrow> watched_address" where
  "wa_merge old new = old\<lparr>wa_IsActive := wa_IsActive new\<rparr>"

definition GetActive :: "watched_address list \<Rightarrow> chain \<Rightarrow> network \<Rightarrow> watched_address list" where
  "GetActive rows c n = filter (\<lambda>a. wa_Chain a = c \<and> wa_Network a = n \<and> wa_IsActive a) rows"

definition wa_Upsert :: "uuid \<Rightarrow> watched_address \<Rightarrow> watched_address list \<Rightarrow> watched_address list" where
  "wa_Upsert newid addr rows =
     table_upsert wa_key wa_merge (addr\<lparr>wa_ID := newid, wa_BackfillFromBlock := None\<rparr>) rows"

definition FindByAddress :: "watched_address list \<Rightarrow> chain \<Rightarrow> network \<Rightarrow> string \<Rightarrow> watched_address option" where
  "FindByAddress rows c n address = table_lookup wa_key (c, n, address) rows"

definition GetPendingBackfill :: "watched_address list \<Rightarrow> chain \<Rightarrow> network \<Rightarrow> watched_address list" where
  "GetPendingBackfill rows c n =
     sort_key (\<lambda>a. the (wa_BackfillFromBlock a))
       (filter (\<lambda>a. wa_Chain a = c \<and> wa_Network a = n \<and> wa_BackfillFromBlock a \<noteq> None \<and> wa_IsActive a) rows)"

definition ClearBackfill :: "chain \<Rightarrow> network \<Rightarrow> watched_address list \<Rightarrow> watched_address list" where
  "ClearBackfill c n rows =
     map (\<lambda>a. if wa_Chain a = c \<and> wa_Network a = n \<and> wa_BackfillFromBlock a \<noteq> None
              then a\<lparr>wa_BackfillFromBlock := None\<rparr> else a) rows"

definition SetBackfillFromBlock ::
  "chain \<Rightarrow> network \<Rightarrow> string list \<Rightarrow> block_no \<Rightarrow> watched_address list \<Rightarrow> watched_address list" where
  "SetBackfillFromBlock c n addresses fromBlock rows =
     (if addresses = [] then rows
      else map (\<lambda>a. if wa_Chain a = c \<and> wa_Network a = n \<and> wa_Address a \<in> set addresses \<and> wa_IsActive a
                    then a\<lparr>wa_BackfillFromBlock := Some fromBlock\<rparr> else a) rows)"

interpretation watched: keyed_table wa_key wa_merge
  by unfold_locales (simp add: wa_key_def wa_merge_def)

lemma wa_ops_unique:
  assumes "table_unique wa_key rows"
  shows "table_unique wa_key (wa_Upsert newid a rows)" "table_unique wa_key (ClearBackfill c n rows)"
    "table_unique wa_key (SetBackfillFromBlock c n as b rows)"
  using assms
  by (auto simp: wa_Upsert_def watched.upsert_unique ClearBackfill_def SetBackfillFromBlock_def wa_key_def
      intro!: table_unique_map [THEN iffD2])

lemma FindByAddress_active:
  assumes "table_unique wa_key rows" "a \<in> set (GetActive rows c n)"
  shows "FindByAddress rows c n (wa_Address a) = Some a"
  using assms by (auto simp: FindByAddress_def GetActive_def table_lookup_Some wa_key_def)

text \<open>What the pipeline's backfill trigger relies on: marking addresses makes exactly their active rows
  pending, and clearing leaves nothing pending.\<close>

lemma set_GetPendingBackfill:
  "set (GetPendingBackfill rows c n) =
     {a \<in> set rows. wa_Chain a = c \<and> wa_Network a = n \<and> wa_BackfillFromBlock a \<noteq> None \<and> wa_IsActive a}"
  by (simp add: GetPendingBackfill_def)

lemma GetPendingBackfill_Set:
  assumes "addresses \<noteq> []"
  shows "wa_Address ` set (GetPendingBackfill (SetBackfillFromBlock c n addresses b (ClearBackfill c n rows)) c n)
     = wa_Address ` set (GetActive rows c n) \<inter> set addresses"
proof -
  define f where "f a = (if wa_Chain a = c \<and> wa_Network a = n \<and> wa_Address a \<in> set addresses \<and> wa_IsActive a
    then a\<lparr>wa_BackfillFromBlock := Some b\<rparr>
    else if wa_Chain a = c \<and> wa_Network a = n then a\<lparr>wa_BackfillFromBlock := None\<rparr> else a)" for a :: watched_address
  define pending where "pending a \<longleftrightarrow> wa_Chain a = c \<and> wa_Network a = n \<and> wa_BackfillFromBlock a \<noteq> None \<and> wa_IsActive a"
    for a :: watched_address
  have addr: "wa_Address (f a) = wa_Address a" for a by (simp add: f_def)
  have "SetBackfillFromBlock c n addresses b (ClearBackfill c n rows) = map f rows"
    using assms by (auto simp: SetBackfillFromBlock_def ClearBackfill_def f_def)
  then have e: "set (GetPendingBackfill (SetBackfillFromBlock c n addresses b (ClearBackfill c n rows)) c n) =
      {x \<in> f ` set rows. pending x}" unfolding set_GetPendingBackfill pending_def by simp
  have pend: "pending (f a) \<longleftrightarrow> wa_Chain a = c \<and> wa_Network a = n \<and> wa_IsActive a \<and> wa_Address a \<in> set addresses" for a
    unfolding pending_def f_def
    by (cases "wa_Chain a = c"; cases "wa_Network a = n"; cases "wa_Address a \<in> set addresses"; cases "wa_IsActive a") simp_all
  have "{x \<in> f ` set rows. pending x} = f ` {a \<in> set rows. pending (f a)}" by blast
  then have "wa_Address ` {x \<in> f ` set rows. pending x} = wa_Address ` {a \<in> set rows. pending (f a)}"
    by (simp only: image_image addr)
  also have "\<dots> = wa_Address ` set (GetActive rows c n) \<inter> set addresses"
    unfolding pend GetActive_def set_filter by blast
  finally show ?thesis unfolding e .
qed

lemma GetPendingBackfill_Clear: "GetPendingBackfill (ClearBackfill c n rows) c n = []"
proof -
  define f where "f a = (if wa_Chain a = c \<and> wa_Network a = n \<and> wa_BackfillFromBlock a \<noteq> None
    then a\<lparr>wa_BackfillFromBlock := None\<rparr> else a)" for a :: watched_address
  have f: "\<not> (wa_Chain (f a) = c \<and> wa_Network (f a) = n \<and> wa_BackfillFromBlock (f a) \<noteq> None \<and> wa_IsActive (f a))" for a
    by (simp add: f_def)
  have m: "ClearBackfill c n rows = map f rows" by (simp add: ClearBackfill_def f_def)
  have "set (GetPendingBackfill (ClearBackfill c n rows) c n) = {}"
    unfolding set_GetPendingBackfill m set_map using f by blast
  then show ?thesis by simp
qed

end
