(* ===== verification/Address_Index.thy ===== *)
theory Address_Index
  imports Complex_Main Watched_Addresses Retry LRU_Cache
begin

unbundle bit_operations_syntax

text \<open>
  The address index (\<^verbatim>\<open>internal/addressindex\<close>): the Bloom filter of \<^verbatim>\<open>bloom.go\<close> on 64-bit words with
  FNV-128a double hashing, and the three tiers of \<^verbatim>\<open>tiered.go\<close> (Bloom filter, sharded LRU, database).
  The floating-point sizing of a filter is the parameters \<^verbatim>\<open>optM\<close> and \<^verbatim>\<open>optK\<close>; the answers of the
  repository are arguments, so that every call may fail on its own. The sharded cache is used only
  through the facts of its \<^verbatim>\<open>cache\<close> interpretation.
  A filter has no false negatives and never indexes outside its words, and after a reload every
  active address is reported as contained by every later call.
\<close>

section \<open>The Bloom filter\<close>

record bloom =
  bf_bits :: "64 word list"
  bf_m :: "64 word"
  bf_k :: nat

definition NewBloomFilter :: "(int \<Rightarrow> real \<Rightarrow> 64 word) \<Rightarrow> (int \<Rightarrow> 64 word \<Rightarrow> nat) \<Rightarrow> int \<Rightarrow> real \<Rightarrow> bloom" where
  "NewBloomFilter optM optK expectedItems fpr =
     (let n = (if expectedItems \<le> 0 then 1 else expectedItems);
          p = (if fpr \<le> 0 \<or> fpr \<ge> 1 then 1 / 1000 else fpr);
          m = optM n p;
          k = (if optK n m < 1 then 1 else optK n m);
          words = (m + 63) div 64
      in \<lparr>bf_bits = replicate (unat words) 0, bf_m = m, bf_k = k\<rparr>)"

text \<open>FNV-128a of the bytes, split into its big-endian halves.\<close>

definition fnv128a :: "string \<Rightarrow> 128 word" where
  "fnv128a key =
     foldl (\<lambda>h ch. (h XOR of_nat (of_char ch)) * 0x0000000001000000000000000000013B)
       0x6c62272e07bb014262b821756295c58d key"

definition bloom_hash :: "string \<Rightarrow> 64 word \<times> 64 word" where
  "bloom_hash key =
     (let sum = fnv128a key; h1 = ucast (drop_bit 64 sum); h2 = ucast sum
      in (h1, if h2 = 0 then 1 else h2))"

definition bloom_pos :: "bloom \<Rightarrow> string \<Rightarrow> nat \<Rightarrow> 64 word" where
  "bloom_pos bf key i = (let (h1, h2) = bloom_hash key in (h1 + of_nat i * h2) mod bf_m bf)"

abbreviation pos_word :: "64 word \<Rightarrow> nat" where "pos_word pos \<equiv> unat (pos div 64)"
abbreviation pos_bit :: "64 word \<Rightarrow> nat" where "pos_bit pos \<equiv> unat (pos mod 64)"

definition bloom_Add :: "string \<Rightarrow> bloom \<Rightarrow> bloom" where
  "bloom_Add key bf =
     foldl (\<lambda>b i. let pos = bloom_pos b key i in
              b\<lparr>bf_bits := (bf_bits b)[pos_word pos := bf_bits b ! pos_word pos OR push_bit (pos_bit pos) 1]\<rparr>)
       bf [0..<bf_k bf]"

definition MayContain :: "bloom \<Rightarrow> string \<Rightarrow> bool" where
  "MayContain bf key =
     list_all (\<lambda>i. let pos = bloom_pos bf key i in
         bf_bits bf ! pos_word pos AND push_bit (pos_bit pos) 1 \<noteq> 0) [0..<bf_k bf]"

section \<open>The filter has no false negatives\<close>

definition bloom_wf :: "bloom \<Rightarrow> bool" where
  "bloom_wf bf \<longleftrightarrow> 0 < bf_m bf \<and> unat (bf_m bf) + 63 < 2 ^ 64 \<and>
     length (bf_bits bf) = (unat (bf_m bf) + 63) div 64"

definition has_bit :: "64 word list \<Rightarrow> nat \<Rightarrow> nat \<Rightarrow> bool" where
  "has_bit ws i j \<longleftrightarrow> i < length ws \<and> bit (ws ! i) j"

lemma bloom_pos_bits [simp]: "bloom_pos (bf\<lparr>bf_bits := ws\<rparr>) key i = bloom_pos bf key i"
  by (simp add: bloom_pos_def)

lemma pos_word_lt:
  assumes "bloom_wf bf"
  shows "pos_word (bloom_pos bf key i) < length (bf_bits bf)"
proof -
  let ?p = "bloom_pos bf key i"
  have "?p < bf_m bf" using assms by (auto simp: bloom_wf_def bloom_pos_def word_mod_less_divisor split: prod.split)
  then have "unat ?p < unat (bf_m bf)" by (simp add: word_less_nat_alt)
  moreover have "pos_word ?p = unat ?p div 64" by (simp add: unat_div)
  ultimately show ?thesis using assms by (simp add: bloom_wf_def)
qed

lemma pos_bit_lt: "pos_bit p < 64"
  by (simp add: unat_mod)

lemma has_bit_upd:
  assumes "i < length ws"
  shows "has_bit (ws[i := ws ! i OR push_bit j 1]) i' j' \<longleftrightarrow> has_bit ws i' j' \<or> (i' = i \<and> j' = j \<and> j < 64)"
  using assms by (cases "i' = i") (auto simp: has_bit_def bit_or_iff bit_push_bit_iff bit_1_iff bit_exp_iff possible_bit_word)

lemma bloom_step_bits:
  assumes "bloom_wf bf"
  shows "let b = foldl (\<lambda>b i. let pos = bloom_pos b key i in
              b\<lparr>bf_bits := (bf_bits b)[pos_word pos := bf_bits b ! pos_word pos OR push_bit (pos_bit pos) 1]\<rparr>) bf is
    in bloom_wf b \<and> bf_m b = bf_m bf \<and> bf_k b = bf_k bf \<and>
      (\<forall>w j. has_bit (bf_bits b) w j \<longleftrightarrow> has_bit (bf_bits bf) w j \<or>
         (\<exists>i \<in> set is. w = pos_word (bloom_pos bf key i) \<and> j = pos_bit (bloom_pos bf key i)))"
  using assms
proof (induction "is" arbitrary: bf)
  case (Cons i "is")
  let ?p = "bloom_pos bf key i"
  let ?b = "bf\<lparr>bf_bits := (bf_bits bf)[pos_word ?p := bf_bits bf ! pos_word ?p OR push_bit (pos_bit ?p) 1]\<rparr>"
  have "bloom_wf ?b" using Cons.prems by (simp add: bloom_wf_def)
  from Cons.IH [OF this] show ?case
    using has_bit_upd [OF pos_word_lt [OF Cons.prems, of key i]] pos_bit_lt [of ?p]
    by (auto simp: Let_def)
qed (simp add: Let_def)

lemma bloom_Add_bits:
  assumes "bloom_wf bf"
  shows "bloom_wf (bloom_Add key bf)" "bf_m (bloom_Add key bf) = bf_m bf" "bf_k (bloom_Add key bf) = bf_k bf"
    and "has_bit (bf_bits (bloom_Add key bf)) w j \<longleftrightarrow> has_bit (bf_bits bf) w j \<or>
      (\<exists>i < bf_k bf. w = pos_word (bloom_pos bf key i) \<and> j = pos_bit (bloom_pos bf key i))"
  using bloom_step_bits [OF assms, of key "[0..<bf_k bf]"] by (auto simp: Let_def bloom_Add_def)

lemma MayContain_bits:
  "bloom_wf bf \<Longrightarrow> MayContain bf key \<longleftrightarrow>
     (\<forall>i < bf_k bf. has_bit (bf_bits bf) (pos_word (bloom_pos bf key i)) (pos_bit (bloom_pos bf key i)))"
  using pos_word_lt [of bf key]
  by (auto simp: MayContain_def Let_def list_all_iff has_bit_def bit_iff_and_push_bit_not_eq_0)

lemma bloom_pos_cong: "bf_m a = bf_m b \<Longrightarrow> bloom_pos a key i = bloom_pos b key i"
  by (simp add: bloom_pos_def)

lemma MayContain_Add:
  assumes "bloom_wf bf"
  shows "MayContain (bloom_Add key bf) key" "MayContain bf j \<Longrightarrow> MayContain (bloom_Add key bf) j"
proof -
  have p: "bloom_pos (bloom_Add key bf) x i = bloom_pos bf x i" for x i
    using bloom_Add_bits(2) [OF assms] by (rule bloom_pos_cong)
  show "MayContain (bloom_Add key bf) key"
    using bloom_Add_bits [OF assms] by (auto simp: MayContain_bits p)
  show "MayContain bf j \<Longrightarrow> MayContain (bloom_Add key bf) j"
    using bloom_Add_bits [OF assms] assms by (auto simp: MayContain_bits p)
qed

definition bloom_Adds :: "string list \<Rightarrow> bloom \<Rightarrow> bloom" where
  "bloom_Adds keys bf = foldl (\<lambda>b k. bloom_Add k b) bf keys"

lemma bloom_Adds_contains:
  "bloom_wf bf \<Longrightarrow> bloom_wf (bloom_Adds keys bf) \<and>
     (\<forall>k. k \<in> set keys \<or> MayContain bf k \<longrightarrow> MayContain (bloom_Adds keys bf) k)"
  unfolding bloom_Adds_def
proof (induction keys arbitrary: bf)
  case (Cons key keys)
  from Cons.IH [OF bloom_Add_bits(1) [OF Cons.prems, of key]] MayContain_Add(1) [OF Cons.prems, of key] MayContain_Add(2) [OF Cons.prems, of _ key]
  show ?case by auto
qed simp

text \<open>What the code relies on from the sizing formula: at least one bit, and no overflow of \<^verbatim>\<open>m + 63\<close>.\<close>

definition sizing_ok :: "(int \<Rightarrow> real \<Rightarrow> 64 word) \<Rightarrow> bool" where
  "sizing_ok optM \<longleftrightarrow> (\<forall>n p. 0 < n \<and> 0 < p \<and> p < 1 \<longrightarrow> 0 < optM n p \<and> unat (optM n p) + 63 < 2 ^ 64)"

lemma NewBloomFilter_wf:
  assumes "sizing_ok optM"
  shows "bloom_wf (NewBloomFilter optM optK n p)"
proof -
  define n' where "n' = (if n \<le> 0 then 1 else n)"
  define p' where "p' = (if p \<le> 0 \<or> p \<ge> 1 then 1 / 1000 else p)"
  have s: "0 < optM n' p'" "unat (optM n' p') + 63 < 2 ^ 64"
    using assms by (auto simp: sizing_ok_def n'_def p'_def)
  then have "unat (optM n' p' + 63) = unat (optM n' p') + 63" by (simp add: unat_word_ariths)
  then have "unat ((optM n' p' + 63) div 64) = (unat (optM n' p') + 63) div 64" by (simp add: unat_div)
  then show ?thesis using s by (simp add: NewBloomFilter_def bloom_wf_def Let_def n'_def p'_def)
qed

section \<open>The tiered index\<close>

record tiered_config =
  tc_BloomExpectedItems :: int
  tc_BloomFPR :: real
  tc_LRUCapacity :: int
  tc_LRUTTL :: duration

text \<open>A cached \<^verbatim>\<open>None\<close> is the nil pointer: the address is known not to be watched.\<close>

record tiered_index =
  ti_blooms :: "string \<rightharpoonup> bloom"
  ti_lru :: "(string, watched_address option) sharded_lru"
  ti_cfg :: tiered_config

type_synonym find_repo = "chain \<Rightarrow> network \<Rightarrow> string \<Rightarrow> gerr + watched_address option"
type_synonym active_repo = "chain \<Rightarrow> network \<Rightarrow> gerr + watched_address list"

definition bloomKey :: "chain \<Rightarrow> network \<Rightarrow> string" where
  "bloomKey c n = c @ '':'' @ n"

definition lruKey :: "chain \<Rightarrow> network \<Rightarrow> string \<Rightarrow> string" where
  "lruKey c n address = c @ '':'' @ n @ '':'' @ address"

definition NewTieredIndex :: "tiered_config \<Rightarrow> tiered_index" where
  "NewTieredIndex cfg0 =
     (let cfg = \<lparr>tc_BloomExpectedItems = (if tc_BloomExpectedItems cfg0 \<le> 0 then 10000000 else tc_BloomExpectedItems cfg0),
                 tc_BloomFPR = (if tc_BloomFPR cfg0 \<le> 0 then 1 / 1000 else tc_BloomFPR cfg0),
                 tc_LRUCapacity = (if tc_LRUCapacity cfg0 \<le> 0 then 100000 else tc_LRUCapacity cfg0),
                 tc_LRUTTL = (if tc_LRUTTL cfg0 \<le> 0 then 10 * 60 * 1000000000 else tc_LRUTTL cfg0)\<rparr>
      in \<lparr>ti_blooms = Map.empty, ti_lru = NewShardedLRU (tc_LRUCapacity cfg) (tc_LRUTTL cfg) (\<lambda>k. k), ti_cfg = cfg\<rparr>)"

definition getBloom :: "tiered_index \<Rightarrow> chain \<Rightarrow> network \<Rightarrow> bloom option" where
  "getBloom t c n = ti_blooms t (bloomKey c n)"

definition bloom_rejects :: "tiered_index \<Rightarrow> chain \<Rightarrow> network \<Rightarrow> string \<Rightarrow> bool" where
  "bloom_rejects t c n key = (case getBloom t c n of None \<Rightarrow> False | Some bf \<Rightarrow> \<not> MayContain bf key)"

definition index_Contains ::
  "time \<Rightarrow> find_repo \<Rightarrow> chain \<Rightarrow> network \<Rightarrow> string \<Rightarrow> tiered_index \<Rightarrow> bool \<times> tiered_index" where
  "index_Contains now repo c n address t =
     (let key = lruKey c n address in
      if bloom_rejects t c n key then (False, t)
      else case sh_Get now key (ti_lru t) of
        (Some wa, l) \<Rightarrow> (wa \<noteq> None, t\<lparr>ti_lru := l\<rparr>)
      | (None, l) \<Rightarrow> (case repo c n address of
          Inl e \<Rightarrow> (True, t\<lparr>ti_lru := l\<rparr>)
        | Inr wa \<Rightarrow> (wa \<noteq> None, t\<lparr>ti_lru := sh_Put now key wa l\<rparr>)))"

definition index_Lookup ::
  "time \<Rightarrow> find_repo \<Rightarrow> chain \<Rightarrow> network \<Rightarrow> string \<Rightarrow> tiered_index \<Rightarrow> watched_address option \<times> tiered_index" where
  "index_Lookup now repo c n address t =
     (let key = lruKey c n address in
      if bloom_rejects t c n key then (None, t)
      else case sh_Get now key (ti_lru t) of
        (Some wa, l) \<Rightarrow> (wa, t\<lparr>ti_lru := l\<rparr>)
      | (None, l) \<Rightarrow> (case repo c n address of
          Inl e \<Rightarrow> (None, t\<lparr>ti_lru := l\<rparr>)
        | Inr wa \<Rightarrow> (wa, t\<lparr>ti_lru := sh_Put now key wa l\<rparr>)))"

text \<open>The loop of \<^verbatim>\<open>Reload\<close>; every address is stored at its own time.\<close>

fun reload_loop ::
  "chain \<Rightarrow> network \<Rightarrow> (time \<times> watched_address) list \<Rightarrow> bloom \<times> (string, watched_address option) sharded_lru \<Rightarrow>
     bloom \<times> (string, watched_address option) sharded_lru" where
  "reload_loop c n [] (bf, l) = (bf, l)"
| "reload_loop c n ((now, a) # addrs) (bf, l) =
     (let key = lruKey c n (wa_Address a) in reload_loop c n addrs (bloom_Add key bf, sh_Put now key (Some a) l))"

definition bloom_size :: "tiered_index \<Rightarrow> nat \<Rightarrow> int" where
  "bloom_size t len =
     (let s = int len * 10; s1 = (if s < 1000 then 1000 else s) in
      if s1 > tc_BloomExpectedItems (ti_cfg t) then tc_BloomExpectedItems (ti_cfg t) else s1)"

definition index_Reload ::
  "(int \<Rightarrow> real \<Rightarrow> 64 word) \<Rightarrow> (int \<Rightarrow> 64 word \<Rightarrow> nat) \<Rightarrow> (nat \<Rightarrow> time) \<Rightarrow> active_repo \<Rightarrow> chain \<Rightarrow> network \<Rightarrow>
     tiered_index \<Rightarrow> gerr option \<times> tiered_index" where
  "index_Reload optM optK clock repo c n t = (case repo c n of
     Inl e \<Rightarrow> (Some (ErrWrap ''reload address index: '' e), t)
   | Inr addrs \<Rightarrow>
      (let bf = NewBloomFilter optM optK (bloom_size t (length addrs)) (tc_BloomFPR (ti_cfg t));
           (bf', l) = reload_loop c n (zip (map clock [0..<length addrs]) addrs) (bf, ti_lru t)
       in (None, t\<lparr>ti_blooms := (ti_blooms t)(bloomKey c n \<mapsto> bf'), ti_lru := l\<rparr>)))"

section \<open>Calls against an unchanged table\<close>

definition colon_free :: "string \<Rightarrow> bool" where
  "colon_free s \<longleftrightarrow> CHR '':'' \<notin> set s"

datatype index_call =
    CallContains time find_repo chain network string
  | CallLookup time find_repo chain network string
  | CallReload "nat \<Rightarrow> time" active_repo chain network

fun index_step ::
  "(int \<Rightarrow> real \<Rightarrow> 64 word) \<Rightarrow> (int \<Rightarrow> 64 word \<Rightarrow> nat) \<Rightarrow> tiered_index \<Rightarrow> index_call \<Rightarrow> tiered_index" where
  "index_step optM optK t (CallContains now repo c n a) = snd (index_Contains now repo c n a t)"
| "index_step optM optK t (CallLookup now repo c n a) = snd (index_Lookup now repo c n a t)"
| "index_step optM optK t (CallReload clock repo c n) = snd (index_Reload optM optK clock repo c n t)"

text \<open>A repository that reads the given rows, or fails.\<close>

definition find_ok :: "watched_address list \<Rightarrow> find_repo \<Rightarrow> bool" where
  "find_ok rows repo \<longleftrightarrow> (\<forall>c n a. isl (repo c n a) \<or> repo c n a = Inr (FindByAddress rows c n a))"

definition active_ok :: "watched_address list \<Rightarrow> active_repo \<Rightarrow> bool" where
  "active_ok rows repo \<longleftrightarrow> (\<forall>c n. isl (repo c n) \<or> repo c n = Inr (GetActive rows c n))"

fun call_ok :: "watched_address list \<Rightarrow> index_call \<Rightarrow> bool" where
  "call_ok rows (CallContains now repo c n a) \<longleftrightarrow> colon_free c \<and> colon_free n \<and> find_ok rows repo"
| "call_ok rows (CallLookup now repo c n a) \<longleftrightarrow> colon_free c \<and> colon_free n \<and> find_ok rows repo"
| "call_ok rows (CallReload clock repo c n) \<longleftrightarrow> colon_free c \<and> colon_free n \<and> active_ok rows repo"

lemma colon_split:
  "colon_free a \<Longrightarrow> colon_free b \<Longrightarrow> a @ '':'' @ x = b @ '':'' @ y \<longleftrightarrow> a = b \<and> x = y"
proof (induction a arbitrary: b)
  case Nil then show ?case by (cases b) (auto simp: colon_free_def)
next
  case (Cons z a) then show ?case by (cases b) (auto simp: colon_free_def)
qed

lemma lruKey_inj:
  assumes "colon_free c" "colon_free n" "colon_free c'" "colon_free n'"
  shows "lruKey c n a = lruKey c' n' a' \<longleftrightarrow> c = c' \<and> n = n' \<and> a = a'"
  unfolding lruKey_def colon_split [OF assms(1,3)] colon_split [OF assms(2,4)] ..

lemma bloomKey_inj: "colon_free c \<Longrightarrow> colon_free c' \<Longrightarrow> bloomKey c n = bloomKey c' n' \<longleftrightarrow> c = c' \<and> n = n'"
  unfolding bloomKey_def by (rule colon_split)

text \<open>The cache holds nothing for a key, or the given row.\<close>

definition only_row :: "(string, watched_address option) sharded_lru \<Rightarrow> string \<Rightarrow> watched_address \<Rightarrow> bool" where
  "only_row l key a \<longleftrightarrow> (\<forall>v x. sh_lookup l key = Some (v, x) \<longrightarrow> v = Some a)"

lemma only_row_Get: "sh_wf l \<Longrightarrow> only_row l key a \<Longrightarrow> only_row (snd (sh_Get now k l)) key a"
  using sharded.get_frame [of l now k key] by (auto simp: only_row_def)

lemma only_row_Put:
  "sh_wf l \<Longrightarrow> (k = key \<Longrightarrow> v = Some a) \<Longrightarrow> (k \<noteq> key \<Longrightarrow> only_row l key a) \<Longrightarrow> only_row (sh_Put now k v l) key a"
  using sharded.put_frame [of l key k now v] sharded.put_same [of l now k v]
  by (cases "k = key") (auto simp: only_row_def)

definition index_inv :: "watched_address list \<Rightarrow> chain \<Rightarrow> network \<Rightarrow> tiered_index \<Rightarrow> bool" where
  "index_inv rows c n t \<longleftrightarrow> sh_wf (ti_lru t) \<and>
     (\<forall>a \<in> set (GetActive rows c n). \<not> bloom_rejects t c n (lruKey c n (wa_Address a)) \<and>
        only_row (ti_lru t) (lruKey c n (wa_Address a)) a)"

lemma reload_loop_props:
  assumes "sh_wf l" "reload_loop c n addrs (bf, l) = (bf', l')"
  shows "bf' = bloom_Adds (map (\<lambda>p. lruKey c n (wa_Address (snd p))) addrs) bf" "sh_wf l'"
    "(\<And>p. p \<in> set addrs \<Longrightarrow> lruKey c n (wa_Address (snd p)) = key \<Longrightarrow> snd p = a) \<Longrightarrow>
       only_row l key a \<or> key \<in> (\<lambda>p. lruKey c n (wa_Address (snd p))) ` set addrs \<Longrightarrow> only_row l' key a"
proof -
  have "bf' = bloom_Adds (map (\<lambda>p. lruKey c n (wa_Address (snd p))) addrs) bf \<and> sh_wf l' \<and>
    ((\<forall>p \<in> set addrs. lruKey c n (wa_Address (snd p)) = key \<longrightarrow> snd p = a) \<longrightarrow>
       only_row l key a \<or> key \<in> (\<lambda>p. lruKey c n (wa_Address (snd p))) ` set addrs \<longrightarrow> only_row l' key a)"
    using assms
  proof (induction c n addrs "(bf, l)" arbitrary: bf l rule: reload_loop.induct)
    case (2 c n now b addrs bf l)
    let ?k = "lruKey c n (wa_Address b)"
    have p: "only_row (sh_Put now ?k (Some b) l) key a"
      if "?k = key \<longrightarrow> b = a" "?k = key \<or> only_row l key a"
      using that "2.prems"(1) by (intro only_row_Put) auto
    from "2.hyps" [OF refl sharded.put_inv [OF "2.prems"(1)]] "2.prems"(2) p show ?case
      by (auto simp: bloom_Adds_def Let_def)
  qed (simp add: bloom_Adds_def)
  then show "bf' = bloom_Adds (map (\<lambda>p. lruKey c n (wa_Address (snd p))) addrs) bf" "sh_wf l'"
    "(\<And>p. p \<in> set addrs \<Longrightarrow> lruKey c n (wa_Address (snd p)) = key \<Longrightarrow> snd p = a) \<Longrightarrow>
       only_row l key a \<or> key \<in> (\<lambda>p. lruKey c n (wa_Address (snd p))) ` set addrs \<Longrightarrow> only_row l' key a"
    by blast+
qed

lemma GetActive_row:
  assumes "table_unique wa_key rows" "a \<in> set (GetActive rows c n)" "b \<in> set (GetActive rows c n)" "wa_Address a = wa_Address b"
  shows "a = b"
  using FindByAddress_active [OF assms(1,2)] FindByAddress_active [OF assms(1,3)] assms(4) by (metis option.inject)

lemma index_inv_cache:
  assumes inv: "index_inv rows c n t" and u: "table_unique wa_key rows"
    and ok: "colon_free c" "colon_free n" "colon_free c'" "colon_free n'" "find_ok rows repo"
  shows "index_inv rows c n (snd (index_Contains now repo c' n' a' t))"
    "index_inv rows c n (snd (index_Lookup now repo c' n' a' t))"
proof -
  let ?k = "lruKey c' n' a'"
  let ?l = "snd (sh_Get now ?k (ti_lru t))"
  have wf: "sh_wf (ti_lru t)" using inv by (simp add: index_inv_def)
  have get: "index_inv rows c n (t\<lparr>ti_lru := ?l\<rparr>)"
    using inv wf by (auto simp: index_inv_def bloom_rejects_def getBloom_def intro: only_row_Get sharded.get_inv)
  have "only_row (sh_Put now ?k wa ?l) (lruKey c n (wa_Address a)) a"
    if "repo c' n' a' = Inr wa" "a \<in> set (GetActive rows c n)" for wa a
  proof (rule only_row_Put)
    show "sh_wf ?l" using wf by (rule sharded.get_inv)
    have "wa = FindByAddress rows c' n' a'" using ok(5) that(1) unfolding find_ok_def by (metis sum.disc(1) isl_def sum.inject(2) sum.disc(2))
    then show "wa = Some a" if "?k = lruKey c n (wa_Address a)"
      using that lruKey_inj [OF ok(3,4,1,2)] FindByAddress_active [OF u \<open>a \<in> set (GetActive rows c n)\<close>] by simp
    show "only_row ?l (lruKey c n (wa_Address a)) a" using get that(2) by (simp add: index_inv_def)
  qed
  then have put: "index_inv rows c n (t\<lparr>ti_lru := sh_Put now ?k wa ?l\<rparr>)" if "repo c' n' a' = Inr wa" for wa
    using inv that sharded.put_inv [OF sharded.get_inv [OF wf]] by (auto simp: index_inv_def bloom_rejects_def getBloom_def)
  show "index_inv rows c n (snd (index_Contains now repo c' n' a' t))"
    using inv get put by (auto simp: index_Contains_def Let_def split: prod.splits option.splits sum.splits)
  show "index_inv rows c n (snd (index_Lookup now repo c' n' a' t))"
    using inv get put by (auto simp: index_Lookup_def Let_def split: prod.splits option.splits sum.splits)
qed

lemma index_inv_Reload:
  assumes size: "sizing_ok optM" and u: "table_unique wa_key rows" and wf: "sh_wf (ti_lru t)"
    and ok: "colon_free c" "colon_free n" "colon_free c'" "colon_free n'"
    and repo: "repo c' n' = Inr (GetActive rows c' n')"
    and start: "(c', n') = (c, n) \<or> index_inv rows c n t"
  shows "index_inv rows c n (snd (index_Reload optM optK clock repo c' n' t))"
proof -
  let ?as = "GetActive rows c' n'"
  let ?ps = "zip (map clock [0..<length ?as]) ?as"
  define bf where "bf = NewBloomFilter optM optK (bloom_size t (length ?as)) (tc_BloomFPR (ti_cfg t))"
  obtain bf' l where r: "reload_loop c' n' ?ps (bf, ti_lru t) = (bf', l)" by fastforce
  have keys: "(\<lambda>p. lruKey c' n' (wa_Address (snd p))) ` set ?ps = (\<lambda>a. lruKey c' n' (wa_Address a)) ` set ?as"
  proof -
    have "snd ` set ?ps = set ?as" by (simp flip: set_map)
    then show ?thesis by (metis image_image)
  qed
  have mem: "snd p \<in> set ?as" if "p \<in> set ?ps" for p using that by (metis in_set_zipE prod.collapse)
  note props = reload_loop_props [OF wf r]
  have row: "only_row l (lruKey c n (wa_Address a)) a" if a: "a \<in> set (GetActive rows c n)" for a
  proof (rule props(3))
    fix p assume p: "p \<in> set ?ps" "lruKey c' n' (wa_Address (snd p)) = lruKey c n (wa_Address a)"
    then have e: "c' = c" "n' = n" "wa_Address (snd p) = wa_Address a" using lruKey_inj [OF ok(3,4,1,2)] by auto
    then have "snd p \<in> set (GetActive rows c n)" using mem [OF p(1)] by simp
    from GetActive_row [OF u this a e(3)] show "snd p = a" .
  next
    show "only_row (ti_lru t) (lruKey c n (wa_Address a)) a \<or>
        lruKey c n (wa_Address a) \<in> (\<lambda>p. lruKey c' n' (wa_Address (snd p))) ` set ?ps"
      unfolding keys using start a by (auto simp: index_inv_def)
  qed
  have bloom: "MayContain bf' (lruKey c' n' (wa_Address a))" if "a \<in> set ?as" for a
  proof -
    have "lruKey c' n' (wa_Address a) \<in> (\<lambda>p. lruKey c' n' (wa_Address (snd p))) ` set ?ps"
      unfolding keys using that by blast
    then show ?thesis
      using bloom_Adds_contains [OF NewBloomFilter_wf [OF size]] unfolding props(1) bf_def by simp
  qed
  have eq: "snd (index_Reload optM optK clock repo c' n' t) =
      t\<lparr>ti_blooms := (ti_blooms t)(bloomKey c' n' \<mapsto> bf'), ti_lru := l\<rparr>"
    using r by (simp add: index_Reload_def repo Let_def bf_def)
  show ?thesis
    using row bloom props(2) start bloomKey_inj [OF ok(1,3), of n n']
    unfolding eq by (auto simp: index_inv_def bloom_rejects_def getBloom_def)
qed

lemma index_Reload_fails: "isl (repo c n) \<Longrightarrow> snd (index_Reload optM optK clock repo c n t) = t"
  by (cases "repo c n") (simp_all add: index_Reload_def)

lemma index_inv_step:
  assumes "sizing_ok optM" "table_unique wa_key rows" "colon_free c" "colon_free n"
    and inv: "index_inv rows c n t" and ok: "call_ok rows call"
  shows "index_inv rows c n (index_step optM optK t call)"
proof (cases call)
  case (CallReload clock repo c' n')
  have "sh_wf (ti_lru t)" using inv by (simp add: index_inv_def)
  moreover have "isl (repo c' n') \<or> repo c' n' = Inr (GetActive rows c' n')"
    using ok CallReload by (auto simp: active_ok_def)
  ultimately show ?thesis
    using assms ok CallReload index_inv_Reload [of optM rows t c n c' n' repo optK clock]
      index_Reload_fails [of repo c' n' optM optK clock t] by auto
qed (use assms index_inv_cache in auto)

lemma index_inv_run:
  assumes "sizing_ok optM" "table_unique wa_key rows" "colon_free c" "colon_free n"
  shows "index_inv rows c n t \<Longrightarrow> list_all (call_ok rows) calls \<Longrightarrow>
    index_inv rows c n (foldl (index_step optM optK) t calls)"
  using index_inv_step [OF assms] by (induction calls arbitrary: t) auto

lemma index_answers:
  assumes inv: "index_inv rows c n t" and u: "table_unique wa_key rows"
    and a: "a \<in> set (GetActive rows c n)" and repo: "find_ok rows repo"
  shows "fst (index_Contains now repo c n (wa_Address a) t)"
    "\<not> isl (repo c n (wa_Address a)) \<Longrightarrow> fst (index_Lookup now repo c n (wa_Address a) t) = Some a"
proof -
  let ?k = "lruKey c n (wa_Address a)"
  have nb: "\<not> bloom_rejects t c n ?k" and wf: "sh_wf (ti_lru t)" and row: "only_row (ti_lru t) ?k a"
    using inv a by (auto simp: index_inv_def)
  have hit: "v = Some a" if "fst (sh_Get now ?k (ti_lru t)) = Some v" for v
    using that row sharded.get_result [OF wf, of now ?k] by (auto simp: only_row_def split: option.splits if_splits)
  have miss: "repo c n (wa_Address a) = Inr (Some a) \<or> isl (repo c n (wa_Address a))"
    using repo FindByAddress_active [OF u a] unfolding find_ok_def by metis
  show "fst (index_Contains now repo c n (wa_Address a) t)"
    using nb hit miss by (auto simp: index_Contains_def Let_def split: prod.splits option.splits sum.splits)
  show "\<not> isl (repo c n (wa_Address a)) \<Longrightarrow> fst (index_Lookup now repo c n (wa_Address a) t) = Some a"
    using nb hit miss by (auto simp: index_Lookup_def Let_def split: prod.splits option.splits sum.splits)
qed

section \<open>Properties\<close>

text \<open>A Bloom filter has no false negatives and stays inside its array. Whatever keys are added, in
  whatever order, each of them is reported by \<^verbatim>\<open>MayContain\<close>, and every bit position of every key lies in
  a word the filter has.\<close>

theorem bloom_no_false_negatives:
  assumes "sizing_ok optM" and "key \<in> set keys"
  shows "MayContain (bloom_Adds keys (NewBloomFilter optM optK n p)) key \<and>
    pos_word (bloom_pos (bloom_Adds keys (NewBloomFilter optM optK n p)) k i) <
      length (bf_bits (bloom_Adds keys (NewBloomFilter optM optK n p)))"
  using bloom_Adds_contains [OF NewBloomFilter_wf [OF assms(1)]] pos_word_lt assms(2) by blast

theorem bloom_no_false_negatives_witness:
  "MayContain (bloom_Adds [''a'', ''b''] (NewBloomFilter (\<lambda>n p. 128) (\<lambda>n m. 3) 2 (1 / 100))) ''b'' \<and>
    pos_word (bloom_pos (bloom_Adds [''a'', ''b''] (NewBloomFilter (\<lambda>n p. 128) (\<lambda>n m. 3) 2 (1 / 100))) ''c'' 1) <
      length (bf_bits (bloom_Adds [''a'', ''b''] (NewBloomFilter (\<lambda>n p. 128) (\<lambda>n m. 3) 2 (1 / 100))))"
  by (rule bloom_no_false_negatives) (simp_all add: sizing_ok_def)

text \<open>C21: no watched address is missed. After a reload of a chain from the table of watched addresses,
  starting from any cache contents, and after any further calls of \<^verbatim>\<open>Contains\<close>, \<^verbatim>\<open>Lookup\<close> and \<^verbatim>\<open>Reload\<close> on any
  chain while the table does not change (some of whose queries may fail), \<^verbatim>\<open>Contains\<close> answers true for
  every active address, and \<^verbatim>\<open>Lookup\<close> returns its row unless its own query fails.\<close>

theorem tiered_index_complete:
  assumes "sizing_ok optM" "table_unique wa_key rows" "colon_free c" "colon_free n" "sh_wf (ti_lru t)"
    and "repo c n = Inr (GetActive rows c n)" "list_all (call_ok rows) calls"
    and "a \<in> set (GetActive rows c n)" "find_ok rows finder"
  shows "let t' = foldl (index_step optM optK) (snd (index_Reload optM optK clock repo c n t)) calls in
    fst (index_Contains now finder c n (wa_Address a) t') \<and>
    (isl (finder c n (wa_Address a)) \<or> fst (index_Lookup now finder c n (wa_Address a) t') = Some a)"
proof -
  have "index_inv rows c n (snd (index_Reload optM optK clock repo c n t))"
    using assms by (intro index_inv_Reload) auto
  then have "index_inv rows c n (foldl (index_step optM optK) (snd (index_Reload optM optK clock repo c n t)) calls)"
    using assms index_inv_run by blast
  from index_answers [OF this assms(2,8,9)] show ?thesis by (auto simp: Let_def)
qed

definition witness_address :: watched_address where
  "witness_address = \<lparr>wa_ID = 1, wa_Chain = ''base'', wa_Network = ''mainnet'', wa_Address = ''0xab'', wa_WalletID = None,
     wa_OrganizationID = None, wa_Label = None, wa_IsActive = True, wa_Source = ''env'', wa_BackfillFromBlock = None\<rparr>"

theorem tiered_index_complete_witness:
  "let t' = foldl (index_step (\<lambda>n p. 128) (\<lambda>n m. 3))
       (snd (index_Reload (\<lambda>n p. 128) (\<lambda>n m. 3) int (\<lambda>c n. Inr (GetActive [witness_address] c n)) ''base'' ''mainnet''
         (NewTieredIndex \<lparr>tc_BloomExpectedItems = 0, tc_BloomFPR = 0, tc_LRUCapacity = 0, tc_LRUTTL = 0\<rparr>)))
       [CallContains 9 (\<lambda>c n a. Inl CtxCanceled) ''btc'' ''mainnet'' ''x''] in
    fst (index_Contains 10 (\<lambda>c n a. Inr (FindByAddress [witness_address] c n a)) ''base'' ''mainnet'' (wa_Address witness_address) t') \<and>
    (isl ((\<lambda>c n a. Inr (FindByAddress [witness_address] c n a) :: gerr + watched_address option) ''base'' ''mainnet'' (wa_Address witness_address)) \<or>
     fst (index_Lookup 10 (\<lambda>c n a. Inr (FindByAddress [witness_address] c n a)) ''base'' ''mainnet'' (wa_Address witness_address) t') = Some witness_address)"
proof (rule tiered_index_complete [where rows = "[witness_address]"])
  show "sh_wf (ti_lru (NewTieredIndex \<lparr>tc_BloomExpectedItems = 0, tc_BloomFPR = 0, tc_LRUCapacity = 0, tc_LRUTTL = 0\<rparr>))"
    by (simp add: NewTieredIndex_def Let_def NewShardedLRU_def sh_New(1) [unfolded sh_bounded_def, THEN conjunct1])
qed (simp_all add: sizing_ok_def table_unique_def colon_free_def find_ok_def GetActive_def witness_address_def)

end
