(* ===== verification/Ingester.thy ===== *)
theory Ingester
  imports Ingester_Rules Ledger Address_Index
begin

text \<open>
  The ingester's transactions (\<^verbatim>\<open>internal/pipeline/ingester/ingester.go\<close>): \<^verbatim>\<open>processBatch\<close> with its four
  phases, the canonicality-drift rollback, the inline reorg rollback, the finality promotion and the
  retry loop. (\<^verbatim>\<open>handleReorg\<close> itself, which may delegate to the replay service, is in \<^verbatim>\<open>Replay_Service\<close>;
  \<^verbatim>\<open>ic_replayService\<close> says whether there is one and whether it tracks indexed blocks.) The state is the committed database, the denied-token cache, the block-scan address cache
  and the address index. Everything outside is a field of the environment \<^verbatim>\<open>ing_env\<close>: whether
  \<^verbatim>\<open>Acquire\<close>, \<^verbatim>\<open>BeginTx\<close>, each statement or the watermark probe fails, how \<^verbatim>\<open>Commit\<close> ends (including a
  lost acknowledgement), the row an \<^verbatim>\<open>UPDATE ... FROM\<close> picks and the clock, which stands still during a
  batch. A failed transaction leaves the committed database as it was. Loops over Go maps run in
  order of first insertion.
\<close>

section \<open>State and environment\<close>

record addr_meta =
  am_walletID :: "string option"
  am_orgID :: "string option"

record ingester_config =
  ic_retryMaxAttempts :: int
  ic_retryDelayStart :: duration
  ic_retryDelayMax :: duration
  ic_hasInterleaver :: bool
  ic_hasBlockRepo :: bool
  ic_hasWatchedRepo :: bool
  ic_replayService :: "bool option"
  ic_addrCacheTTL :: duration

record ingester =
  ig_cfg :: ingester_config
  ig_deniedCache :: "(string, bool) sharded_lru"
  ig_addressIndex :: "tiered_index option"
  ig_addrCache :: "string \<rightharpoonup> (string \<rightharpoonup> addr_meta) \<times> time"

datatype statement =
    StTransactions | StTokens | StDenied | StBalances nat | StDeny nat | StEvents | StAdjust | StBlocks | StWatermark
  | StRollbackFetch | StRevert | StDeleteEvents | StDeleteTransactions | StDeleteBlocks | StRewind
  | StBlockFinality | StEventFinality | StPromote | StFinalityCheck | StDryRun | StRollbackPage nat | StRevertStaked

text \<open>\<^verbatim>\<open>CommitFailed e applied\<close>: the client sees \<^verbatim>\<open>e\<close>; the server has committed if \<^verbatim>\<open>applied\<close>.\<close>

datatype commit_outcome = Committed | CommitFailed gerr bool

record ing_env =
  env_now :: time
  env_acquire :: "gerr option"
  env_begin :: "gerr option"
  env_fault :: "statement \<Rightarrow> gerr option"
  env_commit :: commit_outcome
  env_probe :: "gerr option"
  env_active :: active_repo
  env_find :: find_repo
  env_pick :: "adjust_item list \<Rightarrow> adjust_item"
  env_unmarshal :: "string \<Rightarrow> (string \<rightharpoonup> string) option"
  env_FromError :: "gerr \<Rightarrow> nat option"
  env_codeString :: "nat \<Rightarrow> string"
  env_ctxErr :: "gerr option"
  env_sleep :: "gerr option"

definition exec :: "ing_env \<Rightarrow> statement \<Rightarrow> string \<Rightarrow> gerr + 'a \<Rightarrow> gerr + 'a" where
  "exec env st msg r = (case env_fault env st of
     Some e \<Rightarrow> Inl (ErrWrap msg e)
   | None \<Rightarrow> (case r of Inl e \<Rightarrow> Inl (ErrWrap msg e) | Inr x \<Rightarrow> Inr x))"

definition bindE :: "gerr + 'a \<Rightarrow> ('a \<Rightarrow> gerr + 'b) \<Rightarrow> gerr + 'b" where
  "bindE m f = (case m of Inl e \<Rightarrow> Inl e | Inr x \<Rightarrow> f x)"

lemma bindE_simps [simp]: "bindE (Inl e) f = Inl e" "bindE (Inr x) f = f x"
  by (simp_all add: bindE_def)

lemma bindE_Inr: "bindE m f = Inr y \<longleftrightarrow> (\<exists>x. m = Inr x \<and> f x = Inr y)"
  by (cases m) auto

lemma exec_Inr: "exec env st msg r = Inr x \<longleftrightarrow> env_fault env st = None \<and> r = Inr x"
  by (cases r) (auto simp: exec_def split: option.splits)

text \<open>\<^verbatim>\<open>dbTx.Commit()\<close> on the transaction \<^verbatim>\<open>d'\<close> over the committed database \<^verbatim>\<open>d\<close>: what the client sees and what holds.\<close>

definition commit :: "ing_env \<Rightarrow> db \<Rightarrow> db \<Rightarrow> gerr option \<times> db" where
  "commit env d d' = (case env_commit env of
     Committed \<Rightarrow> (None, d') | CommitFailed e applied \<Rightarrow> (Some e, if applied then d' else d))"

section \<open>Phase 1: collectEvents\<close>

record event_ctx =
  ec_ntx :: normalized_transaction
  ec_be :: normalized_balance_event
  ec_hash :: string

record collected =
  co_txs :: "transaction_row list"
  co_tokens :: "token_row list"
  co_contracts :: "string list"
  co_events :: "event_ctx list"

definition canonical_tx_hash :: "normalized_batch \<Rightarrow> normalized_transaction \<Rightarrow> string" where
  "canonical_tx_hash batch ntx =
     (let h = CanonicalSignatureIdentity (nb_Chain batch) (nt_TxHash ntx) in if h = '''' then nt_TxHash ntx else h)"

definition tx_model :: "normalized_batch \<Rightarrow> normalized_transaction \<Rightarrow> transaction_row" where
  "tx_model batch ntx = \<lparr>tr_ID = 0, tr_Chain = nb_Chain batch, tr_Network = nb_Network batch, tr_TxHash = canonical_tx_hash batch ntx,
     tr_BlockCursor = nt_BlockCursor ntx, tr_BlockTime = nt_BlockTime ntx, tr_FeeAmount = nt_FeeAmount ntx, tr_FeePayer = nt_FeePayer ntx,
     tr_Status = nt_Status ntx, tr_Err = nt_Err ntx,
     tr_ChainData = (case nt_ChainData ntx of Some cd \<Rightarrow> cd | None \<Rightarrow> emptyJSONObject),
     tr_BlockHash = nt_BlockHash ntx, tr_ParentHash = nt_ParentHash ntx\<rparr>"

definition token_model :: "normalized_batch \<Rightarrow> string \<Rightarrow> string \<Rightarrow> string \<Rightarrow> int \<Rightarrow> token_type \<Rightarrow> token_row" where
  "token_model batch contract symbol name decimals ty = \<lparr>tk_ID = 0, tk_Chain = nb_Chain batch, tk_Network = nb_Network batch,
     tk_ContractAddress = contract, tk_Symbol = symbol, tk_Name = name, tk_Decimals = decimals, tk_TokenType = ty, tk_IsDenied = False,
     tk_DeniedReason = '''', tk_ScamScore = 0, tk_ScamSignals = [], tk_DeniedSource = '''', tk_ChainData = emptyJSONObject\<rparr>"

definition add_token :: "token_row \<Rightarrow> collected \<Rightarrow> collected" where
  "add_token t co =
     (if tk_ContractAddress t \<in> tk_ContractAddress ` set (co_tokens co) then co else co\<lparr>co_tokens := co_tokens co @ [t]\<rparr>)"

definition add_event :: "event_ctx \<Rightarrow> collected \<Rightarrow> collected" where
  "add_event ec co =
     (let contract = ne_ContractAddress (ec_be ec) in
      co\<lparr>co_contracts := (if contract \<in> set (co_contracts co) then co_contracts co else co_contracts co @ [contract]),
         co_events := co_events co @ [ec]\<rparr>)"

definition collect_tx :: "normalized_batch \<Rightarrow> collected \<Rightarrow> normalized_transaction \<Rightarrow> collected" where
  "collect_tx batch co ntx =
     (let h = canonical_tx_hash batch ntx;
          co1 = (if h \<in> tr_TxHash ` set (co_txs co) then co else co\<lparr>co_txs := co_txs co @ [tx_model batch ntx]\<rparr>);
          co2 = foldl (\<lambda>acc be. add_event \<lparr>ec_ntx = ntx, ec_be = be, ec_hash = h\<rparr>
                  (add_token (token_model batch (ne_ContractAddress be) (defaultTokenSymbol be) (defaultTokenName be)
                     (ne_TokenDecimals be) (ne_TokenType be)) acc)) co1 (nt_BalanceEvents ntx)
      in if fee_event_due ntx \<and> fee_amount_valid ntx
         then add_event \<lparr>ec_ntx = ntx, ec_be = buildFeeOnlyEvent ntx batch, ec_hash = h\<rparr>
                (add_token (token_model batch (nativeTokenContract (nb_Chain batch)) (nativeTokenSymbol (nb_Chain batch))
                   (nativeTokenName (nb_Chain batch)) (nativeTokenDecimals (nb_Chain batch)) TokenTypeNative) co2)
         else co2)"

definition collectEvents :: "normalized_batch \<Rightarrow> collected" where
  "collectEvents batch =
     foldl (collect_tx batch) \<lparr>co_txs = [], co_tokens = [], co_contracts = [], co_events = []\<rparr> (nb_Transactions batch)"

section \<open>Phase 2: prefetchBulkData\<close>

record prefetched =
  pf_txIDs :: "string \<rightharpoonup> uuid"
  pf_tokenIDs :: "string \<rightharpoonup> uuid"
  pf_denied :: "string \<rightharpoonup> bool"
  pf_balances :: "balance_key \<rightharpoonup> balance_info"

definition deniedKeyPrefix :: "normalized_batch \<Rightarrow> string" where
  "deniedKeyPrefix batch = nb_Chain batch @ '':'' @ nb_Network batch @ '':''"

fun denied_lookup ::
  "time \<Rightarrow> string \<Rightarrow> string list \<Rightarrow> (string, bool) sharded_lru \<Rightarrow> (string \<rightharpoonup> bool) \<times> string list \<times> (string, bool) sharded_lru" where
  "denied_lookup now pfx [] l = (Map.empty, [], l)"
| "denied_lookup now pfx (contract # cs) l =
     (let (r, cache1) = sh_Get now (pfx @ contract) l;
          (m, un, cache2) = denied_lookup now pfx cs cache1
      in case r of Some b \<Rightarrow> (m(contract \<mapsto> b), un, cache2) | None \<Rightarrow> (m, contract # un, cache2))"

definition denied_store ::
  "time \<Rightarrow> string \<Rightarrow> (string \<rightharpoonup> bool) \<Rightarrow> string list \<Rightarrow> (string \<rightharpoonup> bool) \<times> (string, bool) sharded_lru \<Rightarrow>
     (string \<rightharpoonup> bool) \<times> (string, bool) sharded_lru" where
  "denied_store now pfx dbDenied cs mc =
     foldl (\<lambda>(m, l) contract. let denied = (dbDenied contract = Some True)
        in (m(contract \<mapsto> denied), sh_Put now (pfx @ contract) denied l)) mc cs"

definition wanted_keys :: "(string \<rightharpoonup> uuid) \<Rightarrow> event_ctx list \<Rightarrow> balance_key list" where
  "wanted_keys tokenIDs ecs =
     foldl (\<lambda>ks ec. case tokenIDs (ne_ContractAddress (ec_be ec)) of
         None \<Rightarrow> ks
       | Some t \<Rightarrow> (let k = (ne_Address (ec_be ec), t, '''') in if k \<in> set ks then ks else ks @ [k])) [] ecs"

definition maxBalanceKeysPerQuery :: nat where "maxBalanceKeysPerQuery = 5000"

fun get_balance_chunks ::
  "ing_env \<Rightarrow> string \<Rightarrow> chain \<Rightarrow> network \<Rightarrow> nat \<Rightarrow> balance_key list list \<Rightarrow> db \<Rightarrow> (balance_key \<rightharpoonup> balance_info) \<Rightarrow> gerr + (balance_key \<rightharpoonup> balance_info)" where
  "get_balance_chunks env msg c n i [] d m = Inr m"
| "get_balance_chunks env msg c n i (ks # kss) d m =
     bindE (exec env (StBalances i) msg (Inr (BulkGetAmountWithExistsTx c n ks d)))
       (\<lambda>chunk. get_balance_chunks env msg c n (i + 1) kss d (m ++ chunk))"

definition prefetchBulkData ::
  "ing_env \<Rightarrow> normalized_batch \<Rightarrow> collected \<Rightarrow> ingester \<Rightarrow> db \<Rightarrow> ingester \<times> (gerr + prefetched \<times> db)" where
  "prefetchBulkData env batch co ig d =
     (case exec env StTransactions ''bulk upsert transactions: '' (tx_BulkUpsertTx (co_txs co) d) of
        Inl e \<Rightarrow> (ig, Inl e)
      | Inr (txIDs, d1) \<Rightarrow>
      case exec env StTokens ''bulk upsert tokens: '' (tk_BulkUpsertTx (co_tokens co) d1) of
        Inl e \<Rightarrow> (ig, Inl e)
      | Inr (tokenIDs, d2) \<Rightarrow>
      (let pfx = deniedKeyPrefix batch;
           (cached, uncached, cache1) = denied_lookup (env_now env) pfx (co_contracts co) (ig_deniedCache ig);
           ig1 = ig\<lparr>ig_deniedCache := cache1\<rparr>
       in case (if uncached = [] then Inr Map.empty
                else exec env StDenied ''bulk check denied tokens: ''
                  (Inr (BulkIsDeniedTx (nb_Chain batch) (nb_Network batch) uncached d2))) of
            Inl e \<Rightarrow> (ig1, Inl e)
          | Inr dbDenied \<Rightarrow>
          (let (denied, cache2) = denied_store (env_now env) pfx dbDenied uncached (cached, cache1);
               ig2 = ig1\<lparr>ig_deniedCache := cache2\<rparr>;
               keys = wanted_keys tokenIDs (co_events co);
               msg = (if length keys \<le> maxBalanceKeysPerQuery then ''bulk get balances: '' else ''bulk get balances chunk: '')
           in (ig2, bindE (get_balance_chunks env msg (nb_Chain batch) (nb_Network batch) 0 (chunks maxBalanceKeysPerQuery keys) d2 Map.empty)
                 (\<lambda>bals. Inr (\<lparr>pf_txIDs = txIDs, pf_tokenIDs = tokenIDs, pf_denied = denied, pf_balances = bals\<rparr>, d2))))))"

section \<open>Phase 3: buildEventModels\<close>

definition derefStr :: "string option \<Rightarrow> string" where
  "derefStr p = (case p of None \<Rightarrow> '''' | Some s \<Rightarrow> s)"

definition strPtrOrNil :: "string \<Rightarrow> string option" where
  "strPtrOrNil s = (if s = '''' then None else Some s)"

definition getBlockScanAddrMap :: "ing_env \<Rightarrow> chain \<Rightarrow> network \<Rightarrow> ingester \<Rightarrow> (gerr + (string \<rightharpoonup> addr_meta)) \<times> ingester" where
  "getBlockScanAddrMap env c n ig =
     (let cacheKey = c @ '':'' @ n;
          fetch = (case env_active env c n of
             Inl e \<Rightarrow> (Inl e, ig)
           | Inr addrs \<Rightarrow>
              (let m = foldl (\<lambda>m wa. m(CanonicalAddressIdentity c (wa_Address wa) \<mapsto>
                     \<lparr>am_walletID = wa_WalletID wa, am_orgID = wa_OrganizationID wa\<rparr>)) Map.empty addrs
               in (Inr m, ig\<lparr>ig_addrCache := (ig_addrCache ig)(cacheKey \<mapsto> (m, env_now env))\<rparr>)))
      in case ig_addrCache ig cacheKey of
           Some (cached, storedAt) \<Rightarrow> if env_now env - storedAt < ic_addrCacheTTL (ig_cfg ig) then (Inr cached, ig) else fetch
         | None \<Rightarrow> fetch)"

record owner =
  ow_watched :: string
  ow_walletID :: "string option"
  ow_orgID :: "string option"

fun resolve_candidates ::
  "ing_env \<Rightarrow> normalized_batch \<Rightarrow> (string \<rightharpoonup> addr_meta) option \<Rightarrow> string list \<Rightarrow> ingester \<Rightarrow> owner option \<times> ingester" where
  "resolve_candidates env batch addrMap [] ig = (None, ig)"
| "resolve_candidates env batch addrMap (cand # cands) ig =
     (if cand = '''' then resolve_candidates env batch addrMap cands ig
      else case ig_addressIndex ig of
        Some idx \<Rightarrow>
          (case index_Lookup (env_now env) (env_find env) (nb_Chain batch) (nb_Network batch) cand idx of
             (Some wa, idx') \<Rightarrow>
               (Some \<lparr>ow_watched = cand, ow_walletID = wa_WalletID wa, ow_orgID = wa_OrganizationID wa\<rparr>, ig\<lparr>ig_addressIndex := Some idx'\<rparr>)
           | (None, idx') \<Rightarrow> resolve_candidates env batch addrMap cands (ig\<lparr>ig_addressIndex := Some idx'\<rparr>))
      | None \<Rightarrow>
          (case addrMap of
             Some m \<Rightarrow> (case m cand of
                 Some meta \<Rightarrow> (Some \<lparr>ow_watched = cand, ow_walletID = am_walletID meta, ow_orgID = am_orgID meta\<rparr>, ig)
               | None \<Rightarrow> resolve_candidates env batch addrMap cands ig)
           | None \<Rightarrow> resolve_candidates env batch addrMap cands ig))"

definition resolve_owner ::
  "ing_env \<Rightarrow> normalized_batch \<Rightarrow> (string \<rightharpoonup> addr_meta) option \<Rightarrow> normalized_balance_event \<Rightarrow> ingester \<Rightarrow> owner \<times> ingester" where
  "resolve_owner env batch addrMap be ig =
     (if \<not> nb_BlockScanMode batch
      then (\<lparr>ow_watched = nb_Address batch, ow_walletID = nb_WalletID batch, ow_orgID = nb_OrgID batch\<rparr>, ig)
      else case resolve_candidates env batch addrMap [ne_Address be, ne_CounterpartyAddress be] ig of
        (Some ow, ig') \<Rightarrow> (ow, ig')
      | (None, ig') \<Rightarrow> (\<lparr>ow_watched = ne_Address be, ow_walletID = nb_WalletID batch, ow_orgID = nb_OrgID batch\<rparr>, ig'))"

definition event_model ::
  "normalized_batch \<Rightarrow> event_ctx \<Rightarrow> uuid \<Rightarrow> uuid \<Rightarrow> owner \<Rightarrow> string \<Rightarrow> string \<Rightarrow> balance_event" where
  "event_model batch ec txID tokenID ow balanceBefore balanceAfter =
     (let be = ec_be ec; ntx = ec_ntx ec;
          applied = meetsBalanceThreshold (nb_Chain batch) (ne_FinalityState be) (ne_TokenType be) (ne_Delta be)
      in \<lparr>be_ID = 0, be_Chain = nb_Chain batch, be_Network = nb_Network batch, be_TransactionID = txID, be_TxHash = ec_hash ec,
          be_OuterInstructionIndex = ne_OuterInstructionIndex be, be_InnerInstructionIndex = ne_InnerInstructionIndex be,
          be_TokenID = tokenID, be_ActivityType = ne_ActivityType be, be_EventAction = ne_EventAction be, be_ProgramID = ne_ProgramID be,
          be_Address = ne_Address be, be_CounterpartyAddress = ne_CounterpartyAddress be, be_Delta = ne_Delta be,
          be_BalanceBefore = (if applied then Some balanceBefore else None), be_BalanceAfter = (if applied then Some balanceAfter else None),
          be_WatchedAddress = Some (ow_watched ow), be_WalletID = ow_walletID ow, be_OrganizationID = ow_orgID ow,
          be_BlockCursor = nt_BlockCursor ntx, be_BlockTime = nt_BlockTime ntx,
          be_ChainData = (case ne_ChainData be of Some cd \<Rightarrow> cd | None \<Rightarrow> emptyJSONObject), be_BalanceApplied = applied,
          be_EventID = ne_EventID be, be_BlockHash = ne_BlockHash be, be_TxIndex = ne_TxIndex be, be_EventPath = ne_EventPath be,
          be_EventPathType = ne_EventPathType be, be_ActorAddress = ne_ActorAddress be, be_AssetType = ne_AssetType be,
          be_AssetID = ne_AssetID be, be_FinalityState = ne_FinalityState be, be_DecoderVersion = ne_DecoderVersion be,
          be_SchemaVersion = ne_SchemaVersion be\<rparr>)"

type_synonym adjustment_key = "balance_key \<times> string \<times> string"

record adjustment_accum =
  aa_delta :: int
  aa_cursor :: int
  aa_txHash :: string

fun add_delta ::
  "adjustment_key \<Rightarrow> int \<Rightarrow> int \<Rightarrow> string \<Rightarrow> (adjustment_key \<times> adjustment_accum) list \<Rightarrow> (adjustment_key \<times> adjustment_accum) list" where
  "add_delta ak delta cursor txHash [] = [(ak, \<lparr>aa_delta = delta, aa_cursor = cursor, aa_txHash = txHash\<rparr>)]"
| "add_delta ak delta cursor txHash ((k, acc) # ds) =
     (if k = ak
      then (k, \<lparr>aa_delta = aa_delta acc + delta, aa_cursor = (if cursor > aa_cursor acc then cursor else aa_cursor acc),
                aa_txHash = (if cursor > aa_cursor acc then txHash else aa_txHash acc)\<rparr>) # ds
      else (k, acc) # add_delta ak delta cursor txHash ds)"

text \<open>The aggregation for one applied event: its liquid balance and, for staking, its staked balance.\<close>

definition aggregate ::
  "event_ctx \<Rightarrow> uuid \<Rightarrow> owner \<Rightarrow> (adjustment_key \<times> adjustment_accum) list \<Rightarrow> gerr + (adjustment_key \<times> adjustment_accum) list" where
  "aggregate ec tokenID ow ds =
     (let be = ec_be ec; cursor = nt_BlockCursor (ec_ntx ec); w = derefStr (ow_walletID ow); og = derefStr (ow_orgID ow) in
      case SetString (TrimSpace (ne_Delta be)) of
        None \<Rightarrow> Inl (ErrMsg (''invalid delta value '' @ ne_Delta be @ '' for event '' @ ne_EventID be))
      | Some delta \<Rightarrow>
         (let ds1 = add_delta ((ne_Address be, tokenID, ''''), w, og) delta cursor (ec_hash ec) ds in
          if IsStakingActivity (ne_ActivityType be)
          then (case NegateDecimalString (ne_Delta be) of
              Inl e \<Rightarrow> Inl (ErrWrap ''negate staking delta: '' (decimal_gerr e))
            | Inr inverted \<Rightarrow> (case SetString (TrimSpace inverted) of
                None \<Rightarrow> Inl (ErrMsg (''invalid staking delta value '' @ inverted @ '' for event '' @ ne_EventID be))
              | Some stakeDelta \<Rightarrow>
                  Inr (add_delta ((ne_Address be, tokenID, ''staked''), w, og) stakeDelta cursor (ec_hash ec) ds1)))
          else Inr ds1))"

record build_state =
  bs_mem :: "balance_key \<rightharpoonup> balance_info"
  bs_denied :: "string \<rightharpoonup> bool"
  bs_events :: "balance_event list"
  bs_deltas :: "(adjustment_key \<times> adjustment_accum) list"
  bs_db :: db

fun buildEventModels ::
  "ing_env \<Rightarrow> normalized_batch \<Rightarrow> (string \<rightharpoonup> addr_meta) option \<Rightarrow> prefetched \<Rightarrow> nat \<Rightarrow> event_ctx list \<Rightarrow> ingester \<Rightarrow> build_state \<Rightarrow>
     ingester \<times> (gerr + build_state)" where
  "buildEventModels env batch addrMap pf i [] ig bs = (ig, Inr bs)"
| "buildEventModels env batch addrMap pf i (ec # ecs) ig bs =
     (let be = ec_be ec; contract = ne_ContractAddress be in
      case pf_tokenIDs pf contract of
        None \<Rightarrow> buildEventModels env batch addrMap pf (i + 1) ecs ig bs
      | Some tokenID \<Rightarrow>
      case pf_txIDs pf (ec_hash ec) of
        None \<Rightarrow> buildEventModels env batch addrMap pf (i + 1) ecs ig bs
      | Some txID \<Rightarrow>
      if bs_denied bs contract = Some True then buildEventModels env batch addrMap pf (i + 1) ecs ig bs
      else
      (let bk = (ne_Address be, tokenID, '''');
           acc = (case bs_mem bs bk of Some bi \<Rightarrow> bi | None \<Rightarrow> \<lparr>bi_Amount = ''0'', bi_Exists = False\<rparr>);
           signal = detectScamSignal (env_unmarshal env) (nb_Chain batch) be (bi_Amount acc) (bi_Exists acc)
       in if signal \<noteq> ''''
          then (case exec env (StDeny i) (''deny scam token '' @ contract @ '': '')
                    (Inr (DenyTokenTx (nb_Chain batch) (nb_Network batch) contract (''auto-detected: '' @ signal) ''ingester_auto'' 100 [signal] (bs_db bs))) of
              Inl e \<Rightarrow> (ig, Inl e)
            | Inr d' \<Rightarrow> buildEventModels env batch addrMap pf (i + 1) ecs
                (ig\<lparr>ig_deniedCache := sh_Put (env_now env) (deniedKeyPrefix batch @ contract) True (ig_deniedCache ig)\<rparr>)
                (bs\<lparr>bs_db := d', bs_denied := (bs_denied bs)(contract \<mapsto> True)\<rparr>))
          else case addDecimalStrings (bi_Amount acc) (ne_Delta be) of
            Inl e \<Rightarrow> (ig, Inl (ErrWrap (''apply delta '' @ ne_Delta be @ '' to balance '' @ bi_Amount acc @ '': '') (decimal_gerr e)))
          | Inr balanceAfter \<Rightarrow>
            (let (ow, ig1) = resolve_owner env batch addrMap be ig;
                 m = event_model batch ec txID tokenID ow (bi_Amount acc) balanceAfter;
                 bs1 = bs\<lparr>bs_events := bs_events bs @ [m]\<rparr>
             in if be_BalanceApplied m
                then (case aggregate ec tokenID ow (bs_deltas bs) of
                    Inl e \<Rightarrow> (ig1, Inl e)
                  | Inr ds \<Rightarrow> buildEventModels env batch addrMap pf (i + 1) ecs ig1
                      (bs1\<lparr>bs_mem := (bs_mem bs)(bk \<mapsto> \<lparr>bi_Amount = balanceAfter, bi_Exists = True\<rparr>), bs_deltas := ds\<rparr>))
                else buildEventModels env batch addrMap pf (i + 1) ecs ig1 bs1)))"

section \<open>Phase 4: writeBulkAndCommit\<close>

definition adjust_items :: "(adjustment_key \<times> adjustment_accum) list \<Rightarrow> adjust_item list" where
  "adjust_items ds = map (\<lambda>(((a, t, ty), w, og), acc). \<lparr>ai_Address = a, ai_TokenID = t, ai_WalletID = strPtrOrNil w, ai_OrgID = strPtrOrNil og,
     ai_Delta = big_String (aa_delta acc), ai_Cursor = aa_cursor acc, ai_TxHash = aa_txHash acc, ai_BalanceType = ty\<rparr>) ds"

definition block_model :: "normalized_batch \<Rightarrow> normalized_transaction \<Rightarrow> indexed_block" where
  "block_model batch ntx = \<lparr>ib_Chain = nb_Chain batch, ib_Network = nb_Network batch, ib_BlockNumber = nt_BlockCursor ntx,
     ib_BlockHash = nt_BlockHash ntx, ib_ParentHash = nt_ParentHash ntx,
     ib_FinalityState = (case nt_BalanceEvents ntx of
        be # _ \<Rightarrow> if ne_FinalityState be \<noteq> '''' then ne_FinalityState be else ''pending'' | [] \<Rightarrow> ''pending''),
     ib_BlockTime = nt_BlockTime ntx\<rparr>"

definition batch_blocks :: "normalized_batch \<Rightarrow> indexed_block list" where
  "batch_blocks batch =
     foldl (\<lambda>bs ntx. if nt_BlockHash ntx = '''' \<or> nt_BlockCursor ntx \<in> ib_BlockNumber ` set bs then bs else bs @ [block_model batch ntx])
       [] (nb_Transactions batch)"

definition write_bulk :: "ing_env \<Rightarrow> ingester_config \<Rightarrow> normalized_batch \<Rightarrow> build_state \<Rightarrow> gerr + (nat \<times> db)" where
  "write_bulk env cfg batch bs =
     bindE (if bs_events bs = [] then Inr (0, bs_db bs)
            else bindE (exec env StEvents ''bulk upsert balance events: '' (be_BulkUpsertTx (env_now env) (bs_events bs) (bs_db bs)))
              (\<lambda>(r, d). Inr (br_InsertedCount r + br_FinalityCrossedCount r, d))) (\<lambda>(tot, d1).
     bindE (if bs_deltas bs = [] then Inr d1
            else exec env StAdjust ''bulk adjust balances: ''
              (BulkAdjustBalanceTx (env_pick env) (nb_Chain batch) (nb_Network batch) (adjust_items (bs_deltas bs)) d1)) (\<lambda>d2.
     bindE (if ic_hasBlockRepo cfg \<and> nb_Transactions batch \<noteq> [] \<and> batch_blocks batch \<noteq> []
            then exec env StBlocks ''bulk upsert indexed blocks: '' (ib_BulkUpsertTx (batch_blocks batch) d2) else Inr d2) (\<lambda>d3.
     bindE (exec env StWatermark ''update watermark: ''
              (Inr (UpdateWatermarkTx (nb_Chain batch) (nb_Network batch) (nb_NewCursorSequence batch) d3))) (\<lambda>d4.
     Inr (tot, d4)))))"

definition isAmbiguousCommitAckError :: "ing_env \<Rightarrow> gerr \<Rightarrow> bool" where
  "isAmbiguousCommitAckError env e \<longleftrightarrow>
     IsTransient (Classify (env_FromError env) (env_codeString env) (Some e)) \<or>
     containsAny (ToLower (Error e)) [''driver: bad connection'', ''connection reset'', ''broken pipe'', ''unexpected eof'', ''eof'',
       ''i/o timeout'', ''timed out'', ''timeout'', ''network is unreachable'', ''connection aborted'', ''connection closed'',
       ''transport is closing'']"

definition reconcileBlockScanCommit :: "ing_env \<Rightarrow> normalized_batch \<Rightarrow> gerr \<Rightarrow> db \<Rightarrow> gerr + bool" where
  "reconcileBlockScanCommit env batch commitErr d =
     (case env_probe env of
        Some e \<Rightarrow> Inl (Classified (ErrWrap ''commit_ambiguity_unresolved reason=watermark_probe_failed: '' e) ClassTerminal ''explicit_terminal'')
      | None \<Rightarrow>
        (case GetWatermark (nb_Chain batch) (nb_Network batch) d of
           Some w \<Rightarrow> if w \<ge> nb_NewCursorSequence batch then Inr True
             else Inl (Classified (ErrWrap ''commit_ambiguity_unresolved reason=watermark_mismatch: '' commitErr) ClassTerminal ''explicit_terminal'')
         | None \<Rightarrow> Inl (Classified (ErrWrap ''commit_ambiguity_unresolved reason=watermark_mismatch: '' commitErr) ClassTerminal ''explicit_terminal'')))"

definition reconcileAmbiguousCommitOutcome :: "ing_env \<Rightarrow> normalized_batch \<Rightarrow> gerr \<Rightarrow> db \<Rightarrow> gerr + bool" where
  "reconcileAmbiguousCommitOutcome env batch commitErr d =
     (if \<not> isAmbiguousCommitAckError env commitErr then Inr False else reconcileBlockScanCommit env batch commitErr d)"

text \<open>The result of the phase and the committed database: \<^verbatim>\<open>d\<close> before the transaction.\<close>

definition writeBulkAndCommit :: "ing_env \<Rightarrow> ingester_config \<Rightarrow> normalized_batch \<Rightarrow> build_state \<Rightarrow> db \<Rightarrow> (gerr + nat) \<times> db" where
  "writeBulkAndCommit env cfg batch bs d =
     (case write_bulk env cfg batch bs of
        Inl e \<Rightarrow> (Inl e, d)
      | Inr (tot, d') \<Rightarrow>
         (case commit env d d' of
            (None, d1) \<Rightarrow> (Inr tot, d1)
          | (Some err, d1) \<Rightarrow>
              (case reconcileAmbiguousCommitOutcome env batch err d1 of
                 Inl e \<Rightarrow> (Inl e, d1)
               | Inr True \<Rightarrow> (Inr tot, d1)
               | Inr False \<Rightarrow> (Inl (ErrWrap ''commit: '' err), d1))))"

section \<open>Rollback of canonicality drift\<close>

definition fetchReorgRollbackEvents :: "chain \<Rightarrow> network \<Rightarrow> block_no \<Rightarrow> db \<Rightarrow> rollback_event list" where
  "fetchReorgRollbackEvents c n forkBlock d =
     map scan_event (rev (sort_key (\<lambda>e. (be_BlockCursor e, be_ID e))
       (filter (\<lambda>e. be_Chain e = c \<and> be_Network e = n \<and> be_BlockCursor e \<ge> forkBlock) (db_events d))))"

definition fetchRollbackEvents :: "chain \<Rightarrow> network \<Rightarrow> string \<Rightarrow> int \<Rightarrow> db \<Rightarrow> rollback_event list" where
  "fetchRollbackEvents c n address forkCursor d =
     map scan_event (rev (sort_key (\<lambda>e. (be_BlockCursor e, be_ID e))
       (filter (\<lambda>e. be_Chain e = c \<and> be_Network e = n \<and> be_WatchedAddress e = Some address \<and> be_BlockCursor e \<ge> forkCursor) (db_events d))))"

definition delete_events :: "(balance_event \<Rightarrow> bool) \<Rightarrow> db \<Rightarrow> db" where
  "delete_events hit d = d\<lparr>db_events := filter (\<lambda>e. \<not> hit e) (db_events d)\<rparr>"

definition rewind_sequence :: "int \<Rightarrow> int" where
  "rewind_sequence fork = (if fork - 1 < 0 then 0 else fork - 1)"

definition rollback_hit :: "normalized_batch \<Rightarrow> balance_event \<Rightarrow> bool" where
  "rollback_hit batch e \<longleftrightarrow> be_Chain e = nb_Chain batch \<and> be_Network e = nb_Network batch \<and>
     (nb_BlockScanMode batch \<or> be_WatchedAddress e = Some (nb_Address batch)) \<and> be_BlockCursor e \<ge> rollbackForkCursorSequence batch"

definition rollbackCanonicalityDrift :: "ing_env \<Rightarrow> normalized_batch \<Rightarrow> db \<Rightarrow> gerr + db" where
  "rollbackCanonicalityDrift env batch d =
     (let c = nb_Chain batch; n = nb_Network batch; fork = rollbackForkCursorSequence batch
      in bindE (exec env StRollbackFetch ''fetch rollback events: ''
             (Inr (if nb_BlockScanMode batch then fetchReorgRollbackEvents c n fork d else fetchRollbackEvents c n (nb_Address batch) fork d))) (\<lambda>evs.
         bindE (case buildReversalAdjustItems evs of
             Inl e \<Rightarrow> Inl (ErrWrap ''build canonicality drift reversal items: '' e) | Inr items \<Rightarrow> Inr items) (\<lambda>items.
         bindE (if items = [] then Inr d else exec env StRevert ''revert balances: '' (BulkAdjustBalanceTx (env_pick env) c n items d)) (\<lambda>d1.
         bindE (exec env StDeleteEvents ''delete rollback balance events: '' (Inr (delete_events (rollback_hit batch) d1))) (\<lambda>d2.
         exec env StRewind ''rewind watermark after drift: '' (Inr (RewindWatermarkTx c n (rewind_sequence fork) d2)))))))"

section \<open>processBatch\<close>

record batch_result =
  pb_err :: "gerr option"
  pb_ig :: ingester
  pb_db :: db
  pb_release :: "bool option"

definition canonical_cursors :: "normalized_batch \<Rightarrow> normalized_batch" where
  "canonical_cursors batch = batch\<lparr>nb_PreviousCursorValue := CanonicalizeCursorValue (nb_Chain batch) (nb_PreviousCursorValue batch),
     nb_NewCursorValue := CanonicalizeCursorValue (nb_Chain batch) (nb_NewCursorValue batch)\<rparr>"

text \<open>The phases before the writes, over the transaction's view \<^verbatim>\<open>dtx\<close> of the database.\<close>

definition scan_addr_map :: "ing_env \<Rightarrow> normalized_batch \<Rightarrow> ingester \<Rightarrow> (gerr + (string \<rightharpoonup> addr_meta) option) \<times> ingester" where
  "scan_addr_map env batch ig =
     (if nb_BlockScanMode batch \<and> ig_addressIndex ig = None \<and> ic_hasWatchedRepo (ig_cfg ig)
      then (case getBlockScanAddrMap env (nb_Chain batch) (nb_Network batch) ig of
          (Inl e, ig') \<Rightarrow> (Inl (ErrWrap ''fetch watched addresses for block-scan: '' e), ig')
        | (Inr m, ig') \<Rightarrow> (Inr (Some m), ig'))
      else (Inr None, ig))"

definition prepare_batch :: "ing_env \<Rightarrow> normalized_batch \<Rightarrow> ingester \<Rightarrow> db \<Rightarrow> ingester \<times> (gerr + build_state)" where
  "prepare_batch env batch ig dtx = (case scan_addr_map env batch ig of
     (Inl e, ig1) \<Rightarrow> (ig1, Inl e)
   | (Inr am, ig1) \<Rightarrow> (case prefetchBulkData env batch (collectEvents batch) ig1 dtx of
       (ig2, Inl e) \<Rightarrow> (ig2, Inl e)
     | (ig2, Inr (pf, d1)) \<Rightarrow> buildEventModels env batch am pf 0 (co_events (collectEvents batch)) ig2
         \<lparr>bs_mem = pf_balances pf, bs_denied = pf_denied pf, bs_events = [], bs_deltas = [], bs_db = d1\<rparr>))"

text \<open>All four phases; \<^verbatim>\<open>d\<close> is the committed database.\<close>

definition ingest_phases :: "ing_env \<Rightarrow> normalized_batch \<Rightarrow> ingester \<Rightarrow> db \<Rightarrow> db \<Rightarrow> gerr option \<times> ingester \<times> db" where
  "ingest_phases env batch ig dtx d = (case prepare_batch env batch ig dtx of
     (ig', Inl e) \<Rightarrow> (Some e, ig', d)
   | (ig', Inr bs) \<Rightarrow> (case writeBulkAndCommit env (ig_cfg ig) batch bs d of
       (Inl e, d') \<Rightarrow> (Some e, ig', d')
     | (Inr tot, d') \<Rightarrow> (None, ig', d')))"

definition processBatch :: "ing_env \<Rightarrow> ingester \<Rightarrow> normalized_batch \<Rightarrow> db \<Rightarrow> batch_result" where
  "processBatch env ig batch0 d =
     (let batch = canonical_cursors batch0; advance = shouldAdvanceCommitCheckpoint batch;
          finish = (\<lambda>(err, ig', d'). \<lparr>pb_err = err, pb_ig = ig', pb_db = d',
             pb_release = (if ic_hasInterleaver (ig_cfg ig) then Some (err = None \<and> advance) else None)\<rparr>)
      in if ic_hasInterleaver (ig_cfg ig) \<and> env_acquire env \<noteq> None
         then \<lparr>pb_err = env_acquire env, pb_ig = ig, pb_db = d, pb_release = None\<rparr>
         else case env_begin env of
           Some e \<Rightarrow> finish (Some (ErrWrap ''begin tx: '' e), ig, d)
         | None \<Rightarrow>
           if isCanonicalityDrift batch \<and> \<not> isBTCRestartAnchorReplay batch
           then (case rollbackCanonicalityDrift env (withRollbackForkCursor batch) d of
               Inl e \<Rightarrow> finish (Some (ErrWrap ''handle reorg path: '' e), ig, d)
             | Inr d1 \<Rightarrow>
                 if shouldContinueCompetingBranchReplay batch then finish (ingest_phases env batch ig d1 d)
                 else (case commit env d d1 of
                     (None, d2) \<Rightarrow> finish (None, ig, d2)
                   | (Some e, d2) \<Rightarrow> finish (Some (ErrWrap ''commit rollback path: '' e), ig, d2)))
           else finish (ingest_phases env batch ig d d))"

text \<open>The retry loop; \<^verbatim>\<open>envs k\<close> is the environment of attempt \<^verbatim>\<open>k\<close>. The number counts the attempts made.\<close>

fun retry_from ::
  "(nat \<Rightarrow> ing_env) \<Rightarrow> nat \<Rightarrow> nat \<Rightarrow> ingester \<Rightarrow> normalized_batch \<Rightarrow> db \<Rightarrow> gerr option \<times> nat \<times> ingester \<times> db" where
  "retry_from envs attempt 0 ig batch d = (Some (ErrMsg ''transient_recovery_exhausted stage=ingester.process_batch attempts=0 reason=unset: %!w(<nil>)''), attempt - 1, ig, d)"
| "retry_from envs attempt (Suc left) ig batch d =
     (let env = envs attempt; r = processBatch env ig batch d in
      case pb_err r of
        None \<Rightarrow> (None, attempt, pb_ig r, pb_db r)
      | Some e \<Rightarrow>
          if env_ctxErr env \<noteq> None then (env_ctxErr env, attempt, pb_ig r, pb_db r)
          else if \<not> IsTransient (Classify (env_FromError env) (env_codeString env) (Some e))
          then (Some (ErrWrap (''terminal_failure stage=ingester.process_batch attempt='' @ nat_String attempt @ '' reason='' @ d_Reason (Classify (env_FromError env) (env_codeString env) (Some e)) @ '': '') e), attempt, pb_ig r, pb_db r)
          else if left = 0 then (Some (ErrWrap (''transient_recovery_exhausted stage=ingester.process_batch attempts='' @ nat_String attempt @ '' reason='' @ d_Reason (Classify (env_FromError env) (env_codeString env) (Some e)) @ '': '') e), attempt, pb_ig r, pb_db r)
          else if env_sleep env \<noteq> None then (env_sleep env, attempt, pb_ig r, pb_db r)
          else retry_from envs (attempt + 1) left (pb_ig r) batch (pb_db r))"

definition processBatchWithRetry ::
  "(nat \<Rightarrow> ing_env) \<Rightarrow> ingester \<Rightarrow> normalized_batch \<Rightarrow> db \<Rightarrow> gerr option \<times> nat \<times> ingester \<times> db" where
  "processBatchWithRetry envs ig batch d =
     (let m = effectiveRetryMaxAttempts (ic_retryMaxAttempts (ig_cfg ig)) in retry_from envs 1 m ig batch d)"

section \<open>Reorg rollback and finality promotion\<close>

definition delete_transactions :: "chain \<Rightarrow> network \<Rightarrow> block_no \<Rightarrow> db \<Rightarrow> db" where
  "delete_transactions c n fromBlock d =
     d\<lparr>db_transactions := filter (\<lambda>t. \<not> (tr_Chain t = c \<and> tr_Network t = n \<and> tr_BlockCursor t \<ge> fromBlock)) (db_transactions d)\<rparr>"

definition reorg_statements :: "ing_env \<Rightarrow> ingester_config \<Rightarrow> reorg_event \<Rightarrow> db \<Rightarrow> gerr + db" where
  "reorg_statements env cfg reorg d =
     (let c = re_Chain reorg; n = re_Network reorg; fork = re_ForkBlockNumber reorg in
      bindE (exec env StRollbackFetch ''fetch reorg rollback events: '' (Inr (fetchReorgRollbackEvents c n fork d))) (\<lambda>evs.
      bindE (case buildReversalAdjustItems evs of
          Inl e \<Rightarrow> Inl (ErrWrap ''build reorg reversal items: '' e) | Inr items \<Rightarrow> Inr items) (\<lambda>items.
      bindE (if items = [] then Inr d else exec env StRevert ''revert balances: '' (BulkAdjustBalanceTx (env_pick env) c n items d)) (\<lambda>d1.
      bindE (exec env StDeleteEvents ''delete reorg balance events: ''
          (Inr (delete_events (\<lambda>e. be_Chain e = c \<and> be_Network e = n \<and> be_BlockCursor e \<ge> fork) d1))) (\<lambda>d2.
      bindE (exec env StDeleteTransactions ''delete reorg transactions: '' (Inr (delete_transactions c n fork d2))) (\<lambda>d3.
      bindE (if ic_hasBlockRepo cfg then exec env StDeleteBlocks ''delete reorg indexed blocks: '' (Inr (snd (DeleteFromBlockTx c n fork d3))) else Inr d3) (\<lambda>d4.
      exec env StRewind ''rewind watermark: '' (Inr (RewindWatermarkTx c n (rewind_sequence fork) d4)))))))))"

text \<open>\<^verbatim>\<open>handleReorg\<close> without a replay service.\<close>

definition reorgInline :: "ing_env \<Rightarrow> ingester_config \<Rightarrow> reorg_event \<Rightarrow> db \<Rightarrow> gerr option \<times> db" where
  "reorgInline env cfg reorg d = (case env_begin env of
     Some e \<Rightarrow> (Some (ErrWrap ''begin reorg tx: '' e), d)
   | None \<Rightarrow> (case reorg_statements env cfg reorg d of
       Inl e \<Rightarrow> (Some e, d)
     | Inr d' \<Rightarrow> (case commit env d d' of
         (None, d1) \<Rightarrow> (None, d1) | (Some e, d1) \<Rightarrow> (Some (ErrWrap ''commit reorg rollback: '' e), d1))))"

definition promote_finality :: "chain \<Rightarrow> network \<Rightarrow> block_no \<Rightarrow> db \<Rightarrow> db" where
  "promote_finality c n upTo d =
     d\<lparr>db_events := map (\<lambda>e. if be_Chain e = c \<and> be_Network e = n \<and> be_BlockCursor e \<le> upTo \<and>
          be_FinalityState e \<noteq> ''finalized'' \<and> be_FinalityState e \<noteq> '''' then e\<lparr>be_FinalityState := ''finalized''\<rparr> else e) (db_events d)\<rparr>"

definition promotable :: "chain \<Rightarrow> network \<Rightarrow> block_no \<Rightarrow> balance_event \<Rightarrow> bool" where
  "promotable c n upTo e \<longleftrightarrow> be_Chain e = c \<and> be_Network e = n \<and> be_BlockCursor e \<le> upTo \<and> \<not> be_BalanceApplied e \<and>
     be_FinalityState e = ''finalized''"

definition promoteBalanceEvents :: "ing_env \<Rightarrow> chain \<Rightarrow> network \<Rightarrow> block_no \<Rightarrow> db \<Rightarrow> gerr + (rollback_event list \<times> db)" where
  "promoteBalanceEvents env c n upTo d =
     bindE (exec env StEventFinality ''update balance events finality: '' (Inr (promote_finality c n upTo d))) (\<lambda>d1.
     exec env StPromote ''promote balance events: ''
       (Inr (map scan_event (filter (promotable c n upTo) (db_events d1)),
             d1\<lparr>db_events := map (\<lambda>e. if promotable c n upTo e then e\<lparr>be_BalanceApplied := True\<rparr> else e) (db_events d1)\<rparr>)))"

definition promotion_statements :: "ing_env \<Rightarrow> ingester_config \<Rightarrow> finality_promotion \<Rightarrow> db \<Rightarrow> gerr + db" where
  "promotion_statements env cfg promo d =
     (let c = fp_Chain promo; n = fp_Network promo; upTo = fp_NewFinalizedBlock promo in
      bindE (if ic_hasBlockRepo cfg then exec env StBlockFinality ''update indexed blocks finality: '' (Inr (UpdateFinalityTx c n upTo ''finalized'' d)) else Inr d) (\<lambda>d1.
      bindE (promoteBalanceEvents env c n upTo d1) (\<lambda>(evs, d2).
      if evs = [] then Inr d2
      else bindE (case buildPromotionAdjustItems evs of
             Inl e \<Rightarrow> Inl (ErrWrap ''build promotion adjust items: '' e) | Inr items \<Rightarrow> Inr items) (\<lambda>items.
           exec env StAdjust ''bulk adjust balances for finality promotion: '' (BulkAdjustBalanceTx (env_pick env) c n items d2)))))"

definition handleFinalityPromotion :: "ing_env \<Rightarrow> ingester_config \<Rightarrow> finality_promotion \<Rightarrow> db \<Rightarrow> gerr option \<times> db" where
  "handleFinalityPromotion env cfg promo d = (case env_begin env of
     Some e \<Rightarrow> (Some (ErrWrap ''begin finality tx: '' e), d)
   | None \<Rightarrow> (case promotion_statements env cfg promo d of
       Inl e \<Rightarrow> (Some e, d)
     | Inr d' \<Rightarrow> (case commit env d d' of
         (None, d1) \<Rightarrow> (None, d1) | (Some e, d1) \<Rightarrow> (Some (ErrWrap ''commit finality promotion: '' e), d1))))"

end
