(* ===== verification/Replay_Service.thy ===== *)
theory Replay_Service
  imports Ingester
begin

text \<open>
  The replay service (\<^verbatim>\<open>internal/pipeline/replay/service.go\<close>), shared by the admin API and the reorg
  handler: the finality check, the dry run and the purge with its paged reading of the events to
  roll back. \<^verbatim>\<open>handleReorg\<close> of the ingester delegates to it when it is configured. A page holds whole
  event rows; \<^verbatim>\<open>scan_event\<close> keeps the columns the purge uses. The wall-clock duration of the result is
  left out.
\<close>

section \<open>Requests and results\<close>

record purge_request =
  pr_Chain :: chain
  pr_Network :: network
  pr_FromBlock :: block_no
  pr_DryRun :: bool
  pr_Force :: bool
  pr_Reason :: string
  pr_BlockScanMode :: bool

record purge_result =
  pu_PurgedEvents :: nat
  pu_PurgedTransactions :: nat
  pu_PurgedBlocks :: nat
  pu_ReversedBalances :: nat
  pu_NewWatermark :: int
  pu_CursorsRewound :: nat
  pu_DryRun :: bool

definition ErrFinalizedBlock :: gerr where
  "ErrFinalizedBlock = ErrMsg ''target block is finalized; set force=true to override''"

abbreviation purge_hit :: "chain \<Rightarrow> network \<Rightarrow> block_no \<Rightarrow> balance_event \<Rightarrow> bool" where
  "purge_hit c n fromBlock e \<equiv> be_Chain e = c \<and> be_Network e = n \<and> be_BlockCursor e \<ge> fromBlock"

section \<open>Paged reading\<close>

definition rollbackBatchSize :: nat where "rollbackBatchSize = 1000"

definition fetchRollbackBatch :: "chain \<Rightarrow> network \<Rightarrow> block_no \<Rightarrow> uuid \<Rightarrow> nat \<Rightarrow> db \<Rightarrow> balance_event list" where
  "fetchRollbackBatch c n fromBlock afterID limit d =
     take limit (sort_key be_ID (filter (\<lambda>e. purge_hit c n fromBlock e \<and> be_ID e > afterID) (db_events d)))"

lemma fetchRollbackBatch_after: "e \<in> set (fetchRollbackBatch c n fromBlock afterID limit d) \<Longrightarrow> afterID < be_ID e \<and> e \<in> set (db_events d)"
  by (auto simp: fetchRollbackBatch_def dest: in_set_takeD)

function (sequential) purge_pages :: "ing_env \<Rightarrow> chain \<Rightarrow> network \<Rightarrow> block_no \<Rightarrow> nat \<Rightarrow> uuid \<Rightarrow> db \<Rightarrow> gerr + balance_event list" where
  "purge_pages env c n fromBlock page lastID d =
     (case exec env (StRollbackPage page) ''query rollback events: '' (Inr (fetchRollbackBatch c n fromBlock lastID rollbackBatchSize d)) of
        Inl e \<Rightarrow> Inl e
      | Inr batch \<Rightarrow>
          if length batch < rollbackBatchSize then Inr batch
          else (case purge_pages env c n fromBlock (page + 1) (be_ID (last batch)) d of
              Inl e \<Rightarrow> Inl e | Inr rest \<Rightarrow> Inr (batch @ rest)))"
  by pat_completeness auto

text \<open>A full page moves the last identifier past at least one stored event.\<close>

termination
proof (relation "measure (\<lambda>(env, c, n, fromBlock, page, lastID, d). card {e \<in> set (db_events d). lastID < be_ID e})")
  fix env c n fromBlock page lastID d batch
  assume "exec env (StRollbackPage page) ''query rollback events: '' (Inr (fetchRollbackBatch c n fromBlock lastID rollbackBatchSize d)) = Inr batch"
    and "\<not> length batch < rollbackBatchSize"
  then have b: "batch = fetchRollbackBatch c n fromBlock lastID rollbackBatchSize d" "batch \<noteq> []"
    by (auto simp: exec_Inr rollbackBatchSize_def)
  then have l: "lastID < be_ID (last batch)" "last batch \<in> set (db_events d)" using fetchRollbackBatch_after last_in_set by metis+
  then have "{e \<in> set (db_events d). be_ID (last batch) < be_ID e} \<subset> {e \<in> set (db_events d). lastID < be_ID e}" by force
  then show "((env, c, n, fromBlock, page + 1, be_ID (last batch), d), env, c, n, fromBlock, page, lastID, d)
      \<in> measure (\<lambda>(env, c, n, fromBlock, page, lastID, d). card {e \<in> set (db_events d). lastID < be_ID e})"
    by (auto intro: psubset_card_mono)
qed simp

definition purge_fetchRollbackEvents :: "ing_env \<Rightarrow> chain \<Rightarrow> network \<Rightarrow> block_no \<Rightarrow> db \<Rightarrow> gerr + balance_event list" where
  "purge_fetchRollbackEvents env c n fromBlock d = purge_pages env c n fromBlock 0 0 d"

declare purge_pages.simps [simp del]

section \<open>Purge\<close>

fun purge_items :: "rollback_event list \<Rightarrow> gerr + (adjust_item list \<times> adjust_item list)" where
  "purge_items [] = Inr ([], [])"
| "purge_items (be # events) =
     (if \<not> rv_BalanceApplied be then purge_items events
      else case NegateDecimalString (rv_Delta be) of
        Inl e \<Rightarrow> Inl (ErrWrap (''negate delta for '' @ rv_TxHash be @ '': '') (decimal_gerr e))
      | Inr invertedDelta \<Rightarrow> (case purge_items events of
          Inl e \<Rightarrow> Inl e
        | Inr (liquid, staked) \<Rightarrow> Inr (event_item be invertedDelta '''' # liquid,
            if IsStakingActivity (rv_ActivityType be) then event_item be (rv_Delta be) ''staked'' # staked else staked)))"

definition dryRun :: "ing_env \<Rightarrow> purge_request \<Rightarrow> db \<Rightarrow> gerr + purge_result" where
  "dryRun env req d =
     (let c = pr_Chain req; n = pr_Network req; from = pr_FromBlock req in
      case env_begin env of
        Some e \<Rightarrow> Inl (ErrWrap ''dry run begin tx: '' e)
      | None \<Rightarrow> exec env StDryRun ''dry run counts: '' (Inr
          (let eventCount = length (filter (purge_hit c n from) (db_events d)) in
           \<lparr>pu_PurgedEvents = eventCount,
            pu_PurgedTransactions = length (filter (\<lambda>t. tr_Chain t = c \<and> tr_Network t = n \<and> tr_BlockCursor t \<ge> from) (db_transactions d)),
            pu_PurgedBlocks = length (filter (\<lambda>b. ib_Chain b = c \<and> ib_Network b = n \<and> ib_BlockNumber b \<ge> from) (db_blocks d)),
            pu_ReversedBalances = eventCount, pu_NewWatermark = rewind_sequence from, pu_CursorsRewound = 0, pu_DryRun = True\<rparr>)))"

text \<open>The statements of the purge inside its transaction.\<close>

definition purge_statements :: "ing_env \<Rightarrow> bool \<Rightarrow> purge_request \<Rightarrow> db \<Rightarrow> gerr + (purge_result \<times> db)" where
  "purge_statements env hasBlockRepo req d =
     (let c = pr_Chain req; n = pr_Network req; from = pr_FromBlock req in
      bindE (case purge_fetchRollbackEvents env c n from d of
          Inl e \<Rightarrow> Inl (ErrWrap ''fetch rollback events: '' e) | Inr evs \<Rightarrow> Inr evs) (\<lambda>evs.
      bindE (purge_items (map scan_event evs)) (\<lambda>(liquid, staked).
      bindE (if liquid = [] then Inr d else exec env StRevert ''revert balances: '' (BulkAdjustBalanceTx (env_pick env) c n liquid d)) (\<lambda>d1.
      bindE (if staked = [] then Inr d1 else exec env StRevertStaked ''revert staked balances: '' (BulkAdjustBalanceTx (env_pick env) c n staked d1)) (\<lambda>d2.
      bindE (exec env StDeleteEvents ''delete balance events: '' (Inr (delete_events (purge_hit c n from) d2))) (\<lambda>d3.
      bindE (exec env StDeleteTransactions ''delete transactions: '' (Inr (delete_transactions c n from d3))) (\<lambda>d4.
      bindE (if hasBlockRepo then exec env StDeleteBlocks ''delete indexed blocks: '' (Inr (DeleteFromBlockTx c n from d4)) else Inr (0, d4)) (\<lambda>(blocks, d5).
      bindE (exec env StRewind ''rewind watermark: '' (Inr (RewindWatermarkTx c n (rewind_sequence from) d5))) (\<lambda>d6.
      Inr (\<lparr>pu_PurgedEvents = length (db_events d2) - length (db_events d3),
            pu_PurgedTransactions = length (db_transactions d3) - length (db_transactions d4),
            pu_PurgedBlocks = blocks, pu_ReversedBalances = length liquid, pu_NewWatermark = rewind_sequence from,
            pu_CursorsRewound = 0, pu_DryRun = False\<rparr>, d6))))))))))"

definition executePurge :: "ing_env \<Rightarrow> bool \<Rightarrow> purge_request \<Rightarrow> db \<Rightarrow> (gerr + purge_result) \<times> db" where
  "executePurge env hasBlockRepo req d = (case env_begin env of
     Some e \<Rightarrow> (Inl (ErrWrap ''begin purge tx: '' e), d)
   | None \<Rightarrow> (case purge_statements env hasBlockRepo req d of
       Inl e \<Rightarrow> (Inl e, d)
     | Inr (r, d') \<Rightarrow> (case commit env d d' of
         (None, d1) \<Rightarrow> (Inr r, d1) | (Some e, d1) \<Rightarrow> (Inl (ErrWrap ''commit purge: '' e), d1))))"

definition PurgeFromBlock :: "ing_env \<Rightarrow> bool \<Rightarrow> purge_request \<Rightarrow> db \<Rightarrow> (gerr + purge_result) \<times> db" where
  "PurgeFromBlock env hasBlockRepo req d =
     (case (if \<not> pr_Force req \<and> hasBlockRepo
            then exec env StFinalityCheck ''finality check: '' (Inr (GetByBlockNumber (pr_Chain req) (pr_Network req) (pr_FromBlock req) d))
            else Inr None) of
        Inl e \<Rightarrow> (Inl e, d)
      | Inr block \<Rightarrow>
          if (case block of Some b \<Rightarrow> ib_FinalityState b = ''finalized'' | None \<Rightarrow> False) then (Inl ErrFinalizedBlock, d)
          else if pr_DryRun req then (dryRun env req d, d)
          else executePurge env hasBlockRepo req d)"

section \<open>\<^verbatim>\<open>handleReorg\<close>\<close>

definition reorg_request :: "reorg_event \<Rightarrow> purge_request" where
  "reorg_request reorg = \<lparr>pr_Chain = re_Chain reorg, pr_Network = re_Network reorg, pr_FromBlock = re_ForkBlockNumber reorg,
     pr_DryRun = False, pr_Force = True, pr_Reason = ''reorg: expected='' @ re_ExpectedHash reorg @ '' actual='' @ re_ActualHash reorg,
     pr_BlockScanMode = False\<rparr>"

definition handleReorg :: "ing_env \<Rightarrow> ingester_config \<Rightarrow> reorg_event \<Rightarrow> db \<Rightarrow> gerr option \<times> db" where
  "handleReorg env cfg reorg d = (case ic_replayService cfg of
     Some hasBlockRepo \<Rightarrow>
       (case PurgeFromBlock env hasBlockRepo (reorg_request reorg) d of
          (Inl e, d') \<Rightarrow> (Some (ErrWrap ''reorg via replay service: '' e), d') | (Inr _, d') \<Rightarrow> (None, d'))
   | None \<Rightarrow> reorgInline env cfg reorg d)"

section \<open>Paging reads every event once\<close>

definition event_ids_ok :: "db \<Rightarrow> bool" where
  "event_ids_ok d \<longleftrightarrow> distinct (map be_ID (db_events d)) \<and> 0 \<notin> be_ID ` set (db_events d)"

lemma sorted_split_page:
  assumes "sorted (map be_ID xs)" "distinct (map be_ID xs)" "0 < k" "k \<le> length xs"
  shows "filter (\<lambda>e. be_ID (last (take k xs)) < be_ID e) xs = drop k xs"
proof -
  have "take k xs \<noteq> []" using assms(3,4) by auto
  then have l: "last (take k xs) = xs ! (k - 1)" using assms(3,4) by (simp add: last_conv_nth min_def)
  have "be_ID e \<le> be_ID (xs ! (k - 1))" if "e \<in> set (take k xs)" for e
    using that assms by (auto simp: in_set_conv_nth sorted_iff_nth_mono)
  moreover have "be_ID (xs ! (k - 1)) < be_ID e" if "e \<in> set (drop k xs)" for e
  proof -
    from that obtain i where i: "i < length xs - k" "e = xs ! (k + i)" by (auto simp: in_set_conv_nth)
    then have "be_ID (xs ! (k - 1)) \<le> be_ID (xs ! (k + i))" using assms by (auto simp: sorted_iff_nth_mono)
    moreover have "be_ID (xs ! (k - 1)) \<noteq> be_ID (xs ! (k + i))"
      using assms(2,3,4) i by (auto simp: distinct_conv_nth)
    ultimately show ?thesis using i by simp
  qed
  ultimately have "filter (\<lambda>e. be_ID (last (take k xs)) < be_ID e) (take k xs) = []"
    "filter (\<lambda>e. be_ID (last (take k xs)) < be_ID e) (drop k xs) = drop k xs"
    unfolding l by (auto simp: filter_empty_conv not_less)
  then show ?thesis by (metis append_Nil append_take_drop_id filter_append)
qed

abbreviation hits_after :: "chain \<Rightarrow> network \<Rightarrow> block_no \<Rightarrow> uuid \<Rightarrow> db \<Rightarrow> balance_event list" where
  "hits_after c n fromBlock l d \<equiv> sort_key be_ID (filter (\<lambda>e. purge_hit c n fromBlock e \<and> be_ID e > l) (db_events d))"

lemma hits_after_page:
  assumes "event_ids_ok d" "0 < k" "k \<le> length (hits_after c n fromBlock lastID d)"
  shows "hits_after c n fromBlock (be_ID (last (take k (hits_after c n fromBlock lastID d)))) d = drop k (hits_after c n fromBlock lastID d)"
proof -
  let ?xs = "hits_after c n fromBlock lastID d"
  let ?l = "last (take k ?xs)"
  have "distinct (map be_ID ?xs)" using assms(1) by (auto simp: event_ids_ok_def distinct_map intro: inj_on_subset)
  then have "filter (\<lambda>e. be_ID ?l < be_ID e) ?xs = drop k ?xs" using sorted_split_page [of ?xs k] assms(2,3) by simp
  moreover have "be_ID ?l > lastID"
  proof -
    have "0 < length (take k ?xs)" using assms(2,3) by simp
    then have "take k ?xs \<noteq> []" by (rule length_greater_0_conv [THEN iffD1])
    then have "?l \<in> set (take k ?xs)" by (rule last_in_set)
    then show ?thesis by (auto dest: in_set_takeD)
  qed
  then have "filter (\<lambda>e. be_ID ?l < be_ID e) ?xs = hits_after c n fromBlock (be_ID ?l) d"
    by (auto simp: filter_sort intro!: arg_cong [where f = "sort_key be_ID"] filter_cong)
  ultimately show ?thesis by simp
qed

lemma purge_pages_result:
  assumes "event_ids_ok d"
  shows "case purge_pages env c n fromBlock page lastID d of
     Inl e \<Rightarrow> \<exists>i \<ge> page. env_fault env (StRollbackPage i) \<noteq> None | Inr evs \<Rightarrow> evs = hits_after c n fromBlock lastID d"
  using assms
proof (induction env c n fromBlock page lastID d rule: purge_pages.induct)
  case (1 env c n fromBlock page lastID d)
  let ?xs = "hits_after c n fromBlock lastID d"
  let ?q = "exec env (StRollbackPage page) ''query rollback events: '' (Inr (fetchRollbackBatch c n fromBlock lastID rollbackBatchSize d))"
  show ?case
  proof (cases ?q)
    case (Inl e)
    have "env_fault env (StRollbackPage page) \<noteq> None" using Inl by (auto simp: exec_def split: option.splits)
    then show ?thesis unfolding purge_pages.simps [of env c n fromBlock page] Inl sum.case by blast
  next
    case (Inr batch)
    then have b: "batch = take rollbackBatchSize ?xs" by (simp add: exec_Inr fetchRollbackBatch_def)
    show ?thesis
    proof (cases "length batch < rollbackBatchSize")
      case True
      then show ?thesis unfolding purge_pages.simps [of env c n fromBlock page] Inr sum.case if_P [OF True] using b by simp
    next
      case False
      then have k: "0 < rollbackBatchSize" "rollbackBatchSize \<le> length ?xs" using b by (auto simp: rollbackBatchSize_def)
      have d: "hits_after c n fromBlock (be_ID (last batch)) d = drop rollbackBatchSize ?xs"
        unfolding b by (rule hits_after_page [OF "1.prems" k])
      show ?thesis
      proof (cases "purge_pages env c n fromBlock (page + 1) (be_ID (last batch)) d")
        case rest: (Inl e)
        have r: "purge_pages env c n fromBlock page lastID d = Inl e"
          unfolding purge_pages.simps [of env c n fromBlock page] Inr sum.case if_not_P [OF False] rest ..
        from "1.IH" [OF Inr False "1.prems"] rest obtain i where "page + 1 \<le> i" "env_fault env (StRollbackPage i) \<noteq> None" by auto
        then show ?thesis unfolding r sum.case by (intro exI [of _ i]) simp
      next
        case rest: (Inr evs)
        have "evs = drop rollbackBatchSize ?xs" using "1.IH" [OF Inr False "1.prems"] rest d by simp
        then have "batch @ evs = ?xs" using b by simp
        moreover have r: "purge_pages env c n fromBlock page lastID d = Inr (batch @ evs)"
          unfolding purge_pages.simps [of env c n fromBlock page] Inr sum.case if_not_P [OF False] rest ..
        ultimately show ?thesis unfolding r sum.case by (simp only:)
      qed
    qed
  qed
qed

lemma purge_fetch_Inr:
  assumes "event_ids_ok d" "purge_fetchRollbackEvents env c n fromBlock d = Inr evs"
  shows "evs = sort_key be_ID (filter (purge_hit c n fromBlock) (db_events d))"
proof -
  have "evs = hits_after c n fromBlock 0 d"
    using purge_pages_result [OF assms(1), where env = env and c = c and n = n and fromBlock = fromBlock and page = 0 and lastID = 0] assms(2) by (simp add: purge_fetchRollbackEvents_def)
  moreover have "filter (\<lambda>e. purge_hit c n fromBlock e \<and> 0 < be_ID e) (db_events d) = filter (purge_hit c n fromBlock) (db_events d)"
    using assms(1) by (intro filter_cong) (auto simp: event_ids_ok_def)
  ultimately show ?thesis by (simp only:)
qed

end
