(* ===== verification/Ingester_Ledger.thy ===== *)
theory Ingester_Ledger
  imports Replay_Service
begin

text \<open>
  What the ingester's transactions guarantee: all-or-nothing effect whatever fails, the outcome of
  an ambiguous commit, preservation of the ledger by ingestion, rollback and promotion, the
  watermark, and the bound on retries.
\<close>

section \<open>A transaction takes effect as a whole or not at all\<close>

abbreviation committed_env :: "ing_env \<Rightarrow> ing_env" where
  "committed_env env \<equiv> env\<lparr>env_commit := Committed\<rparr>"

lemma exec_commit [simp]: "exec (committed_env env) = exec env"
  by (intro ext) (simp add: exec_def)

lemma get_balance_chunks_commit [simp]: "get_balance_chunks (committed_env env) msg c n i kss d m = get_balance_chunks env msg c n i kss d m"
  by (induction kss arbitrary: i m) simp_all

lemma committed_env_sel [simp]:
  "env_now (committed_env env) = env_now env" "env_fault (committed_env env) = env_fault env"
  "env_pick (committed_env env) = env_pick env" "env_active (committed_env env) = env_active env"
  "env_find (committed_env env) = env_find env" "env_unmarshal (committed_env env) = env_unmarshal env"
  by simp_all

lemma prefetchBulkData_commit [simp]: "prefetchBulkData (committed_env env) = prefetchBulkData env"
  unfolding prefetchBulkData_def committed_env_sel exec_commit get_balance_chunks_commit ..

lemma scan_addr_map_commit [simp]: "scan_addr_map (committed_env env) = scan_addr_map env"
  unfolding scan_addr_map_def getBlockScanAddrMap_def committed_env_sel ..

lemma resolve_candidates_commit [simp]:
  "resolve_candidates (committed_env env) batch am cs ig = resolve_candidates env batch am cs ig"
proof (induction cs arbitrary: ig)
  case (Cons cand cs)
  show ?case unfolding resolve_candidates.simps committed_env_sel Cons.IH ..
qed simp

lemma resolve_owner_commit [simp]: "resolve_owner (committed_env env) = resolve_owner env"
  unfolding resolve_owner_def resolve_candidates_commit ..

lemma buildEventModels_commit [simp]:
  "buildEventModels (committed_env env) batch am pf i ecs ig bs = buildEventModels env batch am pf i ecs ig bs"
proof (induction ecs arbitrary: i ig bs)
  case (Cons ec ecs)
  show ?case unfolding buildEventModels.simps committed_env_sel exec_commit resolve_owner_commit Cons.IH ..
qed simp

lemma write_bulk_commit [simp]: "write_bulk (committed_env env) = write_bulk env"
  unfolding write_bulk_def committed_env_sel exec_commit ..

lemma rollbackCanonicalityDrift_commit [simp]: "rollbackCanonicalityDrift (committed_env env) = rollbackCanonicalityDrift env"
  unfolding rollbackCanonicalityDrift_def committed_env_sel exec_commit ..

lemma reorg_statements_commit [simp]: "reorg_statements (committed_env env) = reorg_statements env"
  unfolding reorg_statements_def committed_env_sel exec_commit ..

lemma promotion_statements_commit [simp]: "promotion_statements (committed_env env) = promotion_statements env"
  unfolding promotion_statements_def promoteBalanceEvents_def committed_env_sel exec_commit ..

lemma commit_committed [simp]: "commit (committed_env env) d d' = (None, d')"
  by (simp add: commit_def)

lemma commit_all_or_nothing: "snd (commit env d d') \<in> {d, d'}"
  by (simp add: commit_def split: commit_outcome.split)

lemma writeBulkAndCommit_db:
  "snd (writeBulkAndCommit env cfg batch bs d) \<in> {d, snd (writeBulkAndCommit (committed_env env) cfg batch bs d)}"
proof (cases "write_bulk env cfg batch bs")
  case (Inr p)
  obtain tot d' where p: "p = (tot, d')" by (cases p)
  have "snd (writeBulkAndCommit env cfg batch bs d) = snd (commit env d d')"
    using Inr p by (auto simp: writeBulkAndCommit_def split: prod.split option.split sum.split bool.split)
  moreover have "snd (writeBulkAndCommit (committed_env env) cfg batch bs d) = d'"
    using Inr p by (simp add: writeBulkAndCommit_def)
  ultimately show ?thesis using commit_all_or_nothing [of env d d'] by simp
qed (simp add: writeBulkAndCommit_def)

lemma prepare_batch_commit [simp]: "prepare_batch (committed_env env) = prepare_batch env"
  unfolding prepare_batch_def scan_addr_map_commit prefetchBulkData_commit buildEventModels_commit ..

lemma ingest_phases_db:
  "snd (snd (ingest_phases env batch ig dtx d)) \<in> {d, snd (snd (ingest_phases (committed_env env) batch ig dtx d))}"
proof (cases "prepare_batch env batch ig dtx")
  case (Pair ig' r)
  show ?thesis
  proof (cases r)
    case (Inr bs)
    have "snd (snd (ingest_phases e batch ig dtx d)) = snd (writeBulkAndCommit e (ig_cfg ig) batch bs d)"
      if "e = env \<or> e = committed_env env" for e
    proof -
      have "prepare_batch e batch ig dtx = (ig', Inr bs)" using that Pair Inr by auto
      then show ?thesis by (simp add: ingest_phases_def split: prod.split sum.split)
    qed
    then show ?thesis using writeBulkAndCommit_db [of env "ig_cfg ig" batch bs d] by simp
  qed (simp add: ingest_phases_def Pair)
qed

lemma processBatch_db:
  "pb_db (processBatch env ig batch d) \<in> {d, pb_db (processBatch (committed_env env) ig batch d)}"
proof -
  let ?b = "canonical_cursors batch"
  have c: "snd (commit env d d') \<in> {d, d'}" for d' by (rule commit_all_or_nothing)
  have i: "snd (snd (ingest_phases env ?b ig dtx d)) \<in> {d, snd (snd (ingest_phases (committed_env env) ?b ig dtx d))}" for dtx
    by (rule ingest_phases_db)
  show ?thesis
  proof (cases "ic_hasInterleaver (ig_cfg ig) \<and> env_acquire env \<noteq> None \<or> env_begin env \<noteq> None")
    case True
    then show ?thesis by (auto simp: processBatch_def Let_def)
  next
    case go: False
    show ?thesis
    proof (cases "isCanonicalityDrift ?b \<and> \<not> isBTCRestartAnchorReplay ?b")
      case False
      with go i [of d] show ?thesis by (auto simp: processBatch_def Let_def case_prod_beta)
    next
      case True
      show ?thesis
      proof (cases "rollbackCanonicalityDrift env (withRollbackForkCursor ?b) d")
        case (Inl e)
        with go True show ?thesis by (auto simp: processBatch_def Let_def)
      next
        case (Inr d1)
        with go True i [of d1] c [of d1] show ?thesis
          by (auto simp: processBatch_def Let_def case_prod_beta split: prod.split option.split)
      qed
    qed
  qed
qed

lemma reorgInline_db: "snd (reorgInline env cfg re d) \<in> {d, snd (reorgInline (committed_env env) cfg re d)}"
proof (cases "reorg_statements env cfg re d")
  case (Inr d')
  then show ?thesis using commit_all_or_nothing [of env d d']
    by (auto simp: reorgInline_def split: option.split prod.split)
qed (simp add: reorgInline_def split: option.split)

lemma purge_pages_commit [simp]: "purge_pages (committed_env env) c n fromBlock page lastID d = purge_pages env c n fromBlock page lastID d"
proof (induction env c n fromBlock page lastID d rule: purge_pages.induct)
  case (1 env c n fromBlock page lastID d)
  show ?case
  proof (cases "exec env (StRollbackPage page) ''query rollback events: '' (Inr (fetchRollbackBatch c n fromBlock lastID rollbackBatchSize d))")
    case (Inr batch)
    show ?thesis
      unfolding purge_pages.simps [of _ c n fromBlock page] exec_commit Inr sum.case using "1.IH" [OF Inr]
      by (cases "length batch < rollbackBatchSize") simp_all
  qed (simp add: purge_pages.simps)
qed

lemma purge_statements_commit [simp]: "purge_statements (committed_env env) = purge_statements env"
  unfolding purge_statements_def purge_fetchRollbackEvents_def purge_pages_commit committed_env_sel exec_commit ..

lemma executePurge_db: "snd (executePurge env h req d) \<in> {d, snd (executePurge (committed_env env) h req d)}"
proof (cases "purge_statements env h req d")
  case (Inr rd)
  obtain r d' where "rd = (r, d')" by (cases rd)
  then show ?thesis using Inr commit_all_or_nothing [of env d d']
    by (auto simp: executePurge_def split: option.split prod.split)
qed (simp add: executePurge_def split: option.split)

lemma PurgeFromBlock_db: "snd (PurgeFromBlock env h req d) \<in> {d, snd (PurgeFromBlock (committed_env env) h req d)}"
  using executePurge_db [of env h req d] by (auto simp: PurgeFromBlock_def split: sum.split)

lemma handleReorg_db: "snd (handleReorg env cfg re d) \<in> {d, snd (handleReorg (committed_env env) cfg re d)}"
proof (cases "ic_replayService cfg")
  case None
  then show ?thesis using reorgInline_db by (simp add: handleReorg_def)
next
  case (Some h)
  have "snd (handleReorg e cfg re d) = snd (PurgeFromBlock e h (reorg_request re) d)" for e
    using Some by (simp add: handleReorg_def split: prod.split sum.split)
  then show ?thesis using PurgeFromBlock_db by simp
qed

lemma handleFinalityPromotion_db:
  "snd (handleFinalityPromotion env cfg fp d) \<in> {d, snd (handleFinalityPromotion (committed_env env) cfg fp d)}"
proof (cases "promotion_statements env cfg fp d")
  case (Inr d')
  then show ?thesis using commit_all_or_nothing [of env d d']
    by (auto simp: handleFinalityPromotion_def split: option.split prod.split)
qed (simp add: handleFinalityPromotion_def split: option.split)

section \<open>Aggregated deltas follow the events\<close>

definition delta_sum :: "balance_key \<Rightarrow> (adjustment_key \<times> adjustment_accum) list \<Rightarrow> int" where
  "delta_sum k ds = sum_list (map (\<lambda>(ak, acc). if fst ak = k then aa_delta acc else 0) ds)"

lemma delta_sum_simps [simp]:
  "delta_sum k [] = 0" "delta_sum k ((ak, acc) # ds) = (if fst ak = k then aa_delta acc else 0) + delta_sum k ds"
  by (simp_all add: delta_sum_def)

lemma delta_sum_add: "delta_sum k (add_delta ak delta cursor h ds) = delta_sum k ds + (if fst ak = k then delta else 0)"
  by (induction ak delta cursor h ds rule: add_delta.induct) auto

lemma add_delta_keys: "set (map fst (add_delta ak delta cursor h ds)) = insert ak (set (map fst ds))"
  by (induction ak delta cursor h ds rule: add_delta.induct) auto

lemma add_delta_distinct: "distinct (map fst ds) \<Longrightarrow> distinct (map fst (add_delta ak delta cursor h ds))"
proof (induction ak delta cursor h ds rule: add_delta.induct)
  case (2 ak delta cursor h k acc ds)
  then show ?case using add_delta_keys [of ak delta cursor h ds] by auto
qed simp

lemma item_sum_adjust_items: "item_sum k (adjust_items ds) = delta_sum k ds"
  unfolding adjust_items_def by (induction ds) (auto simp: ai_key_def)

lemma ai_key_adjust_items: "map ai_key (adjust_items ds) = map (fst \<circ> fst) ds"
  unfolding adjust_items_def by (induction ds) (auto simp: ai_key_def)

lemma SetString_spaces: "SetString v = Some d \<Longrightarrow> TrimSpace v = v"
proof (cases v)
  case (Cons c s)
  assume "SetString v = Some d"
  then have "list_all is_digit s" "is_digit c \<or> c = CHR ''-'' \<or> c = CHR ''+''"
    using Cons by (auto simp: parse_digits_def split: if_splits)
  moreover have "\<not> is_space (CHR ''-'')" "\<not> is_space (CHR ''+'')" by (simp_all add: is_space_def)
  ultimately have "list_all (\<lambda>c. \<not> is_space c) v" using Cons is_digit_not_space by (auto simp: list_all_iff)
  then show ?thesis by (rule TrimSpace_no_space)
qed simp

lemma aggregate_effect:
  assumes "aggregate ec tokenID ow ds = Inr ds'" "be_BalanceApplied (event_model batch ec txID tokenID ow b a)"
  shows "delta_sum k ds' = delta_sum k ds + effect (event_model batch ec txID tokenID ow b a) (nb_Chain batch, nb_Network batch, k)"
proof -
  obtain addr t ty where k: "k = (addr, t, ty)" by (cases k)
  let ?be = "ec_be ec"
  from assms(1) obtain delta where delta: "SetString (TrimSpace (ne_Delta ?be)) = Some delta"
    by (auto simp: aggregate_def Let_def split: option.splits)
  have m: "effect (event_model batch ec txID tokenID ow b a) (nb_Chain batch, nb_Network batch, k) =
    (if ne_Address ?be = addr \<and> tokenID = t
     then (if ty = '''' then delta else if ty = ''staked'' \<and> IsStakingActivity (ne_ActivityType ?be) then - delta else 0) else 0)"
    using assms(2) delta by (simp add: k event_model_def Let_def delta_val_def)
  show ?thesis
  proof (cases "IsStakingActivity (ne_ActivityType ?be)")
    case False
    with assms(1) delta m k show ?thesis by (auto simp: aggregate_def Let_def delta_sum_add)
  next
    case True
    with assms(1) delta obtain inverted where inv: "NegateDecimalString (ne_Delta ?be) = Inr inverted"
      by (auto simp: aggregate_def Let_def split: sum.splits)
    then obtain j where j: "SetString (ne_Delta ?be) = Some j" "inverted = big_String (- j)" by (auto simp: NegateDecimalString_Inr)
    have "j = delta" using delta j(1) SetString_spaces [OF j(1)] by simp
    then have "SetString (TrimSpace inverted) = Some (- delta)" using j(2) by (simp add: decimal_simps)
    with True assms(1) delta inv m k show ?thesis by (auto simp: aggregate_def Let_def delta_sum_add)
  qed
qed

lemma aggregate_keys:
  assumes "aggregate ec tokenID ow ds = Inr ds'"
  shows "distinct (map fst ds) \<Longrightarrow> distinct (map fst ds')"
    and "set (map fst ds') \<subseteq> set (map fst ds) \<union>
      {((ne_Address (ec_be ec), tokenID, ty), derefStr (ow_walletID ow), derefStr (ow_orgID ow)) | ty. True}"
proof -
  let ?k = "\<lambda>ty. ((ne_Address (ec_be ec), tokenID, ty), derefStr (ow_walletID ow), derefStr (ow_orgID ow))"
  have "\<exists>x y cur h. ds' = add_delta (?k '''') x cur h ds \<or> ds' = add_delta (?k ''staked'') y cur h (add_delta (?k '''') x cur h ds)"
    using assms by (auto simp: aggregate_def Let_def split: option.splits sum.splits if_splits)
  then obtain x y cur h where
    ds': "ds' = add_delta (?k '''') x cur h ds \<or> ds' = add_delta (?k ''staked'') y cur h (add_delta (?k '''') x cur h ds)" by blast
  show "distinct (map fst ds) \<Longrightarrow> distinct (map fst ds')" using ds' by (auto intro: add_delta_distinct)
  have "set (map fst ds') \<subseteq> set (map fst ds) \<union> {?k '''', ?k ''staked''}" using ds' add_delta_keys by blast
  then show "set (map fst ds') \<subseteq> set (map fst ds) \<union> {?k ty | ty. True}" by blast
qed

section \<open>One step of the event loop\<close>

lemma buildEventModels_Cons:
  assumes "buildEventModels env batch am pf i (ec # ecs) ig bs = (ig', Inr bs')"
  obtains (skip) "buildEventModels env batch am pf (i + 1) ecs ig bs = (ig', Inr bs')"
  | (deny) ig1 signal where "buildEventModels env batch am pf (i + 1) ecs ig1
        (bs\<lparr>bs_db := DenyTokenTx (nb_Chain batch) (nb_Network batch) (ne_ContractAddress (ec_be ec)) (''auto-detected: '' @ signal)
              ''ingester_auto'' 100 [signal] (bs_db bs), bs_denied := (bs_denied bs)(ne_ContractAddress (ec_be ec) \<mapsto> True)\<rparr>) = (ig', Inr bs')"
      "ig_addressIndex ig1 = ig_addressIndex ig"
  | (plain) tokenID txID ow b a where "\<not> be_BalanceApplied (event_model batch ec txID tokenID ow b a)"
      "buildEventModels env batch am pf (i + 1) ecs (snd (resolve_owner env batch am (ec_be ec) ig))
         (bs\<lparr>bs_events := bs_events bs @ [event_model batch ec txID tokenID ow b a]\<rparr>) = (ig', Inr bs')"
  | (applied) tokenID txID ow b a ds mem where "be_BalanceApplied (event_model batch ec txID tokenID ow b a)"
      "ow = fst (resolve_owner env batch am (ec_be ec) ig)" "aggregate ec tokenID ow (bs_deltas bs) = Inr ds"
      "buildEventModels env batch am pf (i + 1) ecs (snd (resolve_owner env batch am (ec_be ec) ig))
         (bs\<lparr>bs_events := bs_events bs @ [event_model batch ec txID tokenID ow b a], bs_mem := mem, bs_deltas := ds\<rparr>) = (ig', Inr bs')"
proof -
  let ?be = "ec_be ec"
  let ?contract = "ne_ContractAddress ?be"
  show thesis
  proof (cases "pf_tokenIDs pf ?contract = None \<or> pf_txIDs pf (ec_hash ec) = None \<or> bs_denied bs ?contract = Some True")
    case True
    then have "buildEventModels env batch am pf (i + 1) ecs ig bs = (ig', Inr bs')"
      using assms by (auto simp: Let_def split: option.splits)
    then show thesis by (rule skip)
  next
    case False
    then obtain tokenID txID where ids: "pf_tokenIDs pf ?contract = Some tokenID" "pf_txIDs pf (ec_hash ec) = Some txID"
      "bs_denied bs ?contract \<noteq> Some True" by auto
    define acc where "acc = (case bs_mem bs (ne_Address ?be, tokenID, '''') of Some bi \<Rightarrow> bi | None \<Rightarrow> \<lparr>bi_Amount = ''0'', bi_Exists = False\<rparr>)"
    define signal where "signal = detectScamSignal (env_unmarshal env) (nb_Chain batch) ?be (bi_Amount acc) (bi_Exists acc)"
    show thesis
    proof (cases "signal = ''''")
      case False
      then show thesis using assms ids deny [where signal = signal]
        by (auto simp: Let_def acc_def [symmetric] signal_def [symmetric] exec_def split: option.splits)
    next
      case True
      with assms ids obtain a where a: "addDecimalStrings (bi_Amount acc) (ne_Delta ?be) = Inr a"
        by (auto simp: Let_def acc_def [symmetric] signal_def [symmetric] split: sum.splits)
      obtain ow ig1 where r: "resolve_owner env batch am ?be ig = (ow, ig1)" by fastforce
      let ?m = "event_model batch ec txID tokenID ow (bi_Amount acc) a"
      show thesis
      proof (cases "be_BalanceApplied ?m")
        case False
        with assms ids True a r show thesis
          by (intro plain [OF False]) (simp add: Let_def acc_def [symmetric] signal_def [symmetric])
      next
        case ap: True
        with assms ids True a r obtain ds where "aggregate ec tokenID ow (bs_deltas bs) = Inr ds"
          by (auto simp: Let_def acc_def [symmetric] signal_def [symmetric] split: sum.splits)
        with assms ids True a r ap show thesis
          by (intro applied [OF ap]) (simp_all add: Let_def acc_def [symmetric] signal_def [symmetric])
      qed
    qed
  qed
qed

definition core_same :: "db \<Rightarrow> db \<Rightarrow> bool" where
  "core_same d d' \<longleftrightarrow> db_events d' = db_events d \<and> db_balances d' = db_balances d \<and> db_watermarks d' = db_watermarks d \<and> db_blocks d' = db_blocks d"

lemma core_same_Deny [simp]: "core_same d (DenyTokenTx c n contract reason source score signals d)"
  by (simp add: core_same_def DenyTokenTx_def Let_def)

lemma core_same_trans: "core_same a b \<Longrightarrow> core_same b c \<Longrightarrow> core_same a c"
  by (simp add: core_same_def)

lemma event_model_simps [simp]:
  "be_EventID (event_model batch ec txID tokenID ow b a) = ne_EventID (ec_be ec)"
  "be_BlockCursor (event_model batch ec txID tokenID ow b a) = nt_BlockCursor (ec_ntx ec)"
  by (simp_all add: event_model_def Let_def)

lemma effect_model_other:
  "(c, n) \<noteq> (nb_Chain batch, nb_Network batch) \<Longrightarrow> effect (event_model batch ec txID tokenID ow b a) (c, n, k) = 0"
  by (cases k) (auto simp: event_model_def Let_def)

lemma effect_not_applied: "\<not> be_BalanceApplied e \<Longrightarrow> effect e k = 0"
  by (cases k) simp

definition ids_of :: "event_ctx list \<Rightarrow> string list" where
  "ids_of ecs = map (\<lambda>ec. ne_EventID (ec_be ec)) ecs"

text \<open>The models appended by the loop carry a subsequence of the batch's event identifiers, and the
  aggregated deltas move exactly by their effect on the balances.\<close>

definition built :: "normalized_batch \<Rightarrow> event_ctx list \<Rightarrow> build_state \<Rightarrow> build_state \<Rightarrow> balance_event list \<Rightarrow> bool" where
  "built batch ecs bs bs' new \<longleftrightarrow> bs_events bs' = bs_events bs @ new \<and> subseq (map be_EventID new) (ids_of ecs) \<and>
     core_same (bs_db bs) (bs_db bs') \<and>
     (\<forall>c n k. effects new (c, n, k) =
        (if (c, n) = (nb_Chain batch, nb_Network batch) then delta_sum k (bs_deltas bs') - delta_sum k (bs_deltas bs) else 0))"

lemma built_skip:
  assumes "built batch ecs bs1 bs' new" "bs_events bs1 = bs_events bs" "bs_deltas bs1 = bs_deltas bs" "core_same (bs_db bs) (bs_db bs1)"
  shows "built batch (ec # ecs) bs bs' new"
  using assms by (auto simp: built_def ids_of_def core_same_def intro: list_emb_Cons)

lemma built_event:
  assumes "built batch ecs bs1 bs' new" "bs_events bs1 = bs_events bs @ [m]" "bs_db bs1 = bs_db bs"
    and "be_EventID m = ne_EventID (ec_be ec)"
    and "\<And>c n k. effect m (c, n, k) = (if (c, n) = (nb_Chain batch, nb_Network batch) then delta_sum k (bs_deltas bs1) - delta_sum k (bs_deltas bs) else 0)"
  shows "built batch (ec # ecs) bs bs' (m # new)"
  using assms by (auto simp: built_def ids_of_def)

lemma buildEventModels_built:
  "buildEventModels env batch am pf i ecs ig bs = (ig', Inr bs') \<Longrightarrow> \<exists>new. built batch ecs bs bs' new"
proof (induction ecs arbitrary: i ig bs)
  case Nil
  then have "built batch [] bs bs' []" by (simp add: built_def ids_of_def core_same_def)
  then show ?case ..
next
  case (Cons ec ecs)
  from Cons.prems show ?case
  proof (cases rule: buildEventModels_Cons)
    case skip
    from Cons.IH [OF skip] obtain new where "built batch ecs bs bs' new" ..
    then have "built batch (ec # ecs) bs bs' new" by (rule built_skip) (simp_all add: core_same_def)
    then show ?thesis ..
  next
    case (deny ig1 signal)
    from Cons.IH [OF deny(1)] obtain new where "built batch ecs (bs\<lparr>bs_db := DenyTokenTx (nb_Chain batch) (nb_Network batch) (ne_ContractAddress (ec_be ec)) (''auto-detected: '' @ signal)
              ''ingester_auto'' 100 [signal] (bs_db bs), bs_denied := (bs_denied bs)(ne_ContractAddress (ec_be ec) \<mapsto> True)\<rparr>) bs' new" ..
    then have "built batch (ec # ecs) bs bs' new" by (rule built_skip) simp_all
    then show ?thesis ..
  next
    case (plain tokenID txID ow b a)
    from Cons.IH [OF plain(2)] obtain new where
      "built batch ecs (bs\<lparr>bs_events := bs_events bs @ [event_model batch ec txID tokenID ow b a]\<rparr>) bs' new" ..
    then have "built batch (ec # ecs) bs bs' (event_model batch ec txID tokenID ow b a # new)"
      by (rule built_event) (use plain(1) in \<open>simp_all add: effect_not_applied\<close>)
    then show ?thesis ..
  next
    case (applied tokenID txID ow b a ds mem)
    let ?m = "event_model batch ec txID tokenID ow b a"
    from Cons.IH [OF applied(4)] obtain new where
      "built batch ecs (bs\<lparr>bs_events := bs_events bs @ [?m], bs_mem := mem, bs_deltas := ds\<rparr>) bs' new" ..
    then have "built batch (ec # ecs) bs bs' (?m # new)"
      by (rule built_event)
        (use aggregate_effect [OF applied(3,1)] effect_model_other [of _ _ batch ec txID tokenID ow b a] in auto)
    then show ?thesis ..
  qed
qed

section \<open>One adjustment per balance\<close>

text \<open>The wallet and organisation of an event are a function of its address: always outside block-scan
  mode, and in block-scan mode when every address is watched.\<close>

definition owner_of :: "ing_env \<Rightarrow> normalized_batch \<Rightarrow> (string \<rightharpoonup> addr_meta) option \<Rightarrow> normalized_balance_event \<Rightarrow> ingester \<Rightarrow> string \<times> string" where
  "owner_of env batch am be ig = (let ow = fst (resolve_owner env batch am be ig) in (derefStr (ow_walletID ow), derefStr (ow_orgID ow)))"

definition owner_fun :: "ing_env \<Rightarrow> normalized_batch \<Rightarrow> (string \<rightharpoonup> addr_meta) option \<Rightarrow> event_ctx list \<Rightarrow> (string \<Rightarrow> string \<times> string) \<Rightarrow> bool" where
  "owner_fun env batch am ecs f \<longleftrightarrow> (\<forall>ec \<in> set ecs. \<forall>ig. (nb_BlockScanMode batch \<longrightarrow> ig_addressIndex ig = None) \<longrightarrow>
     owner_of env batch am (ec_be ec) ig = f (ne_Address (ec_be ec)))"

lemma resolve_candidates_no_index: "ig_addressIndex ig = None \<Longrightarrow> snd (resolve_candidates env batch am cs ig) = ig"
  by (induction cs) (auto split: option.split)

lemma resolve_owner_ig:
  "nb_BlockScanMode batch \<longrightarrow> ig_addressIndex ig = None \<Longrightarrow> snd (resolve_owner env batch am be ig) = ig"
  using resolve_candidates_no_index [of ig env batch am "[ne_Address be, ne_CounterpartyAddress be]"]
  by (auto simp: resolve_owner_def split: prod.split option.split)

lemma buildEventModels_owned:
  assumes "buildEventModels env batch am pf i ecs ig bs = (ig', Inr bs')" "owner_fun env batch am ecs f"
    and "nb_BlockScanMode batch \<longrightarrow> ig_addressIndex ig = None"
    and "distinct (map fst (bs_deltas bs))" "\<forall>ak \<in> set (map fst (bs_deltas bs)). snd ak = f (fst (fst ak))"
  shows "distinct (map fst (bs_deltas bs')) \<and> (\<forall>ak \<in> set (map fst (bs_deltas bs')). snd ak = f (fst (fst ak)))"
  using assms
proof (induction ecs arbitrary: i ig bs)
  case (Cons ec ecs)
  have o: "owner_fun env batch am ecs f" using Cons.prems(2) by (simp add: owner_fun_def)
  from Cons.prems(1) show ?case
  proof (cases rule: buildEventModels_Cons)
    case skip
    from Cons.IH [OF skip o] Cons.prems show ?thesis by blast
  next
    case (deny ig1 signal)
    from Cons.IH [OF deny(1) o] deny(2) Cons.prems show ?thesis by simp
  next
    case (plain tokenID txID ow b a)
    from Cons.IH [OF plain(2) o] Cons.prems show ?thesis by (simp add: resolve_owner_ig)
  next
    case (applied tokenID txID ow b a ds mem)
    have "(derefStr (ow_walletID ow), derefStr (ow_orgID ow)) = f (ne_Address (ec_be ec))"
      using Cons.prems(2,3) applied(2) by (auto simp: owner_fun_def owner_of_def Let_def)
    then have "\<forall>ak \<in> set (map fst ds). snd ak = f (fst (fst ak))" using aggregate_keys(2) [OF applied(3)] Cons.prems(5) by fastforce
    moreover have "distinct (map fst ds)" using aggregate_keys(1) [OF applied(3)] Cons.prems(4) by blast
    moreover have "nb_BlockScanMode batch \<longrightarrow> ig_addressIndex (snd (resolve_owner env batch am (ec_be ec) ig)) = None"
      using Cons.prems(3) resolve_owner_ig [OF Cons.prems(3)] by simp
    ultimately show ?thesis
      by (intro Cons.IH [OF applied(4) o]) simp_all
  qed
qed simp

lemma owned_distinct:
  assumes "distinct (map fst ds)" "\<forall>ak \<in> set (map fst ds). snd ak = f (fst (fst ak))"
  shows "distinct (map (fst \<circ> fst) ds)"
proof -
  have "inj_on fst (set (map fst ds))"
    using assms(2) by (intro inj_onI) (metis prod.collapse)
  then have "distinct (map fst (map fst ds))" using assms(1) by (simp only: distinct_map)
  then show ?thesis by simp
qed

end
