(* ===== verification/Ingester_Safety.thy ===== *)
theory Ingester_Safety
  imports Ingester_Ledger
begin

text \<open>
  The ledger through the ingester's transactions: ingestion, reorg rollback and finality promotion
  keep every balance equal to the sum of its applied events, under the conditions the code needs;
  what a reported success means when the commit acknowledgement is lost; the watermark; retries.
\<close>

section \<open>Writing a batch\<close>

lemma core_same_refl [simp]: "core_same d d"
  by (simp add: core_same_def)

lemma ledger_ok_frame: "db_events d' = db_events d \<Longrightarrow> db_balances d' = db_balances d \<Longrightarrow> ledger_ok d' \<longleftrightarrow> ledger_ok d"
  by (simp add: ledger_ok_def GetBalance_def)

lemma core_same_ledger: "core_same d d' \<Longrightarrow> ledger_ok d' \<longleftrightarrow> ledger_ok d"
  by (intro ledger_ok_frame) (simp_all add: core_same_def)

lemma bulk_upserts_core:
  "tx_BulkUpsertTx txs d = Inr (m, d') \<Longrightarrow> core_same d d'"
  "tk_BulkUpsertTx toks d = Inr (m, d') \<Longrightarrow> core_same d d'"
  by (auto simp: tx_BulkUpsertTx_def tk_BulkUpsertTx_def core_same_def split: if_splits option.splits)

lemma prefetchBulkData_core:
  assumes "prefetchBulkData env batch co ig d = (ig', Inr (pf, d'))"
  shows "core_same d d'" "ig_addressIndex ig' = ig_addressIndex ig"
proof -
  from assms obtain txIDs d1 tokenIDs where
    "tx_BulkUpsertTx (co_txs co) d = Inr (txIDs, d1)" "tk_BulkUpsertTx (co_tokens co) d1 = Inr (tokenIDs, d')"
    by (auto simp: prefetchBulkData_def Let_def exec_Inr bindE_Inr split: sum.splits prod.splits)
  then show "core_same d d'" using bulk_upserts_core core_same_trans by blast
  show "ig_addressIndex ig' = ig_addressIndex ig"
    using assms by (auto simp: prefetchBulkData_def Let_def split: sum.splits prod.splits)
qed

lemma ib_BulkUpsertTx_frame: "ib_BulkUpsertTx bs d = Inr d' \<Longrightarrow> \<exists>rows. d' = d\<lparr>db_blocks := rows\<rparr>"
  by (cases "bs = []") (auto simp: ib_BulkUpsertTx_def intro: exI [of _ "db_blocks d"] split: option.splits)

text \<open>The statements of the write phase, in order.\<close>

lemma write_bulk_steps:
  assumes "write_bulk env cfg batch bs = Inr (tot, d')"
  obtains d1 d2 rows where
    "bs_events bs = [] \<and> d1 = bs_db bs \<or> (\<exists>r. be_BulkUpsertTx (env_now env) (bs_events bs) (bs_db bs) = Inr (r, d1))"
    "bs_deltas bs = [] \<and> d2 = d1 \<or>
       BulkAdjustBalanceTx (env_pick env) (nb_Chain batch) (nb_Network batch) (adjust_items (bs_deltas bs)) d1 = Inr d2"
    "d' = UpdateWatermarkTx (nb_Chain batch) (nb_Network batch) (nb_NewCursorSequence batch) (d2\<lparr>db_blocks := rows\<rparr>)"
proof -
  from assms obtain tot' d1 d2 d3 where s:
    "(if bs_events bs = [] then Inr (0, bs_db bs)
      else bindE (exec env StEvents ''bulk upsert balance events: '' (be_BulkUpsertTx (env_now env) (bs_events bs) (bs_db bs)))
              (\<lambda>(r, d). Inr (br_InsertedCount r + br_FinalityCrossedCount r, d))) = Inr (tot', d1)"
    "(if bs_deltas bs = [] then Inr d1
      else exec env StAdjust ''bulk adjust balances: ''
              (BulkAdjustBalanceTx (env_pick env) (nb_Chain batch) (nb_Network batch) (adjust_items (bs_deltas bs)) d1)) = Inr d2"
    "(if ic_hasBlockRepo cfg \<and> nb_Transactions batch \<noteq> [] \<and> batch_blocks batch \<noteq> []
      then exec env StBlocks ''bulk upsert indexed blocks: '' (ib_BulkUpsertTx (batch_blocks batch) d2) else Inr d2) = Inr d3"
    "UpdateWatermarkTx (nb_Chain batch) (nb_Network batch) (nb_NewCursorSequence batch) d3 = d'"
    unfolding write_bulk_def bindE_Inr [where m = "if bs_events bs = [] then A else B" for A B] split_paired_Ex case_prod_conv
    by (auto simp only: bindE_Inr exec_Inr Inr_inject prod.inject)
  have "bs_events bs = [] \<and> d1 = bs_db bs \<or> (\<exists>r. be_BulkUpsertTx (env_now env) (bs_events bs) (bs_db bs) = Inr (r, d1))"
    using s(1) by (auto simp: bindE_Inr exec_Inr split: if_splits)
  moreover have "bs_deltas bs = [] \<and> d2 = d1 \<or>
       BulkAdjustBalanceTx (env_pick env) (nb_Chain batch) (nb_Network batch) (adjust_items (bs_deltas bs)) d1 = Inr d2"
    using s(2) by (auto simp: exec_Inr split: if_splits)
  moreover have "\<exists>rows. d3 = d2\<lparr>db_blocks := rows\<rparr>"
  proof (cases "d3 = d2")
    case True
    then have "d3 = d2\<lparr>db_blocks := db_blocks d2\<rparr>" by simp
    then show ?thesis ..
  next
    case False
    then show ?thesis using s(3) ib_BulkUpsertTx_frame by (auto simp: exec_Inr split: if_splits)
  qed
  ultimately show thesis using s(4) that by blast
qed

lemma write_bulk_ledger:
  assumes "write_bulk env cfg batch bs = Inr (tot, d')" "ledger_ok (bs_db bs)" "pick_ok (env_pick env)"
    and f: "fresh_events (bs_events bs) (bs_db bs)" and "distinct (map (fst \<circ> fst) (bs_deltas bs))"
    and e: "\<And>c n k. effects (bs_events bs) (c, n, k) = (if (c, n) = (nb_Chain batch, nb_Network batch) then delta_sum k (bs_deltas bs) else 0)"
  shows "ledger_ok d'"
  using assms(1)
proof (cases rule: write_bulk_steps)
  case (1 d1 d2 rows)
  have d1: "db_balances d1 = db_balances (bs_db bs) \<and> effects (db_events d1) k = effects (db_events (bs_db bs)) k + effects (bs_events bs) k" for k
    using 1(1)
  proof
    assume "\<exists>r. be_BulkUpsertTx (env_now env) (bs_events bs) (bs_db bs) = Inr (r, d1)"
    then obtain r where "be_BulkUpsertTx (env_now env) (bs_events bs) (bs_db bs) = Inr (r, d1)" ..
    from be_BulkUpsertTx_fresh [OF f this] show ?thesis by (simp add: effects_number_rows)
  qed simp
  have d2: "db_events d2 = db_events d1 \<and> GetBalance c n k d2 = GetBalance c n k d1 + effects (bs_events bs) (c, n, k)" for c n k
  proof (cases "bs_deltas bs = []")
    case True
    then have "BulkAdjustBalanceTx (env_pick env) (nb_Chain batch) (nb_Network batch) (adjust_items (bs_deltas bs)) d1 = Inr d1"
      by (simp add: adjust_items_def BulkAdjustBalanceTx_def)
    then have "d2 = d1" using 1(2) by auto
    then show ?thesis using True e [of c n k] by simp
  next
    case False
    then have a: "BulkAdjustBalanceTx (env_pick env) (nb_Chain batch) (nb_Network batch) (adjust_items (bs_deltas bs)) d1 = Inr d2"
      using 1(2) by blast
    have "distinct (map ai_key (adjust_items (bs_deltas bs)))" using assms(5) by (simp only: ai_key_adjust_items)
    from BulkAdjust_distinct [OF assms(3) a this, of c n k] BulkAdjust_frame [OF a] e [of c n k]
    show ?thesis by (auto simp: item_sum_adjust_items)
  qed
  have "ledger_ok d2"
    using assms(2) d1 d2 unfolding ledger_ok_def by (simp add: GetBalance_def)
  moreover have "ledger_ok d' \<longleftrightarrow> ledger_ok d2" using 1(3) by (intro ledger_ok_frame) (simp_all add: UpdateWatermarkTx_def)
  ultimately show ?thesis by simp
qed

section \<open>Ingesting a batch\<close>

text \<open>The batch's event identifiers are non-empty, distinct and not stored yet.\<close>

definition new_batch :: "normalized_batch \<Rightarrow> db \<Rightarrow> bool" where
  "new_batch batch d \<longleftrightarrow> (let ids = ids_of (co_events (collectEvents batch)) in
     '''' \<notin> set ids \<and> distinct ids \<and> set ids \<inter> be_EventID ` set (db_events d) = {})"

text \<open>Every address has one owner in the batch: it is the batch's own outside block-scan mode, and
  the watched address's in block-scan mode.\<close>

definition single_owner :: "ing_env \<Rightarrow> ingester \<Rightarrow> normalized_batch \<Rightarrow> bool" where
  "single_owner env ig batch \<longleftrightarrow> \<not> nb_BlockScanMode batch \<or>
     (case fst (scan_addr_map env batch ig) of
        Inr (Some m) \<Rightarrow> list_all (\<lambda>ec. ne_Address (ec_be ec) \<noteq> '''' \<and> m (ne_Address (ec_be ec)) \<noteq> None) (co_events (collectEvents batch))
      | _ \<Rightarrow> False)"

lemma owner_fun_address_mode: "\<not> nb_BlockScanMode batch \<Longrightarrow> owner_fun env batch am ecs (\<lambda>a. (derefStr (nb_WalletID batch), derefStr (nb_OrgID batch)))"
  by (simp add: owner_fun_def owner_of_def resolve_owner_def)

lemma owner_fun_block_scan:
  assumes "list_all (\<lambda>ec. ne_Address (ec_be ec) \<noteq> '''' \<and> m (ne_Address (ec_be ec)) \<noteq> None) ecs" "nb_BlockScanMode batch"
  shows "owner_fun env batch (Some m) ecs (\<lambda>a. (derefStr (am_walletID (the (m a))), derefStr (am_orgID (the (m a)))))"
  using assms by (fastforce simp: owner_fun_def owner_of_def resolve_owner_def list_all_iff)

lemma scan_addr_map_index:
  assumes "scan_addr_map env batch ig = (r, ig')"
  shows "ig_addressIndex ig' = ig_addressIndex ig" "r = Inr (Some m) \<Longrightarrow> ig_addressIndex ig = None"
  using assms by (auto simp: scan_addr_map_def getBlockScanAddrMap_def Let_def split: if_splits sum.splits option.splits prod.splits)

lemma single_owner_fun:
  assumes "single_owner env ig batch" "scan_addr_map env batch ig = (Inr am, ig')"
  obtains f where "owner_fun env batch am (co_events (collectEvents batch)) f" "nb_BlockScanMode batch \<longrightarrow> ig_addressIndex ig' = None"
proof (cases "nb_BlockScanMode batch")
  case True
  with assms obtain m where m: "am = Some m"
    "list_all (\<lambda>ec. ne_Address (ec_be ec) \<noteq> '''' \<and> m (ne_Address (ec_be ec)) \<noteq> None) (co_events (collectEvents batch))"
    by (auto simp: single_owner_def split: option.splits)
  have "ig_addressIndex ig' = None" using scan_addr_map_index [OF assms(2)] m(1) by simp
  with owner_fun_block_scan [OF m(2) True] m(1) that show thesis by blast
next
  case False
  with owner_fun_address_mode [OF False] that show thesis by blast
qed

lemma prepare_batch_ledger:
  assumes "prepare_batch env batch ig d = (ig', Inr bs)" "single_owner env ig batch" "new_batch batch d" "ledger_ok d"
  shows "ledger_ok (bs_db bs)" "fresh_events (bs_events bs) (bs_db bs)" "distinct (map (fst \<circ> fst) (bs_deltas bs))"
    "effects (bs_events bs) (c, n, k) = (if (c, n) = (nb_Chain batch, nb_Network batch) then delta_sum k (bs_deltas bs) else 0)"
proof -
  let ?ecs = "co_events (collectEvents batch)"
  let ?bs = "\<lambda>pf d1. \<lparr>bs_mem = pf_balances pf, bs_denied = pf_denied pf, bs_events = [], bs_deltas = [], bs_db = d1\<rparr>"
  from assms(1) obtain am ig1 ig2 pf d1 where s: "scan_addr_map env batch ig = (Inr am, ig1)"
    "prefetchBulkData env batch (collectEvents batch) ig1 d = (ig2, Inr (pf, d1))"
    and b: "buildEventModels env batch am pf 0 ?ecs ig2 (?bs pf d1) = (ig', Inr bs)"
    by (auto simp: prepare_batch_def split: prod.splits sum.splits)
  from single_owner_fun [OF assms(2) s(1)] obtain f where
    f: "owner_fun env batch am ?ecs f" "nb_BlockScanMode batch \<longrightarrow> ig_addressIndex ig1 = None" .
  from buildEventModels_built [OF b] obtain new where n: "built batch ?ecs (?bs pf d1) bs new" ..
  have core: "core_same d (bs_db bs)"
    using n prefetchBulkData_core(1) [OF s(2)] by (auto simp: built_def intro: core_same_trans)
  then show "ledger_ok (bs_db bs)" using assms(4) by (simp add: core_same_ledger)
  have new: "bs_events bs = new" "subseq (map be_EventID new) (ids_of ?ecs)" using n by (auto simp: built_def)
  have "set (map be_EventID new) \<subseteq> set (ids_of ?ecs)" "distinct (ids_of ?ecs) \<longrightarrow> distinct (map be_EventID new)"
    using new(2) set_nths_subset distinct_nthsI unfolding subseq_conv_nths by metis+
  then show "fresh_events (bs_events bs) (bs_db bs)"
    using assms(3) core new(1) unfolding fresh_events_def new_batch_def Let_def core_same_def by auto
  show "distinct (map (fst \<circ> fst) (bs_deltas bs))"
    using buildEventModels_owned [OF b f(1)] f(2) prefetchBulkData_core(2) [OF s(2)] by (intro owned_distinct [of _ f]) simp_all
  show "effects (bs_events bs) (c, n, k) = (if (c, n) = (nb_Chain batch, nb_Network batch) then delta_sum k (bs_deltas bs) else 0)"
  proof -
    from n have "\<forall>c n k. effects new (c, n, k) = (if (c, n) = (nb_Chain batch, nb_Network batch) then delta_sum k (bs_deltas bs) - 0 else 0)"
      unfolding built_def build_state.simps delta_sum_simps by blast
    then have "effects new (c, n, k) = (if (c, n) = (nb_Chain batch, nb_Network batch) then delta_sum k (bs_deltas bs) - 0 else 0)" by blast
    then show ?thesis unfolding new(1) by simp
  qed
qed

lemma ingest_phases_ledger:
  assumes "single_owner env ig batch" "new_batch batch dtx" "ledger_ok dtx" "pick_ok (env_pick env)" "ledger_ok d"
  shows "ledger_ok (snd (snd (ingest_phases env batch ig dtx d)))"
proof (cases "prepare_batch env batch ig dtx")
  case (Pair ig' r)
  show ?thesis
  proof (cases r)
    case (Inr bs)
    note p = prepare_batch_ledger [OF Pair [unfolded Inr] assms(1-3)]
    have "ledger_ok (snd (writeBulkAndCommit (committed_env env) (ig_cfg ig) batch bs d))"
    proof (cases "write_bulk env (ig_cfg ig) batch bs")
      case (Inr td)
      obtain tot d' where td: "td = (tot, d')" by (cases td)
      have "ledger_ok d'" by (rule write_bulk_ledger [OF Inr [unfolded td] p(1) assms(4) p(2,3,4)])
      then show ?thesis using Inr td by (simp add: writeBulkAndCommit_def)
    qed (simp add: writeBulkAndCommit_def assms(5))
    then have "ledger_ok (snd (writeBulkAndCommit env (ig_cfg ig) batch bs d))"
      using writeBulkAndCommit_db [of env "ig_cfg ig" batch bs d] assms(5) by auto
    then show ?thesis using Pair Inr by (auto simp: ingest_phases_def split: prod.split sum.split)
  qed (simp add: ingest_phases_def Pair assms(5))
qed

lemma canonical_cursors_simps [simp]:
  "nb_Chain (canonical_cursors b) = nb_Chain b" "nb_Network (canonical_cursors b) = nb_Network b"
  "nb_Transactions (canonical_cursors b) = nb_Transactions b" "nb_BlockScanMode (canonical_cursors b) = nb_BlockScanMode b"
  "nb_NewCursorSequence (canonical_cursors b) = nb_NewCursorSequence b"
  by (simp_all add: canonical_cursors_def)

lemma collectEvents_canonical [simp]: "collectEvents (canonical_cursors b) = collectEvents b"
proof -
  have "collect_tx (canonical_cursors b) co ntx = collect_tx b co ntx" for co ntx
    unfolding collect_tx_def canonical_tx_hash_def tx_model_def token_model_def buildFeeOnlyEvent_def canonical_cursors_simps ..
  then show ?thesis unfolding collectEvents_def canonical_cursors_simps by presburger
qed

lemma single_owner_canonical: "single_owner env ig (canonical_cursors b) = single_owner env ig b"
  unfolding single_owner_def scan_addr_map_def collectEvents_canonical canonical_cursors_simps ..

lemma new_batch_canonical: "new_batch (canonical_cursors b) d = new_batch b d"
  unfolding new_batch_def collectEvents_canonical ..

section \<open>Rollback and promotion items\<close>

text \<open>The keys of the items made for one event, and for a list of events of one chain.\<close>

definition event_keys :: "balance_event \<Rightarrow> balance_key list" where
  "event_keys e = (be_Address e, be_TokenID e, '''') #
     (if IsStakingActivity (be_ActivityType e) then [(be_Address e, be_TokenID e, ''staked'')] else [])"

lemma distinct_event_keys:
  "distinct (map (\<lambda>e. (be_Address e, be_TokenID e)) es) \<Longrightarrow> distinct (concat (map event_keys es))"
proof (induction es)
  case (Cons e es)
  have "(be_Address e, be_TokenID e, ty) \<notin> set (concat (map event_keys es))" for ty
    using Cons.prems by (fastforce simp: event_keys_def split: if_splits)
  with Cons show ?case by (auto simp: event_keys_def)
qed simp

lemma Negate_delta_val:
  assumes "NegateDecimalString v = Inr w"
  shows "delta_val w = - delta_val v"
proof -
  from assms obtain i where "SetString v = Some i" "w = big_String (- i)" by (auto simp: NegateDecimalString_Inr)
  then show ?thesis using SetString_spaces [of v i] by (simp add: delta_val_def [of v])
qed

lemma buildReversal_items:
  assumes "buildReversalAdjustItems (map scan_event es) = Inr items" "\<forall>e \<in> set es. be_Chain e = c \<and> be_Network e = n"
  shows "map ai_key items = concat (map event_keys (filter be_BalanceApplied es))" "item_sum k items = - effects es (c, n, k)"
  using assms
proof (induction es arbitrary: items)
  case (Cons e es)
  obtain a t ty where k: "k = (a, t, ty)" by (cases k)
  {
    case 1
    with Cons.IH(1) show ?case
      by (auto simp: scan_event_def event_item_def ai_key_def event_keys_def split: if_splits sum.splits)
  next
    case 2
    with Cons.IH(2) show ?case
      by (auto simp: k scan_event_def event_item_def ai_key_def Negate_delta_val split: if_splits sum.splits)
  }
qed simp_all

lemma buildPromotion_items:
  assumes "buildPromotionAdjustItems (map scan_event es) = Inr items" "\<forall>e \<in> set es. be_Chain e = c \<and> be_Network e = n"
  shows "map ai_key items = concat (map event_keys es)"
    "item_sum k items = effects (map (\<lambda>e. e\<lparr>be_BalanceApplied := True\<rparr>) es) (c, n, k)"
  using assms
proof (induction es arbitrary: items)
  case (Cons e es)
  obtain a t ty where k: "k = (a, t, ty)" by (cases k)
  {
    case 1
    with Cons.IH(1) show ?case
      by (auto simp: scan_event_def event_item_def ai_key_def event_keys_def split: if_splits sum.splits)
  next
    case 2
    with Cons.IH(2) show ?case
      by (auto simp: k scan_event_def event_item_def ai_key_def Negate_delta_val split: if_splits sum.splits)
  }
qed simp_all

lemma effects_other_chain:
  "\<forall>e \<in> set xs. be_Chain e = c \<and> be_Network e = n \<Longrightarrow> \<not> (c' = c \<and> n' = n) \<Longrightarrow> effects xs (c', n', k) = 0"
  by (induction xs) (cases k; auto)+

lemma effects_perm: "mset es = mset es' \<Longrightarrow> effects es k = effects es' k"
  unfolding effects_def by (metis mset_map sum_mset_sum_list)

section \<open>Rollback keeps the ledger\<close>

lemma wrapped_Inr: "(case r of Inl e \<Rightarrow> Inl (f e) | Inr x \<Rightarrow> Inr x) = Inr y \<longleftrightarrow> r = Inr y"
  by (cases r) auto

lemma optional_Inr: "(if b then Inr d else exec env st msg r) = Inr d' \<longleftrightarrow> b \<and> d' = d \<or> \<not> b \<and> env_fault env st = None \<and> r = Inr d'"
  by (auto simp: exec_Inr)

lemma optional_Inr': "(if b then exec env st msg r else Inr d) = Inr d' \<longleftrightarrow> b \<and> env_fault env st = None \<and> r = Inr d' \<or> \<not> b \<and> d' = d"
  by (auto simp: exec_Inr)

lemma optional_bind_Inr: "(if b then Inr d else bindE m f) = Inr d' \<longleftrightarrow> b \<and> d' = d \<or> \<not> b \<and> (\<exists>x. m = Inr x \<and> f x = Inr d')"
  by (auto simp: bindE_Inr)

lemmas statement_Inr = bindE_Inr wrapped_Inr optional_Inr optional_Inr' exec_Inr Inr_inject Let_def

text \<open>No two applied events that are rolled back move the same balance.\<close>

definition one_event_per_balance :: "(balance_event \<Rightarrow> bool) \<Rightarrow> db \<Rightarrow> bool" where
  "one_event_per_balance hit d \<longleftrightarrow> distinct (map (\<lambda>e. (be_Address e, be_TokenID e)) (filter hit (db_events d)))"

text \<open>Deleting events whose effect has been taken out of the balances.\<close>

lemma deleted_ledger:
  assumes hit: "\<And>e. hit e \<Longrightarrow> be_Chain e = c \<and> be_Network e = n" and es: "mset es = mset (filter hit (db_events d))"
    and bal: "\<And>c' n' k. GetBalance c' n' k d1 = GetBalance c' n' k d - (if c' = c \<and> n' = n then effects es (c, n, k) else 0)"
    and "db_events d1 = db_events d" "ledger_ok d"
  shows "ledger_ok (delete_events hit d1)"
proof -
  have "GetBalance c' n' k (delete_events hit d1) = effects (db_events (delete_events hit d1)) (c', n', k)" for c' n' k
  proof -
    have "effects (filter hit (db_events d)) (c', n', k) = (if c' = c \<and> n' = n then effects es (c', n', k) else 0)"
    proof (cases "c' = c \<and> n' = n")
      case False
      then show ?thesis using hit effects_other_chain [of "filter hit (db_events d)" c n c' n' k] by auto
    qed (simp add: effects_perm [OF es])
    moreover have "effects (db_events d) (c', n', k) = effects (filter hit (db_events d)) (c', n', k) + effects (filter (\<lambda>e. \<not> hit e) (db_events d)) (c', n', k)"
      by (rule effects_filter_split)
    moreover have "GetBalance c' n' k d = effects (db_events d) (c', n', k)" using assms(5) unfolding ledger_ok_def by blast
    moreover have "GetBalance c' n' k (delete_events hit d1) = GetBalance c' n' k d1" by (simp add: GetBalance_def delete_events_def)
    moreover have "db_events (delete_events hit d1) = filter (\<lambda>e. \<not> hit e) (db_events d)" using assms(4) by (simp add: delete_events_def)
    ultimately show ?thesis using bal [of c' n' k] by (cases "c' = c \<and> n' = n") simp_all
  qed
  then show ?thesis by (simp add: ledger_ok_def)
qed

lemma reverted_events:
  assumes hit: "\<And>e. hit e \<Longrightarrow> be_Chain e = c \<and> be_Network e = n" and es: "mset es = mset (filter hit (db_events d))"
    and "one_event_per_balance (\<lambda>e. hit e \<and> be_BalanceApplied e) d"
  shows "\<forall>e \<in> set es. be_Chain e = c \<and> be_Network e = n" "distinct (map (\<lambda>e. (be_Address e, be_TokenID e)) (filter be_BalanceApplied es))"
proof -
  have "set es = set (filter hit (db_events d))" using es by (rule mset_eq_setD)
  then show "\<forall>e \<in> set es. be_Chain e = c \<and> be_Network e = n" using hit by simp
  have "mset (filter be_BalanceApplied es) = mset (filter (\<lambda>e. hit e \<and> be_BalanceApplied e) (db_events d))"
    using es by (metis filter_filter mset_filter)
  then show "distinct (map (\<lambda>e. (be_Address e, be_TokenID e)) (filter be_BalanceApplied es))"
    using assms(3) unfolding one_event_per_balance_def by (metis mset_map mset_eq_imp_distinct_iff)
qed

lemma revert_ledger:
  assumes hit: "\<And>e. hit e \<Longrightarrow> be_Chain e = c \<and> be_Network e = n"
    and items: "buildReversalAdjustItems (map scan_event es) = Inr items" and es: "mset es = mset (filter hit (db_events d))"
    and adj: "items = [] \<and> d1 = d \<or> BulkAdjustBalanceTx pick c n items d = Inr d1"
    and "ledger_ok d" "pick_ok pick" "one_event_per_balance (\<lambda>e. hit e \<and> be_BalanceApplied e) d"
  shows "ledger_ok (delete_events hit d1)"
proof (rule deleted_ledger [OF hit es _ _ assms(5)])
  note ev = reverted_events [OF hit es assms(7)]
  have dk: "distinct (map ai_key items)" using buildReversal_items(1) [OF items ev(1)] distinct_event_keys [OF ev(2)] by simp
  have adj': "BulkAdjustBalanceTx pick c n items d = Inr d1" using adj by (auto simp: BulkAdjustBalanceTx_def)
  show "GetBalance c' n' k d1 = GetBalance c' n' k d - (if c' = c \<and> n' = n then effects es (c, n, k) else 0)" for c' n' k
    using BulkAdjust_distinct [OF assms(6) adj' dk, of c' n' k] buildReversal_items(2) [OF items ev(1), of k] by simp
  show "db_events d1 = db_events d" using BulkAdjust_frame [OF adj'] by auto
qed

abbreviation from_fork :: "reorg_event \<Rightarrow> balance_event \<Rightarrow> bool" where
  "from_fork re e \<equiv> be_Chain e = re_Chain re \<and> be_Network e = re_Network re \<and> be_BlockCursor e \<ge> re_ForkBlockNumber re"

text \<open>The statements of a reorg rollback, in order.\<close>

lemma reorg_steps:
  assumes "reorg_statements env cfg re d = Inr d'"
  obtains items d1 d4 where
    "buildReversalAdjustItems (map scan_event (rev (sort_key (\<lambda>e. (be_BlockCursor e, be_ID e)) (filter (from_fork re) (db_events d))))) = Inr items"
    "items = [] \<and> d1 = d \<or> BulkAdjustBalanceTx (env_pick env) (re_Chain re) (re_Network re) items d = Inr d1"
    "d4 = (let d3 = delete_transactions (re_Chain re) (re_Network re) (re_ForkBlockNumber re) (delete_events (from_fork re) d1)
           in if ic_hasBlockRepo cfg then snd (DeleteFromBlockTx (re_Chain re) (re_Network re) (re_ForkBlockNumber re) d3) else d3)"
    "d' = RewindWatermarkTx (re_Chain re) (re_Network re) (rewind_sequence (re_ForkBlockNumber re)) d4"
proof -
  let ?del = "\<lambda>d1. delete_transactions (re_Chain re) (re_Network re) (re_ForkBlockNumber re) (delete_events (from_fork re) d1)"
  from assms obtain items d1 d4 where
    "buildReversalAdjustItems (map scan_event (rev (sort_key (\<lambda>e. (be_BlockCursor e, be_ID e)) (filter (from_fork re) (db_events d))))) = Inr items"
    "items = [] \<and> d1 = d \<or> BulkAdjustBalanceTx (env_pick env) (re_Chain re) (re_Network re) items d = Inr d1"
    "ic_hasBlockRepo cfg \<and> snd (DeleteFromBlockTx (re_Chain re) (re_Network re) (re_ForkBlockNumber re) (?del d1)) = d4 \<or> \<not> ic_hasBlockRepo cfg \<and> d4 = ?del d1"
    "RewindWatermarkTx (re_Chain re) (re_Network re) (rewind_sequence (re_ForkBlockNumber re)) d4 = d'"
    unfolding reorg_statements_def statement_Inr fetchReorgRollbackEvents_def by blast
  then show thesis using that [of items d1 d4] by (auto simp: Let_def)
qed

lemma reorg_ledger:
  assumes "reorg_statements env cfg re d = Inr d'" "ledger_ok d" "pick_ok (env_pick env)"
    "one_event_per_balance (\<lambda>e. from_fork re e \<and> be_BalanceApplied e) d"
  shows "ledger_ok d'"
  using assms(1)
proof (cases rule: reorg_steps)
  case (1 items d1 d4)
  have "ledger_ok (delete_events (from_fork re) d1)"
    by (rule revert_ledger [OF _ 1(1) _ 1(2) assms(2,3,4)]) auto
  moreover have "db_events d' = db_events (delete_events (from_fork re) d1)" "db_balances d' = db_balances (delete_events (from_fork re) d1)"
    using 1(3,4) by (simp_all add: RewindWatermarkTx_def DeleteFromBlockTx_def delete_transactions_def Let_def)
  ultimately show ?thesis using ledger_ok_frame by metis
qed

lemma drift_ledger:
  assumes "rollbackCanonicalityDrift env batch d = Inr d'" "ledger_ok d" "pick_ok (env_pick env)"
    "one_event_per_balance (\<lambda>e. rollback_hit batch e \<and> be_BalanceApplied e) d"
  shows "ledger_ok d'"
proof -
  let ?es = "rev (sort_key (\<lambda>e. (be_BlockCursor e, be_ID e)) (filter (rollback_hit batch) (db_events d)))"
  have fetch: "(if nb_BlockScanMode batch then fetchReorgRollbackEvents (nb_Chain batch) (nb_Network batch) (rollbackForkCursorSequence batch) d
      else fetchRollbackEvents (nb_Chain batch) (nb_Network batch) (nb_Address batch) (rollbackForkCursorSequence batch) d) = map scan_event ?es"
    unfolding fetchReorgRollbackEvents_def fetchRollbackEvents_def rollback_hit_def by (cases "nb_BlockScanMode batch") simp_all
  from assms(1) obtain items d1 where items: "buildReversalAdjustItems (map scan_event ?es) = Inr items"
    and adj: "items = [] \<and> d1 = d \<or> BulkAdjustBalanceTx (env_pick env) (nb_Chain batch) (nb_Network batch) items d = Inr d1"
    and d'_eq: "RewindWatermarkTx (nb_Chain batch) (nb_Network batch) (rewind_sequence (rollbackForkCursorSequence batch)) (delete_events (rollback_hit batch) d1) = d'"
    unfolding rollbackCanonicalityDrift_def statement_Inr fetch by blast
  have d': "db_events d' = db_events (delete_events (rollback_hit batch) d1)" "db_balances d' = db_balances (delete_events (rollback_hit batch) d1)"
    using d'_eq by (auto simp: RewindWatermarkTx_def)
  have "ledger_ok (delete_events (rollback_hit batch) d1)"
    by (rule revert_ledger [OF _ items _ adj assms(2,3,4)]) (auto simp: rollback_hit_def)
  then show ?thesis using ledger_ok_frame [OF d'] by simp
qed

text \<open>The database the four phases run on: after the rollback when the batch drifts.\<close>

definition ingest_view :: "ing_env \<Rightarrow> normalized_batch \<Rightarrow> db \<Rightarrow> db" where
  "ingest_view env batch d =
     (if isCanonicalityDrift batch \<and> \<not> isBTCRestartAnchorReplay batch
      then (case rollbackCanonicalityDrift env (withRollbackForkCursor batch) d of Inl _ \<Rightarrow> d | Inr d1 \<Rightarrow> d1) else d)"

lemma processBatch_cases:
  obtains (error) e where "pb_err (processBatch env ig batch d) = Some e" "pb_db (processBatch env ig batch d) = d"
    "\<And>oc. pb_db (processBatch (env\<lparr>env_commit := oc\<rparr>) ig batch d) = d"
  | (rollback) "pb_err (processBatch env ig batch d) = None \<longleftrightarrow> fst (commit env d (ingest_view env (canonical_cursors batch) d)) = None"
      "pb_db (processBatch env ig batch d) = snd (commit env d (ingest_view env (canonical_cursors batch) d))"
      "isCanonicalityDrift (canonical_cursors batch)" 
  | (ingest) "pb_err (processBatch env ig batch d) =
        fst (ingest_phases env (canonical_cursors batch) ig (ingest_view env (canonical_cursors batch) d) d)"
      "pb_db (processBatch env ig batch d) =
        snd (snd (ingest_phases env (canonical_cursors batch) ig (ingest_view env (canonical_cursors batch) d) d))"
proof -
  let ?b = "canonical_cursors batch"
  have rc: "rollbackCanonicalityDrift (env\<lparr>env_commit := oc\<rparr>) b d = rollbackCanonicalityDrift env b d" for oc b
    using rollbackCanonicalityDrift_commit [of "env\<lparr>env_commit := oc\<rparr>"] rollbackCanonicalityDrift_commit [of env] by simp
  show thesis
  proof (cases "ic_hasInterleaver (ig_cfg ig) \<and> env_acquire env \<noteq> None \<or> env_begin env \<noteq> None")
    case True
    then show thesis by (intro error [of "if ic_hasInterleaver (ig_cfg ig) \<and> env_acquire env \<noteq> None then the (env_acquire env)
        else ErrWrap ''begin tx: '' (the (env_begin env))"]) (auto simp: processBatch_def Let_def)
  next
    case go: False
    show thesis
    proof (cases "isCanonicalityDrift ?b \<and> \<not> isBTCRestartAnchorReplay ?b")
      case False
      with go show thesis by (intro ingest) (auto simp: processBatch_def Let_def case_prod_beta ingest_view_def)
    next
      case drift: True
      show thesis
      proof (cases "rollbackCanonicalityDrift env (withRollbackForkCursor ?b) d")
        case (Inl e)
        with go drift rc show thesis by (intro error [of "ErrWrap ''handle reorg path: '' e"]) (auto simp: processBatch_def Let_def)
      next
        case (Inr d1)
        then have v: "ingest_view env ?b d = d1" using drift by (simp add: ingest_view_def)
        show thesis
        proof (cases "shouldContinueCompetingBranchReplay ?b")
          case True
          with go drift Inr v show thesis by (intro ingest) (auto simp: processBatch_def Let_def case_prod_beta)
        next
          case False
          with go drift Inr v show thesis
            by (intro rollback) (auto simp: processBatch_def Let_def case_prod_beta split: prod.splits option.splits)
        qed
      qed
    qed
  qed
qed

lemma ingest_view_ledger:
  assumes "ledger_ok d" "pick_ok (env_pick env)"
    "isCanonicalityDrift batch \<longrightarrow> one_event_per_balance (\<lambda>e. rollback_hit (withRollbackForkCursor batch) e \<and> be_BalanceApplied e) d"
  shows "ledger_ok (ingest_view env batch d)"
  using assms drift_ledger [of env "withRollbackForkCursor batch" d] by (auto simp: ingest_view_def split: sum.split)

lemma processBatch_ledger:
  assumes "single_owner env ig batch" "new_batch batch (ingest_view env (canonical_cursors batch) d)" "ledger_ok d" "pick_ok (env_pick env)"
    and "isCanonicalityDrift (canonical_cursors batch) \<longrightarrow>
      one_event_per_balance (\<lambda>e. rollback_hit (withRollbackForkCursor (canonical_cursors batch)) e \<and> be_BalanceApplied e) d"
  shows "ledger_ok (pb_db (processBatch env ig batch d))"
proof (cases rule: processBatch_cases [of env ig batch d])
  case error
  then show ?thesis using assms(3) by simp
next
  case rollback
  then show ?thesis
    using commit_all_or_nothing [of env d "ingest_view env (canonical_cursors batch) d"] assms(3) ingest_view_ledger [OF assms(3,4,5)] by auto
next
  case ingest
  then show ?thesis
    using ingest_phases_ledger [OF _ _ ingest_view_ledger [OF assms(3,4,5)] assms(4,3)] assms(1,2)
    by (simp add: single_owner_canonical new_batch_canonical)
qed

section \<open>The purge keeps the ledger\<close>

lemma scan_event_simps:
  "rv_TokenID (scan_event e) = be_TokenID e" "rv_Address (scan_event e) = be_Address e" "rv_Delta (scan_event e) = be_Delta e"
  "rv_ActivityType (scan_event e) = be_ActivityType e" "rv_BalanceApplied (scan_event e) = be_BalanceApplied e"
  by (simp_all add: scan_event_def)

lemma purge_items_sound:
  assumes "purge_items (map scan_event es) = Inr (liquid, staked)" "\<forall>e \<in> set es. be_Chain e = c \<and> be_Network e = n"
  shows "map ai_key liquid = map (\<lambda>e. (be_Address e, be_TokenID e, '''')) (filter be_BalanceApplied es)"
    "map ai_key staked = map (\<lambda>e. (be_Address e, be_TokenID e, ''staked''))
       (filter (\<lambda>e. IsStakingActivity (be_ActivityType e)) (filter be_BalanceApplied es))"
    "item_sum k liquid + item_sum k staked = - effects es (c, n, k)"
  using assms
proof (induction es arbitrary: liquid staked)
  case (Cons e es)
  obtain a t ty where k: "k = (a, t, ty)" by (cases k)
  {
    case 1
    with Cons.IH(1) show ?case by (auto simp: scan_event_def event_item_def ai_key_def split: if_splits sum.splits prod.splits)
  next
    case 2
    with Cons.IH(2) show ?case by (auto simp: scan_event_def event_item_def ai_key_def split: if_splits sum.splits prod.splits)
  next
    case 3
    show ?case
    proof (cases "be_BalanceApplied e")
      case False
      then show ?thesis using 3 Cons.IH(3) by (auto simp: scan_event_def effect_not_applied)
    next
      case True
      with 3 obtain inv l s where i: "NegateDecimalString (be_Delta e) = Inr inv" "purge_items (map scan_event es) = Inr (l, s)"
        "liquid = event_item (scan_event e) inv '''' # l"
        "staked = (if IsStakingActivity (be_ActivityType e) then event_item (scan_event e) (be_Delta e) ''staked'' # s else s)"
        by (auto simp: scan_event_simps split: sum.splits prod.splits)
      have "item_sum k l + item_sum k s = - effects es (c, n, k)" using Cons.IH(3) i(2) 3(2) by simp
      moreover have "be_Chain e = c" "be_Network e = n" using 3(2) by simp_all
      ultimately show ?thesis using True i(3,4) Negate_delta_val [OF i(1)]
        by (auto simp: k scan_event_def event_item_def ai_key_def)
    qed
  }
qed simp_all

lemma distinct_tagged:
  "distinct (map (\<lambda>e. (f e, g e)) es) \<Longrightarrow> distinct (map (\<lambda>e. (f e, g e, t)) (filter P es))"
  by (induction es) auto

text \<open>The statements of a purge, in order.\<close>

lemma purge_steps:
  assumes "purge_statements env h req d = Inr (r, d')"
  obtains evs liquid staked d1 d2 d5 where
    "purge_fetchRollbackEvents env (pr_Chain req) (pr_Network req) (pr_FromBlock req) d = Inr evs"
    "purge_items (map scan_event evs) = Inr (liquid, staked)"
    "liquid = [] \<and> d1 = d \<or> BulkAdjustBalanceTx (env_pick env) (pr_Chain req) (pr_Network req) liquid d = Inr d1"
    "staked = [] \<and> d2 = d1 \<or> BulkAdjustBalanceTx (env_pick env) (pr_Chain req) (pr_Network req) staked d1 = Inr d2"
    "\<exists>blocks. d5 = (delete_transactions (pr_Chain req) (pr_Network req) (pr_FromBlock req)
        (delete_events (purge_hit (pr_Chain req) (pr_Network req) (pr_FromBlock req)) d2))\<lparr>db_blocks := blocks\<rparr>"
    "d' = RewindWatermarkTx (pr_Chain req) (pr_Network req) (rewind_sequence (pr_FromBlock req)) d5"
proof -
  let ?del = "\<lambda>d2. delete_transactions (pr_Chain req) (pr_Network req) (pr_FromBlock req)
        (delete_events (purge_hit (pr_Chain req) (pr_Network req) (pr_FromBlock req)) d2)"
  from assms obtain evs liquid staked d1 d2 k d5 where s:
    "purge_fetchRollbackEvents env (pr_Chain req) (pr_Network req) (pr_FromBlock req) d = Inr evs"
    "purge_items (map scan_event evs) = Inr (liquid, staked)"
    "liquid = [] \<and> d1 = d \<or> BulkAdjustBalanceTx (env_pick env) (pr_Chain req) (pr_Network req) liquid d = Inr d1"
    "staked = [] \<and> d2 = d1 \<or> BulkAdjustBalanceTx (env_pick env) (pr_Chain req) (pr_Network req) staked d1 = Inr d2"
    "h \<and> DeleteFromBlockTx (pr_Chain req) (pr_Network req) (pr_FromBlock req) (?del d2) = (k, d5) \<or> \<not> h \<and> (k, d5) = (0, ?del d2)"
    "RewindWatermarkTx (pr_Chain req) (pr_Network req) (rewind_sequence (pr_FromBlock req)) d5 = d'"
    unfolding purge_statements_def statement_Inr split_paired_Ex case_prod_conv prod.inject by blast
  have "d5 = (?del d2)\<lparr>db_blocks := db_blocks d5\<rparr>" using s(5) by (auto simp: DeleteFromBlockTx_def Let_def)
  then have "\<exists>blocks. d5 = (?del d2)\<lparr>db_blocks := blocks\<rparr>" by blast
  then show thesis using that [OF s(1-4) _ s(6) [symmetric]] by blast
qed

lemma purge_ledger:
  assumes "purge_statements env h req d = Inr (r, d')" "ledger_ok d" "pick_ok (env_pick env)" "event_ids_ok d"
    "one_event_per_balance (\<lambda>e. purge_hit (pr_Chain req) (pr_Network req) (pr_FromBlock req) e \<and> be_BalanceApplied e) d"
  shows "ledger_ok d'"
  using assms(1)
proof (rule purge_steps)
  let ?hit = "purge_hit (pr_Chain req) (pr_Network req) (pr_FromBlock req)"
  fix evs liquid staked d1 d2 d5
  assume s: "purge_fetchRollbackEvents env (pr_Chain req) (pr_Network req) (pr_FromBlock req) d = Inr evs"
    "purge_items (map scan_event evs) = Inr (liquid, staked)"
    "liquid = [] \<and> d1 = d \<or> BulkAdjustBalanceTx (env_pick env) (pr_Chain req) (pr_Network req) liquid d = Inr d1"
    "staked = [] \<and> d2 = d1 \<or> BulkAdjustBalanceTx (env_pick env) (pr_Chain req) (pr_Network req) staked d1 = Inr d2"
    "\<exists>blocks. d5 = (delete_transactions (pr_Chain req) (pr_Network req) (pr_FromBlock req) (delete_events ?hit d2))\<lparr>db_blocks := blocks\<rparr>"
    "d' = RewindWatermarkTx (pr_Chain req) (pr_Network req) (rewind_sequence (pr_FromBlock req)) d5"
  have es: "mset evs = mset (filter ?hit (db_events d))" using purge_fetch_Inr [OF assms(4) s(1)] by simp
  note ev = reverted_events [OF _ es assms(5)]
  have cn: "\<forall>e \<in> set evs. be_Chain e = pr_Chain req \<and> be_Network e = pr_Network req" by (rule ev(1)) auto
  have one: "distinct (map (\<lambda>e. (be_Address e, be_TokenID e)) (filter be_BalanceApplied evs))" by (rule ev(2)) auto
  have "distinct (map ai_key staked)" unfolding purge_items_sound(2) [OF s(2) cn] using one by (rule distinct_tagged)
  moreover have "distinct (map ai_key liquid)"
    unfolding purge_items_sound(1) [OF s(2) cn] using distinct_tagged [OF one, of "''''" "\<lambda>e. True"] by simp
  ultimately have k: "distinct (map ai_key liquid)" "distinct (map ai_key staked)" by blast+
  have a: "BulkAdjustBalanceTx (env_pick env) (pr_Chain req) (pr_Network req) liquid d = Inr d1"
    "BulkAdjustBalanceTx (env_pick env) (pr_Chain req) (pr_Network req) staked d1 = Inr d2"
    using s(3,4) by (auto simp: BulkAdjustBalanceTx_def)
  have "ledger_ok (delete_events ?hit d2)"
  proof (rule deleted_ledger [OF _ es _ _ assms(2)])
    show "GetBalance c' n' kk d2 = GetBalance c' n' kk d -
        (if c' = pr_Chain req \<and> n' = pr_Network req then effects evs (pr_Chain req, pr_Network req, kk) else 0)" for c' n' kk
      using BulkAdjust_distinct [OF assms(3) a(1) k(1), of c' n' kk] BulkAdjust_distinct [OF assms(3) a(2) k(2), of c' n' kk]
        purge_items_sound(3) [OF s(2) cn, of kk] by simp
    show "db_events d2 = db_events d" using BulkAdjust_frame [OF a(1)] BulkAdjust_frame [OF a(2)] by auto
  qed auto
  moreover have "db_events d' = db_events (delete_events ?hit d2)" "db_balances d' = db_balances (delete_events ?hit d2)"
    using s(5,6) by (auto simp: RewindWatermarkTx_def delete_transactions_def)
  ultimately show ?thesis using ledger_ok_frame by metis
qed

section \<open>Promotion keeps the ledger\<close>

lemma effects_apply:
  "(\<And>e. P e \<Longrightarrow> \<not> be_BalanceApplied e) \<Longrightarrow>
     effects (map (\<lambda>e. if P e then e\<lparr>be_BalanceApplied := True\<rparr> else e) es) k =
     effects es k + effects (map (\<lambda>e. e\<lparr>be_BalanceApplied := True\<rparr>) (filter P es)) k"
  by (induction es) (auto simp: effect_not_applied)

lemma effects_promote_finality: "effects (db_events (promote_finality c n upTo d)) k = effects (db_events d) k"
proof -
  have "effect (e\<lparr>be_FinalityState := f\<rparr>) k = effect e k" for e f by (cases k) simp
  then have "effects (map (\<lambda>e. if P e then e\<lparr>be_FinalityState := ''finalized''\<rparr> else e) es) k = effects es k" for P es
    by (induction es) auto
  then show ?thesis by (simp add: promote_finality_def)
qed

abbreviation promotes :: "finality_promotion \<Rightarrow> balance_event \<Rightarrow> bool" where
  "promotes promo \<equiv> promotable (fp_Chain promo) (fp_Network promo) (fp_NewFinalizedBlock promo)"

abbreviation finalizes :: "finality_promotion \<Rightarrow> db \<Rightarrow> db" where
  "finalizes promo \<equiv> promote_finality (fp_Chain promo) (fp_Network promo) (fp_NewFinalizedBlock promo)"

lemma promotion_steps:
  assumes "promotion_statements env cfg promo d = Inr d'"
  obtains d0 d1 d2 where
    "ic_hasBlockRepo cfg \<and> d0 = UpdateFinalityTx (fp_Chain promo) (fp_Network promo) (fp_NewFinalizedBlock promo) ''finalized'' d \<or> \<not> ic_hasBlockRepo cfg \<and> d0 = d"
    "d1 = finalizes promo d0"
    "d2 = d1\<lparr>db_events := map (\<lambda>e. if promotes promo e then e\<lparr>be_BalanceApplied := True\<rparr> else e) (db_events d1)\<rparr>"
    "filter (promotes promo) (db_events d1) = [] \<and> d' = d2 \<or>
     filter (promotes promo) (db_events d1) \<noteq> [] \<and>
     (\<exists>items. buildPromotionAdjustItems (map scan_event (filter (promotes promo) (db_events d1))) = Inr items \<and>
        BulkAdjustBalanceTx (env_pick env) (fp_Chain promo) (fp_Network promo) items d2 = Inr d')"
proof -
  let ?es = "\<lambda>d0. filter (promotes promo) (db_events (finalizes promo d0))"
  let ?d2 = "\<lambda>d1. d1\<lparr>db_events := map (\<lambda>e. if promotes promo e then e\<lparr>be_BalanceApplied := True\<rparr> else e) (db_events d1)\<rparr>"
  from assms(1) obtain d0 where
    "ic_hasBlockRepo cfg \<and> UpdateFinalityTx (fp_Chain promo) (fp_Network promo) (fp_NewFinalizedBlock promo) ''finalized'' d = d0 \<or> \<not> ic_hasBlockRepo cfg \<and> d0 = d"
    "map scan_event (?es d0) = [] \<and> d' = ?d2 (finalizes promo d0) \<or> map scan_event (?es d0) \<noteq> [] \<and>
     (\<exists>items. buildPromotionAdjustItems (map scan_event (?es d0)) = Inr items \<and>
        BulkAdjustBalanceTx (env_pick env) (fp_Chain promo) (fp_Network promo) items (?d2 (finalizes promo d0)) = Inr d')"
    unfolding promotion_statements_def promoteBalanceEvents_def statement_Inr split_paired_Ex case_prod_conv optional_bind_Inr prod.inject
    by blast
  then show thesis using that [of d0 _ "?d2 (finalizes promo d0)"] by auto
qed

lemma promotion_ledger:
  assumes "promotion_statements env cfg promo d = Inr d'" "ledger_ok d" "pick_ok (env_pick env)"
    "one_event_per_balance (promotable (fp_Chain promo) (fp_Network promo) (fp_NewFinalizedBlock promo))
       (promote_finality (fp_Chain promo) (fp_Network promo) (fp_NewFinalizedBlock promo) d)"
  shows "ledger_ok d'"
proof -
  let ?c = "fp_Chain promo" and ?n = "fp_Network promo" and ?upTo = "fp_NewFinalizedBlock promo"
  let ?P = "promotable ?c ?n ?upTo"
  let ?es = "filter ?P (db_events (promote_finality ?c ?n ?upTo d))"
  let ?new = "map (\<lambda>e. e\<lparr>be_BalanceApplied := True\<rparr>) ?es"
  from assms(1) show ?thesis
  proof (rule promotion_steps)
    fix d0 d1 d2
    assume 1: "ic_hasBlockRepo cfg \<and> d0 = UpdateFinalityTx ?c ?n ?upTo ''finalized'' d \<or> \<not> ic_hasBlockRepo cfg \<and> d0 = d"
      "d1 = finalizes promo d0"
      "d2 = d1\<lparr>db_events := map (\<lambda>e. if ?P e then e\<lparr>be_BalanceApplied := True\<rparr> else e) (db_events d1)\<rparr>"
      "filter ?P (db_events d1) = [] \<and> d' = d2 \<or> filter ?P (db_events d1) \<noteq> [] \<and>
       (\<exists>items. buildPromotionAdjustItems (map scan_event (filter ?P (db_events d1))) = Inr items \<and>
          BulkAdjustBalanceTx (env_pick env) ?c ?n items d2 = Inr d')"
    have d0: "db_events d0 = db_events d" "db_balances d0 = db_balances d" using 1(1) by (auto simp: UpdateFinalityTx_def)
    have d1: "db_events d1 = db_events (promote_finality ?c ?n ?upTo d)" "db_balances d1 = db_balances d"
      using 1(2) d0 by (simp_all add: promote_finality_def)
    have b2: "GetBalance c n k d2 = effects (db_events d) (c, n, k)" for c n k
    proof -
      have "GetBalance c n k d2 = GetBalance c n k d" using 1(3) d1 by (simp add: GetBalance_def)
      then show ?thesis using assms(2) unfolding ledger_ok_def by metis
    qed
    have e2: "effects (db_events d2) k = effects (db_events d) k + effects ?new k" for k
      using effects_apply [of ?P "db_events d1" k] effects_promote_finality [of ?c ?n ?upTo d k] 1(3) d1
      by (simp add: promotable_def)
    from 1(4) show ?thesis
    proof
      assume "filter ?P (db_events d1) = [] \<and> d' = d2"
      then have "?new = []" "d' = d2" using d1 by simp_all
      then show ?thesis using b2 e2 unfolding ledger_ok_def by (metis add.right_neutral effects_simps(1))
    next
      assume "filter ?P (db_events d1) \<noteq> [] \<and> (\<exists>items. buildPromotionAdjustItems (map scan_event (filter ?P (db_events d1))) = Inr items \<and>
        BulkAdjustBalanceTx (env_pick env) ?c ?n items d2 = Inr d')"
      then obtain items where items: "buildPromotionAdjustItems (map scan_event ?es) = Inr items"
        and adj: "BulkAdjustBalanceTx (env_pick env) ?c ?n items d2 = Inr d'" using d1 by auto
      have cn: "\<forall>e \<in> set ?es. be_Chain e = ?c \<and> be_Network e = ?n" by (simp add: promotable_def)
      have dk: "distinct (map ai_key items)"
        using buildPromotion_items(1) [OF items cn] assms(4) distinct_event_keys by (simp add: one_event_per_balance_def)
      have "db_events d' = db_events d2" using BulkAdjust_frame [OF adj] by auto
      moreover have "GetBalance c n k d' = effects (db_events d2) (c, n, k)" for c n k
        using BulkAdjust_distinct [OF assms(3) adj dk, of c n k] b2 [of c n k] e2 [of "(c, n, k)"] buildPromotion_items(2) [OF items cn, of k]
          effects_other_chain [of ?new ?c ?n c n k] cn by (cases "c = ?c \<and> n = ?n") auto
      ultimately show ?thesis unfolding ledger_ok_def by simp
    qed
  qed
qed

end
