(* ===== verification/Ingester_Properties.thy ===== *)
theory Ingester_Properties
  imports Ingester_Safety
begin

text \<open>
  The guarantees of the ingester's handlers, stated on \<^verbatim>\<open>processBatch\<close>, \<^verbatim>\<open>processBatchWithRetry\<close>,
  \<^verbatim>\<open>handleReorg\<close> and \<^verbatim>\<open>handleFinalityPromotion\<close>, with concrete batches that satisfy their conditions.
\<close>

section \<open>Success, failure and the watermark\<close>

lemma commit_None: "fst (commit env d d') = None \<longleftrightarrow> env_commit env = Committed"
  by (simp add: commit_def split: commit_outcome.split)

lemma committed_env_id: "env_commit env = Committed \<Longrightarrow> committed_env env = env"
  by simp

lemma writeBulkAndCommit_success:
  assumes "writeBulkAndCommit env cfg batch bs d = (Inr tot, d1)"
  shows "env_commit env = Committed \<or> (\<exists>w. GetWatermark (nb_Chain batch) (nb_Network batch) d1 = Some w \<and> nb_NewCursorSequence batch \<le> w)"
proof -
  from assms obtain d' where w: "write_bulk env cfg batch bs = Inr (tot, d')" and c: "snd (commit env d d') = d1"
    and r: "fst (commit env d d') = None \<or> (\<exists>err. reconcileAmbiguousCommitOutcome env batch err d1 = Inr True)"
    by (auto simp: writeBulkAndCommit_def split: sum.splits prod.splits option.splits bool.splits)
  from r show ?thesis
    by (auto simp: commit_None reconcileAmbiguousCommitOutcome_def reconcileBlockScanCommit_def split: if_splits option.splits)
qed

lemma writeBulkAndCommit_error:
  assumes "writeBulkAndCommit env cfg batch bs d = (Inl e, d1)" "\<And>e. env_commit env \<noteq> CommitFailed e True"
  shows "d1 = d"
  using assms by (auto simp: writeBulkAndCommit_def commit_def split: sum.splits prod.splits option.splits bool.splits commit_outcome.splits if_splits)

lemma ingest_phases_result:
  "fst (ingest_phases env batch ig dtx d) = None \<Longrightarrow>
     \<exists>ig' bs tot. prepare_batch env batch ig dtx = (ig', Inr bs) \<and>
       writeBulkAndCommit env (ig_cfg ig) batch bs d = (Inr tot, snd (snd (ingest_phases env batch ig dtx d)))"
  "fst (ingest_phases env batch ig dtx d) = Some e \<Longrightarrow>
     snd (snd (ingest_phases env batch ig dtx d)) = d \<or>
     (\<exists>bs e'. writeBulkAndCommit env (ig_cfg ig) batch bs d = (Inl e', snd (snd (ingest_phases env batch ig dtx d))))"
  by (auto simp: ingest_phases_def split: prod.splits sum.splits)

lemma processBatch_success:
  assumes "pb_err (processBatch env ig batch d) = None"
  shows "env_commit env = Committed \<or>
    (\<exists>w. GetWatermark (nb_Chain batch) (nb_Network batch) (pb_db (processBatch env ig batch d)) = Some w \<and> nb_NewCursorSequence batch \<le> w)"
proof (cases rule: processBatch_cases [of env ig batch d])
  case error
  then show ?thesis using assms by simp
next
  case rollback
  then show ?thesis using assms by (simp add: commit_None)
next
  case ingest
  with assms have "fst (ingest_phases env (canonical_cursors batch) ig (ingest_view env (canonical_cursors batch) d) d) = None" by simp
  from ingest_phases_result(1) [OF this] ingest(2) obtain ig' bs tot where
    "writeBulkAndCommit env (ig_cfg ig) (canonical_cursors batch) bs d = (Inr tot, pb_db (processBatch env ig batch d))" by auto
  from writeBulkAndCommit_success [OF this] show ?thesis by simp
qed

lemma processBatch_error:
  assumes "pb_err (processBatch env ig batch d) = Some e" "\<And>e. env_commit env \<noteq> CommitFailed e True"
  shows "pb_db (processBatch env ig batch d) = d"
proof (cases rule: processBatch_cases [of env ig batch d])
  case rollback
  then show ?thesis using assms by (auto simp: commit_def split: commit_outcome.splits)
next
  case ingest
  with assms(1) have "fst (ingest_phases env (canonical_cursors batch) ig (ingest_view env (canonical_cursors batch) d) d) = Some e" by simp
  from ingest_phases_result(2) [OF this] show ?thesis unfolding ingest(2) [symmetric]
    by (elim disjE exE) (assumption, rule writeBulkAndCommit_error [OF _ assms(2)])
qed simp

lemma execBulkChunk_frame:
  "event_statement now es d = Inr (us, d') \<Longrightarrow> db_watermarks d' = db_watermarks d"
  "execBulkChunk now es d = Inr (m, d') \<Longrightarrow> db_watermarks d' = db_watermarks d"
proof -
  show a: "db_watermarks d' = db_watermarks d" if "event_statement now es d = Inr (us, d')" for us
    using that by (auto simp: event_statement_def Let_def split: if_splits option.splits)
  show "db_watermarks d' = db_watermarks d" if "execBulkChunk now es d = Inr (m, d')"
    using that a by (auto simp: execBulkChunk_def split: sum.splits prod.splits)
qed

lemma exec_chunks_watermarks: "exec_chunks now cs k d = Inr (r, d') \<Longrightarrow> db_watermarks d' = db_watermarks d"
proof (induction now cs k d rule: exec_chunks.induct)
  case (2 now c cs n d)
  from "2.prems" obtain m d1 where s: "execBulkChunk now c d = Inr (m, d1)" "exec_chunks now cs (n + m) d1 = Inr (r, d')"
    by (auto split: sum.splits prod.splits)
  from "2.IH" [OF s(1) refl s(2)] execBulkChunk_frame(2) [OF s(1)] show ?case by simp
qed simp

lemma be_BulkUpsertTx_watermarks:
  assumes "be_BulkUpsertTx now es d = Inr (r, d')"
  shows "db_watermarks d' = db_watermarks d"
proof (cases "length es \<le> smallBatchThreshold")
  case True
  show ?thesis
  proof (cases "es = []")
    case False
    with True assms obtain us where "event_statement now es d = Inr (us, d')"
      by (auto simp: be_BulkUpsertTx_def bulkUpsertPerEvent_def Let_def split: sum.splits prod.splits)
    then show ?thesis by (rule execBulkChunk_frame(1))
  qed (use assms in \<open>simp add: be_BulkUpsertTx_def\<close>)
next
  case False
  moreover from this have "es \<noteq> []" by auto
  ultimately have "exec_chunks now (chunks bulkChunkSize es) 0 d = Inr (r, d')"
    using assms by (simp add: be_BulkUpsertTx_def bulkUpsertMultiValues_def)
  then show ?thesis by (rule exec_chunks_watermarks)
qed

lemma write_bulk_watermark:
  assumes "write_bulk env cfg batch bs = Inr (tot, d')"
  shows "db_watermarks d' = (db_watermarks (bs_db bs))((nb_Chain batch, nb_Network batch) \<mapsto>
    (case db_watermarks (bs_db bs) (nb_Chain batch, nb_Network batch) of
       None \<Rightarrow> nb_NewCursorSequence batch | Some w \<Rightarrow> max w (nb_NewCursorSequence batch)))"
  using assms
proof (rule write_bulk_steps)
  fix d1 d2 rows
  assume s: "bs_events bs = [] \<and> d1 = bs_db bs \<or> (\<exists>r. be_BulkUpsertTx (env_now env) (bs_events bs) (bs_db bs) = Inr (r, d1))"
    "bs_deltas bs = [] \<and> d2 = d1 \<or>
       BulkAdjustBalanceTx (env_pick env) (nb_Chain batch) (nb_Network batch) (adjust_items (bs_deltas bs)) d1 = Inr d2"
    "d' = UpdateWatermarkTx (nb_Chain batch) (nb_Network batch) (nb_NewCursorSequence batch) (d2\<lparr>db_blocks := rows\<rparr>)"
  have "db_watermarks d1 = db_watermarks (bs_db bs)" using s(1) be_BulkUpsertTx_watermarks by blast
  moreover have "db_watermarks d2 = db_watermarks d1" using s(2) by (auto dest: BulkAdjust_frame)
  ultimately show ?thesis using s(3) by (simp add: UpdateWatermarkTx_def)
qed

lemma prepare_batch_watermarks:
  assumes "prepare_batch env batch ig d = (ig', Inr bs)"
  shows "db_watermarks (bs_db bs) = db_watermarks d"
proof -
  from assms obtain am ig1 ig2 pf d1 where p: "prefetchBulkData env batch (collectEvents batch) ig1 d = (ig2, Inr (pf, d1))"
    and b: "buildEventModels env batch am pf 0 (co_events (collectEvents batch)) ig2
      \<lparr>bs_mem = pf_balances pf, bs_denied = pf_denied pf, bs_events = [], bs_deltas = [], bs_db = d1\<rparr> = (ig', Inr bs)"
    by (auto simp: prepare_batch_def split: prod.splits sum.splits)
  from buildEventModels_built [OF b] prefetchBulkData_core(1) [OF p] show ?thesis by (auto simp: built_def core_same_def)
qed

lemma ingest_phases_committed:
  obtains "snd (snd (ingest_phases (committed_env env) batch ig dtx d)) = d"
  | ig' bs tot d' where "prepare_batch env batch ig dtx = (ig', Inr bs)" "write_bulk env (ig_cfg ig) batch bs = Inr (tot, d')"
      "snd (snd (ingest_phases (committed_env env) batch ig dtx d)) = d'"
proof (cases "prepare_batch env batch ig dtx")
  case (Pair ig' r)
  show thesis
  proof (cases r)
    case (Inl e)
    then have "ingest_phases (committed_env env) batch ig dtx d = (Some e, ig', d)"
      unfolding ingest_phases_def prepare_batch_commit Pair by simp
    then show thesis using that(1) by simp
  next
    case (Inr bs)
    show thesis
    proof (cases "write_bulk env (ig_cfg ig) batch bs")
      case (Inl e)
      then have "writeBulkAndCommit (committed_env env) (ig_cfg ig) batch bs d = (Inl e, d)"
        unfolding writeBulkAndCommit_def write_bulk_commit by simp
      then have "ingest_phases (committed_env env) batch ig dtx d = (Some e, ig', d)"
        unfolding ingest_phases_def prepare_batch_commit Pair Inr by simp
      then show thesis using that(1) by simp
    next
      case (Inr td)
      obtain tot d' where td: "td = (tot, d')" by (cases td)
      have "writeBulkAndCommit (committed_env env) (ig_cfg ig) batch bs d = (Inr tot, d')"
        unfolding writeBulkAndCommit_def write_bulk_commit Inr td by simp
      then have "ingest_phases (committed_env env) batch ig dtx d = (None, ig', d')"
        unfolding ingest_phases_def prepare_batch_commit Pair \<open>r = Inr bs\<close> by simp
      then show thesis using that(2) [OF Pair [unfolded \<open>r = Inr bs\<close>] Inr [unfolded td]] by simp
    qed
  qed
qed

definition raised :: "(chain \<times> network \<rightharpoonup> int) \<Rightarrow> normalized_batch \<Rightarrow> (chain \<times> network \<rightharpoonup> int)" where
  "raised m batch = m((nb_Chain batch, nb_Network batch) \<mapsto> (case m (nb_Chain batch, nb_Network batch) of
     None \<Rightarrow> nb_NewCursorSequence batch | Some w \<Rightarrow> max w (nb_NewCursorSequence batch)))"

lemma ingest_phases_watermarks:
  "db_watermarks (snd (snd (ingest_phases (committed_env env) batch ig d d))) \<in> {db_watermarks d, raised (db_watermarks d) batch}"
proof (rule ingest_phases_committed [of env batch ig d d])
  fix ig' bs tot d'
  assume p: "prepare_batch env batch ig d = (ig', Inr bs)" and w: "write_bulk env (ig_cfg ig) batch bs = Inr (tot, d')"
    and d': "snd (snd (ingest_phases (committed_env env) batch ig d d)) = d'"
  show ?thesis using write_bulk_watermark [OF w] prepare_batch_watermarks [OF p] unfolding d' raised_def by simp
qed simp

lemma raised_canonical: "raised m (canonical_cursors batch) = raised m batch"
  unfolding raised_def canonical_cursors_simps ..

lemma ingest_phases_committed_ok:
  assumes "fst (ingest_phases (committed_env env) batch ig d d) = None"
  shows "db_watermarks (snd (snd (ingest_phases (committed_env env) batch ig d d))) = raised (db_watermarks d) batch"
proof -
  from ingest_phases_result(1) [OF assms] obtain ig' bs tot where p: "prepare_batch env batch ig d = (ig', Inr bs)"
    and w: "writeBulkAndCommit (committed_env env) (ig_cfg ig) batch bs d = (Inr tot, snd (snd (ingest_phases (committed_env env) batch ig d d)))"
    unfolding prepare_batch_commit by blast
  from w obtain tot' d' where "write_bulk env (ig_cfg ig) batch bs = Inr (tot', d')"
    "snd (snd (ingest_phases (committed_env env) batch ig d d)) = d'"
    unfolding writeBulkAndCommit_def write_bulk_commit by (auto split: sum.splits prod.splits)
  then show ?thesis using write_bulk_watermark prepare_batch_watermarks [OF p] unfolding raised_def by simp
qed

lemma processBatch_committed_watermarks:
  assumes "\<not> isCanonicalityDrift (canonical_cursors batch)"
  shows "pb_err (processBatch (committed_env env) ig batch d) = None \<Longrightarrow>
    db_watermarks (pb_db (processBatch (committed_env env) ig batch d)) = raised (db_watermarks d) batch"
proof (cases rule: processBatch_cases [of "committed_env env" ig batch d])
  case ingest
  assume ok: "pb_err (processBatch (committed_env env) ig batch d) = None"
  have v: "ingest_view (committed_env env) (canonical_cursors batch) d = d" using assms by (simp add: ingest_view_def)
  have "fst (ingest_phases (committed_env env) (canonical_cursors batch) ig d d) = None" using ok unfolding ingest(1) v .
  from ingest_phases_committed_ok [OF this] show ?thesis unfolding ingest(2) v raised_canonical .
qed (use assms in simp_all)

lemma processBatch_watermarks:
  assumes "\<not> isCanonicalityDrift (canonical_cursors batch)"
  shows "db_watermarks (pb_db (processBatch env ig batch d)) \<in> {db_watermarks d, raised (db_watermarks d) batch}"
proof -
  have "db_watermarks (pb_db (processBatch (committed_env env) ig batch d)) \<in> {db_watermarks d, raised (db_watermarks d) batch}"
  proof (cases rule: processBatch_cases [of "committed_env env" ig batch d])
    case ingest
    have v: "ingest_view (committed_env env) (canonical_cursors batch) d = d" using assms by (simp add: ingest_view_def)
    show ?thesis unfolding ingest(2) v using ingest_phases_watermarks [of env "canonical_cursors batch" ig d] unfolding raised_canonical .
  qed (use assms in simp_all)
  moreover from processBatch_db [of env ig batch d]
  have "pb_db (processBatch env ig batch d) = d \<or> pb_db (processBatch env ig batch d) = pb_db (processBatch (committed_env env) ig batch d)"
    by (simp only: insert_iff empty_iff simp_thms)
  ultimately show ?thesis by (elim disjE) (simp_all only: insertI1)
qed

lemma success_watermark:
  assumes "\<not> isCanonicalityDrift (canonical_cursors batch)" "pb_err (processBatch env ig batch d) = None"
  shows "\<exists>w \<ge> nb_NewCursorSequence batch. GetWatermark (nb_Chain batch) (nb_Network batch) (pb_db (processBatch env ig batch d)) = Some w"
  using processBatch_success [OF assms(2)]
proof
  assume "env_commit env = Committed"
  then have e: "committed_env env = env" by (rule committed_env_id)
  have "db_watermarks (pb_db (processBatch env ig batch d)) = raised (db_watermarks d) batch"
    using processBatch_committed_watermarks [OF assms(1), of env ig d] assms(2) unfolding e by blast
  then show ?thesis by (auto simp: GetWatermark_def raised_def split: option.split)
qed blast

section \<open>Retries\<close>

lemma retry_from_Suc:
  assumes "processBatch (envs attempt) ig batch d = r" "pb_err r = Some e" "retry_from envs attempt (Suc left) ig batch d = (err, k, ig', d')"
  shows "err \<noteq> None \<and> k = attempt \<and> d' = pb_db r \<or>
    left \<noteq> 0 \<and> retry_from envs (attempt + 1) left (pb_ig r) batch (pb_db r) = (err, k, ig', d')"
proof -
  have "retry_from envs attempt (Suc left) ig batch d =
    (if env_ctxErr (envs attempt) \<noteq> None then (env_ctxErr (envs attempt), attempt, pb_ig r, pb_db r)
     else if \<not> IsTransient (Classify (env_FromError (envs attempt)) (env_codeString (envs attempt)) (Some e))
     then (Some (ErrWrap (''terminal_failure stage=ingester.process_batch attempt='' @ nat_String attempt @ '' reason='' @ d_Reason (Classify (env_FromError (envs attempt)) (env_codeString (envs attempt)) (Some e)) @ '': '') e), attempt, pb_ig r, pb_db r)
     else if left = 0 then (Some (ErrWrap (''transient_recovery_exhausted stage=ingester.process_batch attempts='' @ nat_String attempt @ '' reason='' @ d_Reason (Classify (env_FromError (envs attempt)) (env_codeString (envs attempt)) (Some e)) @ '': '') e), attempt, pb_ig r, pb_db r)
     else if env_sleep (envs attempt) \<noteq> None then (env_sleep (envs attempt), attempt, pb_ig r, pb_db r)
     else retry_from envs (attempt + 1) left (pb_ig r) batch (pb_db r))"
    unfolding retry_from.simps Let_def assms(1,2) option.case ..
  with assms(3) show ?thesis by (auto split: if_split_asm)
qed

lemma retry_from_once:
  assumes "\<And>k e. env_commit (envs k) \<noteq> CommitFailed e True" "0 < left" "retry_from envs attempt left ig batch d = (err, k, ig', d')"
  shows "attempt \<le> k \<and> k < attempt + left \<and> (err \<noteq> None \<longrightarrow> d' = d) \<and>
    (err = None \<longrightarrow> (\<exists>ig0. pb_err (processBatch (envs k) ig0 batch d) = None \<and> d' = pb_db (processBatch (envs k) ig0 batch d)))"
  using assms(2-)
proof (induction left arbitrary: attempt ig)
  case (Suc left)
  define r where "r = processBatch (envs attempt) ig batch d"
  note r = r_def [symmetric]
  show ?case
  proof (cases "pb_err r")
    case None
    have "retry_from envs attempt (Suc left) ig batch d = (None, attempt, pb_ig r, pb_db r)"
      unfolding retry_from.simps Let_def r None option.case ..
    then have "err = None" "k = attempt" "d' = pb_db r" using Suc.prems(2) by simp_all
    then show ?thesis using None r_def by auto
  next
    case (Some e)
    have d: "pb_db r = d" using processBatch_error [OF Some [folded r] assms(1)] r by simp
    from retry_from_Suc [OF r Some Suc.prems(2)] show ?thesis
    proof
      assume "left \<noteq> 0 \<and> retry_from envs (attempt + 1) left (pb_ig r) batch (pb_db r) = (err, k, ig', d')"
      then have "0 < left" "retry_from envs (attempt + 1) left (pb_ig r) batch d = (err, k, ig', d')" using d by simp_all
      from Suc.IH [OF this] show ?thesis by auto
    qed (auto simp: d)
  qed
qed simp

section \<open>A sample batch\<close>

definition sample_event_in :: "string \<Rightarrow> string \<Rightarrow> normalized_balance_event" where
  "sample_event_in eid delta = \<lparr>ne_OuterInstructionIndex = 0, ne_InnerInstructionIndex = 0, ne_ActivityType = ActivityDeposit,
     ne_EventAction = '''', ne_ProgramID = '''', ne_ContractAddress = ''0xcc'', ne_Address = ''0xab'', ne_CounterpartyAddress = ''0xcd'',
     ne_Delta = delta, ne_ChainData = None, ne_TokenSymbol = ''TK'', ne_TokenName = ''Token'', ne_TokenDecimals = 18,
     ne_TokenType = TokenTypeFungible, ne_EventID = eid, ne_BlockHash = ''0xb1'', ne_TxIndex = 0, ne_EventPath = '''',
     ne_EventPathType = '''', ne_ActorAddress = '''', ne_AssetType = '''', ne_AssetID = '''', ne_FinalityState = ''finalized'',
     ne_DecoderVersion = '''', ne_SchemaVersion = ''''\<rparr>"

definition sample_batch :: normalized_batch where
  "sample_batch = \<lparr>nb_Chain = ''base'', nb_Network = ''mainnet'', nb_Address = ''0xab'', nb_WalletID = None, nb_OrgID = None,
     nb_PreviousCursorValue = None, nb_PreviousCursorSequence = 0,
     nb_Transactions = [(sample_tx ''0xaa'' 10)\<lparr>nt_BalanceEvents := [sample_event_in ''e1'' ''7'', sample_event_in ''e2'' ''5'']\<rparr>],
     nb_NewCursorValue = Some ''0xaa'', nb_NewCursorSequence = 10, nb_BlockScanMode = False, nb_WatchedAddresses = []\<rparr>"

definition sample_env :: ing_env where
  "sample_env = \<lparr>env_now = 0, env_acquire = None, env_begin = None, env_fault = (\<lambda>_. None), env_commit = Committed, env_probe = None,
     env_active = (\<lambda>_ _. Inr []), env_find = (\<lambda>_ _ _. Inr None), env_pick = hd, env_unmarshal = (\<lambda>_. None),
     env_FromError = (\<lambda>_. None), env_codeString = (\<lambda>_. ''''), env_ctxErr = None, env_sleep = None\<rparr>"

definition sample_cfg :: ingester_config where
  "sample_cfg = \<lparr>ic_retryMaxAttempts = 3, ic_retryDelayStart = 100, ic_retryDelayMax = 1000, ic_hasInterleaver = False,
     ic_hasBlockRepo = True, ic_hasWatchedRepo = True, ic_replayService = None, ic_addrCacheTTL = 60\<rparr>"

definition sample_ingester :: ingester where
  "sample_ingester = \<lparr>ig_cfg = sample_cfg, ig_deniedCache = NewShardedLRUWithCount 10 60 id 1, ig_addressIndex = None,
     ig_addrCache = Map.empty\<rparr>"

definition lost_ack :: "bool \<Rightarrow> ing_env" where
  "lost_ack applied = sample_env\<lparr>env_commit := CommitFailed (ErrMsg ''driver: bad connection'') applied\<rparr>"

lemma pick_ok_hd: "pick_ok hd"
  by (simp add: pick_ok_def)

lemma ledger_ok_empty: "ledger_ok empty_db"
  by (simp add: ledger_ok_def GetBalance_def empty_db_def)

section \<open>Properties\<close>

text \<open>C2: a batch, a reorg rollback and a finality promotion take effect as a whole or not at all: whatever
  statement fails and however the commit ends, the database is either unchanged or exactly the one
  of the run whose commit succeeds.\<close>

theorem ingester_all_or_nothing:
  "pb_db (processBatch env ig batch d) \<in> {d, pb_db (processBatch (env\<lparr>env_commit := Committed\<rparr>) ig batch d)} \<and>
   snd (handleReorg env cfg re d) \<in> {d, snd (handleReorg (env\<lparr>env_commit := Committed\<rparr>) cfg re d)} \<and>
   snd (handleFinalityPromotion env cfg fp d) \<in> {d, snd (handleFinalityPromotion (env\<lparr>env_commit := Committed\<rparr>) cfg fp d)}"
  using processBatch_db handleReorg_db handleFinalityPromotion_db by blast

text \<open>C3: a batch whose commit acknowledgement is lost is reported as ingested only if it is. When the
  watermark was below the batch's new cursor, a \<^verbatim>\<open>processBatch\<close> that returns no error has left the
  database of the successful commit.\<close>

theorem ambiguous_commit_sound:
  assumes "case GetWatermark (nb_Chain batch) (nb_Network batch) d of None \<Rightarrow> True | Some w \<Rightarrow> w < nb_NewCursorSequence batch"
    and "pb_err (processBatch env ig batch d) = None"
  shows "pb_db (processBatch env ig batch d) = pb_db (processBatch (env\<lparr>env_commit := Committed\<rparr>) ig batch d)"
  using processBatch_success [OF assms(2)]
proof
  assume "env_commit env = Committed"
  then have "env\<lparr>env_commit := Committed\<rparr> = env" by (rule committed_env_id)
  then show ?thesis by (simp only:)
next
  assume "\<exists>w. GetWatermark (nb_Chain batch) (nb_Network batch) (pb_db (processBatch env ig batch d)) = Some w \<and> nb_NewCursorSequence batch \<le> w"
  then have "pb_db (processBatch env ig batch d) \<noteq> d" using assms(1) by auto
  with processBatch_db [of env ig batch d] show ?thesis by (simp only: insert_iff empty_iff simp_thms)
qed

theorem ambiguous_commit_sound_witness:
  "pb_db (processBatch (lost_ack True) sample_ingester (sample_batch\<lparr>nb_Transactions := []\<rparr>) empty_db) =
   pb_db (processBatch ((lost_ack True)\<lparr>env_commit := Committed\<rparr>) sample_ingester (sample_batch\<lparr>nb_Transactions := []\<rparr>) empty_db)"
proof (rule ambiguous_commit_sound)
  show "case GetWatermark (nb_Chain (sample_batch\<lparr>nb_Transactions := []\<rparr>)) (nb_Network (sample_batch\<lparr>nb_Transactions := []\<rparr>)) empty_db of
      None \<Rightarrow> True | Some w \<Rightarrow> w < nb_NewCursorSequence (sample_batch\<lparr>nb_Transactions := []\<rparr>)" by code_simp
  have "Option.is_none (pb_err (processBatch (lost_ack True) sample_ingester (sample_batch\<lparr>nb_Transactions := []\<rparr>) empty_db))" by code_simp
  then show "pb_err (processBatch (lost_ack True) sample_ingester (sample_batch\<lparr>nb_Transactions := []\<rparr>) empty_db) = None"
    by (simp only: Option.is_none_def)
qed


definition stored_batch :: build_state where
  "stored_batch = \<lparr>bs_mem = Map.empty, bs_denied = Map.empty, bs_events = [sample_event ''e1'' ''finalized'' True], bs_deltas = [],
     bs_db = UpdateWatermarkTx ''base'' ''mainnet'' 20 empty_db\<rparr>"




text \<open>C7: the watermark of every chain only moves forward while no batch drifts, and after a batch reported as
  ingested it is at or above the batch's new cursor.\<close>

theorem watermark_monotone:
  assumes "\<not> isCanonicalityDrift (canonical_cursors batch)"
  shows "(\<forall>c n w. GetWatermark c n d = Some w \<longrightarrow> (\<exists>w' \<ge> w. GetWatermark c n (pb_db (processBatch env ig batch d)) = Some w')) \<and>
    (pb_err (processBatch env ig batch d) = None \<longrightarrow>
      (\<exists>w \<ge> nb_NewCursorSequence batch. GetWatermark (nb_Chain batch) (nb_Network batch) (pb_db (processBatch env ig batch d)) = Some w))"
    (is "?mono \<and> (?ok \<longrightarrow> ?above)")
proof
  have r: "m (c, n) = Some w \<Longrightarrow> \<exists>w' \<ge> w. raised m batch (c, n) = Some w'" for m c n w
    by (auto simp: raised_def)
  show ?mono
  proof (intro allI impI)
    fix c n w assume "GetWatermark c n d = Some w"
    then have w: "db_watermarks d (c, n) = Some w" by (simp add: GetWatermark_def)
    from processBatch_watermarks [OF assms, of env ig d] show "\<exists>w' \<ge> w. GetWatermark c n (pb_db (processBatch env ig batch d)) = Some w'"
      using r [of "db_watermarks d" c n w, OF w] w by (auto simp: GetWatermark_def)
  qed
  show "?ok \<longrightarrow> ?above" using success_watermark [OF assms] by blast
qed

theorem watermark_monotone_witness:
  "\<exists>w' \<ge> 4. GetWatermark ''base'' ''mainnet'' (pb_db (processBatch sample_env sample_ingester sample_batch (UpdateWatermarkTx ''base'' ''mainnet'' 4 empty_db))) = Some w'"
proof -
  have "\<not> isCanonicalityDrift (canonical_cursors sample_batch)" by code_simp
  moreover have "GetWatermark ''base'' ''mainnet'' (UpdateWatermarkTx ''base'' ''mainnet'' 4 empty_db) = Some 4" by code_simp
  ultimately show ?thesis using watermark_monotone by blast
qed


text \<open>The first attempt of the sample fails to begin its transaction; the second succeeds.\<close>

definition flaky :: "nat \<Rightarrow> ing_env" where
  "flaky k = (if k \<le> 1 then sample_env\<lparr>env_begin := Some (ErrMsg ''connection reset by peer'')\<rparr> else sample_env)"


lemma handleReorg_success:
  assumes "fst (handleReorg env cfg re d) = None"
  obtains (inline) "reorg_statements env cfg re d = Inr (snd (handleReorg env cfg re d))"
  | (replay) h r where "purge_statements env h (reorg_request re) d = Inr (r, snd (handleReorg env cfg re d))"
proof (cases "ic_replayService cfg")
  case None
  then show thesis using assms inline
    by (auto simp: handleReorg_def reorgInline_def commit_def split: option.splits sum.splits prod.splits commit_outcome.splits)
next
  case (Some h)
  have f: "pr_Force (reorg_request re) \<and> \<not> pr_DryRun (reorg_request re)" by (simp add: reorg_request_def)
  obtain r where "executePurge env h (reorg_request re) d = (Inr r, snd (handleReorg env cfg re d))"
    using assms Some f by (auto simp: handleReorg_def PurgeFromBlock_def split: prod.splits sum.splits)
  then have "purge_statements env h (reorg_request re) d = Inr (r, snd (handleReorg env cfg re d))"
    by (auto simp: executePurge_def commit_def split: option.splits sum.splits prod.splits commit_outcome.splits)
  then show thesis by (rule replay)
qed

lemma handleFinalityPromotion_success:
  "fst (handleFinalityPromotion env cfg fp d) = None \<Longrightarrow> promotion_statements env cfg fp d = Inr (snd (handleFinalityPromotion env cfg fp d))"
  by (auto simp: handleFinalityPromotion_def commit_def split: option.splits sum.splits prod.splits commit_outcome.splits)

lemma bulk_adjust_events: "items = [] \<and> d1 = d \<or> BulkAdjustBalanceTx pick c n items d = Inr d1 \<Longrightarrow> \<exists>b. d1 = d\<lparr>db_balances := b\<rparr>"
proof (elim disjE conjE)
  assume "d1 = d"
  then have "d1 = d\<lparr>db_balances := db_balances d\<rparr>" by simp
  then show ?thesis by blast
qed (rule BulkAdjust_frame)

lemma reorg_request_sel:
  "pr_Chain (reorg_request re) = re_Chain re" "pr_Network (reorg_request re) = re_Network re" "pr_FromBlock (reorg_request re) = re_ForkBlockNumber re"
  by (simp_all add: reorg_request_def)

text \<open>Both implementations of the rollback end in the same tables.\<close>

definition rolled_back :: "reorg_event \<Rightarrow> db \<Rightarrow> db \<Rightarrow> bool" where
  "rolled_back re d d' \<longleftrightarrow> db_events d' = filter (\<lambda>e. \<not> from_fork re e) (db_events d) \<and>
    db_transactions d' = filter (\<lambda>t. \<not> (tr_Chain t = re_Chain re \<and> tr_Network t = re_Network re \<and> tr_BlockCursor t \<ge> re_ForkBlockNumber re)) (db_transactions d) \<and>
    GetWatermark (re_Chain re) (re_Network re) d' = Some (rewind_sequence (re_ForkBlockNumber re))"

lemma inline_rolled_back:
  assumes "reorg_statements env cfg re d = Inr d'"
  shows "rolled_back re d d'"
  using assms
proof (cases rule: reorg_steps)
  case (1 items d1 d4)
  from bulk_adjust_events [OF 1(2)] obtain b where "d1 = d\<lparr>db_balances := b\<rparr>" ..
  with 1(3,4) show ?thesis
    by (simp add: rolled_back_def RewindWatermarkTx_def DeleteFromBlockTx_def delete_transactions_def delete_events_def GetWatermark_def Let_def)
qed

lemma replay_rolled_back:
  assumes "purge_statements env h (reorg_request re) d = Inr (r, d')"
  shows "rolled_back re d d'"
proof (rule purge_steps [OF assms, unfolded reorg_request_sel])
  fix evs liquid staked d1 d2 d5
  assume s: "liquid = [] \<and> d1 = d \<or> BulkAdjustBalanceTx (env_pick env) (re_Chain re) (re_Network re) liquid d = Inr d1"
    "staked = [] \<and> d2 = d1 \<or> BulkAdjustBalanceTx (env_pick env) (re_Chain re) (re_Network re) staked d1 = Inr d2"
    "\<exists>blocks. d5 = (delete_transactions (re_Chain re) (re_Network re) (re_ForkBlockNumber re)
        (delete_events (from_fork re) d2))\<lparr>db_blocks := blocks\<rparr>"
    "d' = RewindWatermarkTx (re_Chain re) (re_Network re) (rewind_sequence (re_ForkBlockNumber re)) d5"
  from bulk_adjust_events [OF s(1)] bulk_adjust_events [OF s(2)] obtain b where "d2 = d\<lparr>db_balances := b\<rparr>" by auto
  with s(3,4) show ?thesis
    by (auto simp: rolled_back_def RewindWatermarkTx_def delete_transactions_def delete_events_def GetWatermark_def)
qed

lemma rewind_sequence_max: "rewind_sequence fork = max 0 (fork - 1)"
  by (simp add: rewind_sequence_def)


definition sample_reorg :: reorg_event where
  "sample_reorg = \<lparr>re_Chain = ''base'', re_Network = ''mainnet'', re_ForkBlockNumber = 10, re_ExpectedHash = '''', re_ActualHash = ''''\<rparr>"

definition one_deposit :: db where
  "one_deposit = empty_db\<lparr>db_events := [sample_event ''e1'' ''finalized'' True],
     db_balances := [(''base'', ''mainnet'', ''0xab'', 2, '''') \<mapsto> new_balance (sample_item ''7'' '''')]\<rparr>"


definition two_deposits :: db where
  "two_deposits = empty_db\<lparr>db_events := [sample_event ''e1'' ''finalized'' True, sample_event ''e2'' ''finalized'' True],
     db_balances := [(''base'', ''mainnet'', ''0xab'', 2, '''') \<mapsto> new_balance (sample_item ''14'' '''')]\<rparr>"

lemma two_deposits_items:
  "buildReversalAdjustItems (fetchReorgRollbackEvents ''base'' ''mainnet'' 10 two_deposits) = Inr [sample_item ''-7'' '''', sample_item ''-7'' '''']"
  by code_simp

lemma two_deposits_pick:
  assumes "pick_ok pick"
  shows "handleReorg (sample_env\<lparr>env_pick := pick\<rparr>) sample_cfg sample_reorg two_deposits = handleReorg sample_env sample_cfg sample_reorg two_deposits"
proof -
  let ?items = "[sample_item ''-7'' '''', sample_item ''-7'' '''']"
  have "pick ?items \<in> set ?items" using assms unfolding pick_ok_def by blast
  then have "bulk_adjusted pick b (items_for k ?items) = bulk_adjusted hd b (items_for k ?items)" for b k
    by (auto simp: items_for_def bulk_adjusted_def split: option.split)
  then have "BulkAdjustBalanceTx pick c n ?items d = BulkAdjustBalanceTx hd c n ?items d" for c n d
    unfolding BulkAdjustBalanceTx_def by presburger
  then have "reorg_statements (sample_env\<lparr>env_pick := pick\<rparr>) sample_cfg sample_reorg two_deposits =
      reorg_statements sample_env sample_cfg sample_reorg two_deposits"
    by (simp add: reorg_statements_def sample_reorg_def sample_cfg_def exec_def sample_env_def two_deposits_items Let_def)
  moreover have "env_begin (sample_env\<lparr>env_pick := pick\<rparr>) = env_begin sample_env" "env_commit (sample_env\<lparr>env_pick := pick\<rparr>) = env_commit sample_env"
    by simp_all
  ultimately have "reorgInline (sample_env\<lparr>env_pick := pick\<rparr>) sample_cfg sample_reorg two_deposits = reorgInline sample_env sample_cfg sample_reorg two_deposits"
    unfolding reorgInline_def commit_def by (simp only:)
  then show ?thesis by (simp add: handleReorg_def sample_cfg_def)
qed




definition sample_promotion :: finality_promotion where
  "sample_promotion = \<lparr>fp_Chain = ''base'', fp_Network = ''mainnet'', fp_NewFinalizedBlock = 12\<rparr>"


end
