(* ===== verification/Composition.thy ===== *)
theory Composition
  imports Normalizer_Properties Ingester_Properties
begin

text \<open>
  Lemmas that connect the stages: the batches the normalizer sends, as the ingester sees them.
\<close>

section \<open>Cursors\<close>

lemma sent_no_drift:
  assumes "norm_processBatch env batch nz = (None, Some nb, nz')" "rb_Signatures batch \<noteq> []"
  shows "\<not> isCanonicalityDrift (canonical_cursors nb)"
  using assms(1)
proof (cases rule: processBatch_sent)
  case sentinel
  then show ?thesis using assms(2) by simp
next
  case (decoded resp ws errs s)
  have start: "snd (start_cursor batch) \<le> ds_cursorSequence s" unfolding decoded(4) by (rule decode_all_facts(2))
  show ?thesis
  proof (cases "CanonicalizeCursorValue (rb_Chain batch) (rb_PreviousCursorValue batch)")
    case None
    then show ?thesis unfolding decoded(6) by (simp add: isCanonicalityDrift_def canonical_cursors_def CanonicalizeCursorValue_def)
  next
    case (Some v)
    then have "rb_PreviousCursorSequence batch \<le> ds_cursorSequence s" using start by (simp add: start_cursor_def)
    then show ?thesis unfolding decoded(6) using decoded(5) by (simp add: isCanonicalityDrift_def canonical_cursors_def split: option.split)
  qed
qed

lemma sent_view:
  assumes "norm_processBatch env batch nz = (None, Some nb, nz')" "rb_Signatures batch \<noteq> []"
  shows "ingest_view ienv (canonical_cursors nb) d = d"
  using sent_no_drift [OF assms] by (simp add: ingest_view_def)

section \<open>Collected events\<close>

definition tx_events :: "normalized_batch \<Rightarrow> normalized_transaction \<Rightarrow> normalized_balance_event list" where
  "tx_events batch t = nt_BalanceEvents t @ (if fee_event_due t \<and> fee_amount_valid t then [buildFeeOnlyEvent t batch] else [])"

lemma add_event_events: "co_events (add_event ec co) = co_events co @ [ec]"
  by (simp add: add_event_def Let_def)

lemma add_token_events [simp]: "co_events (add_token tk co) = co_events co"
  by (simp add: add_token_def)

lemma collect_loop_events:
  "map ec_be (co_events (foldl (\<lambda>acc be. add_event (mk be) (add_token (tk be) acc)) co es)) = map ec_be (co_events co) @ map (\<lambda>be. ec_be (mk be)) es"
  by (induction es arbitrary: co) (simp_all add: add_event_events)

lemma collect_tx_events: "map ec_be (co_events (collect_tx batch co t)) = map ec_be (co_events co) @ tx_events batch t"
  by (simp add: collect_tx_def tx_events_def Let_def add_event_events collect_loop_events)

lemma collectEvents_events: "map ec_be (co_events (collectEvents batch)) = concat (map (tx_events batch) (nb_Transactions batch))"
proof -
  have "map ec_be (co_events (foldl (collect_tx batch) co txs)) = map ec_be (co_events co) @ concat (map (tx_events batch) txs)" for co txs
    by (induction txs arbitrary: co) (simp_all add: collect_tx_events)
  then show ?thesis by (simp add: collectEvents_def)
qed

lemma collected_ids: "ids_of (co_events (collectEvents batch)) = concat (map (\<lambda>t. map ne_EventID (tx_events batch t)) (nb_Transactions batch))"
proof -
  have "ids_of (co_events (collectEvents batch)) = map ne_EventID (map ec_be (co_events (collectEvents batch)))" by (simp add: ids_of_def)
  then show ?thesis unfolding collectEvents_events by (simp add: map_concat comp_def)
qed

section \<open>Identifiers\<close>

text \<open>The digests are hexadecimal: not empty, and without the colon of the synthetic fee identifiers.\<close>

definition hex_digest :: "(string \<Rightarrow> string) \<Rightarrow> bool" where
  "hex_digest sum256 \<longleftrightarrow> (\<forall>s. sum256 s \<noteq> [] \<and> CHR '':'' \<notin> set (sum256 s))"

lemma fee_event_id: "ne_EventID (buildFeeOnlyEvent t batch) = ''fee:'' @ nb_Chain batch @ '':'' @ nt_TxHash t"
  by (simp add: buildFeeOnlyEvent_def Let_def)

lemma sent_ids:
  assumes "hex_digest sum256" "distinct (concat (map (\<lambda>t. map ne_EventID (nt_BalanceEvents t)) txs))" "distinct (map nt_TxHash txs)"
    and "\<And>t e. t \<in> set txs \<Longrightarrow> e \<in> set (nt_BalanceEvents t) \<Longrightarrow> ne_EventID e \<in> range sum256"
  shows "distinct (concat (map (\<lambda>t. map ne_EventID (tx_events batch t)) txs)) \<and> [] \<notin> set (concat (map (\<lambda>t. map ne_EventID (tx_events batch t)) txs))"
proof -
  have digest: "ne_EventID e \<noteq> [] \<and> CHR '':'' \<notin> set (ne_EventID e)" if "t \<in> set txs" "e \<in> set (nt_BalanceEvents t)" for t e
  proof -
    have "ne_EventID e \<in> range sum256" using that by (rule assms(4))
    then obtain x where "ne_EventID e = sum256 x" by (rule rangeE)
    then show ?thesis using assms(1) by (simp add: hex_digest_def)
  qed
  have fee: "e \<in> set (tx_events batch t) \<Longrightarrow> e \<in> set (nt_BalanceEvents t) \<or> nt_BalanceEvents t = [] \<and> ne_EventID e = ''fee:'' @ nb_Chain batch @ '':'' @ nt_TxHash t" for t e
    by (auto simp: tx_events_def fee_event_id fee_event_due_def split: if_splits)
  have "distinct (concat (map (\<lambda>t. map ne_EventID (tx_events batch t)) us))"
    if "set us \<subseteq> set txs" "distinct (concat (map (\<lambda>t. map ne_EventID (nt_BalanceEvents t)) us))" "distinct (map nt_TxHash us)" for us
    using that
  proof (induction us)
    case (Cons u us)
    have u: "distinct (map ne_EventID (tx_events batch u))" using Cons.prems(2) by (auto simp: tx_events_def fee_event_due_def)
    have "ne_EventID e \<noteq> ne_EventID e'" if e: "e \<in> set (tx_events batch u)" and v: "v \<in> set us" "e' \<in> set (tx_events batch v)" for e e' v
    proof -
      have in_txs: "u \<in> set txs" "v \<in> set txs" and ne: "nt_TxHash u \<noteq> nt_TxHash v" using Cons.prems(1,3) v(1) by auto
      have own: "ne_EventID e \<noteq> ne_EventID e'" if "e \<in> set (nt_BalanceEvents u)" "e' \<in> set (nt_BalanceEvents v)"
        using Cons.prems(2) that v(1) by auto
      have colon: "CHR '':'' \<in> set (''fee:'' @ nb_Chain batch @ '':'' @ nt_TxHash t)" for t by simp
      from fee [OF e] show ?thesis
      proof
        assume e_own: "e \<in> set (nt_BalanceEvents u)"
        from fee [OF v(2)] show ?thesis using own [OF e_own] digest [OF in_txs(1) e_own] colon by metis
      next
        assume e_fee: "nt_BalanceEvents u = [] \<and> ne_EventID e = ''fee:'' @ nb_Chain batch @ '':'' @ nt_TxHash u"
        from fee [OF v(2)] show ?thesis
        proof
          assume "e' \<in> set (nt_BalanceEvents v)"
          then have "CHR '':'' \<notin> set (ne_EventID e')" using digest [OF in_txs(2)] by simp
          then show ?thesis using e_fee colon by metis
        next
          assume "nt_BalanceEvents v = [] \<and> ne_EventID e' = ''fee:'' @ nb_Chain batch @ '':'' @ nt_TxHash v"
          then show ?thesis using e_fee ne by simp
        qed
      qed
    qed
    then show ?case using Cons u by auto
  qed simp
  then have "distinct (concat (map (\<lambda>t. map ne_EventID (tx_events batch t)) txs))" using assms(2,3) by blast
  moreover have "ne_EventID e \<noteq> []" if "t \<in> set txs" "e \<in> set (tx_events batch t)" for t e
    using fee [OF that(2)] digest [OF that(1)] by auto
  ultimately show ?thesis by fastforce
qed

section \<open>Batches and the ledger\<close>

lemma sent_events_ok:
  assumes "norm_processBatch env batch nz = (None, Some nb, nz')" "t \<in> set (nb_Transactions nb)"
  shows "events_ok (nv_sum256 env) (rb_Chain batch) (rb_Network batch) (nt_TxHash t) (resolveWatchedAddressSet batch) (nt_BalanceEvents t)"
    and "\<exists>r tm. t = normalizedTxFromResult (nv_sum256 env) batch r tm (resolveWatchedAddressSet batch)"
proof -
  have "events_ok (nv_sum256 env) (rb_Chain batch) (rb_Network batch) (nt_TxHash t) (resolveWatchedAddressSet batch) (nt_BalanceEvents t) \<and>
      (\<exists>r tm. t = normalizedTxFromResult (nv_sum256 env) batch r tm (resolveWatchedAddressSet batch))"
    using assms(1)
  proof (cases rule: processBatch_sent)
    case sentinel
    then show ?thesis using assms(2) by (simp add: batch_shell_def)
  next
    case (decoded resp ws errs s)
    have t: "t \<in> set (ds_txs s)" using assms(2) unfolding decoded(6) by simp
    show ?thesis
      using decode_all_events_ok [OF t [unfolded decoded(4)]] subsetD [OF decode_all_facts(4) t [unfolded decoded(4)]] by auto
  qed
  then show "events_ok (nv_sum256 env) (rb_Chain batch) (rb_Network batch) (nt_TxHash t) (resolveWatchedAddressSet batch) (nt_BalanceEvents t)"
    "\<exists>r tm. t = normalizedTxFromResult (nv_sum256 env) batch r tm (resolveWatchedAddressSet batch)"
    by blast+
qed

lemma sent_shell:
  assumes "norm_processBatch env batch nz = (None, Some nb, nz')"
  shows "nb_BlockScanMode nb = rb_BlockScanMode batch" "nb_Address nb = rb_Address batch" "nb_WalletID nb = rb_WalletID batch" "nb_OrgID nb = rb_OrgID batch"
  using assms by (cases rule: processBatch_sent; simp add: batch_shell_def sent_batch_def)+

lemma sent_new_batch:
  assumes "norm_processBatch env batch nz = (None, Some nb, nz')" "hex_digest (nv_sum256 env)"
    and "distinct (concat (map (\<lambda>t. map ne_EventID (nt_BalanceEvents t)) (nb_Transactions nb)))" "distinct (map nt_TxHash (nb_Transactions nb))"
    and "set (ids_of (co_events (collectEvents nb))) \<inter> be_EventID ` set (db_events d) = {}"
  shows "new_batch nb d"
proof -
  have "ne_EventID e \<in> range (nv_sum256 env)" if "t \<in> set (nb_Transactions nb)" "e \<in> set (nt_BalanceEvents t)" for t e
    using sent_events_ok(1) [OF assms(1) that(1)] that(2) by (auto simp: events_ok_def list_all_iff event_ok_def buildCanonicalEventID_def)
  then have "distinct (ids_of (co_events (collectEvents nb))) \<and> [] \<notin> set (ids_of (co_events (collectEvents nb)))"
    unfolding collected_ids by (rule sent_ids [OF assms(2-4)])
  then show ?thesis using assms(5) by (simp add: new_batch_def Let_def)
qed

section \<open>Fees of strangers\<close>

lemma canonical_Solana_Nil: "canonicalizeSolanaBalanceEvents sum256 c n txHash fs es = [] \<longleftrightarrow> es = []"
proof -
  let ?xs = "map (solana_canonical_event sum256 c n txHash (normalizeFinalityStateOrDefault c fs)
      (map owner_key (filter owns_outer (map (solana_canonical_fields c) es)))) (sort_key solana_sort_key (map (solana_canonical_fields c) es))"
  let ?out = "in_key_order (keep_best shouldReplaceCanonicalSolanaEvent (map (\<lambda>x. (ne_EventID (fst x), x)) ?xs))"
  have "?out = [] \<longleftrightarrow> map (\<lambda>x. ne_EventID (fst x)) ?out = []" by (simp only: map_is_Nil_conv)
  also have "\<dots> \<longleftrightarrow> es = []" unfolding canonical_list(1) by (simp add: sorted_list_of_set_eq_Nil_iff)
  finally show ?thesis by (simp only: canonicalizeSolanaBalanceEvents_def Let_def map_is_Nil_conv)
qed

lemma solana_watched_payer:
  assumes "buildCanonicalSolanaBalanceEventsMulti sum256 c n txHash st payer fee fs raw watched = []" "shouldEmitSolanaFeeEvent st payer fee"
  shows "\<not> watched payer"
proof
  assume w: "watched payer"
  let ?raw = "buildRawBalanceEventsMulti raw watched True"
  have "\<not> hasFeeEvent [] payer" by (simp add: hasFeeEvent_def)
  then show False using assms w by (cases "hasFeeEvent ?raw payer"; cases "?raw") (simp_all add: buildCanonicalSolanaBalanceEventsMulti_def canonical_Solana_Nil Let_def)
qed

lemma sent_solana_stranger:
  assumes "norm_processBatch env batch nz = (None, Some nb, nz')" "rb_Chain batch = ChainSolana" "t \<in> set (nb_Transactions nb)" "fee_event_due t"
    "TrimSpace (nt_FeePayer t) \<noteq> []" "parseBigInt (nt_FeeAmount t) = Some v" "v \<noteq> 0"
  shows "\<not> resolveWatchedAddressSet batch (nt_FeePayer t)"
proof -
  have chain: "\<not> IsEVMChain ChainSolana" "ChainSolana \<noteq> ChainBTC" "isFeeEligibleStatus TxStatusFailed" by code_simp+
  obtain r tm where t: "t = normalizedTxFromResult (nv_sum256 env) batch r tm (resolveWatchedAddressSet batch)" using sent_events_ok(2) [OF assms(1,3)] by blast
  have r: "nt_Status t = dr_Status r" "nt_FeePayer t = dr_FeePayer r" "nt_FeeAmount t = dr_FeeAmount r" unfolding t by (simp_all add: normalizedTxFromResult_def Let_def)
  have "shouldEmitSolanaFeeEvent (dr_Status r) (dr_FeePayer r) (dr_FeeAmount r)"
    using assms(4-7) chain(3) unfolding r [symmetric] by (simp add: shouldEmitSolanaFeeEvent_def fee_event_due_def)
  moreover have "nt_BalanceEvents t = []" using assms(4) by (simp add: fee_event_due_def)
  then have "buildCanonicalSolanaBalanceEventsMulti (nv_sum256 env) ChainSolana (rb_Network batch) (result_hash (rb_Chain batch) r) (dr_Status r) (dr_FeePayer r)
      (dr_FeeAmount r) (resolveResultFinalityState ChainSolana (Some r)) (dr_BalanceEvents r) (resolveWatchedAddressSet batch) = []"
    unfolding t by (simp add: normalizedTxFromResult_def Let_def result_events_def assms(2) chain)
  ultimately show ?thesis unfolding r by (rule solana_watched_payer [rotated])
qed

text \<open>A concrete digest without collisions: the bits of the characters.\<close>

primrec bits :: "char \<Rightarrow> string" where
  "bits (Char a b c d e f g h) = map (\<lambda>x. if x then CHR ''1'' else CHR ''0'') [a, b, c, d, e, f, g, h]"

definition bit_digest :: "string \<Rightarrow> string" where
  "bit_digest s = CHR ''d'' # concat (map bits s)"

lemma bits_inject: "bits x = bits y \<longleftrightarrow> x = y"
  by (cases x; cases y) (simp split: if_splits)

lemma inj_bit_digest: "inj bit_digest"
proof (rule injI)
  fix s t assume "bit_digest s = bit_digest t"
  then have "concat (map bits s) = concat (map bits t)" by (simp add: bit_digest_def)
  moreover have len: "length (bits x) = 8" for x by (cases x) simp
  have "concat (map bits s) = concat (map bits t) \<Longrightarrow> s = t"
  proof (induction s arbitrary: t)
    case Nil
    then show ?case using len by (cases t) (auto simp: length_0_conv [symmetric] simp del: length_0_conv)
  next
    case (Cons x s)
    then show ?case using len [of x] len by (cases t) (auto simp: bits_inject append_eq_append_conv length_0_conv [symmetric] simp del: length_0_conv)
  qed
  ultimately show "s = t" by blast
qed

lemma hex_bit_digest: "hex_digest bit_digest"
proof -
  have "CHR '':'' \<notin> set (bits x)" for x by (cases x) simp
  then show ?thesis by (simp add: hex_digest_def bit_digest_def)
qed

section \<open>Cursors of decoded batches\<close>

text \<open>A decoded signature pulls the cursor up to its own sequence.\<close>

lemma accept_reaches: "sig_Sequence sig \<le> ds_cursorSequence (accept_result env batch watched i sig key r s)"
  by (auto simp: accept_result_def shouldAdvanceCanonicalCursor_def Let_def case_prod_beta)

lemma decode_signature_reaches:
  "ds_txs (decode_signature env batch watched errs unexp single isig s) = ds_txs s \<or>
   sig_Sequence (snd isig) \<le> ds_cursorSequence (decode_signature env batch watched errs unexp single isig s)"
proof (cases rule: decode_signature_cases [of env batch watched errs unexp single isig s])
  case (isolated g r s1)
  then show ?thesis by auto
next
  case (accepted r s1)
  then show ?thesis by (simp add: accept_reaches)
qed

lemma decode_loop_reaches:
  fixes env batch watched errs unexp single xs s
  defines "t \<equiv> fold (decode_signature env batch watched errs unexp single) xs s"
  assumes "ds_txs t \<noteq> ds_txs s"
  shows "\<exists>sig \<in> snd ` set xs. sig_Sequence sig \<le> ds_cursorSequence t"
  using assms(2) unfolding t_def
proof (induction xs arbitrary: s)
  case (Cons x xs)
  let ?d = "decode_signature env batch watched errs unexp single x s"
  show ?case
  proof (cases "ds_txs ?d = ds_txs s")
    case True
    then show ?thesis using Cons.IH [of ?d] Cons.prems by auto
  next
    case False
    then have "sig_Sequence (snd x) \<le> ds_cursorSequence ?d" using decode_signature_reaches [of env batch watched errs unexp single x s] by blast
    also have "\<dots> \<le> ds_cursorSequence (fold (decode_signature env batch watched errs unexp single) xs ?d)" by (rule decode_loop(2))
    finally show ?thesis by auto
  qed
qed simp

lemma sent_cursor_reaches:
  assumes "norm_processBatch env batch nz = (None, Some nb, nz')" "rb_Signatures batch \<noteq> []"
  shows "\<exists>s \<in> set (rb_Signatures batch). sig_Sequence s \<le> nb_NewCursorSequence nb"
  using assms(1)
proof (cases rule: processBatch_sent)
  case sentinel
  then show ?thesis using assms(2) by simp
next
  case (decoded resp ws errs s)
  let ?sigs = "canonicalizeBatchSignatures (rb_Chain batch) (rb_Signatures batch)"
  have "\<exists>sig \<in> snd ` set (zip [0..<length ?sigs] ?sigs). sig_Sequence sig \<le> ds_cursorSequence s"
    unfolding decoded(4) decode_all_def Let_def by (rule decode_loop_reaches) (use decoded(4,5) in \<open>simp add: decode_all_def Let_def\<close>)
  then obtain sig where sig: "sig \<in> set ?sigs" "sig_Sequence sig \<le> ds_cursorSequence s" by (auto dest: set_zip_rightD)
  obtain s0 where "s0 \<in> set (rb_Signatures batch)" "sig_Sequence s0 = sig_Sequence sig"
    using sig(1) unfolding canonicalizeBatchSignatures_def Let_def by (fastforce dest!: keep_best_elem)
  then show ?thesis using sig(2) unfolding decoded(6) by (intro bexI [of _ s0]) simp_all
qed

end
