(* ===== verification/Fetcher.thy ===== *)
theory Fetcher
  imports Best_Selection Ingester_Rules LRU_Cache Circuit_Breaker Retry
begin

text \<open>
  The fetcher (\<^verbatim>\<open>internal/pipeline/fetcher/fetcher.go\<close>): a job names an address and a cursor, or a range of blocks;
  the fetcher asks the chain adapter for signatures and raw transactions and sends raw batches. The
  adapter is a parameter, with the answer of every call by its attempt. The state is the circuit
  breaker, the adaptive batch sizes by address, and the results reported to the auto-tune sink.
\<close>

section \<open>State and environment\<close>

record fetcher =
  ft_retryMaxAttempts :: int
  ft_backoffInitial :: duration
  ft_backoffMax :: duration
  ft_adaptiveMinBatch :: int
  ft_boundaryOverlapLookahead :: int
  ft_blockScanMaxBatchTxs :: int
  ft_cbFailureThreshold :: int
  ft_cbSuccessThreshold :: int
  ft_cbOpenTimeout :: duration
  ft_circuitBreaker :: "breaker option"
  ft_batchSizeByAddress :: "(string, int) lru"
  ft_hasSink :: bool
  ft_signals :: "(chain \<times> network \<times> bool) list"

record fetch_env =
  fe_now :: time
  fe_cutoffAware :: bool
  fe_blockScan :: bool
  fe_signatures :: "nat \<Rightarrow> string \<Rightarrow> string option \<Rightarrow> int \<Rightarrow> gerr + signature_info list"
  fe_withCutoff :: "nat \<Rightarrow> string \<Rightarrow> string option \<Rightarrow> int \<Rightarrow> int \<Rightarrow> gerr + signature_info list"
  fe_scan :: "nat \<Rightarrow> block_no \<Rightarrow> block_no \<Rightarrow> string list \<Rightarrow> gerr + signature_info list"
  fe_transactions :: "nat \<Rightarrow> nat \<Rightarrow> string list \<Rightarrow> gerr + string list"
  fe_ctxErr :: "nat \<Rightarrow> gerr option"
  fe_sleep :: "nat \<Rightarrow> duration \<Rightarrow> gerr option"
  fe_send :: "nat \<Rightarrow> gerr option"
  fe_rnd :: "int \<Rightarrow> int"
  fe_FromError :: "gerr \<Rightarrow> nat option"
  fe_codeString :: "nat \<Rightarrow> string"

definition NewFetcher :: fetcher where
  "NewFetcher = \<lparr>ft_retryMaxAttempts = 4, ft_backoffInitial = 200000000, ft_backoffMax = 3000000000, ft_adaptiveMinBatch = 1,
     ft_boundaryOverlapLookahead = 0, ft_blockScanMaxBatchTxs = 0, ft_cbFailureThreshold = 0, ft_cbSuccessThreshold = 0, ft_cbOpenTimeout = 0,
     ft_circuitBreaker = None, ft_batchSizeByAddress = NewLRU 10000 3600000000000, ft_hasSink = False, ft_signals = []\<rparr>"

definition WithAutoTuneSignalSink :: "bool \<Rightarrow> fetcher \<Rightarrow> fetcher" where
  "WithAutoTuneSignalSink sink f = f\<lparr>ft_hasSink := sink\<rparr>"

definition fetch_WithRetryConfig :: "int \<Rightarrow> duration \<Rightarrow> duration \<Rightarrow> fetcher \<Rightarrow> fetcher" where
  "fetch_WithRetryConfig maxAttempts backoffInitial backoffMax f =
     f\<lparr>ft_retryMaxAttempts := maxAttempts, ft_backoffInitial := backoffInitial, ft_backoffMax := backoffMax\<rparr>"

definition WithAdaptiveMinBatch :: "int \<Rightarrow> fetcher \<Rightarrow> fetcher" where
  "WithAdaptiveMinBatch minBatch f = f\<lparr>ft_adaptiveMinBatch := minBatch\<rparr>"

definition WithBoundaryOverlapLookahead :: "int \<Rightarrow> fetcher \<Rightarrow> fetcher" where
  "WithBoundaryOverlapLookahead n f = f\<lparr>ft_boundaryOverlapLookahead := n\<rparr>"

definition WithBlockScanMaxBatchTxs :: "int \<Rightarrow> fetcher \<Rightarrow> fetcher" where
  "WithBlockScanMaxBatchTxs maxTxs f = f\<lparr>ft_blockScanMaxBatchTxs := maxTxs\<rparr>"

definition fetch_WithCircuitBreaker :: "int \<Rightarrow> int \<Rightarrow> duration \<Rightarrow> fetcher \<Rightarrow> fetcher" where
  "fetch_WithCircuitBreaker failureThreshold successThreshold openTimeout f =
     f\<lparr>ft_cbFailureThreshold := failureThreshold, ft_cbSuccessThreshold := successThreshold, ft_cbOpenTimeout := openTimeout\<rparr>"

definition fetch_init_breaker :: "fetcher \<Rightarrow> fetcher" where
  "fetch_init_breaker f = (case ft_circuitBreaker f of
     Some b \<Rightarrow> f
   | None \<Rightarrow> f\<lparr>ft_circuitBreaker := Some (breaker_New
       \<lparr>cfg_FailureThreshold = (if ft_cbFailureThreshold f \<le> 0 then 10 else ft_cbFailureThreshold f),
        cfg_SuccessThreshold = (if ft_cbSuccessThreshold f \<le> 0 then 3 else ft_cbSuccessThreshold f),
        cfg_OpenTimeout = (if ft_cbOpenTimeout f \<le> 0 then 30000000000 else ft_cbOpenTimeout f)\<rparr>)\<rparr>)"

definition fetch_attempts :: "fetcher \<Rightarrow> nat" where
  "fetch_attempts f = (if ft_retryMaxAttempts f \<le> 0 then 4 else nat (ft_retryMaxAttempts f))"

definition effectiveAdaptiveMinBatch :: "fetcher \<Rightarrow> int" where
  "effectiveAdaptiveMinBatch f = (if ft_adaptiveMinBatch f \<le> 0 then 1 else ft_adaptiveMinBatch f)"

definition effectiveBoundaryOverlapLookahead :: "fetcher \<Rightarrow> int" where
  "effectiveBoundaryOverlapLookahead f = (if ft_boundaryOverlapLookahead f \<le> 0 then 1 else ft_boundaryOverlapLookahead f)"

definition effectiveBlockScanMaxBatchTxs :: "fetcher \<Rightarrow> nat" where
  "effectiveBlockScanMaxBatchTxs f = (if ft_blockScanMaxBatchTxs f \<le> 0 then 500 else nat (ft_blockScanMaxBatchTxs f))"

section \<open>Delays and RPC results\<close>

fun fetch_double :: "nat \<Rightarrow> duration \<Rightarrow> duration \<Rightarrow> duration" where
  "fetch_double 0 maxDelay delay = delay"
| "fetch_double (Suc n) maxDelay delay = (if delay \<ge> maxDelay div 2 then maxDelay else fetch_double n maxDelay (wrap64 (delay * 2)))"

text \<open>None is the panic of \<^verbatim>\<open>rand.Int64N\<close>.\<close>

definition fetch_retryDelay :: "(int \<Rightarrow> int) \<Rightarrow> fetcher \<Rightarrow> nat \<Rightarrow> duration option" where
  "fetch_retryDelay rnd f attempt =
     (let base = (if ft_backoffInitial f \<le> 0 then 200000000 else ft_backoffInitial f);
          max0 = (if ft_backoffMax f \<le> 0 then 3000000000 else ft_backoffMax f);
          maxDelay = (if max0 < base then base else max0);
          delay0 = fetch_double (attempt - 1) maxDelay base;
          delay = (if delay0 > maxDelay then maxDelay else delay0)
      in if delay > 0 then (if delay div 4 \<le> 0 then None else Some (wrap64 (delay + rnd (delay div 4)))) else Some delay)"

text \<open>How a call ends when it does not return a value: with an error, or with a panic, which only the worker recovers.\<close>

datatype stop = Failed gerr | Panicked string

definition fetch_pause :: "fetch_env \<Rightarrow> fetcher \<Rightarrow> nat \<Rightarrow> stop option" where
  "fetch_pause env f attempt = (case fetch_retryDelay (fe_rnd env) f attempt of
     None \<Rightarrow> Some (Panicked ''invalid argument to Int64N'')
   | Some d \<Rightarrow> if d \<le> 0 then None else map_option Failed (fe_sleep env attempt d))"

definition recordRPCResult :: "fetch_env \<Rightarrow> chain \<Rightarrow> network \<Rightarrow> bool \<Rightarrow> fetcher \<Rightarrow> fetcher" where
  "recordRPCResult env c n isError f =
     (let f1 = (if ft_hasSink f then f\<lparr>ft_signals := ft_signals f @ [(c, n, isError)]\<rparr> else f)
      in case ft_circuitBreaker f1 of
        None \<Rightarrow> f1
      | Some b \<Rightarrow> f1\<lparr>ft_circuitBreaker := Some (if isError then RecordFailure (fe_now env) b else RecordSuccess b)\<rparr>)"

definition fetch_transient :: "fetch_env \<Rightarrow> gerr \<Rightarrow> bool" where
  "fetch_transient env e = IsTransient (Classify (fe_FromError env) (fe_codeString env) (Some e))"

definition fetch_reason :: "fetch_env \<Rightarrow> gerr \<Rightarrow> string" where
  "fetch_reason env e = d_Reason (Classify (fe_FromError env) (fe_codeString env) (Some e))"

section \<open>Signatures\<close>

definition canonicalizeWatchedAddressIdentity :: "chain \<Rightarrow> string \<Rightarrow> string" where
  "canonicalizeWatchedAddressIdentity chainID address =
     (let trimmed = TrimSpace address in
      if trimmed = '''' then ''''
      else if IsEVMChain chainID then
        (let withoutPrefix = strip_0x trimmed in
         if withoutPrefix = '''' then ''''
         else if IsHexString withoutPrefix then ''0x'' @ ToLower withoutPrefix
         else if HasPrefix trimmed ''0x'' \<or> HasPrefix trimmed ''0X'' then ''0x'' @ ToLower withoutPrefix
         else trimmed)
      else trimmed)"

definition replaces_signature :: "signature_info \<Rightarrow> signature_info \<Rightarrow> bool" where
  "replaces_signature existing incoming =
     (if sig_Sequence existing \<noteq> sig_Sequence incoming then sig_Sequence incoming > sig_Sequence existing
      else case (sig_Time existing, sig_Time incoming) of
        (None, Some _) \<Rightarrow> True
      | (Some _, None) \<Rightarrow> False
      | (Some t, Some u) \<Rightarrow> if t \<noteq> u then u > t else sig_Hash incoming < sig_Hash existing
      | (None, None) \<Rightarrow> sig_Hash incoming < sig_Hash existing)"

definition sortSignatureInfosBySequenceThenHash :: "signature_info list \<Rightarrow> signature_info list" where
  "sortSignatureInfosBySequenceThenHash sigs = sort_key (\<lambda>s. (sig_Sequence s, sig_Hash s)) sigs"

definition canonical_by_identity :: "chain \<Rightarrow> (signature_info \<Rightarrow> bool) \<Rightarrow> signature_info list \<Rightarrow> signature_info list" where
  "canonical_by_identity chainID keep sigs =
     (let candidates = filter keep (map (\<lambda>s. s\<lparr>sig_Hash := CanonicalSignatureIdentity chainID (sig_Hash s)\<rparr>) sigs)
      in sortSignatureInfosBySequenceThenHash (map snd (keep_best replaces_signature (map (\<lambda>s. (sig_Hash s, s)) candidates))))"

definition canonicalizeSignatures :: "chain \<Rightarrow> signature_info list \<Rightarrow> signature_info list" where
  "canonicalizeSignatures chainID sigs = canonical_by_identity chainID (\<lambda>s. sig_Hash s \<noteq> '''') sigs"

definition filterAndCanonicalizeSignatures :: "chain \<Rightarrow> signature_info list \<Rightarrow> int \<Rightarrow> string option \<Rightarrow> signature_info list" where
  "filterAndCanonicalizeSignatures chainID sigs cutoffSeq cursor =
     (let cursorIdentity = (case cursor of None \<Rightarrow> '''' | Some v \<Rightarrow> CanonicalSignatureIdentity chainID v)
      in canonical_by_identity chainID (\<lambda>s. sig_Hash s \<noteq> '''' \<and> \<not> (cutoffSeq > 0 \<and> sig_Sequence s > cutoffSeq) \<and>
           \<not> (cursorIdentity \<noteq> '''' \<and> sig_Hash s = cursorIdentity)) sigs)"

definition suppressBoundaryCursorSignatures :: "chain \<Rightarrow> signature_info list \<Rightarrow> string option \<Rightarrow> int \<Rightarrow> signature_info list" where
  "suppressBoundaryCursorSignatures chainID sigs cursor cursorSequence =
     (case cursor of
        None \<Rightarrow> sigs
      | Some v \<Rightarrow> if sigs = [] then sigs
          else let cursorIdentity = CanonicalSignatureIdentity chainID v in
            if cursorIdentity = '''' then sigs
            else filter (\<lambda>s. CanonicalSignatureIdentity chainID (sig_Hash s) \<noteq> cursorIdentity) sigs)"

text \<open>The loop of \<^verbatim>\<open>suppressPreCursorSequenceCarryover\<close> over the sorted signatures, with its three indices.\<close>

record boundary =
  bd_missStart :: int
  bd_hitStart :: int
  bd_hitEnd :: int

definition boundary_step :: "int \<Rightarrow> nat \<times> signature_info \<Rightarrow> boundary \<Rightarrow> boundary" where
  "boundary_step prev isig b =
     (let i = int (fst isig); s = snd isig in
      if sig_Sequence s < prev then b
      else if sig_Sequence s = prev then b\<lparr>bd_hitStart := if bd_hitStart b = -1 then i else bd_hitStart b, bd_hitEnd := i + 1\<rparr>
      else if bd_missStart b = -1
      then b\<lparr>bd_missStart := i, bd_hitEnd := if bd_hitEnd b = -1 \<and> bd_hitStart b \<noteq> -1 then i else bd_hitEnd b\<rparr>
      else b)"

definition boundaries :: "int \<Rightarrow> signature_info list \<Rightarrow> boundary" where
  "boundaries prev sigs = fold (boundary_step prev) (zip [0..<length sigs] sigs) \<lparr>bd_missStart = -1, bd_hitStart = -1, bd_hitEnd = -1\<rparr>"

definition slice :: "int \<Rightarrow> int \<Rightarrow> 'a list \<Rightarrow> 'a list" where
  "slice i j xs = take (nat (j - i)) (drop (nat i) xs)"

text \<open>None is the panic of the slice expression \<^verbatim>\<open>sigs[missStart:]\<close> for a \<^verbatim>\<open>missStart\<close> of -1.\<close>

definition suppressPreCursorSequenceCarryover :: "signature_info list \<Rightarrow> int \<Rightarrow> int \<Rightarrow> signature_info list option" where
  "suppressPreCursorSequenceCarryover sigs0 prev requested0 =
     (if sigs0 = [] \<or> prev \<le> 0 then Some sigs0
      else let sigs = sortSignatureInfosBySequenceThenHash sigs0;
               requested = (if requested0 \<le> 0 then 1 else requested0);
               b = boundaries prev sigs;
               hitEnd = (if bd_hitStart b \<ge> 0 \<and> bd_hitEnd b < 0 then int (length sigs) else bd_hitEnd b);
               hits = (if bd_hitStart b \<ge> 0 then hitEnd - bd_hitStart b else 0);
               misses = (if bd_missStart b \<ge> 0 then int (length sigs) - bd_missStart b else 0)
           in if hits = 0 \<and> misses = 0 then Some sigs
              else if misses \<ge> requested then Some (slice (bd_missStart b) (bd_missStart b + requested) sigs)
              else if misses + hits \<le> requested
              then Some ((if bd_hitStart b \<ge> 0 then slice (bd_hitStart b) hitEnd sigs else []) @
                         (if bd_missStart b \<ge> 0 then drop (nat (bd_missStart b)) sigs else []))
              else let cursorSlice = take (nat (requested - misses)) (rev (sort_key sig_Hash (slice (bd_hitStart b) hitEnd sigs)))
                   in if bd_missStart b < 0 then None
                      else Some (sortSignatureInfosBySequenceThenHash (cursorSlice @ drop (nat (bd_missStart b)) sigs)))"

section \<open>Adaptive batch sizes\<close>

definition batchStateKey :: "chain \<Rightarrow> network \<Rightarrow> string \<Rightarrow> string" where
  "batchStateKey c n address = c @ ''|'' @ n @ ''|'' @ canonicalizeWatchedAddressIdentity c address"

definition put_size :: "fetch_env \<Rightarrow> string \<Rightarrow> int \<Rightarrow> fetcher \<Rightarrow> fetcher" where
  "put_size env key batch f = f\<lparr>ft_batchSizeByAddress := lru_Put (fe_now env) key batch (ft_batchSizeByAddress f)\<rparr>"

definition resolveBatchSize :: "fetch_env \<Rightarrow> chain \<Rightarrow> network \<Rightarrow> string \<Rightarrow> int \<Rightarrow> fetcher \<Rightarrow> int \<times> fetcher" where
  "resolveBatchSize env c n address hardCap0 f =
     (let hardCap = (if hardCap0 \<le> 0 then 1 else hardCap0);
          key = batchStateKey c n address;
          (found, cache) = lru_Get (fe_now env) key (ft_batchSizeByAddress f);
          f1 = f\<lparr>ft_batchSizeByAddress := cache\<rparr>
      in case found of
        None \<Rightarrow> (hardCap, put_size env key hardCap f1)
      | Some batch \<Rightarrow>
          if batch \<le> 0 then (hardCap, put_size env key hardCap f1)
          else let (batch1, f2) = (if batch > hardCap then (hardCap, put_size env key hardCap f1) else (batch, f1));
                   m = effectiveAdaptiveMinBatch f2
               in if batch1 < m then (m, put_size env key m f2) else (batch1, f2))"

definition setAdaptiveBatchSize :: "fetch_env \<Rightarrow> chain \<Rightarrow> network \<Rightarrow> string \<Rightarrow> int \<Rightarrow> fetcher \<Rightarrow> fetcher" where
  "setAdaptiveBatchSize env c n address batch f =
     (if batch \<le> 0 then f
      else put_size env (batchStateKey c n address) (if batch < effectiveAdaptiveMinBatch f then effectiveAdaptiveMinBatch f else batch) f)"

definition updateAdaptiveBatchSize :: "fetch_env \<Rightarrow> chain \<Rightarrow> network \<Rightarrow> string \<Rightarrow> int \<Rightarrow> int \<Rightarrow> int \<Rightarrow> int \<Rightarrow> int \<Rightarrow> fetcher \<Rightarrow> fetcher" where
  "updateAdaptiveBatchSize env c n address hardCap0 requested usedSig usedTx selectedCount f =
     (let used = (if usedTx < usedSig then usedTx else usedSig) in
      if used \<le> 0 then f
      else if used < requested then setAdaptiveBatchSize env c n address used f
      else let hardCap1 = (if hardCap0 \<le> 0 then requested else hardCap0); hardCap = (if hardCap1 \<le> 0 then 1 else hardCap1) in
        if selectedCount = requested \<and> requested < hardCap
        then let next = wrap64 (requested * 2) in setAdaptiveBatchSize env c n address (if next > hardCap then hardCap else next) f
        else f)"

definition reduceBatchSize :: "fetcher \<Rightarrow> int \<Rightarrow> int" where
  "reduceBatchSize f current =
     (let m = effectiveAdaptiveMinBatch f in
      if current \<le> m then current else let next = current div 2 in if next < m then m else next)"

section \<open>Calls with retry\<close>

definition fetchNewSignatures :: "fetch_env \<Rightarrow> nat \<Rightarrow> string \<Rightarrow> string option \<Rightarrow> int \<Rightarrow> int \<Rightarrow> gerr + signature_info list" where
  "fetchNewSignatures env attempt address cursor batchSize cutoffSeq =
     (if cutoffSeq > 0 \<and> fe_cutoffAware env then fe_withCutoff env attempt address cursor batchSize cutoffSeq
      else fe_signatures env attempt address cursor batchSize)"

text \<open>A failed attempt of the two adaptive calls: the context, then the class of the error, then the last attempt.\<close>

definition attempt_error :: "fetch_env \<Rightarrow> string \<Rightarrow> nat \<Rightarrow> nat \<Rightarrow> gerr \<Rightarrow> gerr option" where
  "attempt_error env stage attempt attempts e = (case fe_ctxErr env attempt of
     Some c \<Rightarrow> Some c
   | None \<Rightarrow>
       if \<not> fetch_transient env e
       then Some (ErrWrap (''terminal_failure stage='' @ stage @ '' attempt='' @ nat_String attempt @ '' reason='' @ fetch_reason env e @ '': '') e)
       else if attempt = attempts
       then Some (ErrWrap (''transient_recovery_exhausted stage='' @ stage @ '' attempts='' @ nat_String attempts @ '' reason='' @ fetch_reason env e @ '': '') e)
       else None)"

text \<open>The loops count the attempts that remain, so that the call that leaves none is the last one.\<close>

fun signatures_loop :: "fetch_env \<Rightarrow> fetch_job \<Rightarrow> string option \<Rightarrow> nat \<Rightarrow> nat \<Rightarrow> int \<Rightarrow> fetcher \<Rightarrow> (stop + signature_info list) \<times> int \<times> fetcher" where
  "signatures_loop env job cursor attempts 0 current f =
     (Inl (Failed (ErrMsg ''transient_recovery_exhausted stage=fetcher.fetch_signatures attempts=0 reason=unset: %!w(<nil>)'')), current, f)"
| "signatures_loop env job cursor attempts (Suc left) current f =
     (let attempt = attempts - left;
          result = fetchNewSignatures env attempt (fj_Address job) cursor current (fj_FetchCutoffSeq job);
          f1 = recordRPCResult env (fj_Chain job) (fj_Network job) (isl result) f
      in case result of
        Inr sigs \<Rightarrow> (Inr sigs, current, f1)
      | Inl e \<Rightarrow> (case attempt_error env ''fetcher.fetch_signatures'' attempt attempts e of
            Some e' \<Rightarrow> (Inl (Failed e'), current, f1)
          | None \<Rightarrow> (case fetch_pause env f1 attempt of
              Some stop \<Rightarrow> (Inl stop, reduceBatchSize f1 current, f1)
            | None \<Rightarrow> signatures_loop env job cursor attempts left (reduceBatchSize f1 current) f1)))"

definition fetchSignaturesWithRetry :: "fetch_env \<Rightarrow> fetch_job \<Rightarrow> string option \<Rightarrow> int \<Rightarrow> fetcher \<Rightarrow> (stop + signature_info list) \<times> int \<times> fetcher" where
  "fetchSignaturesWithRetry env job cursor batchSize f = signatures_loop env job cursor (fetch_attempts f) (fetch_attempts f) batchSize f"

fun transactions_loop :: "fetch_env \<Rightarrow> fetch_job \<Rightarrow> signature_info list \<Rightarrow> nat \<Rightarrow> nat \<Rightarrow> int \<Rightarrow> fetcher \<Rightarrow>
    (stop + signature_info list \<times> string list) \<times> int \<times> fetcher" where
  "transactions_loop env job sigs attempts 0 current f =
     (Inl (Failed (ErrMsg ''transient_recovery_exhausted stage=fetcher.fetch_transactions attempts=0 reason=unset: %!w(<nil>)'')), current, f)"
| "transactions_loop env job sigs attempts (Suc left) current f =
     (let attempt = attempts - left;
          selected = take (nat current) sigs;
          result = fe_transactions env 0 attempt (map sig_Hash selected);
          f1 = recordRPCResult env (fj_Chain job) (fj_Network job) (isl result) f
      in case result of
        Inr rawTxs \<Rightarrow> (Inr (selected, rawTxs), current, f1)
      | Inl e \<Rightarrow> (case attempt_error env ''fetcher.fetch_transactions'' attempt attempts e of
            Some e' \<Rightarrow> (Inl (Failed e'), current, f1)
          | None \<Rightarrow> (case fetch_pause env f1 attempt of
              Some stop \<Rightarrow> (Inl stop, reduceBatchSize f1 current, f1)
            | None \<Rightarrow> transactions_loop env job sigs attempts left (reduceBatchSize f1 current) f1)))"

definition fetchTransactionsWithRetry :: "fetch_env \<Rightarrow> fetch_job \<Rightarrow> signature_info list \<Rightarrow> fetcher \<Rightarrow>
    (stop + signature_info list \<times> string list) \<times> int \<times> fetcher" where
  "fetchTransactionsWithRetry env job sigs f = transactions_loop env job sigs (fetch_attempts f) (fetch_attempts f) (int (length sigs)) f"

text \<open>The two loops of the block scan have one shape: the call of an attempt and the text before its error.\<close>

fun scan_loop :: "fetch_env \<Rightarrow> fetch_job \<Rightarrow> (nat \<Rightarrow> gerr + 'a list) \<Rightarrow> string \<Rightarrow> nat \<Rightarrow> nat \<Rightarrow> fetcher \<Rightarrow> (stop + 'a list) \<times> fetcher" where
  "scan_loop env job call label attempts 0 f = (Inr [], f)"
| "scan_loop env job call label attempts (Suc left) f =
     (let attempt = attempts - left; result = call attempt;
          f1 = recordRPCResult env (fj_Chain job) (fj_Network job) (isl result) f
      in case result of
        Inr xs \<Rightarrow> (Inr xs, f1)
      | Inl e \<Rightarrow>
          if \<not> fetch_transient env e \<or> attempt = attempts then (Inl (Failed (ErrWrap label e)), f1)
          else (case fetch_pause env f1 attempt of
              Some stop \<Rightarrow> (Inl stop, f1)
            | None \<Rightarrow> scan_loop env job call label attempts left f1))"

section \<open>Jobs\<close>

text \<open>The batches that were sent, with the error or panic that ended the job.\<close>

type_synonym fetch_result = "stop option \<times> raw_batch list \<times> fetcher"

definition send_raw :: "fetch_env \<Rightarrow> nat \<Rightarrow> raw_batch \<Rightarrow> stop option \<times> raw_batch list" where
  "send_raw env i b = (case fe_send env i of None \<Rightarrow> (None, [b]) | Some e \<Rightarrow> (Some (Failed e), []))"

definition scan_sentinel :: "fetch_job \<Rightarrow> raw_batch" where
  "scan_sentinel job = \<lparr>rb_Chain = fj_Chain job, rb_Network = fj_Network job, rb_Address = '''', rb_WalletID = None, rb_OrgID = None,
     rb_PreviousCursorValue = None, rb_PreviousCursorSequence = fj_StartBlock job, rb_RawTransactions = [], rb_Signatures = [],
     rb_NewCursorValue = None, rb_NewCursorSequence = fj_EndBlock job, rb_BlockScanMode = True, rb_WatchedAddresses = fj_WatchedAddresses job\<rparr>"

definition scan_sub_batch :: "fetch_job \<Rightarrow> signature_info \<Rightarrow> bool \<Rightarrow> signature_info list \<Rightarrow> string list \<Rightarrow> raw_batch" where
  "scan_sub_batch job newest isLastChunk chunk rawTxs =
     \<lparr>rb_Chain = fj_Chain job, rb_Network = fj_Network job, rb_Address = '''', rb_WalletID = None, rb_OrgID = None,
      rb_PreviousCursorValue = None, rb_PreviousCursorSequence = 0, rb_RawTransactions = rawTxs, rb_Signatures = chunk,
      rb_NewCursorValue = (if isLastChunk then Some (sig_Hash newest) else None),
      rb_NewCursorSequence = (if isLastChunk then sig_Sequence newest else wrap64 (fj_StartBlock job - 1)),
      rb_BlockScanMode = True, rb_WatchedAddresses = fj_WatchedAddresses job\<rparr>"

fun scan_chunks :: "fetch_env \<Rightarrow> fetch_job \<Rightarrow> signature_info \<Rightarrow> nat \<Rightarrow> nat \<Rightarrow> signature_info list list \<Rightarrow> fetcher \<Rightarrow> fetch_result" where
  "scan_chunks env job newest chunkCount chunkIdx [] f = (None, [], f)"
| "scan_chunks env job newest chunkCount chunkIdx (chunk # rest) f =
     (case scan_loop env job (\<lambda>attempt. fe_transactions env chunkIdx attempt (map sig_Hash chunk))
             (''block-scan FetchTransactions chunk '' @ nat_String (chunkIdx + 1) @ ''/'' @ nat_String chunkCount @ '': '')
             (fetch_attempts f) (fetch_attempts f) f of
        (Inl stop, f1) \<Rightarrow> (Some stop, [], f1)
      | (Inr rawTxs, f1) \<Rightarrow>
          (case send_raw env chunkIdx (scan_sub_batch job newest (rest = []) chunk rawTxs) of
             (Some stop, sent) \<Rightarrow> (Some stop, sent, f1)
           | (None, sent) \<Rightarrow> (let (err, more, f2) = scan_chunks env job newest chunkCount (chunkIdx + 1) rest f1 in (err, sent @ more, f2))))"

definition processBlockScanJob :: "fetch_env \<Rightarrow> fetch_job \<Rightarrow> fetcher \<Rightarrow> fetch_result" where
  "processBlockScanJob env job f =
     (if \<not> fe_blockScan env then (Some (Failed (ErrMsg (''adapter does not implement BlockScanAdapter for chain '' @ fj_Chain job))), [], f)
      else case scan_loop env job (\<lambda>attempt. fe_scan env attempt (fj_StartBlock job) (fj_EndBlock job) (fj_WatchedAddresses job))
                  ''block-scan ScanBlocks: '' (fetch_attempts f) (fetch_attempts f) f of
        (Inl stop, f1) \<Rightarrow> (Some stop, [], f1)
      | (Inr sigs0, f1) \<Rightarrow>
          (let sigs = canonicalizeSignatures (fj_Chain job) sigs0 in
           if sigs = [] then (let (err, sent) = send_raw env 0 (scan_sentinel job) in (err, sent, f1))
           else let cs = chunks (effectiveBlockScanMaxBatchTxs f1) sigs
                in scan_chunks env job (last sigs) (length cs) 0 cs f1))"

definition address_batch :: "fetch_job \<Rightarrow> string option \<Rightarrow> signature_info list \<Rightarrow> string list \<Rightarrow> raw_batch" where
  "address_batch job cursor selected rawTxs =
     \<lparr>rb_Chain = fj_Chain job, rb_Network = fj_Network job, rb_Address = fj_Address job, rb_WalletID = fj_WalletID job, rb_OrgID = fj_OrgID job,
      rb_PreviousCursorValue = cursor, rb_PreviousCursorSequence = fj_CursorSequence job, rb_RawTransactions = rawTxs, rb_Signatures = selected,
      rb_NewCursorValue = Some (sig_Hash (last selected)), rb_NewCursorSequence = sig_Sequence (last selected),
      rb_BlockScanMode = False, rb_WatchedAddresses = []\<rparr>"

text \<open>The parts of \<^verbatim>\<open>processJob\<close> from the selected signatures on, and from the fetched ones on.\<close>

definition fetch_selected :: "fetch_env \<Rightarrow> fetch_job \<Rightarrow> string \<Rightarrow> string option \<Rightarrow> int \<Rightarrow> int \<Rightarrow> signature_info list \<Rightarrow> fetcher \<Rightarrow> fetch_result" where
  "fetch_selected env job fetchAddress cursor requestedBatch sigBatchSize sigs f =
     (case fetchTransactionsWithRetry env job sigs f of
        (Inl (Panicked m), txBatchSize, f1) \<Rightarrow> (Some (Panicked m), [], f1)
      | (Inl (Failed e), txBatchSize, f1) \<Rightarrow> (Some (Failed e), [], setAdaptiveBatchSize env (fj_Chain job) (fj_Network job) fetchAddress txBatchSize f1)
      | (Inr (selected, rawTxs), txBatchSize, f1) \<Rightarrow>
          if selected = [] then (Some (Panicked ''runtime error: index out of range [-1]''), [], f1)
          else (case send_raw env 0 (address_batch job cursor selected rawTxs) of
             (Some stop, sent) \<Rightarrow> (Some stop, sent, f1)
           | (None, sent) \<Rightarrow> (None, sent, updateAdaptiveBatchSize env (fj_Chain job) (fj_Network job) fetchAddress (fj_BatchSize job) requestedBatch
                                  sigBatchSize txBatchSize (int (length selected)) f1)))"

definition select_signatures :: "fetch_env \<Rightarrow> fetch_job \<Rightarrow> string \<Rightarrow> string option \<Rightarrow> int \<Rightarrow> int \<Rightarrow> signature_info list \<Rightarrow> fetcher \<Rightarrow> fetch_result" where
  "select_signatures env job fetchAddress cursor requestedBatch sigBatchSize sigs0 f =
     (if sigs0 = [] then (None, [], f)
      else case suppressPreCursorSequenceCarryover (filterAndCanonicalizeSignatures (fj_Chain job) sigs0 (fj_FetchCutoffSeq job) cursor)
                  (fj_CursorSequence job) requestedBatch of
        None \<Rightarrow> (Some (Panicked ''runtime error: slice bounds out of range [-1:]''), [], f)
      | Some sigs \<Rightarrow> if sigs = [] then (None, [], f)
          else fetch_selected env job fetchAddress cursor requestedBatch sigBatchSize (take (nat requestedBatch) sigs) f)"

definition fetch_address :: "fetch_job \<Rightarrow> string" where
  "fetch_address job = (let canonical = canonicalizeWatchedAddressIdentity (fj_Chain job) (fj_Address job) in
     if canonical = '''' then fj_Address job else canonical)"

definition processAddressJob :: "fetch_env \<Rightarrow> fetch_job \<Rightarrow> fetcher \<Rightarrow> fetch_result" where
  "processAddressJob env job f =
     (let fetchAddress = fetch_address job;
          (requestedBatch, f1) = resolveBatchSize env (fj_Chain job) (fj_Network job) fetchAddress (fj_BatchSize job) f;
          cursor = CanonicalizeCursorValue (fj_Chain job) (fj_CursorValue job);
          signatureBatch = (if cursor = None then requestedBatch else wrap64 (requestedBatch + effectiveBoundaryOverlapLookahead f1))
      in case fetchSignaturesWithRetry env (job\<lparr>fj_Address := fetchAddress\<rparr>) cursor signatureBatch f1 of
        (Inl (Panicked m), sigBatchSize, f2) \<Rightarrow> (Some (Panicked m), [], f2)
      | (Inl (Failed e), sigBatchSize, f2) \<Rightarrow> (Some (Failed e), [], setAdaptiveBatchSize env (fj_Chain job) (fj_Network job) fetchAddress sigBatchSize f2)
      | (Inr sigs0, sigBatchSize, f2) \<Rightarrow> select_signatures env job fetchAddress cursor requestedBatch sigBatchSize sigs0 f2)"

definition processJob :: "fetch_env \<Rightarrow> fetch_job \<Rightarrow> fetcher \<Rightarrow> fetch_result" where
  "processJob env job f =
     (let (allowed, f1) = (case ft_circuitBreaker f of
            None \<Rightarrow> (True, f)
          | Some b \<Rightarrow> (let (ok, b') = Allow (fe_now env) b in (ok, f\<lparr>ft_circuitBreaker := Some b'\<rparr>)))
      in if \<not> allowed
         then (map_option Failed (Transient (Some (ErrWrap ''rpc circuit breaker open: '' (ErrMsg ''circuit breaker is open'')))), [], f1)
         else if fj_BlockScanMode job then processBlockScanJob env job f1 else processAddressJob env job f1)"

text \<open>A worker runs the jobs of its channel until one fails; the result is its error and the batches it sent.\<close>

fun fetch_worker :: "nat \<Rightarrow> (fetch_env \<times> fetch_job) list \<Rightarrow> fetcher \<Rightarrow> gerr option \<times> raw_batch list \<times> fetcher" where
  "fetch_worker workerID [] f = (None, [], f)"
| "fetch_worker workerID ((env, job) # jobs) f =
     (case processJob env job f of
        (None, sent, f1) \<Rightarrow> (let (err, more, f2) = fetch_worker workerID jobs f1 in (err, sent @ more, f2))
      | (Some (Failed e), sent, f1) \<Rightarrow> (Some (ErrWrap (''fetcher process job failed: address='' @ fj_Address job @ '': '') e), sent, f1)
      | (Some (Panicked m), sent, f1) \<Rightarrow> (Some (ErrMsg (''fetcher worker '' @ nat_String workerID @ '' panicked: '' @ m)), sent, f1))"

end
