(* ===== verification/Fetcher_Properties.thy ===== *)
theory Fetcher_Properties
  imports Fetcher
begin

text \<open>
  Properties of the fetcher: the signatures of a batch, the selection of signatures at the cursor, and
  the batches of a block scan.
\<close>

section \<open>Canonical signatures\<close>

abbreviation sig_key :: "signature_info \<Rightarrow> int \<times> string" where
  "sig_key s \<equiv> (sig_Sequence s, sig_Hash s)"

definition sig_rank :: "signature_info \<Rightarrow> int \<times> (int \<times> int) \<times> string" where
  "sig_rank s = (- sig_Sequence s, (case sig_Time s of None \<Rightarrow> (1, 0) | Some t \<Rightarrow> (0, - t)), sig_Hash s)"

lemma replaces_signature_rank: "replaces_signature x y \<longleftrightarrow> sig_rank y < sig_rank x"
  by (auto simp: replaces_signature_def sig_rank_def less_prod_def' split: option.splits)

interpretation fetch_signatures: ranked_choice replaces_signature sig_rank "\<lambda>_. True"
  by unfold_locales (rule replaces_signature_rank)

lemma sig_rank_inject: "sig_rank x = sig_rank y \<longleftrightarrow> x = (y :: signature_info)"
  by (cases x, cases y) (auto simp: sig_rank_def split: option.splits)

definition canonical_candidates :: "chain \<Rightarrow> (signature_info \<Rightarrow> bool) \<Rightarrow> signature_info list \<Rightarrow> signature_info list" where
  "canonical_candidates c keep sigs = filter keep (map (\<lambda>s. s\<lparr>sig_Hash := CanonicalSignatureIdentity c (sig_Hash s)\<rparr>) sigs)"

abbreviation best_signatures :: "signature_info list \<Rightarrow> (string \<times> signature_info) list" where
  "best_signatures cands \<equiv> keep_best replaces_signature (map (\<lambda>s. (sig_Hash s, s)) cands)"

lemma canonical_by_identity_eq: "canonical_by_identity c keep sigs = sort_key sig_key (map snd (best_signatures (canonical_candidates c keep sigs)))"
  by (simp add: canonical_by_identity_def canonical_candidates_def sortSignatureInfosBySequenceThenHash_def Let_def)

lemma best_elem: "(k, s) \<in> set (best_signatures cands) \<Longrightarrow> k = sig_Hash s \<and> s \<in> set cands"
  using keep_best_elem [of k s replaces_signature "map (\<lambda>s. (sig_Hash s, s)) cands"] by auto

lemma best_distinct: "distinct (map sig_Hash (map snd (best_signatures cands)))"
proof -
  have "map sig_Hash (map snd (best_signatures cands)) = map fst (best_signatures cands)" by (auto dest: best_elem)
  then show ?thesis using conjunct1 [OF keep_best_keys [of replaces_signature "map (\<lambda>s. (sig_Hash s, s)) cands"]] by (simp only:)
qed

lemma distinct_sort_key: "distinct (map g (sort_key f xs)) \<longleftrightarrow> distinct (map g xs)"
  by (simp add: distinct_map)

lemma canonical_sorted: "sorted (map sig_key (canonical_by_identity c keep sigs))"
  by (simp only: canonical_by_identity_eq sorted_sort_key)

lemma canonical_distinct: "distinct (map sig_Hash (canonical_by_identity c keep sigs))"
  unfolding canonical_by_identity_eq distinct_sort_key by (rule best_distinct)

lemma canonical_elem:
  assumes "s \<in> set (canonical_by_identity c keep sigs)"
  shows "keep s \<and> (\<exists>s0 \<in> set sigs. s = s0\<lparr>sig_Hash := CanonicalSignatureIdentity c (sig_Hash s0)\<rparr>)"
  using assms unfolding canonical_by_identity_eq by (auto simp: canonical_candidates_def dest!: best_elem)

lemma best_order:
  assumes "set xs = set ys"
  shows "set (best_signatures xs) = set (best_signatures ys)"
proof -
  have sub: "set (best_signatures us) \<subseteq> set (best_signatures vs)" if "set us = set vs" for us vs
  proof
    fix kx assume kx: "kx \<in> set (best_signatures us)"
    obtain k x where kxe: "kx = (k, x)" by (cases kx)
    have "map_of (best_signatures us) k = Some x"
      using kx keep_best_keys [of replaces_signature "map (\<lambda>s. (sig_Hash s, s)) us"] by (simp add: kxe map_of_eq_Some_iff)
    moreover have "map_option sig_rank (map_of (best_signatures us) k) = map_option sig_rank (map_of (best_signatures vs) k)"
      by (rule fetch_signatures.keep_best_order) (use that in auto)
    ultimately have "map_of (best_signatures vs) k = Some x" by (auto simp: sig_rank_inject map_option_case split: option.splits)
    then show "kx \<in> set (best_signatures vs)" unfolding kxe by (rule map_of_SomeD)
  qed
  show ?thesis using sub [OF assms] sub [OF assms [symmetric]] by blast
qed

lemma canonical_order_free:
  assumes "set sigs = set sigs'"
  shows "canonical_by_identity c keep sigs = canonical_by_identity c keep sigs'"
proof (rule map_sorted_distinct_set_unique [where f = sig_key])
  let ?xs = "canonical_by_identity c keep sigs" and ?ys = "canonical_by_identity c keep sigs'"
  have hash: "distinct (map sig_Hash zs) \<Longrightarrow> distinct (map sig_key zs)" for zs :: "signature_info list"
    by (auto simp: distinct_map inj_on_def)
  show "sorted (map sig_key ?xs)" "sorted (map sig_key ?ys)" by (rule canonical_sorted)+
  show "distinct (map sig_key ?xs)" "distinct (map sig_key ?ys)" by (rule hash, rule canonical_distinct)+
  have "set (canonical_candidates c keep sigs) = set (canonical_candidates c keep sigs')" using assms by (simp add: canonical_candidates_def)
  from best_order [OF this] show set_eq: "set ?xs = set ?ys" by (simp add: canonical_by_identity_eq)
  have "inj_on sig_Hash (set ?xs)" using canonical_distinct [of c keep sigs] by (simp add: distinct_map)
  then show "inj_on sig_key (set ?xs \<union> set ?ys)" unfolding set_eq [symmetric] by (simp add: inj_on_def)
qed

section \<open>The selection at the cursor\<close>

abbreviation pre_sigs :: "int \<Rightarrow> signature_info list \<Rightarrow> signature_info list" where
  "pre_sigs prev sigs \<equiv> filter (\<lambda>s. sig_Sequence s < prev) sigs"

abbreviation hit_sigs :: "int \<Rightarrow> signature_info list \<Rightarrow> signature_info list" where
  "hit_sigs prev sigs \<equiv> filter (\<lambda>s. sig_Sequence s = prev) sigs"

abbreviation miss_sigs :: "int \<Rightarrow> signature_info list \<Rightarrow> signature_info list" where
  "miss_sigs prev sigs \<equiv> filter (\<lambda>s. sig_Sequence s > prev) sigs"

lemma boundary_fold:
  assumes "sorted (map sig_Sequence sigs)"
  shows "sigs = pre_sigs prev sigs @ hit_sigs prev sigs @ miss_sigs prev sigs \<and> boundaries prev sigs =
    \<lparr>bd_missStart = (if miss_sigs prev sigs = [] then -1 else int (length (pre_sigs prev sigs) + length (hit_sigs prev sigs))),
     bd_hitStart = (if hit_sigs prev sigs = [] then -1 else int (length (pre_sigs prev sigs))),
     bd_hitEnd = (if hit_sigs prev sigs = [] then -1 else int (length (pre_sigs prev sigs) + length (hit_sigs prev sigs)))\<rparr>"
  using assms
proof (induction sigs rule: rev_induct)
  case Nil
  then show ?case by (simp add: boundaries_def)
next
  case (snoc s sigs)
  have zip: "zip [0..<length (sigs @ [s])] (sigs @ [s]) = zip [0..<length sigs] sigs @ [(length sigs, s)]" by simp
  have step: "boundaries prev (sigs @ [s]) = boundary_step prev (length sigs, s) (boundaries prev sigs)"
    unfolding boundaries_def zip by simp
  have srt: "sorted (map sig_Sequence sigs)" and le: "\<And>x. x \<in> set sigs \<Longrightarrow> sig_Sequence x \<le> sig_Sequence s"
    using snoc.prems by (auto simp: sorted_append)
  note ih = snoc.IH [OF srt]
  let ?pre = "pre_sigs prev sigs" and ?hit = "hit_sigs prev sigs" and ?miss = "miss_sigs prev sigs"
  have len: "length sigs = length ?pre + length ?hit + length ?miss" using arg_cong [OF conjunct1 [OF ih], of length] by simp
  consider "sig_Sequence s < prev" | "sig_Sequence s = prev" | "sig_Sequence s > prev" by linarith
  then show ?case
  proof cases
    case 1
    then have none: "?hit = []" "?miss = []" using le by (fastforce simp: filter_empty_conv)+
    then show ?thesis using ih 1 by (simp add: step boundary_step_def Let_def)
  next
    case 2
    then have none: "?miss = []" using le by (fastforce simp: filter_empty_conv)
    then show ?thesis using ih 2 len by (simp add: step boundary_step_def Let_def)
  next
    case 3
    then show ?thesis using ih len by (simp add: step boundary_step_def Let_def)
  qed
qed

text \<open>What the index arithmetic computes: the signatures after the cursor first, then those of the cursor's own sequence with the greatest
  hashes. None is the panic.\<close>

definition carryover_reference :: "signature_info list \<Rightarrow> int \<Rightarrow> int \<Rightarrow> signature_info list option" where
  "carryover_reference sigs0 prev requested =
     (let sigs = sort_key sig_key sigs0; hit = hit_sigs prev sigs; miss = miss_sigs prev sigs; n = nat (max 1 requested) in
      if hit = [] \<and> miss = [] then Some sigs
      else if length miss \<ge> n then Some (take n miss)
      else if length miss + length hit \<le> n then Some (hit @ miss)
      else if miss = [] then None
      else Some (sort_key sig_key (take (n - length miss) (rev (sort_key sig_Hash hit)) @ miss)))"

lemma sorted_sequences: "sorted (map sig_Sequence (sort_key sig_key sigs))"
proof -
  have "sorted_wrt (\<lambda>x y. sig_key x \<le> sig_key y) (sort_key sig_key sigs)" using sorted_sort_key [of sig_key sigs] by (simp only: sorted_map)
  then have "sorted_wrt (\<lambda>x y. sig_Sequence x \<le> sig_Sequence y) (sort_key sig_key sigs)" by (rule sorted_wrt_mono_rel [rotated]) auto
  then show ?thesis by (simp only: sorted_map)
qed

lemma carryover_eq:
  assumes "sigs0 \<noteq> []" "0 < prev"
  shows "suppressPreCursorSequenceCarryover sigs0 prev requested = carryover_reference sigs0 prev requested"
proof -
  let ?sigs = "sort_key sig_key sigs0"
  let ?pre = "pre_sigs prev ?sigs" and ?hit = "hit_sigs prev ?sigs" and ?miss = "miss_sigs prev ?sigs"
  note bf = boundary_fold [OF sorted_sequences, of sigs0 prev]
  define pre hit miss where parts: "pre = ?pre" "hit = ?hit" "miss = ?miss"
  have sigs: "?sigs = pre @ hit @ miss" using conjunct1 [OF bf] unfolding parts .
  have b: "boundaries prev ?sigs = \<lparr>bd_missStart = (if miss = [] then -1 else int (length pre + length hit)),
      bd_hitStart = (if hit = [] then -1 else int (length pre)), bd_hitEnd = (if hit = [] then -1 else int (length pre + length hit))\<rparr>"
    using conjunct2 [OF bf] unfolding parts .
  have r: "carryover_reference sigs0 prev requested = (let n = nat (max 1 requested) in
      if hit = [] \<and> miss = [] then Some (pre @ hit @ miss)
      else if length miss \<ge> n then Some (take n miss)
      else if length miss + length hit \<le> n then Some (hit @ miss)
      else if miss = [] then None
      else Some (sort_key sig_key (take (n - length miss) (rev (sort_key sig_Hash hit)) @ miss)))"
    unfolding carryover_reference_def Let_def parts [symmetric] unfolding sigs ..
  define n where n: "n = nat (max 1 requested)"
  have req: "(if requested \<le> 0 then 1 else requested) = int n" "0 < n" by (auto simp: n)
  have hits: "slice (int (length pre)) (int (length pre + length hit)) (pre @ hit @ miss) = hit" by (simp add: slice_def nat_add_distrib)
  have misses: "drop (length pre + length hit) (pre @ hit @ miss) = miss" by simp
  have take: "slice (int (length pre + length hit)) (int (length pre + length hit) + int n) (pre @ hit @ miss) = take n miss"
    by (simp add: slice_def nat_add_distrib)
  have empty: "sigs0 = [] \<or> prev \<le> 0 \<longleftrightarrow> False" using assms by simp
  have lhs: "suppressPreCursorSequenceCarryover sigs0 prev requested =
     (let hits = (if hit = [] then 0 else int (length hit)); misses = (if miss = [] then 0 else int (length miss)) in
      if hits = 0 \<and> misses = 0 then Some (pre @ hit @ miss)
      else if misses \<ge> int n then Some (slice (if miss = [] then -1 else int (length pre + length hit)) ((if miss = [] then -1 else int (length pre + length hit)) + int n) (pre @ hit @ miss))
      else if misses + hits \<le> int n then Some (hit @ miss)
      else if miss = [] then None
      else Some (sort_key sig_key (take (nat (int n - misses)) (rev (sort_key sig_Hash hit)) @ miss)))"
    unfolding suppressPreCursorSequenceCarryover_def sortSignatureInfosBySequenceThenHash_def empty if_False Let_def b req(1)
    unfolding sigs using hits misses by (cases "hit = []"; cases "miss = []") (simp_all add: slice_def)
  show ?thesis
    unfolding lhs r n [symmetric] Let_def using req(2) take by (cases "hit = []"; cases "miss = []") (simp_all add: nat_diff_distrib')
qed

lemma carryover_reference_None:
  "carryover_reference sigs prev requested = None \<longleftrightarrow> miss_sigs prev sigs = [] \<and> max 1 requested < int (length (hit_sigs prev sigs))"
proof -
  have len: "length (filter P (sort_key sig_key sigs)) = length (filter P sigs)" for P by (simp add: filter_sort)
  have nil: "filter P (sort_key sig_key sigs) = [] \<longleftrightarrow> filter P sigs = []" for P using len [of P] by (metis length_0_conv)
  show ?thesis unfolding carryover_reference_def Let_def len nil by auto
qed

lemma distinct_take_append: "distinct (xs @ ys) \<Longrightarrow> distinct (take k xs @ ys)"
  using set_take_subset [of k xs] by auto

lemma carryover_result:
  assumes "carryover_reference sigs0 prev requested = Some out"
  shows "set out \<subseteq> set sigs0" "sorted (map sig_key out)" "distinct (map sig_Hash sigs0) \<Longrightarrow> distinct (map sig_Hash out)"
    "(\<exists>s \<in> set sigs0. prev \<le> sig_Sequence s) \<Longrightarrow> s \<in> set out \<Longrightarrow> prev \<le> sig_Sequence s"
proof -
  let ?sigs = "sort_key sig_key sigs0" and ?n = "nat (max 1 requested)"
  let ?hit = "hit_sigs prev ?sigs" and ?miss = "miss_sigs prev ?sigs"
  have hm: "set (?hit @ ?miss) \<subseteq> set sigs0" "sorted (map sig_key (?hit @ ?miss))"
  proof -
    have eq: "?sigs = pre_sigs prev ?sigs @ ?hit @ ?miss" using conjunct1 [OF boundary_fold [OF sorted_sequences]] .
    have "sorted (map sig_key (pre_sigs prev ?sigs @ ?hit @ ?miss))" unfolding eq [symmetric] by (rule sorted_sort_key)
    then show "sorted (map sig_key (?hit @ ?miss))" by (simp add: sorted_append)
    show "set (?hit @ ?miss) \<subseteq> set sigs0" by auto
  qed
  have dist: "distinct (map sig_Hash (?hit @ ?miss))" if "distinct (map sig_Hash sigs0)"
    using that by (auto simp: distinct_map inj_on_def)
  consider "?hit = []" "?miss = []" "out = ?sigs" | "out = take ?n ?miss" | "out = ?hit @ ?miss"
    | "out = sort_key sig_key (take (?n - length ?miss) (rev (sort_key sig_Hash ?hit)) @ ?miss)"
    using assms unfolding carryover_reference_def Let_def by (fastforce split: if_splits)
  then have "set out \<subseteq> set sigs0 \<and> sorted (map sig_key out) \<and> (distinct (map sig_Hash sigs0) \<longrightarrow> distinct (map sig_Hash out)) \<and>
      ((\<exists>s \<in> set sigs0. prev \<le> sig_Sequence s) \<longrightarrow> (\<forall>s \<in> set out. prev \<le> sig_Sequence s))"
  proof cases
    case 1
    then have "\<not> (\<exists>s \<in> set sigs0. prev \<le> sig_Sequence s)" by (force simp: filter_empty_conv)
    then show ?thesis using 1(3) by (simp add: distinct_sort_key)
  next
    case 2
    have "sorted (map sig_key ?miss)" using hm(2) by (simp add: sorted_append)
    then show ?thesis using hm(1) dist by (auto simp: 2 take_map [symmetric] dest: in_set_takeD intro: sorted_wrt_take distinct_take)
  next
    case 3
    then show ?thesis using hm dist by auto
  next
    case 4
    have "distinct (map sig_Hash out)" if d: "distinct (map sig_Hash sigs0)"
    proof -
      have "distinct (map sig_Hash (rev (sort_key sig_Hash ?hit) @ ?miss))"
        using dist [OF d] by (simp add: distinct_sort_key rev_map [symmetric])
      then have "distinct (map sig_Hash (take (?n - length ?miss) (rev (sort_key sig_Hash ?hit)) @ ?miss))"
        unfolding map_append take_map [symmetric] by (rule distinct_take_append)
      then show ?thesis unfolding 4 distinct_sort_key .
    qed
    moreover have "sorted (map sig_key out)" unfolding 4 by (rule sorted_sort_key)
    moreover have "set out \<subseteq> set (?hit @ ?miss)" by (auto simp: 4 dest: in_set_takeD)
    ultimately show ?thesis using hm(1) by auto
  qed
  then show "set out \<subseteq> set sigs0" "sorted (map sig_key out)" "distinct (map sig_Hash sigs0) \<Longrightarrow> distinct (map sig_Hash out)"
    "(\<exists>s \<in> set sigs0. prev \<le> sig_Sequence s) \<Longrightarrow> s \<in> set out \<Longrightarrow> prev \<le> sig_Sequence s" by blast+
qed

section \<open>Sub-batches of a block scan\<close>

lemma set_butlast_take: "set (butlast (take k (xs @ [x]))) \<subseteq> set xs"
proof (cases "k \<le> length xs")
  case True
  then show ?thesis using in_set_butlastD [of _ "take k xs"] in_set_takeD [of _ k xs] by auto
qed simp

lemma send_raw_cases: "send_raw env i b = (None, [b]) \<or> (\<exists>e. send_raw env i b = (Some (Failed e), []))"
  by (simp add: send_raw_def split: option.split)

lemma scan_chunks_spec:
  assumes "scan_chunks env job newest n i cs f = (err, sent, f')"
  shows "map rb_Signatures sent = take (length sent) cs \<and> length sent \<le> length cs \<and> (err = None \<longrightarrow> length sent = length cs) \<and>
    map (\<lambda>b. (rb_NewCursorValue b, rb_NewCursorSequence b)) sent =
      take (length sent) (replicate (length cs - 1) (None, wrap64 (fj_StartBlock job - 1)) @ [(Some (sig_Hash newest), sig_Sequence newest)])"
  using assms
proof (induction cs arbitrary: i f err sent f')
  case (Cons c cs)
  let ?call = "scan_loop env job (\<lambda>attempt. fe_transactions env i attempt (map sig_Hash c))
      (''block-scan FetchTransactions chunk '' @ nat_String (i + 1) @ ''/'' @ nat_String n @ '': '') (fetch_attempts f) (fetch_attempts f) f"
  obtain r f1 where call: "?call = (r, f1)" by (cases ?call)
  show ?case
  proof (cases r)
    case (Inl stop)
    then show ?thesis using Cons.prems call by auto
  next
    case (Inr raw)
    let ?b = "scan_sub_batch job newest (cs = []) c raw"
    show ?thesis
    proof (cases "fe_send env i")
      case (Some e)
      then show ?thesis using Cons.prems call Inr by (auto simp: send_raw_def)
    next
      case None
      obtain err' more f2 where rest: "scan_chunks env job newest n (Suc i) cs f1 = (err', more, f2)" by (metis prod_cases3)
      then have out: "err = err'" "sent = ?b # more" using Cons.prems call Inr None by (simp_all add: send_raw_def)
      show ?thesis using Cons.IH [OF rest] out by (cases cs) (simp_all add: scan_sub_batch_def)
    qed
  qed
qed simp

lemma sub_batches:
  assumes run: "scan_chunks env job (last sigs) (length (chunks m sigs)) 0 (chunks m sigs) f = (err, sent, f')" and pos: "0 < m" and sigs_ne: "sigs \<noteq> []"
  shows "\<exists>rest. concat (map rb_Signatures sent) @ rest = sigs \<and> (err = None \<longrightarrow> rest = [] \<and> sent \<noteq> []) \<and>
    list_all (\<lambda>b. 0 < length (rb_Signatures b) \<and> length (rb_Signatures b) \<le> m) sent \<and>
    (let cursors = map (\<lambda>b. (rb_NewCursorValue b, rb_NewCursorSequence b)) sent;
         held = (None, wrap64 (fj_StartBlock job - 1)); newest = (Some (sig_Hash (last sigs)), sig_Sequence (last sigs))
     in (err = None \<longrightarrow> cursors = replicate (length sent - 1) held @ [newest]) \<and> set (butlast cursors) \<subseteq> {held})"
proof -
  let ?cs = "chunks m sigs"
  let ?cursors = "\<lambda>b. (rb_NewCursorValue b, rb_NewCursorSequence b)"
  have ne: "?cs \<noteq> []" using concat_chunks [OF pos, of sigs] sigs_ne by auto
  note spec = scan_chunks_spec [OF run]
  have sigs: "map rb_Signatures sent = take (length sent) ?cs" using spec by blast
  have parts: "concat (map rb_Signatures sent) @ concat (drop (length sent) ?cs) = sigs"
    unfolding sigs concat_append [symmetric] append_take_drop_id by (rule concat_chunks [OF pos])
  have "rb_Signatures b \<in> set ?cs" if "b \<in> set sent" for b
    using that sigs by (metis image_eqI in_set_takeD set_map)
  then have lens: "list_all (\<lambda>b. 0 < length (rb_Signatures b) \<and> length (rb_Signatures b) \<le> m) sent" using length_chunks by (force simp: list_all_iff)
  have cur: "map ?cursors sent = take (length sent) (replicate (length ?cs - 1) (None, wrap64 (fj_StartBlock job - 1)) @ [(Some (sig_Hash (last sigs)), sig_Sequence (last sigs))])"
    using spec by blast
  have held: "set (butlast (map ?cursors sent)) \<subseteq> {(None, wrap64 (fj_StartBlock job - 1))}"
    unfolding cur by (rule subset_trans [OF set_butlast_take]) (simp add: set_replicate_conv_if)
  have all: "length sent = length ?cs" if "err = None" using spec that by blast
  have whole: "concat (drop (length sent) ?cs) = [] \<and> sent \<noteq> []" if "err = None" using all [OF that] ne by auto
  have cursors: "map ?cursors sent = replicate (length sent - 1) (None, wrap64 (fj_StartBlock job - 1)) @ [(Some (sig_Hash (last sigs)), sig_Sequence (last sigs))]"
    if "err = None"
  proof -
    have "length (replicate (length ?cs - 1) (None, wrap64 (fj_StartBlock job - 1)) @ [(Some (sig_Hash (last sigs)), sig_Sequence (last sigs))]) = length ?cs"
      using ne by (simp add: Suc_le_eq)
    then show ?thesis unfolding cur all [OF that] by (simp only: take_all order_refl)
  qed
  show ?thesis unfolding Let_def using whole cursors by (intro exI [of _ "concat (drop (length sent) ?cs)"] conjI impI parts lens held) simp_all
qed

text \<open>Every sub-batch but the last holds the cursor before the first block.\<close>

lemma held_sub_batch:
  assumes "processBlockScanJob env job f = (err, sent, f')" "b \<in> set (butlast sent)"
  shows "rb_Signatures b \<noteq> [] \<and> rb_NewCursorValue b = None \<and> rb_NewCursorSequence b = wrap64 (fj_StartBlock job - 1)"
proof -
  obtain sigs f1 where run: "sigs \<noteq> []"
      "scan_chunks env job (last sigs) (length (chunks (effectiveBlockScanMaxBatchTxs f1) sigs)) 0 (chunks (effectiveBlockScanMaxBatchTxs f1) sigs) f1 = (err, sent, f')"
    using assms send_raw_cases [of env 0 "scan_sentinel job"]
    unfolding processBlockScanJob_def by (fastforce simp: Let_def split: if_splits prod.splits sum.splits)
  have pos: "0 < effectiveBlockScanMaxBatchTxs f1" by (simp add: effectiveBlockScanMaxBatchTxs_def)
  note sub = sub_batches [OF run(2) pos run(1)]
  have b: "b \<in> set sent" "(rb_NewCursorValue b, rb_NewCursorSequence b) \<in> set (butlast (map (\<lambda>b. (rb_NewCursorValue b, rb_NewCursorSequence b)) sent))"
    using assms(2) by (simp_all add: in_set_butlastD flip: map_butlast)
  show ?thesis using sub b unfolding Let_def list_all_iff by fastforce
qed

section \<open>Jobs of an address\<close>

lemma transactions_loop_selected:
  assumes "transactions_loop env job sigs attempts left current f = (Inr (selected, raw), k, f')"
  shows "\<exists>m. selected = take m sigs"
  using assms by (induction env job sigs attempts left current f rule: transactions_loop.induct)
    (auto simp: Let_def split: sum.splits option.splits)

lemma fetch_selected_sent:
  assumes "fetch_selected env job addr cursor requested sigBatch sigs f = (err, sent, f')"
  shows "sent = [] \<or> (\<exists>m raw. take m sigs \<noteq> [] \<and> sent = [address_batch job cursor (take m sigs) raw])"
proof (cases "fst (fetchTransactionsWithRetry env job sigs f)")
  case (Inl stop)
  then show ?thesis using assms by (cases stop) (auto simp: fetch_selected_def split: prod.splits)
next
  case (Inr sr)
  obtain selected raw k f1 where call: "fetchTransactionsWithRetry env job sigs f = (Inr (selected, raw), k, f1)"
    using Inr by (metis prod.collapse)
  then obtain m where m: "selected = take m sigs" using transactions_loop_selected unfolding fetchTransactionsWithRetry_def by blast
  show ?thesis
  proof (cases "selected = []")
    case True
    then show ?thesis using assms call by (simp add: fetch_selected_def)
  next
    case False
    then have "sent = [] \<or> sent = [address_batch job cursor selected raw]"
      using assms call send_raw_cases [of env 0 "address_batch job cursor selected raw"] by (auto simp: fetch_selected_def)
    then show ?thesis using False unfolding m by blast
  qed
qed

text \<open>What the adapter's signatures become before the selection at the cursor.\<close>

definition job_cursor :: "fetch_job \<Rightarrow> string option" where
  "job_cursor job = CanonicalizeCursorValue (fj_Chain job) (fj_CursorValue job)"

definition wanted :: "fetch_job \<Rightarrow> signature_info \<Rightarrow> bool" where
  "wanted job s \<longleftrightarrow> sig_Hash s \<noteq> [] \<and> (0 < fj_FetchCutoffSeq job \<longrightarrow> sig_Sequence s \<le> fj_FetchCutoffSeq job) \<and>
     (\<forall>v. job_cursor job = Some v \<longrightarrow> CanonicalSignatureIdentity (fj_Chain job) v \<noteq> sig_Hash s)"

definition job_batch_ok :: "fetch_job \<Rightarrow> raw_batch \<Rightarrow> bool" where
  "job_batch_ok job b \<longleftrightarrow> rb_Signatures b \<noteq> [] \<and> list_all (wanted job) (rb_Signatures b) \<and> sorted (map sig_key (rb_Signatures b)) \<and>
     distinct (map sig_Hash (rb_Signatures b)) \<and>
     (0 < fj_CursorSequence job \<longrightarrow> list_all (\<lambda>s. fj_CursorSequence job \<le> sig_Sequence s) (rb_Signatures b) \<or>
        list_all (\<lambda>s. sig_Sequence s < fj_CursorSequence job) (rb_Signatures b)) \<and>
     rb_PreviousCursorValue b = job_cursor job \<and> rb_PreviousCursorSequence b = fj_CursorSequence job \<and>
     rb_NewCursorValue b = Some (sig_Hash (last (rb_Signatures b))) \<and> rb_NewCursorSequence b = sig_Sequence (last (rb_Signatures b))"

lemma filtered_wanted: "s \<in> set (filterAndCanonicalizeSignatures (fj_Chain job) sigs (fj_FetchCutoffSeq job) (job_cursor job)) \<Longrightarrow> wanted job s"
  unfolding filterAndCanonicalizeSignatures_def Let_def
  by (drule canonical_elem) (auto simp: wanted_def split: option.splits)

lemma suppressed_ok:
  fixes job sigs0 requested
  defines "sigs \<equiv> filterAndCanonicalizeSignatures (fj_Chain job) sigs0 (fj_FetchCutoffSeq job) (job_cursor job)"
  assumes "suppressPreCursorSequenceCarryover sigs (fj_CursorSequence job) requested = Some out" "take m out \<noteq> []"
  shows "job_batch_ok job (address_batch job (job_cursor job) (take m out) raw)"
proof -
  have in_sorted: "sorted (map sig_key sigs)" and in_distinct: "distinct (map sig_Hash sigs)"
    unfolding sigs_def filterAndCanonicalizeSignatures_def Let_def by (rule canonical_sorted, rule canonical_distinct)
  have ne: "sigs \<noteq> []" using assms(2,3) by (auto simp: suppressPreCursorSequenceCarryover_def)
  have out: "set out \<subseteq> set sigs \<and> sorted (map sig_key out) \<and> distinct (map sig_Hash out) \<and>
     (0 < fj_CursorSequence job \<longrightarrow> (\<forall>s \<in> set out. fj_CursorSequence job \<le> sig_Sequence s) \<or> (\<forall>s \<in> set out. sig_Sequence s < fj_CursorSequence job))"
  proof (cases "0 < fj_CursorSequence job")
    case True
    from assms(2) have ref: "carryover_reference sigs (fj_CursorSequence job) requested = Some out" unfolding carryover_eq [OF ne True] .
    have "(\<forall>s \<in> set out. fj_CursorSequence job \<le> sig_Sequence s) \<or> (\<forall>s \<in> set out. sig_Sequence s < fj_CursorSequence job)"
      using carryover_result(1,4) [OF ref] by (meson linorder_not_less subsetD)
    then show ?thesis using carryover_result(1,2) [OF ref] carryover_result(3) [OF ref in_distinct] by blast
  next
    case False
    then have "out = sigs" using assms(2) by (simp add: suppressPreCursorSequenceCarryover_def)
    then show ?thesis using in_sorted in_distinct False by simp
  qed
  have sub: "set (take m out) \<subseteq> set out" by (rule set_take_subset)
  have "list_all (wanted job) (take m out)" using out sub filtered_wanted unfolding sigs_def list_all_iff by blast
  moreover have "sorted (map sig_key (take m out))" "distinct (map sig_Hash (take m out))"
    using out unfolding take_map [symmetric] by (simp_all add: sorted_wrt_take)
  ultimately show ?thesis using assms(3) out sub by (auto simp: job_batch_ok_def address_batch_def list_all_iff)
qed

lemma select_sent:
  assumes "select_signatures env job addr (job_cursor job) requested k sigs0 f = (err, sent, f')"
  shows "sent = [] \<or> (\<exists>b. sent = [b] \<and> job_batch_ok job b \<and> length (rb_Signatures b) \<le> nat requested)"
proof -
  let ?sup = "suppressPreCursorSequenceCarryover (filterAndCanonicalizeSignatures (fj_Chain job) sigs0 (fj_FetchCutoffSeq job) (job_cursor job)) (fj_CursorSequence job) requested"
  consider "sent = []" | out where "?sup = Some out" "fetch_selected env job addr (job_cursor job) requested k (take (nat requested) out) f = (err, sent, f')"
    using assms unfolding select_signatures_def by (auto split: if_splits option.splits)
  then show ?thesis
  proof cases
    case (2 out)
    from fetch_selected_sent [OF 2(2)] show ?thesis
    proof (elim disjE exE conjE)
      fix m raw assume m: "take m (take (nat requested) out) \<noteq> []" "sent = [address_batch job (job_cursor job) (take m (take (nat requested) out)) raw]"
      have "job_batch_ok job (address_batch job (job_cursor job) (take (min m (nat requested)) out) raw)"
        by (rule suppressed_ok [OF 2(1)]) (use m(1) in \<open>simp add: take_take\<close>)
      then show ?thesis using m(2) by (simp add: take_take address_batch_def)
    qed simp
  qed simp
qed

lemma resolveBatchSize_bounds:
  "1 \<le> fst (resolveBatchSize env c n a cap f) \<and> fst (resolveBatchSize env c n a cap f) \<le> max (max 1 cap) (effectiveAdaptiveMinBatch f)"
  by (auto simp: resolveBatchSize_def put_size_def effectiveAdaptiveMinBatch_def Let_def split: prod.split option.split)

lemma address_job_batches:
  assumes "processAddressJob env job f = (err, sent, f')"
  shows "sent = [] \<or> (\<exists>b. sent = [b] \<and> job_batch_ok job b \<and> int (length (rb_Signatures b)) \<le> max (max 1 (fj_BatchSize job)) (effectiveAdaptiveMinBatch f))"
proof -
  obtain requested f1 where size: "resolveBatchSize env (fj_Chain job) (fj_Network job) (fetch_address job) (fj_BatchSize job) f = (requested, f1)" by (metis surj_pair)
  let ?n = "if job_cursor job = None then requested else wrap64 (requested + effectiveBoundaryOverlapLookahead f1)"
  obtain r k f2 where call: "fetchSignaturesWithRetry env (job\<lparr>fj_Address := fetch_address job\<rparr>) (job_cursor job) ?n f1 = (r, k, f2)" by (metis prod_cases3)
  have bound: "1 \<le> requested \<and> requested \<le> max (max 1 (fj_BatchSize job)) (effectiveAdaptiveMinBatch f)"
    using resolveBatchSize_bounds [of env "fj_Chain job" "fj_Network job" "fetch_address job" "fj_BatchSize job" f] size by simp
  note job = assms [unfolded processAddressJob_def Let_def size prod.case, folded job_cursor_def, unfolded call prod.case]
  show ?thesis
  proof (cases r)
    case (Inl stop)
    then show ?thesis using job by (cases stop) simp_all
  next
    case (Inr sigs0)
    then have "select_signatures env job (fetch_address job) (job_cursor job) requested k sigs0 f2 = (err, sent, f')" using job by simp
    from select_sent [OF this] show ?thesis using bound by auto
  qed
qed

section \<open>Properties\<close>

text \<open>C18: the index arithmetic that selects signatures at the cursor computes its reference: the signatures after the cursor in order, cut to
  the requested number; when they are fewer, all signatures of the cursor's own sequence, or those with the greatest hashes. Older
  signatures are taken only when there are no others. It panics, by slicing from -1, exactly when there is nothing after the cursor and
  more than the requested number at the cursor's sequence.\<close>

theorem carryover_selection:
  assumes "sigs \<noteq> []" "0 < prev"
  shows "suppressPreCursorSequenceCarryover sigs prev requested = carryover_reference sigs prev requested \<and>
    (suppressPreCursorSequenceCarryover sigs prev requested = None \<longleftrightarrow>
       miss_sigs prev sigs = [] \<and> max 1 requested < int (length (hit_sigs prev sigs)))"
  using carryover_reference_None [of sigs prev requested] unfolding carryover_eq [OF assms] by simp

definition slot_sigs :: "signature_info list" where
  "slot_sigs = [\<lparr>sig_Hash = ''a'', sig_Sequence = 10, sig_Time = None\<rparr>, \<lparr>sig_Hash = ''b'', sig_Sequence = 10, sig_Time = None\<rparr>]"

theorem carryover_selection_witness:
  "suppressPreCursorSequenceCarryover slot_sigs 10 1 = None \<and>
   suppressPreCursorSequenceCarryover slot_sigs 10 2 = carryover_reference slot_sigs 10 2"
proof -
  have "slot_sigs \<noteq> []" "0 < (10::int)" by (simp_all add: slot_sigs_def)
  note sel = carryover_selection [OF this]
  have "miss_sigs 10 slot_sigs = []" "max 1 1 < int (length (hit_sigs 10 slot_sigs))" by (simp_all add: slot_sigs_def)
  then show ?thesis using conjunct2 [OF sel [of 1]] conjunct1 [OF sel [of 2]] by blast
qed


text \<open>C17: the sub-batches of a block scan. Those that are sent carry the canonical signatures of the range in order from the first on, each
  at least one and at most the configured number; when the job ends without error they carry all of them. Every sub-batch but the last
  has no cursor value and the sequence before the first block; the last one has the newest signature.\<close>

theorem block_scan_batches:
  assumes "processBlockScanJob env job f = (err, sent, f')"
    and "scan_loop env job (\<lambda>attempt. fe_scan env attempt (fj_StartBlock job) (fj_EndBlock job) (fj_WatchedAddresses job))
      ''block-scan ScanBlocks: '' (fetch_attempts f) (fetch_attempts f) f = (Inr sigs0, f1)"
    and "fe_blockScan env" "sigs = canonicalizeSignatures (fj_Chain job) sigs0" "sigs \<noteq> []"
  shows "\<exists>rest. concat (map rb_Signatures sent) @ rest = sigs \<and> (err = None \<longrightarrow> rest = [] \<and> sent \<noteq> []) \<and>
    list_all (\<lambda>b. 0 < length (rb_Signatures b) \<and> length (rb_Signatures b) \<le> effectiveBlockScanMaxBatchTxs f1) sent \<and>
    (let cursors = map (\<lambda>b. (rb_NewCursorValue b, rb_NewCursorSequence b)) sent;
         held = (None, wrap64 (fj_StartBlock job - 1)); newest = (Some (sig_Hash (last sigs)), sig_Sequence (last sigs))
     in (err = None \<longrightarrow> cursors = replicate (length sent - 1) held @ [newest]) \<and> set (butlast cursors) \<subseteq> {held})"
  by (rule sub_batches) (use assms in \<open>simp_all add: processBlockScanJob_def effectiveBlockScanMaxBatchTxs_def Let_def\<close>)

definition sample_sig :: "string \<Rightarrow> int \<Rightarrow> signature_info" where
  "sample_sig h n = \<lparr>sig_Hash = h, sig_Sequence = n, sig_Time = None\<rparr>"

definition sample_fetch_env :: "signature_info list \<Rightarrow> fetch_env" where
  "sample_fetch_env sigs = \<lparr>fe_now = 0, fe_cutoffAware = False, fe_blockScan = True, fe_signatures = (\<lambda>_ _ _ _. Inr sigs), fe_withCutoff = (\<lambda>_ _ _ _ _. Inr sigs),
     fe_scan = (\<lambda>_ _ _ _. Inr sigs), fe_transactions = (\<lambda>_ _ hs. Inr (map (\<lambda>_. ''{}'') hs)), fe_ctxErr = (\<lambda>_. None), fe_sleep = (\<lambda>_ _. None),
     fe_send = (\<lambda>_. None), fe_rnd = (\<lambda>_. 0), fe_FromError = (\<lambda>_. None), fe_codeString = (\<lambda>_. [])\<rparr>"

definition sample_job :: fetch_job where
  "sample_job = \<lparr>fj_Chain = ChainSolana, fj_Network = ''mainnet'', fj_Address = ''payer'', fj_CursorValue = None, fj_CursorSequence = 10,
     fj_FetchCutoffSeq = 0, fj_BatchSize = 1, fj_WalletID = None, fj_OrgID = None, fj_BlockScanMode = False, fj_StartBlock = 5, fj_EndBlock = 9,
     fj_WatchedAddresses = [''payer'']\<rparr>"

definition sample_fetcher :: fetcher where
  "sample_fetcher = WithBlockScanMaxBatchTxs 1 NewFetcher"

theorem block_scan_batches_witness:
  "map (\<lambda>b. (rb_NewCursorValue b, rb_NewCursorSequence b)) (fst (snd (processBlockScanJob (sample_fetch_env [sample_sig ''b'' 7, sample_sig ''a'' 6]) sample_job sample_fetcher))) =
     [(None, 4), (Some ''b'', 7)]"
proof -
  let ?env = "sample_fetch_env [sample_sig ''b'' 7, sample_sig ''a'' 6]"
  obtain err sent f' where out: "processBlockScanJob ?env sample_job sample_fetcher = (err, sent, f')" by (metis prod_cases3)
  have scan: "scan_loop ?env sample_job (\<lambda>attempt. fe_scan ?env attempt (fj_StartBlock sample_job) (fj_EndBlock sample_job) (fj_WatchedAddresses sample_job))
      ''block-scan ScanBlocks: '' (fetch_attempts sample_fetcher) (fetch_attempts sample_fetcher) sample_fetcher = (Inr [sample_sig ''b'' 7, sample_sig ''a'' 6], sample_fetcher)"
    by (simp add: sample_fetch_env_def sample_fetcher_def WithBlockScanMaxBatchTxs_def NewFetcher_def fetch_attempts_def recordRPCResult_def Let_def numeral_eq_Suc)
  have sigs: "[sample_sig ''a'' 6, sample_sig ''b'' 7] = canonicalizeSignatures (fj_Chain sample_job) [sample_sig ''b'' 7, sample_sig ''a'' 6]" by code_simp
  have "Option.is_none (fst (processBlockScanJob ?env sample_job sample_fetcher))" by code_simp
  then have none: "err = None" by (simp only: out fst_conv Option.is_none_def)
  have "length (fst (snd (processBlockScanJob ?env sample_job sample_fetcher))) = 2" by code_simp
  then have two: "length sent - 1 = 1" by (simp add: out)
  have w: "wrap64 (fj_StartBlock sample_job - 1) = 4" by code_simp
  have blockScan: "fe_blockScan ?env" by (simp add: sample_fetch_env_def)
  from block_scan_batches [OF out scan blockScan sigs] none
  have "map (\<lambda>b. (rb_NewCursorValue b, rb_NewCursorSequence b)) sent = replicate (length sent - 1) (None, wrap64 (fj_StartBlock sample_job - 1)) @ [(Some ''b'', 7)]"
    by (simp add: Let_def sample_sig_def)
  then show ?thesis unfolding out fst_conv snd_conv two w by simp
qed


lemma fetch_attempts_pos: "0 < fetch_attempts f"
  by (simp add: fetch_attempts_def)

lemma first_attempt_signatures:
  assumes "fetchNewSignatures env 1 (fj_Address job) cursor n (fj_FetchCutoffSeq job) = Inr sigs"
  shows "\<exists>f'. fetchSignaturesWithRetry env job cursor n f = (Inr sigs, n, f')"
proof -
  obtain left where "fetch_attempts f = Suc left" using fetch_attempts_pos [of f] by (cases "fetch_attempts f") simp_all
  then show ?thesis using assms by (simp add: fetchSignaturesWithRetry_def Let_def)
qed

text \<open>When everything the adapter has for an address lies at the cursor's own sequence, and it is more than the batch size, the job
  panics and sends nothing; the next job of the address starts from the same cursor.\<close>

theorem cursor_slot_panics:
  assumes "\<And>a c n. fe_signatures env 1 a c n = Inr sigs0" "fe_cutoffAware env = False" "0 < fj_CursorSequence job"
    and "sigs = filterAndCanonicalizeSignatures (fj_Chain job) sigs0 (fj_FetchCutoffSeq job) (job_cursor job)"
    and "\<And>s. s \<in> set sigs \<Longrightarrow> sig_Sequence s = fj_CursorSequence job"
    and "fst (resolveBatchSize env (fj_Chain job) (fj_Network job) (fetch_address job) (fj_BatchSize job) f) < int (length sigs)"
  shows "\<exists>f'. processAddressJob env job f = (Some (Panicked ''runtime error: slice bounds out of range [-1:]''), [], f')"
proof -
  obtain requested f1 where size: "resolveBatchSize env (fj_Chain job) (fj_Network job) (fetch_address job) (fj_BatchSize job) f = (requested, f1)" by (metis surj_pair)
  let ?n = "if job_cursor job = None then requested else wrap64 (requested + effectiveBoundaryOverlapLookahead f1)"
  have "fetchNewSignatures env 1 (fj_Address (job\<lparr>fj_Address := fetch_address job\<rparr>)) (job_cursor job) ?n (fj_FetchCutoffSeq (job\<lparr>fj_Address := fetch_address job\<rparr>)) = Inr sigs0"
    using assms(1,2) by (simp add: fetchNewSignatures_def)
  from first_attempt_signatures [OF this, of f1] obtain f2
    where call: "fetchSignaturesWithRetry env (job\<lparr>fj_Address := fetch_address job\<rparr>) (job_cursor job) ?n f1 = (Inr sigs0, ?n, f2)" by blast
  have ne: "sigs \<noteq> []" using assms(6) resolveBatchSize_bounds [of env "fj_Chain job" "fj_Network job" "fetch_address job" "fj_BatchSize job" f] by auto
  have ne0: "sigs0 \<noteq> []" using ne unfolding assms(4) by (auto simp: filterAndCanonicalizeSignatures_def canonical_by_identity_def keep_best_def sortSignatureInfosBySequenceThenHash_def)
  have "hit_sigs (fj_CursorSequence job) sigs = sigs" "miss_sigs (fj_CursorSequence job) sigs = []" using assms(5) by (simp_all add: filter_id_conv filter_empty_conv)
  moreover have "max 1 requested < int (length sigs)"
    using assms(6) size resolveBatchSize_bounds [of env "fj_Chain job" "fj_Network job" "fetch_address job" "fj_BatchSize job" f] by simp
  ultimately have "carryover_reference sigs (fj_CursorSequence job) requested = None"
    unfolding carryover_reference_None by simp
  then have panic: "suppressPreCursorSequenceCarryover sigs (fj_CursorSequence job) requested = None" unfolding carryover_eq [OF ne assms(3)] .
  have "processAddressJob env job f = select_signatures env job (fetch_address job) (job_cursor job) requested ?n sigs0 f2"
    unfolding processAddressJob_def Let_def size prod.case job_cursor_def [symmetric] call by simp
  also have "\<dots> = (Some (Panicked ''runtime error: slice bounds out of range [-1:]''), [], f2)"
    using panic ne0 unfolding assms(4) by (simp add: select_signatures_def)
  finally show ?thesis by blast
qed

theorem cursor_slot_panics_witness:
  "\<exists>f'. processAddressJob (sample_fetch_env slot_sigs) sample_job sample_fetcher = (Some (Panicked ''runtime error: slice bounds out of range [-1:]''), [], f')"
proof (rule cursor_slot_panics)
  show sigs: "slot_sigs = filterAndCanonicalizeSignatures (fj_Chain sample_job) slot_sigs (fj_FetchCutoffSeq sample_job) (job_cursor sample_job)" by code_simp
  show "fst (resolveBatchSize (sample_fetch_env slot_sigs) (fj_Chain sample_job) (fj_Network sample_job) (fetch_address sample_job) (fj_BatchSize sample_job) sample_fetcher)
    < int (length slot_sigs)" by code_simp
qed (auto simp: sample_fetch_env_def sample_job_def slot_sigs_def)

end
