(* ===== verification/Ingester_Run.thy ===== *)
theory Ingester_Run
  imports Ingester_Properties
begin

text \<open>
  The loop of the ingester (\<^verbatim>\<open>Run\<close> in \<^verbatim>\<open>internal/pipeline/ingester/ingester.go\<close>): the messages in the order in which the select statement
  takes them from its three channels. The first error ends the loop.
\<close>

datatype ing_message =
    BatchMessage "nat \<Rightarrow> ing_env" normalized_batch
  | ReorgMessage ing_env reorg_event
  | PromotionMessage ing_env finality_promotion

definition ing_handle :: "ing_message \<Rightarrow> ingester \<Rightarrow> db \<Rightarrow> gerr option \<times> ingester \<times> db" where
  "ing_handle m ig d = (case m of
     BatchMessage envs batch \<Rightarrow>
       (let (err, _, ig', d') = processBatchWithRetry envs ig batch d
        in (map_option (ErrWrap (''ingester process batch failed: address='' @ nb_Address batch @ '': '')) err, ig', d'))
   | ReorgMessage env reorg \<Rightarrow>
       (let (err, d') = handleReorg env (ig_cfg ig) reorg d in (map_option (ErrWrap ''ingester handle reorg failed: '') err, ig, d'))
   | PromotionMessage env promo \<Rightarrow>
       (let (err, d') = handleFinalityPromotion env (ig_cfg ig) promo d in (map_option (ErrWrap ''ingester handle finality promotion failed: '') err, ig, d')))"

fun ing_run :: "ing_message list \<Rightarrow> ingester \<Rightarrow> db \<Rightarrow> gerr option \<times> ingester \<times> db" where
  "ing_run [] ig d = (None, ig, d)"
| "ing_run (m # ms) ig d = (case ing_handle m ig d of
     (Some e, ig', d') \<Rightarrow> (Some e, ig', d')
   | (None, ig', d') \<Rightarrow> ing_run ms ig' d')"

section \<open>The ledger\<close>

text \<open>What the ledger needs of a message: new events with one owner, and one applied event for each balance that is reversed or promoted.\<close>

definition message_ok :: "ing_message \<Rightarrow> db \<Rightarrow> bool" where
  "message_ok m d = (case m of
     BatchMessage envs batch \<Rightarrow> (\<forall>k. pick_ok (env_pick (envs k)) \<and> (\<forall>e. env_commit (envs k) \<noteq> CommitFailed e True) \<and>
       (\<forall>ig. single_owner (envs k) ig batch) \<and> new_batch batch (ingest_view (envs k) (canonical_cursors batch) d)) \<and>
       (isCanonicalityDrift (canonical_cursors batch) \<longrightarrow>
         one_event_per_balance (\<lambda>e. rollback_hit (withRollbackForkCursor (canonical_cursors batch)) e \<and> be_BalanceApplied e) d)
   | ReorgMessage env reorg \<Rightarrow> pick_ok (env_pick env) \<and> event_ids_ok d \<and> one_event_per_balance (\<lambda>e. from_fork reorg e \<and> be_BalanceApplied e) d
   | PromotionMessage env promo \<Rightarrow> pick_ok (env_pick env) \<and>
       one_event_per_balance (promotable (fp_Chain promo) (fp_Network promo) (fp_NewFinalizedBlock promo))
         (promote_finality (fp_Chain promo) (fp_Network promo) (fp_NewFinalizedBlock promo) d))"

fun run_ok :: "ing_message list \<Rightarrow> ingester \<Rightarrow> db \<Rightarrow> bool" where
  "run_ok [] ig d \<longleftrightarrow> True"
| "run_ok (m # ms) ig d \<longleftrightarrow> message_ok m d \<and> (case ing_handle m ig d of (Some e, _, _) \<Rightarrow> True | (None, ig', d') \<Rightarrow> run_ok ms ig' d')"

lemma committed_reorg: "fst (handleReorg (committed_env env) cfg re d) \<noteq> None \<Longrightarrow> snd (handleReorg (committed_env env) cfg re d) = d"
  by (auto simp: handleReorg_def reorgInline_def PurgeFromBlock_def executePurge_def commit_def reorg_request_def
      split: option.splits sum.splits prod.splits if_splits)

lemma committed_promotion:
  "fst (handleFinalityPromotion (committed_env env) cfg fp d) \<noteq> None \<Longrightarrow> snd (handleFinalityPromotion (committed_env env) cfg fp d) = d"
  by (auto simp: handleFinalityPromotion_def commit_def split: option.splits sum.splits prod.splits)

lemma handleReorg_ledger:
  assumes "ledger_ok d" "event_ids_ok d" "pick_ok (env_pick env)" "one_event_per_balance (\<lambda>e. from_fork re e \<and> be_BalanceApplied e) d"
  shows "ledger_ok (snd (handleReorg env cfg re d))"
proof -
  have "ledger_ok (snd (handleReorg (committed_env env) cfg re d))"
  proof (cases "fst (handleReorg (committed_env env) cfg re d) = None")
    case True
    then show ?thesis
    proof (cases rule: handleReorg_success)
      case inline
      show ?thesis by (rule reorg_ledger [OF inline assms(1) _ assms(4)]) (use assms(3) in simp)
    next
      case (replay h r)
      show ?thesis by (rule purge_ledger [OF replay assms(1) _ assms(2)]) (use assms(3,4) in \<open>simp_all add: reorg_request_sel\<close>)
    qed
  qed (simp add: committed_reorg assms(1))
  then show ?thesis using handleReorg_db [of env cfg re d] assms(1) by auto
qed

lemma handleFinalityPromotion_ledger:
  assumes "ledger_ok d" "pick_ok (env_pick env)" "one_event_per_balance (promotable (fp_Chain fp) (fp_Network fp) (fp_NewFinalizedBlock fp))
    (promote_finality (fp_Chain fp) (fp_Network fp) (fp_NewFinalizedBlock fp) d)"
  shows "ledger_ok (snd (handleFinalityPromotion env cfg fp d))"
proof -
  have "ledger_ok (snd (handleFinalityPromotion (committed_env env) cfg fp d))"
  proof (cases "fst (handleFinalityPromotion (committed_env env) cfg fp d) = None")
    case True
    show ?thesis by (rule promotion_ledger [OF handleFinalityPromotion_success [OF True] assms(1) _ assms(3)]) (use assms(2) in simp)
  qed (simp add: committed_promotion assms(1))
  then show ?thesis using handleFinalityPromotion_db [of env cfg fp d] assms(1) by auto
qed

lemma retries_ledger:
  assumes "processBatchWithRetry envs ig batch d = (err, k, ig', d')" "message_ok (BatchMessage envs batch) d" "ledger_ok d"
  shows "ledger_ok d'"
proof -
  have m: "0 < effectiveRetryMaxAttempts (ic_retryMaxAttempts (ig_cfg ig))" by (simp add: effectiveRetryMaxAttempts_def)
  have commit: "\<And>k e. env_commit (envs k) \<noteq> CommitFailed e True" using assms(2) by (simp add: message_ok_def)
  note once = retry_from_once [OF commit m assms(1) [unfolded processBatchWithRetry_def Let_def]]
  show ?thesis
  proof (cases err)
    case None
    then obtain ig0 where "d' = pb_db (processBatch (envs k) ig0 batch d)" using once by blast
    then show ?thesis using assms(2,3) processBatch_ledger [of "envs k" ig0 batch d] by (simp add: message_ok_def)
  next
    case (Some e)
    then show ?thesis using once assms(3) by simp
  qed
qed

lemma ing_handle_ledger:
  assumes "ing_handle m ig d = (err, ig', d')" "message_ok m d" "ledger_ok d"
  shows "ledger_ok d'"
proof (cases m)
  case (BatchMessage envs batch)
  obtain e k ig1 d1 where run: "processBatchWithRetry envs ig batch d = (e, k, ig1, d1)" by (metis prod_cases4)
  show ?thesis using assms(1) retries_ledger [OF run] assms(2,3) by (simp add: BatchMessage ing_handle_def run)
next
  case (ReorgMessage env re)
  have "d' = snd (handleReorg env (ig_cfg ig) re d)" using assms(1) by (auto simp: ReorgMessage ing_handle_def split: prod.splits)
  then show ?thesis using handleReorg_ledger assms(2,3) by (simp add: ReorgMessage message_ok_def)
next
  case (PromotionMessage env fp)
  have "d' = snd (handleFinalityPromotion env (ig_cfg ig) fp d)" using assms(1) by (auto simp: PromotionMessage ing_handle_def split: prod.splits)
  then show ?thesis using handleFinalityPromotion_ledger assms(2,3) by (simp add: PromotionMessage message_ok_def)
qed

lemma ing_run_ledger: "run_ok ms ig d \<Longrightarrow> ledger_ok d \<Longrightarrow> ledger_ok (snd (snd (ing_run ms ig d)))"
proof (induction ms arbitrary: ig d)
  case (Cons m ms)
  obtain err ig' d' where h: "ing_handle m ig d = (err, ig', d')" by (metis prod_cases3)
  have "ledger_ok d'" by (rule ing_handle_ledger [OF h]) (use Cons.prems in simp_all)
  then show ?case using Cons.IH [of ig' d'] Cons.prems by (cases err) (simp_all add: h)
qed simp



end
