(* ===== verification/Alerting.thy ===== *)
theory Alerting
  imports Retry Go_Text
begin

text \<open>
  Alert delivery (\<^verbatim>\<open>internal/alert/alerter.go\<close>): the fan-out with its cooldown per alert type and its bypass on
  a change of type, and the Slack and webhook channels up to the HTTP exchange. A channel of the
  fan-out is what its \<^verbatim>\<open>Send\<close> returns for an alert; the HTTP client answers with an error or a status.
  Encoding a map of strings as JSON does not fail and is left out.
\<close>

section \<open>Alerts and the fan-out\<close>

datatype alert_type = AlertTypeUnhealthy | AlertTypeRecovery | AlertTypeReorg | AlertTypeScamToken | AlertTypeReconcileErr
  | AlertTypeDBPool | AlertTypeNegativeBalance

primrec alert_type_string :: "alert_type \<Rightarrow> string" where
  "alert_type_string AlertTypeUnhealthy = ''UNHEALTHY''"
| "alert_type_string AlertTypeRecovery = ''RECOVERY''"
| "alert_type_string AlertTypeReorg = ''REORG''"
| "alert_type_string AlertTypeScamToken = ''SCAM_TOKEN''"
| "alert_type_string AlertTypeReconcileErr = ''RECONCILE_MISMATCH''"
| "alert_type_string AlertTypeDBPool = ''DB_POOL''"
| "alert_type_string AlertTypeNegativeBalance = ''NEGATIVE_BALANCE''"

record alert =
  al_Type :: alert_type
  al_Chain :: string
  al_Network :: string
  al_Title :: string
  al_Message :: string
  al_Fields :: "(string \<times> string) list"

type_synonym channel = "alert \<Rightarrow> gerr option"

record multi_alerter =
  ma_cooldown :: int
  ma_lastSent :: "string \<Rightarrow> int option"
  ma_lastAlertType :: "string \<Rightarrow> alert_type option"

definition NewMultiAlerter :: "int \<Rightarrow> multi_alerter" where
  "NewMultiAlerter cooldown = \<lparr>ma_cooldown = cooldown, ma_lastSent = Map.empty, ma_lastAlertType = Map.empty\<rparr>"

definition cooldownKey :: "alert \<Rightarrow> string" where
  "cooldownKey a = alert_type_string (al_Type a) @ '':'' @ al_Chain a @ '':'' @ al_Network a"

definition stateKey :: "alert \<Rightarrow> string" where
  "stateKey a = al_Chain a @ '':'' @ al_Network a"

text \<open>The bookkeeping under the mutex: whether the alert goes out, and the new state.\<close>

definition admit :: "int \<Rightarrow> alert \<Rightarrow> multi_alerter \<Rightarrow> bool \<times> multi_alerter" where
  "admit now a m =
     (let stateChanged = (case ma_lastAlertType m (stateKey a) of None \<Rightarrow> False | Some t \<Rightarrow> t \<noteq> al_Type a) in
      if \<not> stateChanged \<and> (case ma_lastSent m (cooldownKey a) of None \<Rightarrow> False | Some l \<Rightarrow> now - l < ma_cooldown m)
      then (False, m)
      else (True, m\<lparr>ma_lastSent := (ma_lastSent m)(cooldownKey a \<mapsto> now), ma_lastAlertType := (ma_lastAlertType m)(stateKey a \<mapsto> al_Type a)\<rparr>))"

primrec send_all :: "channel list \<Rightarrow> alert \<Rightarrow> gerr option" where
  "send_all [] a = None"
| "send_all (ch # chs) a = (let rest = send_all chs a in case ch a of Some e \<Rightarrow> Some e | None \<Rightarrow> rest)"

definition multi_Send :: "channel list \<Rightarrow> int \<Rightarrow> alert \<Rightarrow> multi_alerter \<Rightarrow> gerr option \<times> multi_alerter" where
  "multi_Send chs now a m = (case admit now a m of (False, m') \<Rightarrow> (None, m') | (True, m') \<Rightarrow> (send_all chs a, m'))"

section \<open>Channels\<close>

datatype http_answer = HttpRequestError gerr | HttpError gerr | HttpStatus int

definition slack_emoji :: "alert_type \<Rightarrow> string" where
  "slack_emoji t = (case t of AlertTypeRecovery \<Rightarrow> '':white_check_mark:'' | AlertTypeReorg \<Rightarrow> '':rotating_light:''
     | AlertTypeScamToken \<Rightarrow> '':no_entry:'' | AlertTypeReconcileErr \<Rightarrow> '':scales:'' | AlertTypeDBPool \<Rightarrow> '':hourglass_flowing_sand:''
     | AlertTypeNegativeBalance \<Rightarrow> '':chart_with_downwards_trend:'' | AlertTypeUnhealthy \<Rightarrow> '':warning:'')"

definition newline :: string where
  "newline = [CHR 0x0A]"

definition slack_text :: "alert \<Rightarrow> string" where
  "slack_text a =
     (let text = slack_emoji (al_Type a) @ '' *['' @ alert_type_string (al_Type a) @ '']* '' @ al_Chain a @ ''/'' @ al_Network a @ '': '' @
            al_Title a @ newline @ al_Message a
      in if al_Fields a \<noteq> [] then text @ newline @ concat (map (\<lambda>(k, v). ''- *'' @ k @ ''*: '' @ v @ newline) (al_Fields a)) else text)"

definition http_result :: "string \<Rightarrow> http_answer \<Rightarrow> gerr option" where
  "http_result name answer = (case answer of
     HttpRequestError e \<Rightarrow> Some (ErrWrap (''create '' @ name @ '' request: '') e)
   | HttpError e \<Rightarrow> Some (ErrWrap (''send '' @ name @ '' alert: '') e)
   | HttpStatus s \<Rightarrow> if s < 200 \<or> s \<ge> 300 then Some (ErrMsg (name @ '' returned status '' @ big_String s)) else None)"

definition slack_Send :: "(string \<Rightarrow> http_answer) \<Rightarrow> channel" where
  "slack_Send post a = http_result ''slack'' (post (slack_text a))"

definition webhook_Send :: "(alert \<Rightarrow> http_answer) \<Rightarrow> channel" where
  "webhook_Send post a = http_result ''webhook'' (post a)"

section \<open>What is delivered\<close>

text \<open>The alerts that pass the cooldown, with their times, for a sequence of \<^verbatim>\<open>Send\<close> calls.\<close>

fun delivered :: "(int \<times> alert) list \<Rightarrow> multi_alerter \<Rightarrow> (int \<times> alert) list" where
  "delivered [] m = []"
| "delivered ((now, a) # xs) m = (case admit now a m of (ok, m') \<Rightarrow> if ok then (now, a) # delivered xs m' else delivered xs m')"

lemma split_at_unique: "c \<notin> set xs \<Longrightarrow> c \<notin> set ys \<Longrightarrow> xs @ c # us = ys @ c # vs \<Longrightarrow> xs = ys \<and> us = vs"
  by (induction xs arbitrary: ys) (auto simp: Cons_eq_append_conv append_eq_Cons_conv)

lemma cooldownKey_split: "cooldownKey a = alert_type_string (al_Type a) @ CHR '':'' # stateKey a"
  by (simp add: cooldownKey_def stateKey_def)

lemma alert_type_no_colon: "CHR '':'' \<notin> set (alert_type_string t)"
  by (cases t) simp_all

lemma alert_type_string_inject: "alert_type_string t = alert_type_string u \<Longrightarrow> t = u"
  by (cases t; cases u) simp_all

lemma cooldownKey_inject: "cooldownKey a = alert_type_string t @ CHR '':'' # k \<longleftrightarrow> al_Type a = t \<and> stateKey a = k"
  unfolding cooldownKey_split using split_at_unique [OF alert_type_no_colon alert_type_no_colon] alert_type_string_inject by blast

lemma delivered_next:
  assumes "ma_lastAlertType m k = Some t" "ma_lastSent m (alert_type_string t @ CHR '':'' # k) = Some l"
    and "delivered xs m = ys @ (u, a) # zs" "\<forall>(v, b) \<in> set ys. stateKey b \<noteq> k" "stateKey a = k" "al_Type a = t"
  shows "l + ma_cooldown m \<le> u"
  using assms
proof (induction xs arbitrary: m ys)
  case (Cons x xs)
  obtain now b where x: "x = (now, b)" by (cases x)
  obtain ok m' where ad: "admit now b m = (ok, m')" by (cases "admit now b m")
  show ?case
  proof (cases ok)
    case False
    then have "m' = m" "delivered xs m = ys @ (u, a) # zs" using ad Cons.prems(3) x by (auto simp: admit_def Let_def split: if_splits)
    then show ?thesis using Cons.IH [OF Cons.prems(1,2) _ Cons.prems(4-6)] by blast
  next
    case True
    have d: "(now, b) # delivered xs m' = ys @ (u, a) # zs" using ad Cons.prems(3) True x by simp
    have m': "ma_lastSent m' = (ma_lastSent m)(cooldownKey b \<mapsto> now)" "ma_lastAlertType m' = (ma_lastAlertType m)(stateKey b \<mapsto> al_Type b)"
      "ma_cooldown m' = ma_cooldown m" using ad True by (auto simp: admit_def Let_def split: if_splits)
    show ?thesis
    proof (cases ys)
      case Nil
      then have "now = u" "b = a" using d by auto
      then show ?thesis using ad True Cons.prems by (auto simp: admit_def Let_def cooldownKey_split split: if_splits)
    next
      case more: (Cons y ys')
      then have y: "y = (now, b)" and d': "delivered xs m' = ys' @ (u, a) # zs" using d by auto
      have nb: "stateKey b \<noteq> k" using Cons.prems(4) more y by auto
      then have "ma_lastSent m' (alert_type_string t @ CHR '':'' # k) = Some l" "ma_lastAlertType m' k = Some t"
        using Cons.prems(1,2) m' cooldownKey_inject [of b t k] by auto
      then show ?thesis using Cons.IH [OF _ _ d' _ Cons.prems(5,6)] Cons.prems(4) more m'(3) by auto
    qed
  qed
qed simp

lemma delivered_prefix:
  assumes "delivered xs m = ps @ (u, a) # rest"
  shows "\<exists>xs' m'. delivered xs' m' = rest \<and> ma_lastAlertType m' (stateKey a) = Some (al_Type a) \<and>
    ma_lastSent m' (cooldownKey a) = Some u \<and> ma_cooldown m' = ma_cooldown m"
  using assms
proof (induction xs arbitrary: m ps)
  case (Cons x xs)
  obtain now b where x: "x = (now, b)" by (cases x)
  obtain ok m' where ad: "admit now b m = (ok, m')" by (cases "admit now b m")
  have cd: "ma_cooldown m' = ma_cooldown m" using ad by (auto simp: admit_def Let_def split: if_splits)
  consider "\<not> ok" | "ok" "ps = []" | p ps' where "ok" "ps = p # ps'" by (cases ps) auto
  then show ?case
  proof cases
    case 1
    then show ?thesis using Cons.IH [of m' ps] Cons.prems x ad cd by simp
  next
    case 2
    then have "delivered xs m' = rest" "b = a" "now = u" using Cons.prems x ad by auto
    moreover have "ma_lastAlertType m' (stateKey b) = Some (al_Type b)" "ma_lastSent m' (cooldownKey b) = Some now"
      using ad 2 by (auto simp: admit_def Let_def split: if_splits)
    ultimately show ?thesis using cd by blast
  next
    case 3
    then show ?thesis using Cons.IH [of m' ps'] Cons.prems x ad cd by simp
  qed
qed simp

text \<open>Two deliveries of one type for a pipeline, with no other delivery for it in between, are a cooldown apart.\<close>

theorem alerts_spaced:
  assumes "delivered calls m = ps @ (u, a) # ys @ (v, b) # zs" "stateKey b = stateKey a" "al_Type b = al_Type a"
    and "\<forall>(w, c) \<in> set ys. stateKey c \<noteq> stateKey a"
  shows "u + ma_cooldown m \<le> v"
proof -
  from assms(1) obtain xs' m' where "delivered xs' m' = ys @ (v, b) # zs" "ma_lastAlertType m' (stateKey a) = Some (al_Type a)"
    "ma_lastSent m' (cooldownKey a) = Some u" "ma_cooldown m' = ma_cooldown m"
    using delivered_prefix by blast
  then show ?thesis using delivered_next [of m' "stateKey a" "al_Type a" u xs' ys v b zs] assms(2-4) by (simp add: cooldownKey_split)
qed

end
