(* ===== verification/Reconciliation.thy ===== *)
theory Reconciliation
  imports Alerting Ledger Watched_Addresses "HOL-Library.AList"
begin

text \<open>
  The reconciliation service (\<^verbatim>\<open>internal/reconciliation/service.go\<close>): the balances of the watched addresses in the database are
  compared with the balances the chain reports. The queries, the chain adapter and the transaction that stores the snapshots are
  parameters of a run; the adapters are registered under \<^verbatim>\<open>chain:network\<close>.
\<close>

section \<open>Definitions\<close>

record snapshot =
  sn_Chain :: string
  sn_Network :: string
  sn_Address :: string
  sn_TokenContract :: string
  sn_OnChainBalance :: string
  sn_DBBalance :: string
  sn_Difference :: string
  sn_IsMatch :: bool
  sn_CheckedAt :: time

record run_result =
  rr_Chain :: string
  rr_Network :: string
  rr_Total :: int
  rr_Matched :: int
  rr_Mismatched :: int
  rr_Errors :: int
  rr_Snapshots :: "snapshot list"

text \<open>\<^verbatim>\<open>GetBalance\<close> of an adapter: the address and the contract, which is empty for the native token.\<close>

type_synonym balance_adapter = "string \<Rightarrow> string \<Rightarrow> gerr + string"

record recon_service =
  rs_adapters :: "(string \<times> balance_adapter) list"
  rs_hasAlerter :: bool
  rs_hasSnapshotRepo :: bool

record recon_env =
  rn_now :: time
  rn_active :: "gerr + watched_address list"
  rn_balances :: "string \<Rightarrow> gerr + (uuid \<times> string) list"
  rn_token :: "uuid \<Rightarrow> gerr + token_row option"
  rn_begin :: "gerr option"
  rn_insert :: "nat \<Rightarrow> gerr option"
  rn_commit :: "gerr option"

definition adapter_key :: "chain \<Rightarrow> network \<Rightarrow> string" where
  "adapter_key c n = c @ '':'' @ n"

definition RegisterAdapter :: "chain \<Rightarrow> network \<Rightarrow> balance_adapter \<Rightarrow> recon_service \<Rightarrow> recon_service" where
  "RegisterAdapter c n adapter s = s\<lparr>rs_adapters := AList.update (adapter_key c n) adapter (rs_adapters s)\<rparr>"

definition HasAdapter :: "chain \<Rightarrow> network \<Rightarrow> recon_service \<Rightarrow> bool" where
  "HasAdapter c n s \<longleftrightarrow> adapter_key c n \<in> set (map fst (rs_adapters s))"

definition reconcileOne :: "recon_env \<Rightarrow> balance_adapter \<Rightarrow> chain \<Rightarrow> network \<Rightarrow> string \<Rightarrow> string \<Rightarrow> string \<Rightarrow> snapshot" where
  "reconcileOne env adapter c n address tokenContract dbAmount =
     (let snap = \<lparr>sn_Chain = c, sn_Network = n, sn_Address = address, sn_TokenContract = tokenContract, sn_OnChainBalance = '''',
                  sn_DBBalance = dbAmount, sn_Difference = '''', sn_IsMatch = False, sn_CheckedAt = rn_now env\<rparr>
      in case adapter address tokenContract of
        Inl e \<Rightarrow> snap\<lparr>sn_OnChainBalance := ''ERROR'', sn_Difference := ''N/A''\<rparr>
      | Inr onChain \<Rightarrow>
          (let snap1 = snap\<lparr>sn_OnChainBalance := onChain\<rparr> in
           case (SetString onChain, SetString dbAmount) of
             (Some x, Some y) \<Rightarrow> snap1\<lparr>sn_Difference := big_String (x - y), sn_IsMatch := (x - y = 0)\<rparr>
           | _ \<Rightarrow> snap1\<lparr>sn_Difference := ''PARSE_ERROR'', sn_IsMatch := (onChain = dbAmount)\<rparr>))"

definition findTokenContract :: "recon_env \<Rightarrow> uuid \<Rightarrow> string option" where
  "findTokenContract env tokenID = (case rn_token env tokenID of
     Inl e \<Rightarrow> None | Inr None \<Rightarrow> None | Inr (Some t) \<Rightarrow> Some (tk_ContractAddress t))"

definition add_snapshot :: "snapshot \<Rightarrow> run_result \<Rightarrow> run_result" where
  "add_snapshot snap r = (let r1 = r\<lparr>rr_Snapshots := rr_Snapshots r @ [snap], rr_Total := rr_Total r + 1\<rparr> in
     if sn_IsMatch snap then r1\<lparr>rr_Matched := rr_Matched r1 + 1\<rparr> else r1\<lparr>rr_Mismatched := rr_Mismatched r1 + 1\<rparr>)"

text \<open>One balance of an address, with the cache of token contracts.\<close>

definition reconcile_balance ::
  "recon_env \<Rightarrow> balance_adapter \<Rightarrow> chain \<Rightarrow> network \<Rightarrow> string \<Rightarrow> uuid \<times> string \<Rightarrow> (uuid \<times> string) list \<times> run_result \<Rightarrow> (uuid \<times> string) list \<times> run_result" where
  "reconcile_balance env adapter c n address bal st =
     (let (cache, r) = st;
          (tokenContract, cache1) = (case map_of cache (fst bal) of
             Some contract \<Rightarrow> (contract, cache)
           | None \<Rightarrow> (case findTokenContract env (fst bal) of
               Some contract \<Rightarrow> (contract, AList.update (fst bal) contract cache) | None \<Rightarrow> ('''', cache)))
      in (cache1, add_snapshot (reconcileOne env adapter c n address tokenContract (snd bal)) r))"

definition reconcile_address ::
  "recon_env \<Rightarrow> balance_adapter \<Rightarrow> chain \<Rightarrow> network \<Rightarrow> watched_address \<Rightarrow> (uuid \<times> string) list \<times> run_result \<Rightarrow> (uuid \<times> string) list \<times> run_result" where
  "reconcile_address env adapter c n wa st =
     (case rn_balances env (wa_Address wa) of
        Inl e \<Rightarrow> (fst st, (snd st)\<lparr>rr_Errors := rr_Errors (snd st) + 1\<rparr>)
      | Inr [] \<Rightarrow> (fst st, add_snapshot (reconcileOne env adapter c n (wa_Address wa) '''' ''0'') (snd st))
      | Inr bals \<Rightarrow> fold (reconcile_balance env adapter c n (wa_Address wa)) bals st)"

definition mismatch_alert :: "chain \<Rightarrow> network \<Rightarrow> run_result \<Rightarrow> alert" where
  "mismatch_alert c n r = \<lparr>al_Type = AlertTypeReconcileErr, al_Chain = c, al_Network = n, al_Title = ''Balance reconciliation mismatch detected'',
     al_Message = big_String (rr_Mismatched r) @ ''/'' @ big_String (rr_Total r) @ '' addresses have balance mismatch'',
     al_Fields = [(''matched'', big_String (rr_Matched r)), (''mismatched'', big_String (rr_Mismatched r)), (''errors'', big_String (rr_Errors r))]\<rparr>"

text \<open>The snapshots that become durable: the statements of one transaction over chunks of a thousand.\<close>

fun insert_batches :: "(nat \<Rightarrow> gerr option) \<Rightarrow> nat \<Rightarrow> snapshot list list \<Rightarrow> gerr + snapshot list" where
  "insert_batches fault i [] = Inr []"
| "insert_batches fault i (b # bs) = (case fault i of
     Some e \<Rightarrow> Inl e
   | None \<Rightarrow> (case insert_batches fault (Suc i) bs of Inl e \<Rightarrow> Inl e | Inr rest \<Rightarrow> Inr (b @ rest)))"

definition SaveSnapshots :: "recon_env \<Rightarrow> snapshot list \<Rightarrow> gerr + snapshot list" where
  "SaveSnapshots env snaps = insert_batches (rn_insert env) 0 (chunks 1000 snaps)"

definition persist_snapshots :: "recon_env \<Rightarrow> snapshot list \<Rightarrow> snapshot list" where
  "persist_snapshots env snaps = (case rn_begin env of
     Some e \<Rightarrow> []
   | None \<Rightarrow> (case SaveSnapshots env snaps of Inl e \<Rightarrow> [] | Inr rows \<Rightarrow> (case rn_commit env of None \<Rightarrow> rows | Some e \<Rightarrow> [])))"

text \<open>The result with the alerts that are sent and the snapshots that are stored.\<close>

definition Reconcile :: "recon_env \<Rightarrow> chain \<Rightarrow> network \<Rightarrow> recon_service \<Rightarrow> (gerr + run_result) \<times> alert list \<times> snapshot list" where
  "Reconcile env c n s =
     (case map_of (rs_adapters s) (adapter_key c n) of
        None \<Rightarrow> (Inl (ErrMsg (''no balance query adapter registered for '' @ adapter_key c n)), [], [])
      | Some adapter \<Rightarrow>
          (case rn_active env of
             Inl e \<Rightarrow> (Inl (ErrWrap ''get watched addresses: '' e), [], [])
           | Inr addresses \<Rightarrow>
               (let start = \<lparr>rr_Chain = c, rr_Network = n, rr_Total = 0, rr_Matched = 0, rr_Mismatched = 0, rr_Errors = 0, rr_Snapshots = []\<rparr>;
                    r = snd (fold (reconcile_address env adapter c n) addresses ([], start));
                    alerts = (if rr_Mismatched r > 0 \<and> rs_hasAlerter s then [mismatch_alert c n r] else []);
                    stored = (if rs_hasSnapshotRepo s \<and> rr_Snapshots r \<noteq> [] then persist_snapshots env (rr_Snapshots r) else [])
                in (Inr r, alerts, stored))))"

definition splitAdapterKey :: "string \<Rightarrow> (string \<times> string) option" where
  "splitAdapterKey key = (if CHR '':'' \<in> set key
     then Some (takeWhile (\<lambda>x. x \<noteq> CHR '':'') key, tl (dropWhile (\<lambda>x. x \<noteq> CHR '':'') key)) else None)"

text \<open>One tick of \<^verbatim>\<open>RunPeriodic\<close>, over the registered keys in some order.\<close>

definition periodic_tick :: "recon_env \<Rightarrow> string list \<Rightarrow> recon_service \<Rightarrow> ((gerr + run_result) \<times> alert list \<times> snapshot list) list" where
  "periodic_tick env keys s = List.map_filter (\<lambda>key. map_option (\<lambda>(c, n). Reconcile env c n s) (splitAdapterKey key)) keys"

section \<open>The report of a run\<close>

text \<open>The reference: no cache, one snapshot for each balance.\<close>

definition contract_of :: "recon_env \<Rightarrow> uuid \<Rightarrow> string" where
  "contract_of env tokenID = (case findTokenContract env tokenID of None \<Rightarrow> '''' | Some contract \<Rightarrow> contract)"

definition address_snapshots :: "recon_env \<Rightarrow> balance_adapter \<Rightarrow> chain \<Rightarrow> network \<Rightarrow> watched_address \<Rightarrow> snapshot list" where
  "address_snapshots env adapter c n wa = (case rn_balances env (wa_Address wa) of
     Inl e \<Rightarrow> []
   | Inr bals \<Rightarrow> if bals = [] then [reconcileOne env adapter c n (wa_Address wa) '''' ''0'']
       else map (\<lambda>(tokenID, amount). reconcileOne env adapter c n (wa_Address wa) (contract_of env tokenID) amount) bals)"

definition cache_sound :: "recon_env \<Rightarrow> (uuid \<times> string) list \<Rightarrow> bool" where
  "cache_sound env cache \<longleftrightarrow> (\<forall>tokenID contract. map_of cache tokenID = Some contract \<longrightarrow> findTokenContract env tokenID = Some contract)"

definition counts_ok :: "run_result \<Rightarrow> bool" where
  "counts_ok r \<longleftrightarrow> rr_Total r = int (length (rr_Snapshots r)) \<and> rr_Matched r = int (length (filter sn_IsMatch (rr_Snapshots r))) \<and>
     rr_Mismatched r = int (length (filter (\<lambda>s. \<not> sn_IsMatch s) (rr_Snapshots r)))"

lemma add_snapshot_simps [simp]:
  "rr_Snapshots (add_snapshot snap r) = rr_Snapshots r @ [snap]" "rr_Errors (add_snapshot snap r) = rr_Errors r"
  by (simp_all add: add_snapshot_def Let_def)

lemma add_snapshot_counts: "counts_ok r \<Longrightarrow> counts_ok (add_snapshot snap r)"
  by (simp add: counts_ok_def add_snapshot_def Let_def)

text \<open>What a step adds, with the two invariants.\<close>

definition extends :: "recon_env \<Rightarrow> snapshot list \<Rightarrow> int \<Rightarrow> (uuid \<times> string) list \<times> run_result \<Rightarrow> (uuid \<times> string) list \<times> run_result \<Rightarrow> bool" where
  "extends env snaps errs st st' \<longleftrightarrow> (cache_sound env (fst st) \<and> counts_ok (snd st) \<longrightarrow> cache_sound env (fst st') \<and> counts_ok (snd st') \<and>
     rr_Snapshots (snd st') = rr_Snapshots (snd st) @ snaps \<and> rr_Errors (snd st') = rr_Errors (snd st) + errs)"

lemma extends_refl: "extends env [] 0 st st"
  by (simp add: extends_def)

lemma extends_trans: "extends env xs a st st' \<Longrightarrow> extends env ys b st' st'' \<Longrightarrow> extends env (xs @ ys) (a + b) st st''"
  by (auto simp: extends_def)

lemma extends_fold:
  assumes "\<And>x st. extends env (f x) (g x) st (step x st)"
  shows "extends env (concat (map f xs)) (sum_list (map g xs)) st (fold step xs st)"
proof (induction xs arbitrary: st)
  case Nil
  then show ?case by (simp add: extends_refl)
next
  case (Cons x xs)
  show ?case using extends_trans [OF assms Cons] by simp
qed

lemma reconcile_balance_extends:
  "extends env [reconcileOne env adapter c n address (contract_of env (fst bal)) (snd bal)] 0 st (reconcile_balance env adapter c n address bal st)"
proof -
  obtain cache r where st: "st = (cache, r)" by (cases st)
  have "fst (reconcile_balance env adapter c n address bal st) = cache \<or>
      (\<exists>k. findTokenContract env (fst bal) = Some k \<and> fst (reconcile_balance env adapter c n address bal st) = AList.update (fst bal) k cache)"
    by (auto simp: st reconcile_balance_def Let_def split: option.splits)
  then have "cache_sound env cache \<Longrightarrow> cache_sound env (fst (reconcile_balance env adapter c n address bal st))"
    by (auto simp: cache_sound_def update_conv' split: if_splits)
  moreover have "snd (reconcile_balance env adapter c n address bal st) = add_snapshot (reconcileOne env adapter c n address (contract_of env (fst bal)) (snd bal)) r"
    if "cache_sound env cache" using that by (auto simp: st reconcile_balance_def contract_of_def cache_sound_def split: option.splits)
  ultimately show ?thesis by (simp add: extends_def st add_snapshot_counts)
qed

lemma reconcile_address_extends:
  "extends env (address_snapshots env adapter c n wa) (if isl (rn_balances env (wa_Address wa)) then 1 else 0) st (reconcile_address env adapter c n wa st)"
proof (cases "rn_balances env (wa_Address wa)")
  case (Inl e)
  then show ?thesis by (simp add: reconcile_address_def address_snapshots_def extends_def counts_ok_def)
next
  case (Inr bals)
  show ?thesis
  proof (cases bals)
    case Nil
    then show ?thesis using Inr by (simp add: reconcile_address_def address_snapshots_def extends_def add_snapshot_counts)
  next
    case (Cons b bs)
    have eq: "address_snapshots env adapter c n wa =
        concat (map (\<lambda>bal. [reconcileOne env adapter c n (wa_Address wa) (contract_of env (fst bal)) (snd bal)]) bals)"
      using Inr Cons by (simp add: address_snapshots_def case_prod_beta concat_map_singleton)
    have "extends env (address_snapshots env adapter c n wa) (sum_list (map (\<lambda>_. 0) bals)) st (fold (reconcile_balance env adapter c n (wa_Address wa)) bals st)"
      unfolding eq by (rule extends_fold) (rule reconcile_balance_extends)
    then show ?thesis using Inr Cons by (simp add: reconcile_address_def)
  qed
qed

lemma Reconcile_result:
  assumes "Reconcile env c n s = (Inr r, alerts, stored)"
  obtains adapter addresses where "map_of (rs_adapters s) (adapter_key c n) = Some adapter" "rn_active env = Inr addresses"
    "rr_Snapshots r = concat (map (address_snapshots env adapter c n) addresses)"
    "rr_Errors r = int (length (filter (\<lambda>wa. isl (rn_balances env (wa_Address wa))) addresses))" "counts_ok r"
    "alerts = (if rr_Mismatched r > 0 \<and> rs_hasAlerter s then [mismatch_alert c n r] else [])"
    "stored = (if rs_hasSnapshotRepo s \<and> rr_Snapshots r \<noteq> [] then persist_snapshots env (rr_Snapshots r) else [])"
proof -
  let ?start = "\<lparr>rr_Chain = c, rr_Network = n, rr_Total = 0, rr_Matched = 0, rr_Mismatched = 0, rr_Errors = 0, rr_Snapshots = []\<rparr> :: run_result"
  obtain adapter addresses where a: "map_of (rs_adapters s) (adapter_key c n) = Some adapter" "rn_active env = Inr addresses"
    and r: "r = snd (fold (reconcile_address env adapter c n) addresses ([], ?start))"
    and out: "alerts = (if rr_Mismatched r > 0 \<and> rs_hasAlerter s then [mismatch_alert c n r] else [])"
      "stored = (if rs_hasSnapshotRepo s \<and> rr_Snapshots r \<noteq> [] then persist_snapshots env (rr_Snapshots r) else [])"
    using assms unfolding Reconcile_def Let_def by (auto split: option.splits sum.splits)
  have "extends env (concat (map (address_snapshots env adapter c n) addresses))
      (sum_list (map (\<lambda>wa. if isl (rn_balances env (wa_Address wa)) then 1 else 0) addresses)) ([], ?start)
      (fold (reconcile_address env adapter c n) addresses ([], ?start))"
    by (rule extends_fold) (rule reconcile_address_extends)
  moreover have "sum_list (map (\<lambda>wa. if P wa then 1 else 0) xs) = int (length (filter P xs))" for P and xs :: "watched_address list"
    by (induction xs) simp_all
  ultimately have "rr_Snapshots r = concat (map (address_snapshots env adapter c n) addresses)"
    "rr_Errors r = int (length (filter (\<lambda>wa. isl (rn_balances env (wa_Address wa))) addresses))" "counts_ok r"
    unfolding r by (simp_all add: extends_def cache_sound_def counts_ok_def)
  then show ?thesis using that a out by blast
qed

text \<open>A comparison with an amount of the database matches exactly when the chain reports that number.\<close>

lemma reconcileOne_match:
  "sn_IsMatch (reconcileOne env adapter c n a t (big_String v)) \<longleftrightarrow> (\<exists>x. adapter a t = Inr x \<and> SetString x = Some v)"
  by (auto simp: reconcileOne_def Let_def decimal_simps split: sum.splits option.splits)

end
