(* ===== verification/Reorg_Detector.thy ===== *)
theory Reorg_Detector
  imports Store_DB
begin

text \<open>
  The reorg detector (\<^verbatim>\<open>internal/pipeline/reorgdetector/detector.go\<close>). The chain adapter is the
  parameter \<^verbatim>\<open>onchain\<close> (the hash and the parent hash of a block, or an RPC error); \<^verbatim>\<open>ctxErr\<close> is the
  error of a context that is cancelled while the event is sent. A \<^verbatim>\<open>nil\<close> map of verified hashes is the
  empty map. The theory shows what an emitted event means, what a silent check has established, and
  that blocks verified by an earlier tick are not looked at again.
\<close>

section \<open>Model\<close>

type_synonym onchain = "block_no \<Rightarrow> gerr + (string \<times> string)"

record detector =
  dt_chain :: chain
  dt_network :: network
  dt_interval :: duration
  dt_maxCheckDepth :: int
  dt_consecutiveRPCErrs :: int
  dt_hasAlerter :: bool
  dt_checkNow :: bool
  dt_lastVerified :: "block_no \<rightharpoonup> string"
  dt_alerts :: nat

definition defaultDetectorInterval :: duration where "defaultDetectorInterval = 30 * 1000000000"
definition defaultMaxCheckDepth :: int where "defaultMaxCheckDepth = 256"
definition rpcErrorAlertThreshold :: int where "rpcErrorAlertThreshold = 5"

definition NewDetector :: "chain \<Rightarrow> network \<Rightarrow> duration \<Rightarrow> detector" where
  "NewDetector c n interval = \<lparr>dt_chain = c, dt_network = n,
     dt_interval = (if interval \<le> 0 then defaultDetectorInterval else interval), dt_maxCheckDepth = defaultMaxCheckDepth,
     dt_consecutiveRPCErrs = 0, dt_hasAlerter = False, dt_checkNow = False, dt_lastVerified = Map.empty, dt_alerts = 0\<rparr>"

definition WithMaxCheckDepth :: "int \<Rightarrow> detector \<Rightarrow> detector" where
  "WithMaxCheckDepth depth d = (if depth > 0 then d\<lparr>dt_maxCheckDepth := depth\<rparr> else d)"

definition WithAlerter :: "detector \<Rightarrow> detector" where
  "WithAlerter d = d\<lparr>dt_hasAlerter := True\<rparr>"

text \<open>The channel of immediate checks holds one request.\<close>

definition CheckNow :: "detector \<Rightarrow> detector" where
  "CheckNow d = d\<lparr>dt_checkNow := True\<rparr>"

definition hash_index :: "indexed_block list \<Rightarrow> block_no \<rightharpoonup> string" where
  "hash_index blocks = foldl (\<lambda>m b. m(ib_BlockNumber b \<mapsto> ib_BlockHash b)) Map.empty blocks"

definition parent_break :: "indexed_block list \<Rightarrow> indexed_block \<Rightarrow> bool" where
  "parent_break blocks b \<longleftrightarrow> ib_ParentHash b \<noteq> '''' \<and>
     (case hash_index blocks (ib_BlockNumber b - 1) of None \<Rightarrow> False | Some h \<Rightarrow> ib_ParentHash b \<noteq> h)"

definition verifyParentHashChain :: "indexed_block list \<Rightarrow> indexed_block option" where
  "verifyParentHashChain blocks = (if length blocks < 2 then None else List.find (parent_break blocks) blocks)"

definition verifyBlock :: "onchain \<Rightarrow> indexed_block \<Rightarrow> detector \<Rightarrow> (gerr + bool \<times> string) \<times> detector" where
  "verifyBlock onchain block d = (case onchain (ib_BlockNumber block) of
     Inl e \<Rightarrow>
       (let d1 = d\<lparr>dt_consecutiveRPCErrs := dt_consecutiveRPCErrs d + 1\<rparr> in
        (Inl e, if dt_consecutiveRPCErrs d1 \<ge> rpcErrorAlertThreshold \<and> dt_hasAlerter d1 then d1\<lparr>dt_alerts := dt_alerts d1 + 1\<rparr> else d1))
   | Inr (h, parent) \<Rightarrow>
       (let d1 = d\<lparr>dt_consecutiveRPCErrs := 0\<rparr> in
        (Inr (if h \<noteq> ib_BlockHash block then (False, h)
              else if ib_ParentHash block \<noteq> '''' \<and> parent \<noteq> '''' \<and> ib_ParentHash block \<noteq> parent then (False, h)
              else (True, h)), d1)))"

definition reorg_for :: "detector \<Rightarrow> indexed_block \<Rightarrow> string \<Rightarrow> reorg_event" where
  "reorg_for d block actualHash = \<lparr>re_Chain = dt_chain d, re_Network = dt_network d, re_ForkBlockNumber = ib_BlockNumber block,
     re_ExpectedHash = ib_BlockHash block, re_ActualHash = actualHash\<rparr>"

text \<open>The result of a check: an error, the event sent, the detector.\<close>

type_synonym check_result = "gerr option \<times> reorg_event option \<times> detector"

definition emitReorg :: "gerr option \<Rightarrow> indexed_block \<Rightarrow> string \<Rightarrow> detector \<Rightarrow> check_result" where
  "emitReorg ctxErr block actualHash d = (case ctxErr of
     None \<Rightarrow> (None, Some (reorg_for d block actualHash), d)
   | Some e \<Rightarrow> (Some e, None, d))"

fun scan_blocks :: "onchain \<Rightarrow> gerr option \<Rightarrow> indexed_block list \<Rightarrow> (block_no \<rightharpoonup> string) \<Rightarrow> detector \<Rightarrow> check_result" where
  "scan_blocks onchain ctxErr [] newVerified d = (None, None, d\<lparr>dt_lastVerified := newVerified\<rparr>)"
| "scan_blocks onchain ctxErr (b # bs) newVerified d =
     (if dt_lastVerified d (ib_BlockNumber b) = Some (ib_BlockHash b)
      then scan_blocks onchain ctxErr bs (newVerified(ib_BlockNumber b \<mapsto> ib_BlockHash b)) d
      else case verifyBlock onchain b d of
        (Inl e, d1) \<Rightarrow> scan_blocks onchain ctxErr bs newVerified d1
      | (Inr (False, h), d1) \<Rightarrow> emitReorg ctxErr b h (d1\<lparr>dt_lastVerified := Map.empty\<rparr>)
      | (Inr (True, h), d1) \<Rightarrow> scan_blocks onchain ctxErr bs (newVerified(ib_BlockNumber b \<mapsto> h)) d1)"

definition limit_depth :: "int \<Rightarrow> indexed_block list \<Rightarrow> indexed_block list" where
  "limit_depth depth blocks = (if int (length blocks) > depth then take (nat depth) (rev (sort_key ib_BlockNumber blocks)) else blocks)"

definition check_blocks :: "onchain \<Rightarrow> gerr option \<Rightarrow> indexed_block list \<Rightarrow> detector \<Rightarrow> check_result" where
  "check_blocks onchain ctxErr blocks d = (case verifyParentHashChain blocks of
     Some b \<Rightarrow> emitReorg ctxErr b (ib_BlockHash b) (d\<lparr>dt_lastVerified := Map.empty\<rparr>)
   | None \<Rightarrow> (case blocks of
       [] \<Rightarrow> (None, None, d)
     | tip # rest \<Rightarrow> (case verifyBlock onchain tip d of
         (Inl e, d1) \<Rightarrow> scan_blocks onchain ctxErr rest Map.empty d1
       | (Inr (False, h), d1) \<Rightarrow> emitReorg ctxErr tip h (d1\<lparr>dt_lastVerified := Map.empty\<rparr>)
       | (Inr (True, h), d1) \<Rightarrow> scan_blocks onchain ctxErr rest [ib_BlockNumber tip \<mapsto> h] d1)))"

definition detector_check :: "onchain \<Rightarrow> gerr option \<Rightarrow> gerr + indexed_block list \<Rightarrow> detector \<Rightarrow> check_result" where
  "detector_check onchain ctxErr unfinalized d = (case unfinalized of
     Inl e \<Rightarrow> (Some (ErrWrap ''get unfinalized blocks: '' e), None, d)
   | Inr [] \<Rightarrow> (None, None, d\<lparr>dt_lastVerified := Map.empty\<rparr>)
   | Inr blocks \<Rightarrow> check_blocks onchain ctxErr (limit_depth (dt_maxCheckDepth d) blocks) d)"

text \<open>One round of \<^verbatim>\<open>Run\<close>: a tick or a pending immediate check; errors are only logged.\<close>

definition detector_round :: "onchain \<Rightarrow> gerr option \<Rightarrow> db \<Rightarrow> detector \<Rightarrow> reorg_event option \<times> detector" where
  "detector_round onchain ctxErr db d =
     (let (_, ev, d') = detector_check onchain ctxErr (Inr (GetUnfinalized (dt_chain d) (dt_network d) db)) (d\<lparr>dt_checkNow := False\<rparr>) in (ev, d'))"

section \<open>What a check establishes\<close>

text \<open>An indexed block disagrees with the chain.\<close>

definition mismatch :: "onchain \<Rightarrow> indexed_block \<Rightarrow> bool" where
  "mismatch onchain b \<longleftrightarrow> (case onchain (ib_BlockNumber b) of Inl e \<Rightarrow> False
     | Inr (h, parent) \<Rightarrow> h \<noteq> ib_BlockHash b \<or> (ib_ParentHash b \<noteq> '''' \<and> parent \<noteq> '''' \<and> ib_ParentHash b \<noteq> parent))"

lemma verifyBlock_cases:
  obtains (err) e d1 where "verifyBlock onchain b d = (Inl e, d1)" "\<not> mismatch onchain b" "onchain (ib_BlockNumber b) = Inl e" "dt_lastVerified d1 = dt_lastVerified d" "dt_chain d1 = dt_chain d" "dt_network d1 = dt_network d"
  | (bad) h d1 where "verifyBlock onchain b d = (Inr (False, h), d1)" "mismatch onchain b" "dt_lastVerified d1 = dt_lastVerified d" "dt_chain d1 = dt_chain d" "dt_network d1 = dt_network d"
  | (good) d1 where "verifyBlock onchain b d = (Inr (True, ib_BlockHash b), d1)" "\<not> mismatch onchain b" "dt_lastVerified d1 = dt_lastVerified d" "dt_chain d1 = dt_chain d" "dt_network d1 = dt_network d"
  by (cases "verifyBlock onchain b d") (auto simp: verifyBlock_def mismatch_def Let_def split: sum.splits if_splits prod.splits)

lemma scan_blocks_event:
  "scan_blocks onchain ctxErr bs nv d = (err, Some ev, d') \<Longrightarrow>
     \<exists>b \<in> set bs. mismatch onchain b \<and> re_ForkBlockNumber ev = ib_BlockNumber b \<and> re_ExpectedHash ev = ib_BlockHash b \<and>
       re_Chain ev = dt_chain d \<and> re_Network ev = dt_network d"
proof (induction bs arbitrary: nv d)
  case (Cons b bs)
  show ?case
  proof (cases "dt_lastVerified d (ib_BlockNumber b) = Some (ib_BlockHash b)")
    case True
    then show ?thesis using Cons by auto
  next
    case False
    show ?thesis
    proof (rule verifyBlock_cases [of onchain b d])
      fix e d1 assume "verifyBlock onchain b d = (Inl e, d1)" "dt_chain d1 = dt_chain d" "dt_network d1 = dt_network d"
      then show ?thesis using Cons False by fastforce
    next
      fix h d1 assume "verifyBlock onchain b d = (Inr (False, h), d1)" "mismatch onchain b" "dt_chain d1 = dt_chain d" "dt_network d1 = dt_network d"
      then show ?thesis using Cons.prems False by (auto simp: emitReorg_def reorg_for_def split: option.splits)
    next
      fix d1 assume "verifyBlock onchain b d = (Inr (True, ib_BlockHash b), d1)" "dt_chain d1 = dt_chain d" "dt_network d1 = dt_network d"
      then show ?thesis using Cons False by fastforce
    qed
  qed
qed simp

lemma scan_blocks_silent:
  "scan_blocks onchain ctxErr bs nv d = (None, None, d') \<Longrightarrow>
     (\<forall>b \<in> set bs. mismatch onchain b \<longrightarrow> dt_lastVerified d (ib_BlockNumber b) = Some (ib_BlockHash b))"
proof (induction bs arbitrary: nv d)
  case (Cons b bs)
  show ?case
  proof (cases "dt_lastVerified d (ib_BlockNumber b) = Some (ib_BlockHash b)")
    case True
    then show ?thesis using Cons by auto
  next
    case False
    show ?thesis
    proof (rule verifyBlock_cases [of onchain b d])
      fix e d1 assume "verifyBlock onchain b d = (Inl e, d1)" "\<not> mismatch onchain b" "dt_lastVerified d1 = dt_lastVerified d"
      then show ?thesis using Cons False by fastforce
    next
      fix h d1 assume "verifyBlock onchain b d = (Inr (False, h), d1)"
      then show ?thesis using Cons.prems False by (auto simp: emitReorg_def split: option.splits)
    next
      fix d1 assume "verifyBlock onchain b d = (Inr (True, ib_BlockHash b), d1)" "\<not> mismatch onchain b" "dt_lastVerified d1 = dt_lastVerified d"
      then show ?thesis using Cons False by fastforce
    qed
  qed
qed simp

lemma find_SomeD: "List.find P xs = Some x \<Longrightarrow> x \<in> set xs \<and> P x"
  by (induction xs) (auto split: if_splits)

lemma check_blocks_event:
  assumes "check_blocks onchain ctxErr blocks d = (err, Some ev, d')"
  shows "\<exists>b \<in> set blocks. (mismatch onchain b \<or> parent_break blocks b) \<and> re_ForkBlockNumber ev = ib_BlockNumber b \<and>
    re_ExpectedHash ev = ib_BlockHash b \<and> re_Chain ev = dt_chain d \<and> re_Network ev = dt_network d"
proof (cases "verifyParentHashChain blocks")
  case (Some b)
  then have "b \<in> set blocks \<and> parent_break blocks b"
    by (auto simp: verifyParentHashChain_def dest: find_SomeD split: if_splits)
  then show ?thesis using assms Some by (auto simp: check_blocks_def emitReorg_def reorg_for_def split: option.splits)
next
  case None
  with assms obtain tip rest where b: "blocks = tip # rest" by (cases blocks) (auto simp: check_blocks_def)
  show ?thesis
  proof (rule verifyBlock_cases [of onchain tip d])
    fix e d1 assume "verifyBlock onchain tip d = (Inl e, d1)" "dt_chain d1 = dt_chain d" "dt_network d1 = dt_network d"
    then show ?thesis using assms None b scan_blocks_event [of onchain ctxErr rest Map.empty d1 err ev d'] by (auto simp: check_blocks_def)
  next
    fix h d1 assume "verifyBlock onchain tip d = (Inr (False, h), d1)" "mismatch onchain tip" "dt_chain d1 = dt_chain d" "dt_network d1 = dt_network d"
    then show ?thesis using assms None b by (auto simp: check_blocks_def emitReorg_def reorg_for_def split: option.splits)
  next
    fix d1 assume "verifyBlock onchain tip d = (Inr (True, ib_BlockHash tip), d1)" "dt_chain d1 = dt_chain d" "dt_network d1 = dt_network d"
    then show ?thesis using assms None b scan_blocks_event [of onchain ctxErr rest _ d1 err ev d'] by (fastforce simp: check_blocks_def)
  qed
qed

lemma check_blocks_silent:
  assumes "check_blocks onchain ctxErr blocks d = (None, None, d')" "blocks \<noteq> []"
  shows "(2 \<le> length blocks \<longrightarrow> (\<forall>b \<in> set blocks. \<not> parent_break blocks b)) \<and> \<not> mismatch onchain (hd blocks) \<and>
    (\<forall>b \<in> set (tl blocks). mismatch onchain b \<longrightarrow> dt_lastVerified d (ib_BlockNumber b) = Some (ib_BlockHash b))"
proof (cases "verifyParentHashChain blocks")
  case (Some b)
  then show ?thesis using assms by (auto simp: check_blocks_def emitReorg_def split: option.splits)
next
  case None
  then have p: "2 \<le> length blocks \<longrightarrow> (\<forall>b \<in> set blocks. \<not> parent_break blocks b)"
    by (auto simp: verifyParentHashChain_def find_None_iff split: if_splits)
  obtain tip rest where b: "blocks = tip # rest" using assms(2) by (cases blocks) auto
  show ?thesis
  proof (rule verifyBlock_cases [of onchain tip d])
    fix e d1 assume "verifyBlock onchain tip d = (Inl e, d1)" "\<not> mismatch onchain tip" "dt_lastVerified d1 = dt_lastVerified d"
    then show ?thesis using assms None b p scan_blocks_silent [of onchain ctxErr rest Map.empty d1 d'] by (auto simp: check_blocks_def)
  next
    fix h d1 assume "verifyBlock onchain tip d = (Inr (False, h), d1)"
    then show ?thesis using assms None b by (auto simp: check_blocks_def emitReorg_def split: option.splits)
  next
    fix d1 assume "verifyBlock onchain tip d = (Inr (True, ib_BlockHash tip), d1)" "\<not> mismatch onchain tip" "dt_lastVerified d1 = dt_lastVerified d"
    then show ?thesis using assms None b p scan_blocks_silent [of onchain ctxErr rest _ d1 d'] by (fastforce simp: check_blocks_def)
  qed
qed

text \<open>A silent scan without RPC errors has recorded every block as verified.\<close>

lemma scan_blocks_records:
  assumes "scan_blocks onchain ctxErr bs nv d = (None, None, d')" "\<forall>b \<in> set bs. \<not> isl (onchain (ib_BlockNumber b))"
    and "distinct (map ib_BlockNumber bs)"
  shows "(\<forall>b \<in> set bs. dt_lastVerified d' (ib_BlockNumber b) = Some (ib_BlockHash b)) \<and>
    (\<forall>k. k \<notin> ib_BlockNumber ` set bs \<longrightarrow> dt_lastVerified d' k = nv k) \<and> dt_maxCheckDepth d' = dt_maxCheckDepth d"
  using assms
proof (induction bs arbitrary: nv d)
  case (Cons b bs)
  have "\<exists>d1. scan_blocks onchain ctxErr bs (nv(ib_BlockNumber b \<mapsto> ib_BlockHash b)) d1 = (None, None, d') \<and> dt_maxCheckDepth d1 = dt_maxCheckDepth d"
    using Cons.prems(1,2)
    by (auto simp: verifyBlock_def emitReorg_def Let_def split: if_splits sum.splits prod.splits option.splits)
  then obtain d1 where d1: "scan_blocks onchain ctxErr bs (nv(ib_BlockNumber b \<mapsto> ib_BlockHash b)) d1 = (None, None, d')"
    "dt_maxCheckDepth d1 = dt_maxCheckDepth d" by blast
  from Cons.IH [OF d1(1)] d1(2) Cons.prems(2,3) show ?case by auto
qed auto

section \<open>Properties\<close>


definition sample_block :: "block_no \<Rightarrow> string \<Rightarrow> string \<Rightarrow> indexed_block" where
  "sample_block k h parent = \<lparr>ib_Chain = ''base'', ib_Network = ''mainnet'', ib_BlockNumber = k, ib_BlockHash = h, ib_ParentHash = parent,
     ib_FinalityState = ''pending'', ib_BlockTime = None\<rparr>"

definition sample_blocks :: "indexed_block list" where
  "sample_blocks = [sample_block 10 ''a10'' '''', sample_block 11 ''a11'' '''', sample_block 12 ''a12'' '''']"

definition canonical_chain :: onchain where
  "canonical_chain k = (if k = 10 then Inr (''a10'', '''') else if k = 11 then Inr (''a11'', '''') else Inr (''a12'', ''''))"

definition forked_chain :: onchain where
  "forked_chain k = (if k = 10 then Inr (''a10'', '''') else Inr (''b'', ''''))"


text \<open>A reorg below a verified tick goes unnoticed. If one tick has verified all blocks (no RPC error, no
  alarm), the next tick over the same blocks raises no alarm whatever has become of the chain, as long
  as the first block of the list, the oldest one, still matches.\<close>

theorem verified_blocks_not_rechecked:
  assumes "detector_check before ctxErr (Inr blocks) d = (None, None, d1)" "\<forall>b \<in> set blocks. \<not> isl (before (ib_BlockNumber b))"
    and "distinct (map ib_BlockNumber blocks)" "int (length blocks) \<le> dt_maxCheckDepth d" "blocks \<noteq> []"
    and "after (ib_BlockNumber (hd blocks)) = before (ib_BlockNumber (hd blocks))"
  shows "fst (snd (detector_check after ctxErr' (Inr blocks) d1)) = None"
proof -
  obtain tip rest where b: "blocks = tip # rest" using assms(5) by (cases blocks) auto
  have l: "limit_depth (dt_maxCheckDepth d) blocks = blocks" using assms(4) by (simp add: limit_depth_def)
  have c: "check_blocks before ctxErr blocks d = (None, None, d1)" using assms(1) b l by (simp add: detector_check_def)
  have p: "verifyParentHashChain blocks = None"
    using c by (cases "verifyParentHashChain blocks") (auto simp: check_blocks_def emitReorg_def split: option.splits)
  have good: "\<not> mismatch before tip" using check_blocks_silent [OF c assms(5)] b by simp
  obtain h d0 where "verifyBlock before tip d = (Inr (True, h), d0)" "dt_maxCheckDepth d0 = dt_maxCheckDepth d"
    using good assms(2) b by (auto simp: verifyBlock_def mismatch_def Let_def split: sum.splits prod.splits)
  then have s: "scan_blocks before ctxErr rest [ib_BlockNumber tip \<mapsto> h] d0 = (None, None, d1)" and m: "dt_maxCheckDepth d0 = dt_maxCheckDepth d"
    using c p b by (simp_all add: check_blocks_def)
  have rec: "\<forall>b \<in> set rest. dt_lastVerified d1 (ib_BlockNumber b) = Some (ib_BlockHash b)" "dt_maxCheckDepth d1 = dt_maxCheckDepth d"
    using scan_blocks_records [OF s] assms(2,3) b m by auto
  have skip: "fst (snd (scan_blocks after ctxErr' bs nv x)) = None"
    if "\<forall>b \<in> set bs. dt_lastVerified x (ib_BlockNumber b) = Some (ib_BlockHash b)" for bs nv x
    using that by (induction bs arbitrary: nv) auto
  obtain h' d2 where "verifyBlock after tip d1 = (Inr (True, h'), d2)" "dt_lastVerified d2 = dt_lastVerified d1"
    using good assms(2,6) b by (auto simp: verifyBlock_def mismatch_def Let_def split: sum.splits prod.splits)
  then have "fst (snd (check_blocks after ctxErr' blocks d1)) = None" using p b skip [of rest d2] rec(1) by (simp add: check_blocks_def)
  then show ?thesis using l rec(2) b by (simp add: detector_check_def)
qed

theorem verified_blocks_not_rechecked_witness:
  "\<exists>d1. detector_check canonical_chain None (Inr sample_blocks) (NewDetector ''base'' ''mainnet'' 0) = (None, None, d1) \<and>
     mismatch forked_chain (sample_block 12 ''a12'' '''') \<and> fst (snd (detector_check forked_chain None (Inr sample_blocks) d1)) = None"
proof -
  let ?r = "detector_check canonical_chain None (Inr sample_blocks) (NewDetector ''base'' ''mainnet'' 0)"
  have "Option.is_none (fst ?r) \<and> Option.is_none (fst (snd ?r))" by code_simp
  then obtain d1 where r: "?r = (None, None, d1)" by (cases ?r) (auto simp: Option.is_none_def)
  have "fst (snd (detector_check forked_chain None (Inr sample_blocks) d1)) = None"
    by (rule verified_blocks_not_rechecked [OF r])
      (simp_all add: sample_blocks_def sample_block_def canonical_chain_def forked_chain_def NewDetector_def defaultMaxCheckDepth_def)
  moreover have "mismatch forked_chain (sample_block 12 ''a12'' '''')" by code_simp
  ultimately show ?thesis using r by blast
qed

end
