(* ===== verification/Interleaver.thy ===== *)
theory Interleaver
  imports Domain_Model
begin

text \<open>
  The commit interleaver (\<^verbatim>\<open>internal/pipeline/ingester/interleaver.go\<close>): the ingesters of several chains
  take turns to commit. The mutex makes each critical section one step, so the goroutines in
  \<^verbatim>\<open>Acquire\<close> and the calls of their release closures are the steps of a transition system over the
  shared record, the clients and a clock. The channel \<^verbatim>\<open>notify\<close> only wakes waiters up to repeat the
  grant test, which a waiter also does when its timer fires; a step may happen at any time.
\<close>

section \<open>Model\<close>

record interleaver =
  il_maxSkewWait :: duration
  il_order :: "string list"
  il_active :: string
  il_next :: nat
  il_waiting :: "string \<Rightarrow> nat"

definition commitInterleaveKey :: "chain \<Rightarrow> network \<Rightarrow> string" where
  "commitInterleaveKey c n = c @ ''-'' @ n"

fun order_index :: "string list \<Rightarrow> string \<Rightarrow> nat option" where
  "order_index [] k = None"
| "order_index (x # xs) k = (if x = k then Some 0 else map_option Suc (order_index xs k))"

definition newDeterministicCommitInterleaver :: "(chain \<times> network) list \<Rightarrow> duration \<Rightarrow> interleaver" where
  "newDeterministicCommitInterleaver targets maxSkewWait = \<lparr>il_maxSkewWait = maxSkewWait,
     il_order = foldl (\<lambda>order (c, n). if order_index order (commitInterleaveKey c n) \<noteq> None then order
       else order @ [commitInterleaveKey c n]) [] targets,
     il_active = '''', il_next = 0, il_waiting = (\<lambda>_. 0)\<rparr>"

definition NewDeterministicMandatoryChainInterleaver :: "duration \<Rightarrow> interleaver" where
  "NewDeterministicMandatoryChainInterleaver maxSkewWait =
     newDeterministicCommitInterleaver [(''solana'', ''devnet''), (''base'', ''sepolia''), (''btc'', ''testnet'')] maxSkewWait"

text \<open>The start of \<^verbatim>\<open>Acquire\<close> for a tracked key, its grant, and its cancelled exit.\<close>

definition acquire_deadline :: "time \<Rightarrow> interleaver \<Rightarrow> time option" where
  "acquire_deadline now d = (if il_maxSkewWait d > 0 then Some (now + il_maxSkewWait d) else None)"

definition acquire_enter :: "string \<Rightarrow> interleaver \<Rightarrow> interleaver" where
  "acquire_enter key d = d\<lparr>il_waiting := (il_waiting d)(key := il_waiting d key + 1)\<rparr>"

definition canAcquireLocked :: "time \<Rightarrow> string \<Rightarrow> time option \<Rightarrow> interleaver \<Rightarrow> bool" where
  "canAcquireLocked now key deadline d =
     (if il_active d \<noteq> '''' \<or> il_order d = [] then False
      else let preferred = il_order d ! il_next d in
        if key = preferred then True
        else if il_waiting d preferred > 0 then False
        else case deadline of None \<Rightarrow> True | Some t \<Rightarrow> \<not> now < t)"

definition acquire_grant :: "string \<Rightarrow> interleaver \<Rightarrow> interleaver" where
  "acquire_grant key d = d\<lparr>il_waiting := (il_waiting d)(key := il_waiting d key - 1), il_active := key\<rparr>"

definition cancelWaiter :: "string \<Rightarrow> interleaver \<Rightarrow> interleaver" where
  "cancelWaiter key d = (if il_waiting d key > 0 then d\<lparr>il_waiting := (il_waiting d)(key := il_waiting d key - 1)\<rparr> else d)"

definition waitDuration :: "time \<Rightarrow> time option \<Rightarrow> duration" where
  "waitDuration now deadline = (case deadline of None \<Rightarrow> 0 | Some t \<Rightarrow> if t - now \<le> 0 then 0 else t - now)"

definition wait_for :: "time \<Rightarrow> time option \<Rightarrow> duration" where
  "wait_for now deadline = (if waitDuration now deadline \<le> 0 then 1000000 else waitDuration now deadline)"

text \<open>The release closure with its flag \<^verbatim>\<open>released\<close>.\<close>

definition releaseFunc :: "string \<Rightarrow> nat \<Rightarrow> bool \<Rightarrow> bool \<times> interleaver \<Rightarrow> bool \<times> interleaver" where
  "releaseFunc key index committed = (\<lambda>(released, d).
     if released then (released, d)
     else (True, d\<lparr>il_active := (if il_active d = key then '''' else il_active d),
       il_next := (if committed \<and> 0 < length (il_order d) then (index + 1) mod length (il_order d) else il_next d)\<rparr>))"

section \<open>The goroutines\<close>

datatype client = Idle | Waiting string "time option" | Holding string nat bool

record il_system =
  sy_lock :: interleaver
  sy_now :: time
  sy_clients :: "nat \<Rightarrow> client"

definition start_system :: "(chain \<times> network) list \<Rightarrow> duration \<Rightarrow> time \<Rightarrow> il_system" where
  "start_system targets maxSkewWait now =
     \<lparr>sy_lock = newDeterministicCommitInterleaver targets maxSkewWait, sy_now = now, sy_clients = (\<lambda>_. Idle)\<rparr>"

datatype il_action = Enter string | Grant string | Cancel | Release bool | Leave | Elapse duration

inductive il_step :: "il_system \<Rightarrow> nat \<Rightarrow> il_action \<Rightarrow> il_system \<Rightarrow> bool" where
  enter: "\<lbrakk>sy_clients s i = Idle; order_index (il_order (sy_lock s)) key \<noteq> None\<rbrakk> \<Longrightarrow>
    il_step s i (Enter key) (s\<lparr>sy_lock := acquire_enter key (sy_lock s),
      sy_clients := (sy_clients s)(i := Waiting key (acquire_deadline (sy_now s) (sy_lock s)))\<rparr>)"
| grant: "\<lbrakk>sy_clients s i = Waiting key deadline; canAcquireLocked (sy_now s) key deadline (sy_lock s);
      order_index (il_order (sy_lock s)) key = Some index\<rbrakk> \<Longrightarrow>
    il_step s i (Grant key) (s\<lparr>sy_lock := acquire_grant key (sy_lock s), sy_clients := (sy_clients s)(i := Holding key index False)\<rparr>)"
| cancel: "sy_clients s i = Waiting key deadline \<Longrightarrow>
    il_step s i Cancel (s\<lparr>sy_lock := cancelWaiter key (sy_lock s), sy_clients := (sy_clients s)(i := Idle)\<rparr>)"
| release: "\<lbrakk>sy_clients s i = Holding key index released; releaseFunc key index committed (released, sy_lock s) = (released', d')\<rbrakk> \<Longrightarrow>
    il_step s i (Release committed) (s\<lparr>sy_lock := d', sy_clients := (sy_clients s)(i := Holding key index released')\<rparr>)"
| leave: "sy_clients s i = Holding key index True \<Longrightarrow>
    il_step s i Leave (s\<lparr>sy_clients := (sy_clients s)(i := Idle)\<rparr>)"
| elapse: "0 \<le> delta \<Longrightarrow> il_step s i (Elapse delta) (s\<lparr>sy_now := sy_now s + delta\<rparr>)"

inductive il_reach :: "il_system \<Rightarrow> il_system \<Rightarrow> bool" where
  refl: "il_reach s s"
| step: "\<lbrakk>il_reach s t; il_step t i a u\<rbrakk> \<Longrightarrow> il_reach s u"

section \<open>The invariant\<close>

definition waiters :: "(nat \<Rightarrow> client) \<Rightarrow> string \<Rightarrow> nat set" where
  "waiters cl key = {i. \<exists>deadline. cl i = Waiting key deadline}"

definition holder :: "(nat \<Rightarrow> client) \<Rightarrow> nat \<Rightarrow> string \<Rightarrow> nat \<Rightarrow> bool" where
  "holder cl i key index \<longleftrightarrow> cl i = Holding key index False"

definition waiting_ok :: "(nat \<Rightarrow> client) \<Rightarrow> interleaver \<Rightarrow> bool" where
  "waiting_ok cl d \<longleftrightarrow> finite {i. cl i \<noteq> Idle} \<and> (\<forall>key. il_waiting d key = card (waiters cl key)) \<and>
     (\<forall>i key dl. cl i = Waiting key dl \<longrightarrow> key \<in> set (il_order d))"

definition lock_ok :: "(nat \<Rightarrow> client) \<Rightarrow> interleaver \<Rightarrow> bool" where
  "lock_ok cl d \<longleftrightarrow> (\<forall>i key index. holder cl i key index \<longrightarrow> il_active d = key \<and> order_index (il_order d) key = Some index) \<and>
     (\<forall>i j k k' x x'. holder cl i k x \<longrightarrow> holder cl j k' x' \<longrightarrow> i = j) \<and>
     (il_active d \<noteq> '''' \<longrightarrow> (\<exists>i index. holder cl i (il_active d) index))"

definition order_ok :: "interleaver \<Rightarrow> bool" where
  "order_ok d \<longleftrightarrow> '''' \<notin> set (il_order d) \<and> (il_order d = [] \<or> il_next d < length (il_order d))"

definition il_inv :: "il_system \<Rightarrow> bool" where
  "il_inv s \<longleftrightarrow> order_ok (sy_lock s) \<and> waiting_ok (sy_clients s) (sy_lock s) \<and> lock_ok (sy_clients s) (sy_lock s)"

lemma order_index_Some: "order_index xs k = Some i \<Longrightarrow> i < length xs \<and> xs ! i = k"
  by (induction xs arbitrary: i) (auto split: if_splits)

lemma order_index_None: "order_index xs k = None \<longleftrightarrow> k \<notin> set xs"
  by (induction xs) auto

lemma order_index_mem: "order_index xs k \<noteq> None \<Longrightarrow> k \<in> set xs"
  by (metis order_index_None)

lemma waiters_upd:
  "waiters (cl(i := c)) key = (case c of Waiting k dl \<Rightarrow> if k = key then insert i (waiters cl key) else waiters cl key - {i} | _ \<Rightarrow> waiters cl key - {i})"
  by (auto simp: waiters_def split: client.splits)

lemma holder_upd: "holder (cl(i := c)) j key index \<longleftrightarrow> (if j = i then c = Holding key index False else holder cl j key index)"
  by (simp add: holder_def)

lemma busy_upd: "finite {i. cl i \<noteq> Idle} \<Longrightarrow> finite {j. (cl(i := c)) j \<noteq> Idle}"
  by (rule finite_subset [of _ "insert i {i. cl i \<noteq> Idle}"]) auto

lemma waiters_finite: "finite {i. cl i \<noteq> Idle} \<Longrightarrow> finite (waiters cl key)"
  by (rule finite_subset) (auto simp: waiters_def)

lemma waiting_enter:
  assumes "waiting_ok cl d" "cl i = Idle" "key \<in> set (il_order d)"
  shows "waiting_ok (cl(i := Waiting key dl)) (acquire_enter key d)"
proof -
  have "i \<notin> waiters cl k" for k using assms(2) by (simp add: waiters_def)
  moreover have "finite (waiters cl k)" for k using assms(1) waiters_finite by (simp add: waiting_ok_def)
  ultimately show ?thesis using assms(1,3) busy_upd [of cl i "Waiting key dl"]
    by (simp add: waiting_ok_def acquire_enter_def waiters_upd)
qed

lemma waiting_drop:
  assumes "waiting_ok cl d" "cl i = Waiting key dl" "\<forall>k t. c \<noteq> Waiting k t"
  shows "waiting_ok (cl(i := c)) (d\<lparr>il_waiting := (il_waiting d)(key := il_waiting d key - 1)\<rparr>)"
proof -
  have "waiters (cl(i := c)) k = waiters cl k - {i}" for k using assms(3) by (cases c) (simp_all add: waiters_upd)
  moreover have "i \<in> waiters cl k \<longleftrightarrow> k = key" for k using assms(2) by (auto simp: waiters_def)
  ultimately show ?thesis using assms(1,3) busy_upd [of cl i c]
    by (auto simp: waiting_ok_def waiters_finite card_Diff_singleton)
qed

lemma waiting_other:
  assumes "waiting_ok cl d" "\<forall>k t. cl i \<noteq> Waiting k t" "\<forall>k t. c \<noteq> Waiting k t" "il_waiting d' = il_waiting d" "il_order d' = il_order d"
  shows "waiting_ok (cl(i := c)) d'"
proof -
  have "waiters (cl(i := c)) k = waiters cl k" for k using assms(2,3) by (auto simp: waiters_def)
  then show ?thesis using assms busy_upd [of cl i c] by (auto simp: waiting_ok_def)
qed

lemma waiting_positive: "\<lbrakk>waiting_ok cl d; cl i = Waiting key dl\<rbrakk> \<Longrightarrow> 0 < il_waiting d key"
  by (auto simp: waiting_ok_def waiters_finite card_gt_0_iff) (auto simp: waiters_def)

lemma lock_other:
  assumes "lock_ok cl d" "\<forall>k x. cl i \<noteq> Holding k x False" "\<forall>k x. c \<noteq> Holding k x False"
    "il_active d' = il_active d" "il_order d' = il_order d"
  shows "lock_ok (cl(i := c)) d'"
proof -
  have "holder (cl(i := c)) = holder cl" using assms(2,3) by (auto simp: holder_def fun_eq_iff)
  then show ?thesis using assms by (simp add: lock_ok_def)
qed

lemma lock_grant:
  assumes "lock_ok cl d" "il_active d = ''''" "'''' \<notin> set (il_order d)" "order_index (il_order d) key = Some index"
  shows "lock_ok (cl(i := Holding key index False)) (acquire_grant key d)"
proof -
  have none: "\<not> holder cl j k x" for j k x
  proof
    assume "holder cl j k x"
    then have "il_active d = k" "order_index (il_order d) k = Some x" using assms(1) unfolding lock_ok_def by blast+
    then show False using assms(2,3) order_index_mem [of "il_order d" k] by simp
  qed
  show ?thesis using assms(4) by (auto simp: lock_ok_def holder_upd none acquire_grant_def)
qed

lemma lock_release:
  assumes "lock_ok cl d" "cl i = Holding key index False" "il_active d' = ''''" "il_order d' = il_order d"
  shows "lock_ok (cl(i := Holding key index True)) d'"
proof -
  have "\<not> holder (cl(i := Holding key index True)) j k x" for j k x
  proof
    assume h: "holder (cl(i := Holding key index True)) j k x"
    then have "j \<noteq> i" "holder cl j k x" by (auto simp: holder_upd split: if_splits)
    moreover have "holder cl i key index" using assms(2) by (simp add: holder_def)
    ultimately show False using assms(1) unfolding lock_ok_def by blast
  qed
  then show ?thesis using assms(3) by (simp add: lock_ok_def)
qed

lemma start_inv: "il_inv (start_system targets maxSkewWait now)"
proof -
  have "'''' \<notin> set (foldl (\<lambda>order (c, n). if order_index order (commitInterleaveKey c n) \<noteq> None then order
      else order @ [commitInterleaveKey c n]) acc targets)" if "'''' \<notin> set acc" for acc
    using that by (induction targets arbitrary: acc) (auto simp: commitInterleaveKey_def split: prod.splits)
  then show ?thesis
    by (simp add: il_inv_def order_ok_def waiting_ok_def lock_ok_def start_system_def newDeterministicCommitInterleaver_def
        waiters_def holder_def)
qed

lemma il_step_inv: "\<lbrakk>il_step s i a t; il_inv s\<rbrakk> \<Longrightarrow> il_inv t"
proof (induction rule: il_step.induct)
  case (enter s i key)
  then have "key \<in> set (il_order (sy_lock s))" using order_index_mem by blast
  then show ?case using enter waiting_enter [of "sy_clients s" "sy_lock s" i key] lock_other [of "sy_clients s" "sy_lock s" i]
    by (simp add: il_inv_def order_ok_def acquire_enter_def)
next
  case (grant s i key deadline index)
  let ?cl = "sy_clients s" and ?d = "sy_lock s"
  have "il_active ?d = ''''" using grant.hyps(2) by (auto simp: canAcquireLocked_def split: if_splits)
  then have "lock_ok (?cl(i := Holding key index False)) (acquire_grant key ?d)"
    using grant lock_grant by (simp add: il_inv_def order_ok_def)
  moreover have "waiting_ok (?cl(i := Holding key index False)) (acquire_grant key ?d)"
    using waiting_drop [of ?cl ?d i key deadline "Holding key index False"] grant by (simp add: il_inv_def acquire_grant_def waiting_ok_def)
  ultimately show ?case using grant.prems by (simp add: il_inv_def order_ok_def acquire_grant_def)
next
  case (cancel s i key deadline)
  let ?cl = "sy_clients s" and ?d = "sy_lock s"
  have "waiting_ok ?cl ?d" using cancel.prems by (simp add: il_inv_def)
  from waiting_positive [OF this cancel.hyps] show ?case using cancel waiting_drop [of ?cl ?d i key deadline Idle] lock_other [of ?cl ?d i Idle "cancelWaiter key ?d"]
    by (simp add: il_inv_def order_ok_def cancelWaiter_def)
next
  case (release s i key index released committed released' d')
  let ?cl = "sy_clients s" and ?d = "sy_lock s"
  show ?case
  proof (cases released)
    case True
    then have "?cl(i := Holding key index released') = ?cl" "d' = ?d"
      using release.hyps by (auto simp: releaseFunc_def)
    then show ?thesis using release.prems by simp
  next
    case False
    then have c: "?cl i = Holding key index False" using release.hyps by simp
    have d': "released'" "il_waiting d' = il_waiting ?d" "il_order d' = il_order ?d" "il_next d' < length (il_order ?d) \<or> il_order ?d = []"
      using release.hyps(2) release.prems False by (auto simp: releaseFunc_def il_inv_def order_ok_def)
    have "il_active ?d = key" using c release.prems by (auto simp: il_inv_def lock_ok_def holder_def)
    then have "il_active d' = ''''" using release.hyps(2) False by (auto simp: releaseFunc_def)
    then show ?thesis using d' c release.prems lock_release [of ?cl ?d i key index d']
        waiting_other [of ?cl ?d i "Holding key index True" d'] by (auto simp: il_inv_def order_ok_def)
  qed
next
  case (leave s i key index)
  then show ?case using waiting_other [of "sy_clients s" "sy_lock s" i Idle] lock_other [of "sy_clients s" "sy_lock s" i Idle]
    by (simp add: il_inv_def)
next
  case (elapse delta s i)
  then show ?case by (simp add: il_inv_def)
qed

lemma il_reach_inv: "\<lbrakk>il_reach s t; il_inv s\<rbrakk> \<Longrightarrow> il_inv t"
  by (induction rule: il_reach.induct) (auto intro: il_step_inv)

inductive_cases il_step_GrantE: "il_step s i (Grant key) t"
inductive_cases il_step_ReleaseE: "il_step s i (Release committed) t"

section \<open>Properties\<close>

text \<open>C27: the interleaver is a lock that keeps the turns. In every reachable state at most one client holds the
  turn and it is the recorded one, and the counters are the numbers of waiting clients. A grant never
  overtakes a client waiting for the preferred key, and a committed release passes the turn to the
  next key of the order.\<close>

theorem interleaver_safe:
  assumes "il_reach (start_system targets maxSkewWait now) s"
  shows "(\<forall>i j k k' x x'. sy_clients s i = Holding k x False \<longrightarrow> sy_clients s j = Holding k' x' False \<longrightarrow> i = j \<and> k = il_active (sy_lock s)) \<and>
    (\<forall>key. il_waiting (sy_lock s) key = card {i. \<exists>deadline. sy_clients s i = Waiting key deadline}) \<and>
    (\<forall>i j key deadline t. il_step s i (Grant key) t \<longrightarrow>
       sy_clients s j = Waiting (il_order (sy_lock s) ! il_next (sy_lock s)) deadline \<longrightarrow> key = il_order (sy_lock s) ! il_next (sy_lock s)) \<and>
    (\<forall>i key x t. sy_clients s i = Holding key x False \<longrightarrow> il_step s i (Release True) t \<longrightarrow>
       il_active (sy_lock t) = '''' \<and> il_order (sy_lock s) ! x = key \<and> il_next (sy_lock t) = (x + 1) mod length (il_order (sy_lock s)))"
proof -
  let ?cl = "sy_clients s" and ?d = "sy_lock s"
  have "il_inv s" using il_reach_inv [OF assms start_inv] .
  then have w: "waiting_ok ?cl ?d" and l: "lock_ok ?cl ?d" by (simp_all add: il_inv_def)
  have hold: "i = j \<and> k = il_active ?d" if "?cl i = Holding k x False" "?cl j = Holding k' x' False" for i j k k' x x'
    using l that unfolding lock_ok_def holder_def by blast
  have card: "il_waiting ?d key = card {i. \<exists>deadline. ?cl i = Waiting key deadline}" for key
    using w by (simp add: waiting_ok_def waiters_def)
  have turn: "key = il_order ?d ! il_next ?d" if "il_step s i (Grant key) t" "?cl j = Waiting (il_order ?d ! il_next ?d) dl" for i j key dl t
    using waiting_positive [OF w that(2)] that(1) by (auto elim!: il_step_GrantE simp: canAcquireLocked_def Let_def split: if_splits)
  have "il_active (sy_lock t) = '''' \<and> il_order ?d ! x = key \<and> il_next (sy_lock t) = (x + 1) mod length (il_order ?d)"
    if c: "?cl i = Holding key x False" and st: "il_step s i (Release True) t" for i key x t
  proof -
    have a: "il_active ?d = key" "order_index (il_order ?d) key = Some x" using c l by (simp_all add: lock_ok_def holder_def)
    show ?thesis using st c a order_index_Some [OF a(2)] by (auto elim!: il_step_ReleaseE simp: releaseFunc_def)
  qed
  then show ?thesis using hold card turn by blast
qed

definition two_chains :: "(chain \<times> network) list" where
  "two_chains = [(''solana'', ''devnet''), (''base'', ''sepolia'')]"

text \<open>Client 0 (Base) and client 1 (Solana) both wait; Solana is preferred and gets the turn.\<close>

definition both_waiting :: il_system where
  "both_waiting = \<lparr>sy_lock = \<lparr>il_maxSkewWait = 5, il_order = [''solana-devnet'', ''base-sepolia''], il_active = '''', il_next = 0,
       il_waiting = (\<lambda>_. 0)(''base-sepolia'' := 1, ''solana-devnet'' := 1)\<rparr>, sy_now = 0,
     sy_clients = (\<lambda>_. Idle)(0 := Waiting ''base-sepolia'' (Some 5), 1 := Waiting ''solana-devnet'' (Some 5))\<rparr>"

lemma both_waiting_reached: "il_reach (start_system two_chains 5 0) both_waiting"
proof -
  let ?s0 = "start_system two_chains 5 0"
  let ?s1 = "?s0\<lparr>sy_lock := acquire_enter ''base-sepolia'' (sy_lock ?s0),
      sy_clients := (sy_clients ?s0)(0 := Waiting ''base-sepolia'' (acquire_deadline (sy_now ?s0) (sy_lock ?s0)))\<rparr>"
  let ?s2 = "?s1\<lparr>sy_lock := acquire_enter ''solana-devnet'' (sy_lock ?s1),
      sy_clients := (sy_clients ?s1)(1 := Waiting ''solana-devnet'' (acquire_deadline (sy_now ?s1) (sy_lock ?s1)))\<rparr>"
  note defs = start_system_def two_chains_def newDeterministicCommitInterleaver_def commitInterleaveKey_def
    acquire_enter_def acquire_deadline_def
  have 1: "il_step ?s0 0 (Enter ''base-sepolia'') ?s1" by (rule il_step.enter) (simp_all add: defs)
  have 2: "il_step ?s1 1 (Enter ''solana-devnet'') ?s2" by (rule il_step.enter) (simp_all add: defs)
  have 3: "?s2 = both_waiting" by (simp add: defs both_waiting_def fun_eq_iff)
  show ?thesis using il_reach.step [OF il_reach.step [OF il_reach.refl 1] 2] unfolding 3 .
qed

theorem interleaver_safe_witness:
  "il_waiting (sy_lock both_waiting) ''base-sepolia'' = card {i. \<exists>deadline. sy_clients both_waiting i = Waiting ''base-sepolia'' deadline} \<and>
   (\<exists>t. il_step both_waiting 1 (Grant ''solana-devnet'') t) \<and> \<not> (\<exists>t. il_step both_waiting 0 (Grant ''base-sepolia'') t)"
proof -
  note safe = interleaver_safe [OF both_waiting_reached]
  have g: "\<exists>t. il_step both_waiting 1 (Grant ''solana-devnet'') t"
    by (rule exI, rule il_step.grant [where index = 0 and deadline = "Some 5"]) (simp_all add: both_waiting_def canAcquireLocked_def)
  have p: "il_order (sy_lock both_waiting) ! il_next (sy_lock both_waiting) = ''solana-devnet''"
    "sy_clients both_waiting 1 = Waiting ''solana-devnet'' (Some 5)" by (simp_all add: both_waiting_def)
  have "''base-sepolia'' = ''solana-devnet''" if "il_step both_waiting 0 (Grant ''base-sepolia'') t" for t
    using safe [THEN conjunct2, THEN conjunct2, THEN conjunct1, rule_format, OF that, of 1 "Some 5"] p by simp
  then have "\<not> (\<exists>t. il_step both_waiting 0 (Grant ''base-sepolia'') t)" by auto
  with g safe [THEN conjunct2, THEN conjunct1, rule_format, of "''base-sepolia''"] show ?thesis by simp
qed



end
