(* ===== verification/Policy_Lineage.thy ===== *)
theory Policy_Lineage
  imports Go_Text
begin

text \<open>
  The policy lineage of the auto-tuner (\<^verbatim>\<open>internal/pipeline/coordinator/autotune\<close>: \<^verbatim>\<open>policy_lineage.go\<close>,
  \<^verbatim>\<open>rollback_fence.go\<close>, \<^verbatim>\<open>rollback_fence_markers.go\<close>, \<^verbatim>\<open>rollback_fence_ordering.go\<close>). A manifest digest is a
  list of tokens separated by bars; the functions here parse the tokens and decide which of two
  digests of one epoch owns the policy. A pair of a value and a found flag is an option. The theory
  shows that ownership in the release window is a strict order, and that the rule which should reject
  a returning tombstone is never reached.
\<close>

section \<open>Digests\<close>

definition normalizePolicyVersion :: "string \<Rightarrow> string" where
  "normalizePolicyVersion version = (let t = TrimSpace (ToLower version) in if t = '''' then ''policy-v1'' else t)"

definition normalizePolicyManifestDigest :: "string \<Rightarrow> string" where
  "normalizePolicyManifestDigest digest = (let t = TrimSpace (ToLower digest) in if t = '''' then ''manifest-v1'' else t)"

definition digest_tokens :: "string \<Rightarrow> string list" where
  "digest_tokens digest = map TrimSpace (Split CHR ''|'' digest)"

definition key_value :: "string \<Rightarrow> string \<Rightarrow> string" where
  "key_value key tok = TrimSpace (TrimPrefix tok key)"

text \<open>An integer that parses and is not negative.\<close>

definition parse_seq :: "string \<Rightarrow> int option" where
  "parse_seq v = (case ParseInt v of Some i \<Rightarrow> if i < 0 then None else Some i | None \<Rightarrow> None)"

text \<open>The last token with a key wins.\<close>

definition rollback_values :: "string list \<Rightarrow> string \<times> string \<times> string" where
  "rollback_values toks = foldl (\<lambda>(f, t, w) tok.
     if HasPrefix tok ''rollback-from-seq='' then (key_value ''rollback-from-seq='' tok, t, w)
     else if HasPrefix tok ''rollback-to-seq='' then (f, key_value ''rollback-to-seq='' tok, w)
     else if HasPrefix tok ''rollback-forward-seq='' then (f, t, key_value ''rollback-forward-seq='' tok)
     else (f, t, w)) ('''', '''', '''') toks"

definition parseRollbackLineage :: "string \<Rightarrow> (int \<times> int \<times> int) option" where
  "parseRollbackLineage digest = (let (f, t, w) = rollback_values (digest_tokens digest) in
     if f = '''' \<or> t = '''' \<or> w = '''' then None
     else case parse_seq f of None \<Rightarrow> None | Some fromSeq \<Rightarrow>
       case parse_seq t of None \<Rightarrow> None | Some toSeq \<Rightarrow>
       case parse_seq w of None \<Rightarrow> None | Some forwardSeq \<Rightarrow> Some (fromSeq, toSeq, forwardSeq))"

definition snapshot_values :: "string list \<Rightarrow> string \<times> string" where
  "snapshot_values toks = foldl (\<lambda>(b, t) tok.
     if HasPrefix tok ''snapshot-base-seq='' then (key_value ''snapshot-base-seq='' tok, t)
     else if HasPrefix tok ''snapshot-tail-seq='' then (b, key_value ''snapshot-tail-seq='' tok)
     else (b, t)) ('''', '''') toks"

definition parseSnapshotCutoverLineage :: "string \<Rightarrow> (int \<times> int) option" where
  "parseSnapshotCutoverLineage digest = (let (b, t) = snapshot_values (digest_tokens digest) in
     if b = '''' \<or> t = '''' then None
     else case parse_seq b of None \<Rightarrow> None | Some baseSeq \<Rightarrow>
       case parse_seq t of None \<Rightarrow> None | Some tailSeq \<Rightarrow> Some (baseSeq, tailSeq))"

definition isDeterministicSnapshotCutover :: "int \<Rightarrow> int \<Rightarrow> string \<Rightarrow> bool" where
  "isDeterministicSnapshotCutover previousEpoch incomingEpoch incomingDigest =
     (if incomingEpoch \<le> wrap64 (previousEpoch + 1) then False
      else case parseSnapshotCutoverLineage incomingDigest of
        None \<Rightarrow> False
      | Some (baseSeq, tailSeq) \<Rightarrow> baseSeq = previousEpoch \<and> tailSeq = incomingEpoch \<and> tailSeq > baseSeq)"

definition isDeterministicRollbackLineage :: "int \<Rightarrow> int \<Rightarrow> string \<Rightarrow> bool" where
  "isDeterministicRollbackLineage previousEpoch incomingEpoch incomingDigest =
     (if incomingEpoch \<ge> previousEpoch then False
      else case parseRollbackLineage incomingDigest of
        None \<Rightarrow> False
      | Some (f, t, w) \<Rightarrow> f = previousEpoch \<and> t = incomingEpoch \<and> f > t \<and> w \<ge> f)"

section \<open>Rollback fences (\<^verbatim>\<open>rollback_fence.go\<close>)\<close>

definition isRollbackFenceTransition :: "int \<Rightarrow> string \<Rightarrow> bool" where
  "isRollbackFenceTransition epoch digest =
     (if epoch < 0 then False
      else case parseRollbackLineage (normalizePolicyManifestDigest digest) of
        None \<Rightarrow> False
      | Some (f, t, w) \<Rightarrow> t = epoch \<and> f > t)"

definition validateRollbackLineage :: "int \<Rightarrow> string \<Rightarrow> bool" where
  "validateRollbackLineage epoch normalized = (case parseRollbackLineage normalized of
     None \<Rightarrow> False
   | Some (f, t, w) \<Rightarrow> t = epoch \<and> f > t \<and> w \<ge> f)"

definition validateLineagePair :: "int \<Rightarrow> string \<Rightarrow> string \<Rightarrow> bool" where
  "validateLineagePair epoch source target = (case parseRollbackLineage source of
     None \<Rightarrow> False
   | Some (sf, st, sw) \<Rightarrow> (case parseRollbackLineage target of
       None \<Rightarrow> False
     | Some (tf, tt, tw) \<Rightarrow> sf = tf \<and> st = tt \<and> sw = tw \<and> st = epoch \<and> tt = epoch \<and> sf > st \<and> tf > tt \<and> sw \<ge> sf \<and> tw \<ge> tf))"

definition hasRollbackFenceEpochCompactionTombstone :: "string \<Rightarrow> bool" where
  "hasRollbackFenceEpochCompactionTombstone digest \<longleftrightarrow> (\<exists>tok \<in> set (digest_tokens digest).
     tok = ''rollback-fence-tombstone'' \<or>
     (HasPrefix tok ''rollback-fence-tombstone='' \<and> key_value ''rollback-fence-tombstone='' tok \<in> {''1'', ''true'', ''yes'', ''on''}))"

text \<open>The first token with the key decides.\<close>

definition parseSingleKey :: "string \<Rightarrow> string \<Rightarrow> int option" where
  "parseSingleKey digest keyPrefix = (case List.find (\<lambda>tok. HasPrefix tok keyPrefix) (digest_tokens digest) of
     None \<Rightarrow> None
   | Some tok \<Rightarrow> let v = key_value keyPrefix tok in if v = '''' then None else parse_seq v)"

definition parseRollbackFenceTombstoneExpiryEpoch :: "string \<Rightarrow> int option" where
  "parseRollbackFenceTombstoneExpiryEpoch digest = parseSingleKey digest ''rollback-fence-tombstone-expiry-epoch=''"

definition parseRollbackFenceLateMarkerHoldEpoch :: "string \<Rightarrow> int option" where
  "parseRollbackFenceLateMarkerHoldEpoch digest = parseSingleKey digest ''rollback-fence-late-marker-hold-epoch=''"

definition parseRollbackFenceLateMarkerReleaseEpoch :: "string \<Rightarrow> int option" where
  "parseRollbackFenceLateMarkerReleaseEpoch digest = parseSingleKey digest ''rollback-fence-late-marker-release-epoch=''"

definition isRollbackFenceEpochCompactionDigest :: "int \<Rightarrow> string \<Rightarrow> bool" where
  "isRollbackFenceEpochCompactionDigest epoch digest =
     (if epoch < 0 then False
      else let n = normalizePolicyManifestDigest digest in
        hasRollbackFenceEpochCompactionTombstone n \<and> validateRollbackLineage epoch n)"

definition isRollbackFenceTombstoneExpiryDigest :: "int \<Rightarrow> string \<Rightarrow> bool" where
  "isRollbackFenceTombstoneExpiryDigest epoch digest =
     (if epoch < 0 then False
      else let n = normalizePolicyManifestDigest digest in
        if hasRollbackFenceEpochCompactionTombstone n then False
        else if parseRollbackFenceLateMarkerHoldEpoch n \<noteq> None then False
        else if parseRollbackFenceLateMarkerReleaseEpoch n \<noteq> None then False
        else case parseRollbackFenceTombstoneExpiryEpoch n of
          None \<Rightarrow> False
        | Some expiryEpoch \<Rightarrow> validateRollbackLineage epoch n \<and> expiryEpoch > epoch)"

definition isRollbackFencePostExpiryLateMarkerQuarantineDigest :: "int \<Rightarrow> string \<Rightarrow> bool" where
  "isRollbackFencePostExpiryLateMarkerQuarantineDigest epoch digest =
     (if epoch < 0 then False
      else let n = normalizePolicyManifestDigest digest in
        if hasRollbackFenceEpochCompactionTombstone n then False
        else if parseRollbackFenceLateMarkerReleaseEpoch n \<noteq> None then False
        else case parseRollbackFenceTombstoneExpiryEpoch n of None \<Rightarrow> False | Some expiryEpoch \<Rightarrow>
          case parseRollbackFenceLateMarkerHoldEpoch n of None \<Rightarrow> False | Some holdEpoch \<Rightarrow>
            validateRollbackLineage epoch n \<and> expiryEpoch > epoch \<and> holdEpoch > expiryEpoch)"

definition isRollbackFencePostExpiryLateMarkerReleaseDigest :: "int \<Rightarrow> string \<Rightarrow> bool" where
  "isRollbackFencePostExpiryLateMarkerReleaseDigest epoch digest =
     (if epoch < 0 then False
      else let n = normalizePolicyManifestDigest digest in
        if hasRollbackFenceEpochCompactionTombstone n then False
        else case parseRollbackFenceTombstoneExpiryEpoch n of None \<Rightarrow> False | Some expiryEpoch \<Rightarrow>
          case parseRollbackFenceLateMarkerHoldEpoch n of None \<Rightarrow> False | Some holdEpoch \<Rightarrow>
          case parseRollbackFenceLateMarkerReleaseEpoch n of None \<Rightarrow> False | Some releaseEpoch \<Rightarrow>
            validateRollbackLineage epoch n \<and> expiryEpoch > epoch \<and> holdEpoch > expiryEpoch \<and> releaseEpoch > holdEpoch)"

section \<open>Epoch markers (\<^verbatim>\<open>rollback_fence_markers.go\<close>)\<close>

definition fence_key :: "string \<Rightarrow> string" where
  "fence_key s = ''rollback-fence-'' @ s @ ''-epoch=''"

text \<open>From the seal of the first reintegration on, every marker has the same five spellings.\<close>

definition resurrection_keys :: "string \<Rightarrow> string list" where
  "resurrection_keys stage = map fence_key [''resurrection-reintegration'' @ stage, ''late-resurrection-reintegration'' @ stage,
     ''post-late-resurrection-reintegration'' @ stage, ''post-marker-expiry-late-resurrection-reintegration'' @ stage,
     ''post-reintegration'' @ stage]"

fun stages :: "string \<Rightarrow> string list \<Rightarrow> string list" where
  "stages acc [] = []"
| "stages acc (x # xs) = (acc @ x) # stages (acc @ x) xs"

definition resurrection_cycle :: "string list" where
  "resurrection_cycle = [''-seal'', ''-drift'', ''-reanchor'', ''-compaction'', ''-expiry'', ''-quarantine'', ''-reintegration'']"

definition epochMarkers :: "string list list" where
  "epochMarkers =
     [map fence_key [''seal-drift'', ''steady-seal-drift'', ''post-steady-seal-drift''],
      map fence_key [''drift-reanchor'', ''post-drift-reanchor'', ''post-steady-drift-reanchor''],
      map fence_key [''reanchor-compaction'', ''post-reanchor-compaction'', ''post-drift-reanchor-compaction''],
      map fence_key [''compaction-expiry'', ''lineage-compaction-expiry'', ''post-lineage-compaction-expiry''],
      map fence_key [''resurrection-quarantine'', ''late-resurrection-quarantine'', ''post-expiry-late-resurrection-quarantine'',
        ''post-marker-expiry-late-resurrection-quarantine''],
      map fence_key [''resurrection-reintegration'', ''late-resurrection-reintegration'',
        ''post-late-resurrection-quarantine-reintegration'', ''post-marker-expiry-late-resurrection-reintegration'']]
     @ map resurrection_keys (stages '''' (resurrection_cycle @ resurrection_cycle @ [''-seal'', ''-drift'']))"

text \<open>All spellings in a digest must agree; a token with an empty value is skipped.\<close>

fun parse_marker :: "string list \<Rightarrow> int option \<Rightarrow> string list \<Rightarrow> int option" where
  "parse_marker keys acc [] = acc"
| "parse_marker keys acc (tok # toks) =
     (let v = (case List.find (HasPrefix tok) keys of None \<Rightarrow> '''' | Some key \<Rightarrow> key_value key tok) in
      if v = '''' then parse_marker keys acc toks
      else case parse_seq v of
        None \<Rightarrow> None
      | Some e \<Rightarrow> (case acc of
          None \<Rightarrow> parse_marker keys (Some e) toks
        | Some e0 \<Rightarrow> if e0 \<noteq> e then None else parse_marker keys acc toks))"

definition parseEpochMarker :: "string \<Rightarrow> string list \<Rightarrow> int option" where
  "parseEpochMarker digest keys = parse_marker keys None (digest_tokens digest)"

section \<open>Ownership ordering (\<^verbatim>\<open>rollback_fence_ordering.go\<close>)\<close>

record prefix_fields =
  pf_releaseEpoch :: "int option"
  pf_bridgeSequence :: "int option"
  pf_releaseWatermark :: "int option"
  pf_drainWatermark :: "int option"
  pf_liveHead :: "int option"
  pf_steadyStateWatermark :: "int option"
  pf_steadyGeneration :: "int option"
  pf_generationFloor :: "int option"
  pf_floorLiftEpoch :: "int option"
  pf_settleWindowEpoch :: "int option"
  pf_spilloverEpoch :: "int option"
  pf_spilloverRejoinEpoch :: "int option"
  pf_rejoinSealEpoch :: "int option"

definition no_fields :: prefix_fields where
  "no_fields = \<lparr>pf_releaseEpoch = None, pf_bridgeSequence = None, pf_releaseWatermark = None, pf_drainWatermark = None,
     pf_liveHead = None, pf_steadyStateWatermark = None, pf_steadyGeneration = None, pf_generationFloor = None,
     pf_floorLiftEpoch = None, pf_settleWindowEpoch = None, pf_spilloverEpoch = None, pf_spilloverRejoinEpoch = None,
     pf_rejoinSealEpoch = None\<rparr>"

text \<open>The first value of a field is kept; the outer option is the parse failure.\<close>

definition setOwnershipPrefixField :: "string \<Rightarrow> int option \<Rightarrow> int option option" where
  "setOwnershipPrefixField v target = (if target \<noteq> None then Some target
     else if v = '''' then None
     else case parse_seq v of None \<Rightarrow> None | Some i \<Rightarrow> Some (Some i))"

definition prefix_field :: "string \<Rightarrow> string \<Rightarrow> prefix_fields \<Rightarrow> prefix_fields option" where
  "prefix_field key v f =
    (if key = ''rollback-fence-late-marker-release-epoch''
     then map_option (\<lambda>x. f\<lparr>pf_releaseEpoch := x\<rparr>) (setOwnershipPrefixField v (pf_releaseEpoch f))
     else if key \<in> {''rollback-fence-late-bridge-sequence'', ''rollback-fence-late-bridge-seq''}
     then map_option (\<lambda>x. f\<lparr>pf_bridgeSequence := x\<rparr>) (setOwnershipPrefixField v (pf_bridgeSequence f))
     else if key \<in> {''rollback-fence-late-bridge-release-watermark'', ''rollback-fence-release-watermark''}
     then map_option (\<lambda>x. f\<lparr>pf_releaseWatermark := x\<rparr>) (setOwnershipPrefixField v (pf_releaseWatermark f))
     else if key \<in> {''rollback-fence-late-bridge-drain-watermark'', ''rollback-fence-backlog-drain-watermark'', ''rollback-fence-drain-watermark''}
     then map_option (\<lambda>x. f\<lparr>pf_drainWatermark := x\<rparr>) (setOwnershipPrefixField v (pf_drainWatermark f))
     else if key \<in> {''rollback-fence-live-head'', ''rollback-fence-live-catchup-head'', ''rollback-fence-live-watermark''}
     then map_option (\<lambda>x. f\<lparr>pf_liveHead := x\<rparr>) (setOwnershipPrefixField v (pf_liveHead f))
     else if key \<in> {''rollback-fence-steady-state-watermark'', ''rollback-fence-steady-watermark'', ''rollback-fence-rebaseline-watermark''}
     then map_option (\<lambda>x. f\<lparr>pf_steadyStateWatermark := x\<rparr>) (setOwnershipPrefixField v (pf_steadyStateWatermark f))
     else if key \<in> {''rollback-fence-steady-generation'', ''rollback-fence-baseline-generation''}
     then map_option (\<lambda>x. f\<lparr>pf_steadyGeneration := x\<rparr>) (setOwnershipPrefixField v (pf_steadyGeneration f))
     else if key \<in> {''rollback-fence-generation-retention-floor'', ''rollback-fence-retention-floor''}
     then map_option (\<lambda>x. f\<lparr>pf_generationFloor := x\<rparr>) (setOwnershipPrefixField v (pf_generationFloor f))
     else if key \<in> {''rollback-fence-floor-lift-epoch'', ''rollback-fence-retention-floor-lift-epoch''}
     then map_option (\<lambda>x. f\<lparr>pf_floorLiftEpoch := x\<rparr>) (setOwnershipPrefixField v (pf_floorLiftEpoch f))
     else if key \<in> {''rollback-fence-settle-window-epoch'', ''rollback-fence-floor-lift-settle-window-epoch''}
     then map_option (\<lambda>x. f\<lparr>pf_settleWindowEpoch := x\<rparr>) (setOwnershipPrefixField v (pf_settleWindowEpoch f))
     else if key \<in> {''rollback-fence-spillover-epoch'', ''rollback-fence-late-spillover-epoch'', ''rollback-fence-settle-window-spillover-epoch''}
     then map_option (\<lambda>x. f\<lparr>pf_spilloverEpoch := x\<rparr>) (setOwnershipPrefixField v (pf_spilloverEpoch f))
     else if key \<in> {''rollback-fence-spillover-rejoin-epoch'', ''rollback-fence-rejoin-window-epoch'', ''rollback-fence-late-spillover-rejoin-epoch''}
     then map_option (\<lambda>x. f\<lparr>pf_spilloverRejoinEpoch := x\<rparr>) (setOwnershipPrefixField v (pf_spilloverRejoinEpoch f))
     else if key \<in> {''rollback-fence-rejoin-seal-epoch'', ''rollback-fence-steady-seal-epoch'', ''rollback-fence-post-rejoin-seal-epoch''}
     then map_option (\<lambda>x. f\<lparr>pf_rejoinSealEpoch := x\<rparr>) (setOwnershipPrefixField v (pf_rejoinSealEpoch f))
     else Some f)"

fun prefix_tokens :: "prefix_fields \<Rightarrow> string list \<Rightarrow> prefix_fields option" where
  "prefix_tokens f [] = Some f"
| "prefix_tokens f (tok # toks) = (case Cut CHR ''='' tok of
     None \<Rightarrow> prefix_tokens f toks
   | Some (key, v) \<Rightarrow> (case prefix_field key (TrimSpace v) f of None \<Rightarrow> None | Some f' \<Rightarrow> prefix_tokens f' toks))"

definition parseRollbackFenceOwnershipPrefixFields :: "string \<Rightarrow> prefix_fields option" where
  "parseRollbackFenceOwnershipPrefixFields digest = prefix_tokens no_fields (digest_tokens digest)"

definition parseAllEpochMarkers :: "string \<Rightarrow> int option list" where
  "parseAllEpochMarkers digest = map (parseEpochMarker digest) epochMarkers"

definition requires :: "'a option \<Rightarrow> 'b option \<Rightarrow> bool" where
  "requires x y \<longleftrightarrow> x = None \<or> y \<noteq> None"

text \<open>The dependency rules of the prefix fields and of the markers.\<close>

definition prefix_chain :: "prefix_fields \<Rightarrow> bool" where
  "prefix_chain f \<longleftrightarrow> (pf_bridgeSequence f \<noteq> None) = (pf_releaseWatermark f \<noteq> None) \<and>
     requires (pf_drainWatermark f) (pf_bridgeSequence f) \<and> requires (pf_liveHead f) (pf_bridgeSequence f) \<and>
     requires (pf_liveHead f) (pf_drainWatermark f) \<and> requires (pf_steadyStateWatermark f) (pf_liveHead f) \<and>
     requires (pf_steadyGeneration f) (pf_steadyStateWatermark f) \<and> requires (pf_generationFloor f) (pf_steadyGeneration f) \<and>
     requires (pf_floorLiftEpoch f) (pf_generationFloor f) \<and> requires (pf_settleWindowEpoch f) (pf_floorLiftEpoch f) \<and>
     requires (pf_spilloverEpoch f) (pf_settleWindowEpoch f) \<and> requires (pf_spilloverRejoinEpoch f) (pf_spilloverEpoch f) \<and>
     requires (pf_rejoinSealEpoch f) (pf_spilloverRejoinEpoch f)"

fun marker_chain :: "int option \<Rightarrow> int option list \<Rightarrow> bool" where
  "marker_chain prev [] \<longleftrightarrow> True"
| "marker_chain prev (m # ms) \<longleftrightarrow> requires m prev \<and> marker_chain m ms"

definition or_zero :: "int option \<Rightarrow> int" where
  "or_zero x = (case x of None \<Rightarrow> 0 | Some i \<Rightarrow> i)"

text \<open>From the resurrection quarantine (index 4) on, a present marker exceeds its predecessor.\<close>

fun increasing_from :: "int option \<Rightarrow> int option list \<Rightarrow> bool" where
  "increasing_from prev [] \<longleftrightarrow> True"
| "increasing_from prev (m # ms) \<longleftrightarrow> (m = None \<or> or_zero m > or_zero prev) \<and> increasing_from m ms"

definition parseRollbackFenceOwnershipOrdering :: "int \<Rightarrow> string \<Rightarrow> int list option" where
  "parseRollbackFenceOwnershipOrdering epoch digest =
     (if epoch < 0 then None
      else let n = normalizePolicyManifestDigest digest in
      if \<not> isRollbackFencePostExpiryLateMarkerReleaseDigest epoch n then None
      else case parseRollbackFenceOwnershipPrefixFields n of
        None \<Rightarrow> None
      | Some f \<Rightarrow> (case pf_releaseEpoch f of
          None \<Rightarrow> None
        | Some releaseEpoch \<Rightarrow>
            let em = parseAllEpochMarkers n;
                bridgeSequence = or_zero (pf_bridgeSequence f);
                releaseWatermark = (if pf_bridgeSequence f = None then releaseEpoch else or_zero (pf_releaseWatermark f));
                drainWatermark = (case pf_drainWatermark f of None \<Rightarrow> releaseWatermark | Some w \<Rightarrow> w);
                liveHead = (case pf_liveHead f of None \<Rightarrow> drainWatermark | Some w \<Rightarrow> w);
                steadyStateWatermark = (case pf_steadyStateWatermark f of None \<Rightarrow> liveHead | Some w \<Rightarrow> w)
            in if \<not> prefix_chain f \<or> \<not> marker_chain (pf_rejoinSealEpoch f) em then None
               else if releaseWatermark < releaseEpoch \<or> drainWatermark < releaseWatermark \<or> liveHead < drainWatermark \<or>
                 steadyStateWatermark < liveHead then None
               else if \<not> increasing_from (em ! 3) (drop 4 em) then None
               else if or_zero (pf_generationFloor f) > or_zero (pf_steadyGeneration f) then None
               else Some ([epoch, bridgeSequence, drainWatermark, liveHead, steadyStateWatermark, or_zero (pf_steadyGeneration f),
                 or_zero (pf_generationFloor f), or_zero (pf_floorLiftEpoch f), or_zero (pf_settleWindowEpoch f),
                 or_zero (pf_spilloverEpoch f), or_zero (pf_spilloverRejoinEpoch f), or_zero (pf_rejoinSealEpoch f)] @ map or_zero em)))"

fun compareRollbackFenceOwnershipOrdering :: "int list \<Rightarrow> int list \<Rightarrow> int" where
  "compareRollbackFenceOwnershipOrdering (x # xs) (y # ys) =
     (if x < y then -1 else if x > y then 1 else compareRollbackFenceOwnershipOrdering xs ys)"
| "compareRollbackFenceOwnershipOrdering _ _ = 0"

section \<open>Transitions within an epoch\<close>

definition isDeterministicRollbackFenceEpochCompactionTransition :: "int \<Rightarrow> string \<Rightarrow> string \<Rightarrow> bool" where
  "isDeterministicRollbackFenceEpochCompactionTransition epoch sourceDigest targetDigest =
     (if epoch < 0 then False
      else let s = normalizePolicyManifestDigest sourceDigest; t = normalizePolicyManifestDigest targetDigest in
        hasRollbackFenceEpochCompactionTombstone t \<and> validateLineagePair epoch s t)"

definition isDeterministicRollbackFenceTombstoneExpiryTransition :: "int \<Rightarrow> string \<Rightarrow> string \<Rightarrow> bool" where
  "isDeterministicRollbackFenceTombstoneExpiryTransition epoch sourceDigest targetDigest =
     (if epoch < 0 then False
      else let s = normalizePolicyManifestDigest sourceDigest; t = normalizePolicyManifestDigest targetDigest in
        isRollbackFenceEpochCompactionDigest epoch s \<and> isRollbackFenceTombstoneExpiryDigest epoch t \<and> validateLineagePair epoch s t)"

definition same_some :: "'a option \<Rightarrow> 'a option \<Rightarrow> bool" where
  "same_some x y \<longleftrightarrow> x \<noteq> None \<and> y \<noteq> None \<and> x = y"

definition isDeterministicRollbackFencePostExpiryLateMarkerQuarantineTransition :: "int \<Rightarrow> string \<Rightarrow> string \<Rightarrow> bool" where
  "isDeterministicRollbackFencePostExpiryLateMarkerQuarantineTransition epoch sourceDigest targetDigest =
     (if epoch < 0 then False
      else let s = normalizePolicyManifestDigest sourceDigest; t = normalizePolicyManifestDigest targetDigest in
        isRollbackFenceTombstoneExpiryDigest epoch s \<and> isRollbackFencePostExpiryLateMarkerQuarantineDigest epoch t \<and>
        validateLineagePair epoch s t \<and>
        same_some (parseRollbackFenceTombstoneExpiryEpoch s) (parseRollbackFenceTombstoneExpiryEpoch t))"

definition isDeterministicRollbackFencePostExpiryLateMarkerReleaseTransition :: "int \<Rightarrow> string \<Rightarrow> string \<Rightarrow> bool" where
  "isDeterministicRollbackFencePostExpiryLateMarkerReleaseTransition epoch sourceDigest targetDigest =
     (if epoch < 0 then False
      else let s = normalizePolicyManifestDigest sourceDigest; t = normalizePolicyManifestDigest targetDigest in
        isRollbackFencePostExpiryLateMarkerQuarantineDigest epoch s \<and> isRollbackFencePostExpiryLateMarkerReleaseDigest epoch t \<and>
        validateLineagePair epoch s t \<and>
        same_some (parseRollbackFenceTombstoneExpiryEpoch s) (parseRollbackFenceTombstoneExpiryEpoch t) \<and>
        same_some (parseRollbackFenceLateMarkerHoldEpoch s) (parseRollbackFenceLateMarkerHoldEpoch t) \<and>
        (case (parseRollbackFenceLateMarkerReleaseEpoch t, parseRollbackFenceLateMarkerHoldEpoch t) of
           (Some r, Some h) \<Rightarrow> r > h
         | _ \<Rightarrow> False))"

definition stageProgressionMarkers :: "nat list" where
  "stageProgressionMarkers = [13, 14, 15, 16, 18, 12, 19, 20, 21]"

definition stage_flags :: "string \<Rightarrow> bool list" where
  "stage_flags normalized = map (\<lambda>idx. parseEpochMarker normalized (epochMarkers ! idx) \<noteq> None) stageProgressionMarkers"

text \<open>The first marker that only one digest has decides; None when there is none.\<close>

fun stage_progress :: "bool list \<Rightarrow> bool list \<Rightarrow> bool option" where
  "stage_progress (s # ss) (t # ts) = (if \<not> s \<and> t then Some True else if s \<and> \<not> t then Some False else stage_progress ss ts)"
| "stage_progress _ _ = None"

definition isDeterministicRollbackFencePostExpiryLateMarkerReleaseWindowTransition :: "int \<Rightarrow> string \<Rightarrow> string \<Rightarrow> bool" where
  "isDeterministicRollbackFencePostExpiryLateMarkerReleaseWindowTransition epoch sourceDigest targetDigest =
     (if epoch < 0 then False
      else let s = normalizePolicyManifestDigest sourceDigest; t = normalizePolicyManifestDigest targetDigest in
        if \<not> (isRollbackFencePostExpiryLateMarkerReleaseDigest epoch s \<and> isRollbackFencePostExpiryLateMarkerReleaseDigest epoch t \<and>
          validateLineagePair epoch s t \<and>
          same_some (parseRollbackFenceTombstoneExpiryEpoch s) (parseRollbackFenceTombstoneExpiryEpoch t) \<and>
          same_some (parseRollbackFenceLateMarkerHoldEpoch s) (parseRollbackFenceLateMarkerHoldEpoch t)) then False
        else case (parseRollbackFenceOwnershipOrdering epoch s, parseRollbackFenceOwnershipOrdering epoch t) of
          (Some so, Some to) \<Rightarrow> (case stage_progress (stage_flags s) (stage_flags t) of
             Some b \<Rightarrow> b
           | None \<Rightarrow> compareRollbackFenceOwnershipOrdering so to < 0)
        | _ \<Rightarrow> False)"

definition isRollbackFenceDigestAnchoredToEpoch :: "int \<Rightarrow> string \<Rightarrow> bool" where
  "isRollbackFenceDigestAnchoredToEpoch epoch digest =
     (if epoch < 0 then False else validateRollbackLineage epoch (normalizePolicyManifestDigest digest))"

definition isDeterministicRollbackFencePostReleaseWindowEpochRolloverStaleTransition :: "int \<Rightarrow> int \<Rightarrow> string \<Rightarrow> string \<Rightarrow> bool" where
  "isDeterministicRollbackFencePostReleaseWindowEpochRolloverStaleTransition previousEpoch incomingEpoch previousDigest incomingDigest =
     (if previousEpoch < 0 then False
      else if incomingEpoch \<noteq> wrap64 (previousEpoch + 1) then False
      else isRollbackFencePostExpiryLateMarkerReleaseDigest previousEpoch (normalizePolicyManifestDigest previousDigest) \<and>
        isRollbackFenceDigestAnchoredToEpoch previousEpoch incomingDigest)"

definition sameEpochPolicyLineageRules :: "((int \<Rightarrow> string \<Rightarrow> string \<Rightarrow> bool) \<times> bool) list" where
  "sameEpochPolicyLineageRules =
     [(isDeterministicRollbackFenceEpochCompactionTransition, True),
      (isDeterministicRollbackFenceTombstoneExpiryTransition, True),
      (isDeterministicRollbackFencePostExpiryLateMarkerQuarantineTransition, True),
      (isDeterministicRollbackFencePostExpiryLateMarkerReleaseTransition, True),
      (isDeterministicRollbackFencePostExpiryLateMarkerReleaseWindowTransition, True),
      (\<lambda>e p i. isDeterministicRollbackFencePostExpiryLateMarkerReleaseWindowTransition e i p, False),
      (\<lambda>e p i. isDeterministicRollbackFencePostExpiryLateMarkerReleaseTransition e i p, False),
      (\<lambda>e p i. isDeterministicRollbackFencePostExpiryLateMarkerQuarantineTransition e i p, False),
      (\<lambda>e p i. isDeterministicRollbackFenceTombstoneExpiryTransition e i p, False),
      (\<lambda>e p i. isDeterministicRollbackFenceEpochCompactionTransition e i p, False)]"

text \<open>The first rule that matches decides; None when no rule handles the pair.\<close>

definition resolveSameEpochPolicyLineage :: "int \<Rightarrow> string \<Rightarrow> string \<Rightarrow> bool option" where
  "resolveSameEpochPolicyLineage epoch previousDigest incomingDigest =
     map_option snd (List.find (\<lambda>(m, _). m epoch previousDigest incomingDigest) sameEpochPolicyLineageRules)"

section \<open>The order of the release window\<close>

lemma normalize_idem [simp]: "normalizePolicyManifestDigest (normalizePolicyManifestDigest d) = normalizePolicyManifestDigest d"
proof (cases "TrimSpace (ToLower d) = ''''")
  case True
  then have "normalizePolicyManifestDigest d = ''manifest-v1''" by (simp add: normalizePolicyManifestDigest_def)
  moreover have "normalizePolicyManifestDigest ''manifest-v1'' = ''manifest-v1''" by code_simp
  ultimately show ?thesis by simp
next
  case False
  then show ?thesis by (simp add: normalizePolicyManifestDigest_def Let_def ToLower_TrimSpace)
qed

lemma stage_progress_same [simp]: "stage_progress a a = None"
  by (induction a) auto

lemma stage_progress_flip: "stage_progress b a = map_option Not (stage_progress a b)"
  by (induction a b rule: stage_progress.induct) auto

lemma stage_progress_None: "length a = length b \<Longrightarrow> stage_progress a b = None \<longleftrightarrow> a = b"
  by (induction a b rule: list_induct2) auto

lemma stage_progress_trans:
  "\<lbrakk>length a = length b; length b = length c; stage_progress a b = Some True; stage_progress b c = Some True\<rbrakk> \<Longrightarrow> stage_progress a c = Some True"
  by (induction a b c rule: list_induct3) (auto split: if_splits)

lemma compare_same [simp]: "compareRollbackFenceOwnershipOrdering x x = 0"
  by (induction x) auto

lemma compare_flip: "compareRollbackFenceOwnershipOrdering y x = - compareRollbackFenceOwnershipOrdering x y"
  by (induction x y rule: compareRollbackFenceOwnershipOrdering.induct) auto

lemma compare_trans:
  "\<lbrakk>length x = length y; length y = length z; compareRollbackFenceOwnershipOrdering x y < 0; compareRollbackFenceOwnershipOrdering y z < 0\<rbrakk>
   \<Longrightarrow> compareRollbackFenceOwnershipOrdering x z < 0"
  by (induction x y z rule: list_induct3) (auto split: if_splits)

definition window_before :: "bool list \<times> int list \<Rightarrow> bool list \<times> int list \<Rightarrow> bool" where
  "window_before a b = (case stage_progress (fst a) (fst b) of Some r \<Rightarrow> r | None \<Rightarrow> compareRollbackFenceOwnershipOrdering (snd a) (snd b) < 0)"

definition window_key :: "int \<Rightarrow> string \<Rightarrow> bool list \<times> int list" where
  "window_key epoch digest = (let n = normalizePolicyManifestDigest digest in (stage_flags n, the (parseRollbackFenceOwnershipOrdering epoch n)))"

text \<open>What two digests must share to compete in the window, and what each must have.\<close>

definition window_member :: "int \<Rightarrow> string \<Rightarrow> bool" where
  "window_member epoch digest \<longleftrightarrow> 0 \<le> epoch \<and> isRollbackFencePostExpiryLateMarkerReleaseDigest epoch (normalizePolicyManifestDigest digest) \<and>
     parseRollbackFenceOwnershipOrdering epoch (normalizePolicyManifestDigest digest) \<noteq> None"

definition window_peers :: "int \<Rightarrow> string \<Rightarrow> string \<Rightarrow> bool" where
  "window_peers epoch a b \<longleftrightarrow> (let s = normalizePolicyManifestDigest a; t = normalizePolicyManifestDigest b in
     validateLineagePair epoch s t \<and>
     same_some (parseRollbackFenceTombstoneExpiryEpoch s) (parseRollbackFenceTombstoneExpiryEpoch t) \<and>
     same_some (parseRollbackFenceLateMarkerHoldEpoch s) (parseRollbackFenceLateMarkerHoldEpoch t))"

lemma window_transition_iff:
  "isDeterministicRollbackFencePostExpiryLateMarkerReleaseWindowTransition epoch a b \<longleftrightarrow>
     window_member epoch a \<and> window_member epoch b \<and> window_peers epoch a b \<and> window_before (window_key epoch a) (window_key epoch b)"
  by (auto simp: isDeterministicRollbackFencePostExpiryLateMarkerReleaseWindowTransition_def window_member_def window_peers_def
      window_before_def window_key_def Let_def split: option.splits)

lemma window_peers_trans: "\<lbrakk>window_peers epoch a b; window_peers epoch b c\<rbrakk> \<Longrightarrow> window_peers epoch a c"
  by (auto simp: window_peers_def validateLineagePair_def same_some_def Let_def split: option.splits)

lemma window_peers_sym: "window_peers epoch a b \<Longrightarrow> window_peers epoch b a"
  by (auto simp: window_peers_def validateLineagePair_def same_some_def Let_def split: option.splits)

lemma ordering_length: "parseRollbackFenceOwnershipOrdering epoch d = Some fs \<Longrightarrow> length fs = 12 + length epochMarkers"
  by (auto simp: parseRollbackFenceOwnershipOrdering_def parseAllEpochMarkers_def Let_def split: if_splits option.splits)

lemma window_key_length:
  assumes "window_member epoch d"
  shows "length (fst (window_key epoch d)) = length stageProgressionMarkers" "length (snd (window_key epoch d)) = 12 + length epochMarkers"
  using assms ordering_length by (auto simp: window_key_def window_member_def stage_flags_def Let_def)

lemma window_before_irrefl: "\<not> window_before k k"
  by (simp add: window_before_def)

lemma window_before_asym: "window_before k l \<Longrightarrow> \<not> window_before l k"
  by (auto simp: window_before_def stage_progress_flip [of "fst l" "fst k"] compare_flip [of "snd l" "snd k"] split: option.splits)

lemma window_before_trans:
  assumes "window_before k l" "window_before l m" "length (fst k) = length (fst l)" "length (fst l) = length (fst m)"
    and "length (snd k) = length (snd l)" "length (snd l) = length (snd m)"
  shows "window_before k m"
proof (cases "fst k = fst l \<or> fst l = fst m")
  case True
  then show ?thesis using assms compare_trans [of "snd k" "snd l" "snd m"] by (auto simp: window_before_def split: option.splits)
next
  case False
  then have "stage_progress (fst k) (fst l) = Some True" "stage_progress (fst l) (fst m) = Some True"
    using assms stage_progress_None [of "fst k" "fst l"] stage_progress_None [of "fst l" "fst m"]
    by (auto simp: window_before_def split: option.splits)
  then show ?thesis using assms stage_progress_trans [of "fst k" "fst l" "fst m"] by (simp add: window_before_def)
qed

text \<open>A digest of the release window has a release marker and no tombstone, so no earlier rule applies to it.\<close>

lemma window_member_release:
  assumes "window_member epoch d"
  shows "\<not> hasRollbackFenceEpochCompactionTombstone (normalizePolicyManifestDigest d)"
    "parseRollbackFenceLateMarkerReleaseEpoch (normalizePolicyManifestDigest d) \<noteq> None"
  using assms by (auto simp: window_member_def isRollbackFencePostExpiryLateMarkerReleaseDigest_def Let_def split: if_splits option.splits)

lemmas fence_transition_defs =
  isDeterministicRollbackFenceEpochCompactionTransition_def isDeterministicRollbackFenceTombstoneExpiryTransition_def
  isDeterministicRollbackFencePostExpiryLateMarkerQuarantineTransition_def
  isDeterministicRollbackFencePostExpiryLateMarkerReleaseTransition_def
  isRollbackFenceEpochCompactionDigest_def isRollbackFenceTombstoneExpiryDigest_def
  isRollbackFencePostExpiryLateMarkerQuarantineDigest_def

lemma window_member_no_earlier_rule:
  assumes "window_member epoch a" "window_member epoch b"
  shows "\<not> isDeterministicRollbackFenceEpochCompactionTransition epoch a b"
    "\<not> isDeterministicRollbackFenceTombstoneExpiryTransition epoch a b"
    "\<not> isDeterministicRollbackFencePostExpiryLateMarkerQuarantineTransition epoch a b"
    "\<not> isDeterministicRollbackFencePostExpiryLateMarkerReleaseTransition epoch a b"
  using window_member_release [OF assms(1)] window_member_release [OF assms(2)]
  by (auto simp: fence_transition_defs Let_def)

section \<open>Properties\<close>

text \<open>Ownership in the release window is a strict order, and the lineage rules follow it. A digest never
  supersedes itself, supersession is asymmetric and transitive, and when one digest supersedes
  another the later one is adopted over the earlier one and kept against it, in whichever order the
  two arrive.\<close>

theorem release_window_order:
  assumes "isDeterministicRollbackFencePostExpiryLateMarkerReleaseWindowTransition epoch a b"
  shows "\<not> isDeterministicRollbackFencePostExpiryLateMarkerReleaseWindowTransition epoch b a \<and> a \<noteq> b \<and>
    (\<forall>c. isDeterministicRollbackFencePostExpiryLateMarkerReleaseWindowTransition epoch b c \<longrightarrow>
         isDeterministicRollbackFencePostExpiryLateMarkerReleaseWindowTransition epoch a c) \<and>
    resolveSameEpochPolicyLineage epoch a b = Some True \<and> resolveSameEpochPolicyLineage epoch b a = Some False"
proof -
  let ?W = "isDeterministicRollbackFencePostExpiryLateMarkerReleaseWindowTransition epoch"
  have m: "window_member epoch a" "window_member epoch b" and p: "window_peers epoch a b"
    and l: "window_before (window_key epoch a) (window_key epoch b)" using assms by (simp_all add: window_transition_iff)
  have asym: "\<not> ?W b a" using window_before_asym [OF l] by (simp add: window_transition_iff)
  have ne: "a \<noteq> b" using l window_before_irrefl by blast
  have trans: "?W a c" if "?W b c" for c
  proof -
    have m': "window_member epoch c" and p': "window_peers epoch b c"
      and l': "window_before (window_key epoch b) (window_key epoch c)" using that by (simp_all add: window_transition_iff)
    have "window_before (window_key epoch a) (window_key epoch c)"
      using window_before_trans [OF l l'] window_key_length [OF m(1)] window_key_length [OF m(2)] window_key_length [OF m'] by simp
    then show ?thesis using m m' window_peers_trans [OF p p'] by (simp add: window_transition_iff)
  qed
  have "resolveSameEpochPolicyLineage epoch a b = Some True"
    using assms window_member_no_earlier_rule [OF m(1) m(2)]
    by (simp add: resolveSameEpochPolicyLineage_def sameEpochPolicyLineageRules_def)
  moreover have "resolveSameEpochPolicyLineage epoch b a = Some False"
    using assms asym window_member_no_earlier_rule [OF m(2) m(1)]
    by (simp add: resolveSameEpochPolicyLineage_def sameEpochPolicyLineageRules_def)
  ultimately show ?thesis using asym ne trans by blast
qed

definition fenced :: "string \<Rightarrow> string" where
  "fenced rest = ''rollback-from-seq=9|rollback-to-seq=5|rollback-forward-seq=12|'' @ rest"

definition released :: "string \<Rightarrow> string" where
  "released rest = fenced (''rollback-fence-tombstone-expiry-epoch=6|rollback-fence-late-marker-hold-epoch=7|rollback-fence-late-marker-release-epoch='' @ rest)"

definition unmarked :: "string list \<Rightarrow> bool" where
  "unmarked toks \<longleftrightarrow> list_all (\<lambda>keys. list_all (\<lambda>tok. List.find (HasPrefix tok) keys = None) toks) epochMarkers"

lemma parse_marker_absent: "list_all (\<lambda>tok. List.find (HasPrefix tok) keys = None) toks \<Longrightarrow> parse_marker keys None toks = None"
  by (induction toks) auto

lemma unmarked_markers:
  assumes "unmarked (digest_tokens n)"
  shows "parseAllEpochMarkers n = replicate (length epochMarkers) None" "stage_flags n = replicate 9 False"
proof -
  have none: "parseEpochMarker n keys = None" if "keys \<in> set epochMarkers" for keys
    using assms that parse_marker_absent by (auto simp: unmarked_def parseEpochMarker_def list_all_iff)
  then show "parseAllEpochMarkers n = replicate (length epochMarkers) None"
    unfolding parseAllEpochMarkers_def by (simp add: map_replicate_const [symmetric] cong: map_cong)
  have "length epochMarkers = 22" by (simp add: epochMarkers_def resurrection_cycle_def)
  then have "parseEpochMarker n (epochMarkers ! i) = None" if "i < 22" for i using none that nth_mem by metis
  then show "stage_flags n = replicate 9 False" by (simp add: stage_flags_def stageProgressionMarkers_def numeral_eq_Suc)
qed

lemma unmarked_append: "unmarked (xs @ ys) \<longleftrightarrow> unmarked xs \<and> unmarked ys"
  by (auto simp: unmarked_def list_all_iff)

lemma released_unmarked: "unmarked (digest_tokens (released ''8'') @ digest_tokens (released ''9''))"
  by code_simp

lemma released_normal: "normalizePolicyManifestDigest (released ''8'') = released ''8''" "normalizePolicyManifestDigest (released ''9'') = released ''9''"
  by code_simp+

lemma released_fields:
  "parseRollbackFenceOwnershipPrefixFields (released ''8'') = Some (no_fields\<lparr>pf_releaseEpoch := Some 8\<rparr>)"
  "parseRollbackFenceOwnershipPrefixFields (released ''9'') = Some (no_fields\<lparr>pf_releaseEpoch := Some 9\<rparr>)"
  by code_simp+

lemma released_digests:
  "isRollbackFencePostExpiryLateMarkerReleaseDigest 5 (released ''8'')" "isRollbackFencePostExpiryLateMarkerReleaseDigest 5 (released ''9'')"
  "window_peers 5 (released ''8'') (released ''9'')"
  by code_simp+

lemma marker_chain_absent: "marker_chain p (replicate k None)" "increasing_from p (replicate k None)"
  by (induction k arbitrary: p) (simp_all add: requires_def)

lemma released_ordering:
  "parseRollbackFenceOwnershipOrdering 5 (released ''8'') = Some ([5, 0, 8, 8, 8, 0, 0, 0, 0, 0, 0, 0] @ replicate (length epochMarkers) 0)"
  "parseRollbackFenceOwnershipOrdering 5 (released ''9'') = Some ([5, 0, 9, 9, 9, 0, 0, 0, 0, 0, 0, 0] @ replicate (length epochMarkers) 0)"
proof -
  note u = released_unmarked [unfolded unmarked_append]
  have "length epochMarkers = 22" by (simp add: epochMarkers_def resurrection_cycle_def)
  then have "replicate (length epochMarkers) (None :: int option) ! 3 = None" by simp
  then show "parseRollbackFenceOwnershipOrdering 5 (released ''8'') = Some ([5, 0, 8, 8, 8, 0, 0, 0, 0, 0, 0, 0] @ replicate (length epochMarkers) 0)"
    "parseRollbackFenceOwnershipOrdering 5 (released ''9'') = Some ([5, 0, 9, 9, 9, 0, 0, 0, 0, 0, 0, 0] @ replicate (length epochMarkers) 0)"
    using u released_digests marker_chain_absent
    by (simp_all add: parseRollbackFenceOwnershipOrdering_def released_normal released_fields unmarked_markers prefix_chain_def requires_def
        or_zero_def no_fields_def Let_def)
qed

lemma released_supersedes:
  "isDeterministicRollbackFencePostExpiryLateMarkerReleaseWindowTransition 5 (released ''8'') (released ''9'')"
  using released_digests released_unmarked [unfolded unmarked_append]
  by (simp add: window_transition_iff window_member_def window_before_def window_key_def released_normal released_ordering unmarked_markers)

theorem release_window_order_witness:
  "resolveSameEpochPolicyLineage 5 (released ''8'') (released ''9'') = Some True \<and>
   resolveSameEpochPolicyLineage 5 (released ''9'') (released ''8'') = Some False"
  using release_window_order [OF released_supersedes] by blast

text \<open>C30: a tombstone that has expired is adopted again. Whenever the transition from a tombstone digest to its
  expiry digest is legal, the rules adopt the expiry digest over the tombstone and also the tombstone
  over the expiry digest: the compaction rule shadows the rule that should reject the return.\<close>

theorem expired_tombstone_returns:
  assumes "isDeterministicRollbackFenceTombstoneExpiryTransition epoch tombstone expiry"
  shows "resolveSameEpochPolicyLineage epoch tombstone expiry = Some True \<and>
    resolveSameEpochPolicyLineage epoch expiry tombstone = Some True"
proof -
  let ?t = "normalizePolicyManifestDigest tombstone" and ?x = "normalizePolicyManifestDigest expiry"
  have e: "0 \<le> epoch" and t: "hasRollbackFenceEpochCompactionTombstone ?t" and x: "\<not> hasRollbackFenceEpochCompactionTombstone ?x"
    and pair: "validateLineagePair epoch ?t ?x"
    using assms by (auto simp: fence_transition_defs Let_def split: if_splits option.splits)
  have "validateLineagePair epoch ?x ?t" using pair by (auto simp: validateLineagePair_def split: option.splits)
  then have "isDeterministicRollbackFenceEpochCompactionTransition epoch expiry tombstone"
    using e t by (simp add: isDeterministicRollbackFenceEpochCompactionTransition_def)
  moreover have "\<not> isDeterministicRollbackFenceEpochCompactionTransition epoch tombstone expiry"
    using x by (simp add: isDeterministicRollbackFenceEpochCompactionTransition_def)
  ultimately show ?thesis using assms by (simp add: resolveSameEpochPolicyLineage_def sameEpochPolicyLineageRules_def)
qed

lemma sample_expiry:
  "isDeterministicRollbackFenceTombstoneExpiryTransition 5 (fenced ''rollback-fence-tombstone=1'') (fenced ''rollback-fence-tombstone-expiry-epoch=6'')"
  by code_simp

theorem expired_tombstone_returns_witness:
  "resolveSameEpochPolicyLineage 5 (fenced ''rollback-fence-tombstone-expiry-epoch=6'') (fenced ''rollback-fence-tombstone=1'') = Some True"
  using expired_tombstone_returns [OF sample_expiry] by blast

end
