(* ===== verification/Ring_Window.thy ===== *)
theory Ring_Window
  imports "HOL-Library.Multiset"
begin

text \<open>
  Fixed-size ring buffers, as the health tracker and the runtime signal series use them: a write
  position that wraps around and a count that saturates. The predicate relates the buffer to the
  history of recorded values; the buffer then holds the latest values of the history.
\<close>

definition ring_holds :: "nat \<Rightarrow> 'a list \<Rightarrow> nat \<Rightarrow> nat \<Rightarrow> 'a list \<Rightarrow> bool" where
  "ring_holds cap buf pos cnt hist \<longleftrightarrow> 0 < cap \<and> length buf = cap \<and> pos = length hist mod cap \<and> cnt = min (length hist) cap \<and>
     (\<forall>k. length hist \<le> k + cap \<and> k < length hist \<longrightarrow> buf ! (k mod cap) = hist ! k)"

definition latest :: "nat \<Rightarrow> 'a list \<Rightarrow> 'a list" where
  "latest cap hist = drop (length hist - cap) hist"

lemma ring_holds_count: "ring_holds cap buf pos cnt hist \<Longrightarrow> cnt = length (latest cap hist) \<and> length (latest cap hist) \<le> cap"
  unfolding ring_holds_def latest_def by (simp add: min_def)

lemma ring_holds_empty: "0 < cap \<Longrightarrow> length buf = cap \<Longrightarrow> ring_holds cap buf 0 0 []"
  by (simp add: ring_holds_def)

lemma mod_window_inject:
  assumes "j mod n = k mod n" "j \<le> k" "k < j + (n::nat)"
  shows "j = k"
proof -
  have "n dvd k - j" using assms(1,2) mod_eq_dvd_iff_nat [of j k n] by simp
  then have "k - j = 0" using assms(2,3) by (metis dvd_imp_le less_diff_conv2 neq0_conv not_less add.commute)
  then show ?thesis using assms(2) by simp
qed

lemma ring_holds_push:
  assumes "ring_holds cap buf pos cnt hist"
  shows "ring_holds cap (buf[pos := x]) ((pos + 1) mod cap) (min (cnt + 1) cap) (hist @ [x])"
proof -
  have s: "0 < cap" "length buf = cap" "pos = length hist mod cap" "cnt = min (length hist) cap" "pos < cap"
    and b: "\<And>k. length hist \<le> k + cap \<Longrightarrow> k < length hist \<Longrightarrow> buf ! (k mod cap) = hist ! k"
    using assms by (auto simp: ring_holds_def)
  have "buf[pos := x] ! (k mod cap) = (hist @ [x]) ! k" if "length hist + 1 \<le> k + cap" "k < length hist + 1" for k
  proof (cases "k = length hist")
    case True
    then show ?thesis using s by simp
  next
    case False
    then have "k < length hist" using that by simp
    then have "k mod cap \<noteq> pos" using mod_window_inject [of k cap "length hist"] that s by auto
    then show ?thesis using b [of k] \<open>k < length hist\<close> that s by (simp add: nth_append)
  qed
  moreover have "(pos + 1) mod cap = Suc (length hist) mod cap" using s by (simp add: mod_Suc_eq)
  ultimately show ?thesis using s by (auto simp: ring_holds_def)
qed

lemma mset_rotate [simp]: "mset (rotate n xs) = mset xs"
proof (induction n)
  case (Suc n)
  have "mset (rotate1 ys) = mset ys" for ys :: "'a list" by (cases ys) simp_all
  then show ?case using Suc by simp
qed simp

lemma ring_holds_latest:
  assumes "ring_holds cap buf pos cnt hist"
  shows "mset (take cnt buf) = mset (latest cap hist)"
proof (cases "length hist \<le> cap")
  case True
  have "take cnt buf = hist"
  proof (rule nth_equalityI)
    show "length (take cnt buf) = length hist" using assms True by (simp add: ring_holds_def)
    fix i assume "i < length (take cnt buf)"
    then have "i < length hist" "i mod cap = i" using assms True by (auto simp: ring_holds_def)
    then show "take cnt buf ! i = hist ! i" using assms True by (auto simp: ring_holds_def)
  qed
  then show ?thesis using True by (simp add: latest_def)
next
  case False
  let ?o = "length hist - cap"
  have l: "length buf = cap" "0 < cap" "cnt = cap" using assms False by (auto simp: ring_holds_def)
  have "drop ?o hist = rotate ?o buf"
  proof (rule nth_equalityI)
    show "length (drop ?o hist) = length (rotate ?o buf)" using l False by simp
    fix i assume "i < length (drop ?o hist)"
    then have i: "i < cap" using False by simp
    have "hist ! (?o + i) = buf ! ((?o + i) mod cap)" using assms False i by (auto simp: ring_holds_def)
    then show "drop ?o hist ! i = rotate ?o buf ! i" using l i False by (simp add: nth_rotate add.commute)
  qed
  then show ?thesis using l by (simp add: latest_def)
qed

end
