(* ===== verification/Autotune.thy ===== *)
theory Autotune
  imports Policy_Lineage Ring_Window
begin

text \<open>
  The auto-tune controller of the coordinator (\<^verbatim>\<open>internal/pipeline/coordinator/autotune\<close>: \<^verbatim>\<open>autotune.go\<close>,
  \<^verbatim>\<open>api.go\<close>, \<^verbatim>\<open>policy_lineage.go\<close>, \<^verbatim>\<open>signals.go\<close>). The controller is a record, every method a function on it;
  a \<^verbatim>\<open>nil\<close> controller is \<^verbatim>\<open>None\<close>. SHA-256 in hexadecimal is the parameter \<^verbatim>\<open>sum256\<close> of the diagnostics.
  Batch steps are computed on 64-bit integers. The theory shows that the batch size stays within its
  limits, that it moves by one step, only under sustained pressure and not against a cooldown, and what
  the runtime signal windows contain.
\<close>

section \<open>Configuration and state\<close>

record autotune_config =
  ac_Enabled :: bool
  ac_MinBatchSize :: int
  ac_MaxBatchSize :: int
  ac_StepUp :: int
  ac_StepDown :: int
  ac_LagHighWatermark :: int
  ac_LagLowWatermark :: int
  ac_QueueHighWatermarkPct :: int
  ac_QueueLowWatermarkPct :: int
  ac_HysteresisTicks :: int
  ac_CooldownTicks :: int
  ac_TelemetryStaleTicks :: int
  ac_TelemetryRecoveryTicks :: int
  ac_OperatorOverrideBatchSize :: int
  ac_OperatorReleaseHoldTicks :: int
  ac_PolicyVersion :: string
  ac_PolicyManifestDigest :: string
  ac_PolicyManifestRefreshEpoch :: int
  ac_PolicyActivationHoldTicks :: int

record autotune_inputs =
  ai_Chain :: string
  ai_Network :: string
  ai_HasHeadSignal :: bool
  ai_HeadSequence :: int
  ai_HasMinCursorSignal :: bool
  ai_MinCursorSequence :: int
  ai_QueueDepth :: int
  ai_QueueCapacity :: int
  ai_RPCErrorRateBps :: int
  ai_DBCommitLatencyP95Ms :: int
  ai_DecisionEpochMs :: int

datatype at_signal = SigHold | SigIncrease | SigDecrease

datatype telemetry_state = TelHealthy | TelStaleFallback | TelRecoveryHold

datatype override_state = OvAuto | OvManualHold | OvReleaseHold

record override_transition =
  ot_WasManualOverride :: bool
  ot_ReleaseHoldRemaining :: int

record policy_transition =
  pt_HasState :: bool
  pt_Version :: string
  pt_ManifestDigest :: string
  pt_Epoch :: int
  pt_ActivationHoldRemaining :: int
  pt_FromWarmCheckpoint :: bool

record controller =
  at_minBatchSize :: int
  at_maxBatchSize :: int
  at_stepUp :: int
  at_stepDown :: int
  at_lagHighWatermark :: int
  at_lagLowWatermark :: int
  at_queueHighWatermarkPct :: int
  at_queueLowWatermarkPct :: int
  at_hysteresisTicks :: int
  at_cooldownTicks :: int
  at_cooldownLeft :: int
  at_telemetryStaleTicks :: int
  at_telemetryRecoveryTicks :: int
  at_operatorOverrideBatch :: int
  at_operatorReleaseHold :: int
  at_overrideReleaseLeft :: int
  at_policyVersion :: string
  at_policyManifestDigest :: string
  at_policyActivationHold :: int
  at_policyActivationLeft :: int
  at_policyEpoch :: int
  at_telemetryFallback :: bool
  at_telemetryArmed :: bool
  at_telemetryStaleObserved :: int
  at_telemetryRecoverySeen :: int
  at_currentBatch :: int
  at_lastSignal :: at_signal
  at_lastApplied :: at_signal
  at_saturationSignal :: at_signal
  at_streak :: int
  at_decisionSequence :: int

section \<open>Helpers\<close>

definition clampInt :: "int \<Rightarrow> int \<Rightarrow> int \<Rightarrow> int" where
  "clampInt v minV maxV = (if maxV < minV then minV else if v < minV then minV else if v > maxV then maxV else v)"

definition isQueueHigh :: "int \<Rightarrow> int \<Rightarrow> int \<Rightarrow> bool" where
  "isQueueHigh depth cap pct = (if cap \<le> 0 \<or> depth < 0 \<or> pct \<le> 0 then False else depth * 100 \<ge> pct * cap)"

definition isQueueLow :: "int \<Rightarrow> int \<Rightarrow> int \<Rightarrow> bool" where
  "isQueueLow depth cap pct = (if cap \<le> 0 \<or> depth < 0 then False else depth * 100 \<le> pct * cap)"

definition boundedWarmStartBatch :: "int \<Rightarrow> int \<Rightarrow> int \<Rightarrow> int \<Rightarrow> int \<Rightarrow> int \<Rightarrow> int" where
  "boundedWarmStartBatch baseBatch seedBatch stepUp stepDown minBatch maxBatch =
     (let base = clampInt baseBatch minBatch maxBatch; seed = clampInt seedBatch minBatch maxBatch in
      if seed = base then base
      else if seed > base then clampInt (base + min (seed - base) (max stepUp 1)) minBatch maxBatch
      else clampInt (base - min (base - seed) (max stepDown 1)) minBatch maxBatch)"

section \<open>Construction\<close>

definition start_batch :: "int \<Rightarrow> int option \<Rightarrow> bool \<Rightarrow> int \<Rightarrow> int \<Rightarrow> int \<Rightarrow> int \<Rightarrow> int" where
  "start_batch baseBatchSize seedBatch boundedWarmStart stepUp stepDown minBatch maxBatch =
     (let clampedBase = clampInt baseBatchSize minBatch maxBatch;
          baseStart = (if clampedBase \<le> 0 then minBatch else clampedBase);
          candidate = (case seedBatch of
             None \<Rightarrow> baseStart
           | Some seed \<Rightarrow> if seed > 0 then
               let seedCandidate = clampInt seed minBatch maxBatch in
               if boundedWarmStart then boundedWarmStartBatch baseStart seedCandidate stepUp stepDown minBatch maxBatch else seedCandidate
             else baseStart);
          start = clampInt candidate minBatch maxBatch
      in if start \<le> 0 then minBatch else start)"

definition newAutoTuneControllerWithSeedMode :: "int \<Rightarrow> autotune_config \<Rightarrow> int option \<Rightarrow> bool \<Rightarrow> controller option" where
  "newAutoTuneControllerWithSeedMode baseBatchSize cfg seedBatch boundedWarmStart =
    (if \<not> ac_Enabled cfg then None
     else
      let minBatch = (if ac_MinBatchSize cfg \<le> 0 then 1 else ac_MinBatchSize cfg);
          maxBatch0 = (if ac_MaxBatchSize cfg \<le> 0 then baseBatchSize else ac_MaxBatchSize cfg);
          maxBatch = (if maxBatch0 < minBatch then minBatch else maxBatch0);
          stepUp = (if ac_StepUp cfg \<le> 0 then 1 else ac_StepUp cfg);
          stepDown = (if ac_StepDown cfg \<le> 0 then 1 else ac_StepDown cfg);
          lagHigh = max 0 (ac_LagHighWatermark cfg);
          lagLow = min (max 0 (ac_LagLowWatermark cfg)) lagHigh;
          queueHigh0 = clampInt (ac_QueueHighWatermarkPct cfg) 1 100;
          queueHigh = (if queueHigh0 = 0 then 80 else queueHigh0);
          queueLow = (if ac_QueueLowWatermarkPct cfg = 0 then min 30 queueHigh else clampInt (ac_QueueLowWatermarkPct cfg) 0 queueHigh);
          hysteresisTicks = (if ac_HysteresisTicks cfg \<le> 0 then 2 else ac_HysteresisTicks cfg);
          cooldown0 = max 0 (ac_CooldownTicks cfg);
          cooldownTicks = (if cooldown0 = 0 then hysteresisTicks else cooldown0);
          overrideBatch = (if ac_OperatorOverrideBatchSize cfg > 0 then clampInt (ac_OperatorOverrideBatchSize cfg) minBatch maxBatch else 0);
          startBatch = start_batch baseBatchSize seedBatch boundedWarmStart stepUp stepDown minBatch maxBatch
      in Some \<lparr>at_minBatchSize = minBatch, at_maxBatchSize = maxBatch, at_stepUp = stepUp, at_stepDown = stepDown,
           at_lagHighWatermark = lagHigh, at_lagLowWatermark = lagLow,
           at_queueHighWatermarkPct = queueHigh, at_queueLowWatermarkPct = queueLow,
           at_hysteresisTicks = hysteresisTicks, at_cooldownTicks = cooldownTicks, at_cooldownLeft = 0,
           at_telemetryStaleTicks = (if ac_TelemetryStaleTicks cfg \<le> 0 then 2 else ac_TelemetryStaleTicks cfg),
           at_telemetryRecoveryTicks = (if ac_TelemetryRecoveryTicks cfg \<le> 0 then 1 else ac_TelemetryRecoveryTicks cfg),
           at_operatorOverrideBatch = overrideBatch, at_operatorReleaseHold = max 0 (ac_OperatorReleaseHoldTicks cfg),
           at_overrideReleaseLeft = 0, at_policyVersion = normalizePolicyVersion (ac_PolicyVersion cfg),
           at_policyManifestDigest = normalizePolicyManifestDigest (ac_PolicyManifestDigest cfg),
           at_policyActivationHold = max 0 (ac_PolicyActivationHoldTicks cfg), at_policyActivationLeft = 0,
           at_policyEpoch = max 0 (ac_PolicyManifestRefreshEpoch cfg), at_telemetryFallback = False, at_telemetryArmed = False,
           at_telemetryStaleObserved = 0, at_telemetryRecoverySeen = 0,
           at_currentBatch = (if overrideBatch > 0 then overrideBatch else startBatch),
           at_lastSignal = SigHold, at_lastApplied = SigHold, at_saturationSignal = SigHold, at_streak = 0, at_decisionSequence = 0\<rparr>)"

definition newAutoTuneControllerWithSeed :: "int \<Rightarrow> autotune_config \<Rightarrow> int option \<Rightarrow> controller option" where
  "newAutoTuneControllerWithSeed baseBatchSize cfg seedBatch = newAutoTuneControllerWithSeedMode baseBatchSize cfg seedBatch False"

definition newAutoTuneControllerWithRestartSeed :: "int \<Rightarrow> autotune_config \<Rightarrow> int option \<Rightarrow> controller option" where
  "newAutoTuneControllerWithRestartSeed baseBatchSize cfg seedBatch = newAutoTuneControllerWithSeedMode baseBatchSize cfg seedBatch True"

section \<open>The control decision\<close>

definition resetAdaptiveControlState :: "controller \<Rightarrow> controller" where
  "resetAdaptiveControlState a = a\<lparr>at_lastSignal := SigHold, at_lastApplied := SigHold, at_saturationSignal := SigHold,
     at_streak := 0, at_cooldownLeft := 0\<rparr>"

definition resolveOverrideState :: "controller \<Rightarrow> override_state" where
  "resolveOverrideState a = (if at_operatorOverrideBatch a > 0 then OvManualHold
     else if at_overrideReleaseLeft a > 0 then OvReleaseHold else OvAuto)"

definition resolveTelemetryState :: "autotune_inputs \<Rightarrow> controller \<Rightarrow> telemetry_state \<times> controller" where
  "resolveTelemetryState i a0 =
     (let hasLag = ai_HasHeadSignal i \<and> ai_HasMinCursorSignal i;
          a = (if hasLag then a0\<lparr>at_telemetryArmed := True\<rparr> else a0)
      in if \<not> at_telemetryArmed a then (TelHealthy, a)
         else if \<not> hasLag \<or> ai_HeadSequence i < ai_MinCursorSequence i then
           let a1 = a\<lparr>at_telemetryStaleObserved := at_telemetryStaleObserved a + 1, at_telemetryRecoverySeen := 0\<rparr>;
               a2 = (if \<not> at_telemetryFallback a1 \<and> at_telemetryStaleObserved a1 \<ge> at_telemetryStaleTicks a1
                     then a1\<lparr>at_telemetryFallback := True\<rparr> else a1)
           in (if at_telemetryFallback a2 then TelStaleFallback else TelHealthy, a2)
         else
           let a1 = a\<lparr>at_telemetryStaleObserved := 0\<rparr> in
           if \<not> at_telemetryFallback a1 then (TelHealthy, a1\<lparr>at_telemetryRecoverySeen := 0\<rparr>)
           else
             let a2 = a1\<lparr>at_telemetryRecoverySeen := at_telemetryRecoverySeen a1 + 1\<rparr>
             in (TelRecoveryHold, if at_telemetryRecoverySeen a2 \<ge> at_telemetryRecoveryTicks a2
                  then a2\<lparr>at_telemetryFallback := False, at_telemetryRecoverySeen := 0\<rparr> else a2))"

definition isSaturatedBoundary :: "at_signal \<Rightarrow> controller \<Rightarrow> bool" where
  "isSaturatedBoundary signal a = (case signal of
     SigIncrease \<Rightarrow> at_currentBatch a \<ge> at_maxBatchSize a
   | SigDecrease \<Rightarrow> at_currentBatch a \<le> at_minBatchSize a
   | SigHold \<Rightarrow> False)"

definition clampedDecisionForSignal :: "at_signal \<Rightarrow> string" where
  "clampedDecisionForSignal signal = (case signal of
     SigIncrease \<Rightarrow> ''clamped_increase'' | SigDecrease \<Rightarrow> ''clamped_decrease'' | SigHold \<Rightarrow> ''hold'')"

definition isOppositeSignal :: "at_signal \<Rightarrow> at_signal \<Rightarrow> bool" where
  "isOppositeSignal signal lastApplied = (case signal of
     SigIncrease \<Rightarrow> lastApplied = SigDecrease | SigDecrease \<Rightarrow> lastApplied = SigIncrease | SigHold \<Rightarrow> False)"

definition isCriticalChainScopedSignal :: "at_signal \<Rightarrow> autotune_inputs \<Rightarrow> bool" where
  "isCriticalChainScopedSignal signal i = (case signal of
     SigDecrease \<Rightarrow> ai_RPCErrorRateBps i \<ge> 250 \<or> ai_DBCommitLatencyP95Ms i \<ge> 250 | _ \<Rightarrow> False)"

definition classifySignal :: "autotune_inputs \<Rightarrow> int \<Rightarrow> controller \<Rightarrow> at_signal" where
  "classifySignal i lag a =
     (if ai_RPCErrorRateBps i \<ge> 250 then SigDecrease
      else if ai_DBCommitLatencyP95Ms i \<ge> 250 then SigDecrease
      else if isQueueHigh (ai_QueueDepth i) (ai_QueueCapacity i) (at_queueHighWatermarkPct a) then SigDecrease
      else if ai_HasHeadSignal i \<and> ai_HasMinCursorSignal i \<and> lag \<ge> at_lagHighWatermark a then SigIncrease
      else if ai_HasHeadSignal i \<and> ai_HasMinCursorSignal i \<and> lag \<le> at_lagLowWatermark a \<and>
        isQueueLow (ai_QueueDepth i) (ai_QueueCapacity i) (at_queueLowWatermarkPct a) then SigDecrease
      else SigHold)"

definition bump_streak :: "at_signal \<Rightarrow> controller \<Rightarrow> controller" where
  "bump_streak signal a = (if at_lastSignal a = signal then a\<lparr>at_streak := at_streak a + 1\<rparr>
     else a\<lparr>at_lastSignal := signal, at_streak := 1\<rparr>)"

text \<open>The step of the batch size once the streak has reached the hysteresis.\<close>

definition next_batch :: "at_signal \<Rightarrow> controller \<Rightarrow> int" where
  "next_batch signal a = clampInt (if signal = SigIncrease then wrap64 (at_currentBatch a + at_stepUp a)
     else wrap64 (at_currentBatch a - at_stepDown a)) (at_minBatchSize a) (at_maxBatchSize a)"

definition apply_step :: "at_signal \<Rightarrow> controller \<Rightarrow> string \<times> bool \<times> controller" where
  "apply_step signal a =
     (let nb = next_batch signal a;
          changed = (if signal = SigIncrease then nb > at_currentBatch a else nb < at_currentBatch a);
          decision = (if changed then (if signal = SigIncrease then ''apply_increase'' else ''apply_decrease'') else clampedDecisionForSignal signal);
          a1 = a\<lparr>at_currentBatch := nb, at_streak := 0\<rparr>
      in (decision, changed,
          if changed then a1\<lparr>at_lastApplied := signal, at_cooldownLeft := at_cooldownTicks a1,
            at_saturationSignal := (if isSaturatedBoundary signal a1 then signal else SigHold)\<rparr>
          else a1\<lparr>at_saturationSignal := signal\<rparr>))"

definition directed_control :: "at_signal \<Rightarrow> controller \<Rightarrow> string \<times> bool \<times> controller" where
  "directed_control signal a0 =
     (let a = bump_streak signal a0 in
      if at_saturationSignal a = signal \<and> isSaturatedBoundary signal a then (clampedDecisionForSignal signal, False, a\<lparr>at_streak := 0\<rparr>)
      else if at_streak a \<ge> at_hysteresisTicks a then apply_step signal a
      else (''defer_hysteresis'', False, a))"

definition clear_saturation :: "at_signal \<Rightarrow> controller \<Rightarrow> controller" where
  "clear_saturation signal a = (if signal \<noteq> at_saturationSignal a \<or> \<not> isSaturatedBoundary signal a then a\<lparr>at_saturationSignal := SigHold\<rparr> else a)"

definition blockedByCooldown :: "autotune_inputs \<Rightarrow> at_signal \<Rightarrow> controller \<Rightarrow> bool" where
  "blockedByCooldown i signal a \<longleftrightarrow> at_cooldownLeft a > 0 \<and> isOppositeSignal signal (at_lastApplied a) \<and> \<not> isCriticalChainScopedSignal signal i"

definition control_branch :: "autotune_inputs \<Rightarrow> at_signal \<Rightarrow> controller \<Rightarrow> string \<times> bool \<times> controller" where
  "control_branch i signal a0 =
     (let a = clear_saturation signal a0 in
      if blockedByCooldown i signal a0 then (''defer_cooldown'', False, bump_streak signal a)
      else case signal of
        SigHold \<Rightarrow> (''hold'', False, a\<lparr>at_lastSignal := SigHold, at_saturationSignal := SigHold, at_streak := 0\<rparr>)
      | _ \<Rightarrow> directed_control signal a)"

definition adaptive_control :: "autotune_inputs \<Rightarrow> int \<Rightarrow> telemetry_state \<Rightarrow> controller \<Rightarrow> at_signal \<times> string \<times> controller" where
  "adaptive_control i lag tel a0 =
     (let signal = (if tel = TelHealthy then classifySignal i lag a0 else SigHold);
          (decision, applied, a1) = control_branch i signal a0;
          a2 = (if \<not> applied \<and> at_cooldownLeft a1 > 0 then a1\<lparr>at_cooldownLeft := at_cooldownLeft a1 - 1\<rparr> else a1);
          decision' = (if decision = ''hold'' then (case tel of
             TelStaleFallback \<Rightarrow> ''hold_telemetry_stale'' | TelRecoveryHold \<Rightarrow> ''hold_telemetry_recovery'' | TelHealthy \<Rightarrow> decision) else decision)
      in (signal, decision', a2))"

section \<open>Diagnostics\<close>

record diagnostics =
  dg_LagSequence :: int
  dg_QueueDepth :: int
  dg_QueueCapacity :: int
  dg_TelemetryState :: string
  dg_OverrideState :: string
  dg_Signal :: string
  dg_Decision :: string
  dg_BatchBefore :: int
  dg_BatchAfter :: int
  dg_Streak :: int
  dg_Cooldown :: int
  dg_TelemetryStaleTicks :: int
  dg_TelemetryRecoveryTicks :: int
  dg_OverrideReleaseTicks :: int
  dg_PolicyVersion :: string
  dg_PolicyManifestDigest :: string
  dg_PolicyEpoch :: int
  dg_PolicyActivationTicks :: int
  dg_DecisionInputsHash :: string
  dg_LocalInputsDigest :: string
  dg_DecisionInputsChainScoped :: bool
  dg_DecisionScope :: string
  dg_CrossChainReads :: bool
  dg_CrossChainWrites :: bool
  dg_ChangedPeerCursor :: int
  dg_ChangedPeerWatermark :: int
  dg_CrossChainControlDelta :: int
  dg_DecisionOutputs :: string
  dg_DecisionEpochMs :: int
  dg_DecisionSequence :: int

definition signal_String :: "at_signal \<Rightarrow> string" where
  "signal_String s = (case s of SigHold \<Rightarrow> ''hold'' | SigIncrease \<Rightarrow> ''increase'' | SigDecrease \<Rightarrow> ''decrease'')"

definition telemetry_String :: "telemetry_state \<Rightarrow> string" where
  "telemetry_String s = (case s of TelHealthy \<Rightarrow> ''healthy'' | TelStaleFallback \<Rightarrow> ''stale_fallback'' | TelRecoveryHold \<Rightarrow> ''recovery_hold'')"

definition override_String :: "override_state \<Rightarrow> string" where
  "override_String s = (case s of OvAuto \<Rightarrow> ''auto'' | OvManualHold \<Rightarrow> ''manual_hold'' | OvReleaseHold \<Rightarrow> ''release_hold'')"

fun join_bar :: "string list \<Rightarrow> string" where
  "join_bar [] = ''''"
| "join_bar [x] = x"
| "join_bar (x # y # ys) = x @ ''|'' @ join_bar (y # ys)"

definition makeDigest :: "(string \<Rightarrow> string) \<Rightarrow> string list \<Rightarrow> string" where
  "makeDigest sum256 parts = sum256 (join_bar parts)"

definition formatBool :: "bool \<Rightarrow> string" where
  "formatBool b = (if b then ''1'' else ''0'')"

definition bool_String :: "bool \<Rightarrow> string" where
  "bool_String b = (if b then ''true'' else ''false'')"

definition decisionInputsDigest :: "(string \<Rightarrow> string) \<Rightarrow> autotune_inputs \<Rightarrow> string" where
  "decisionInputsDigest sum256 i = makeDigest sum256 [''v1'', ai_Chain i, ai_Network i, formatBool (ai_HasHeadSignal i),
     big_String (ai_HeadSequence i), formatBool (ai_HasMinCursorSignal i), big_String (ai_MinCursorSequence i),
     big_String (ai_QueueDepth i), big_String (ai_QueueCapacity i), big_String (ai_RPCErrorRateBps i), big_String (ai_DBCommitLatencyP95Ms i)]"

definition hashContextString :: "autotune_inputs \<Rightarrow> string" where
  "hashContextString i = join_bar [ai_Chain i, ai_Network i, bool_String (ai_HasHeadSignal i), big_String (ai_HeadSequence i),
     bool_String (ai_HasMinCursorSignal i), big_String (ai_MinCursorSequence i), big_String (ai_QueueDepth i),
     big_String (ai_QueueCapacity i), big_String (ai_RPCErrorRateBps i), big_String (ai_DBCommitLatencyP95Ms i)]"

definition decisionOutputsString :: "int \<Rightarrow> int \<Rightarrow> string \<Rightarrow> int \<Rightarrow> int \<Rightarrow> string" where
  "decisionOutputsString before after decision streak cooldown =
     ''decision='' @ decision @ '' batch_before='' @ big_String before @ '' batch_after='' @ big_String after @
     '' streak='' @ big_String streak @ '' cooldown='' @ big_String cooldown"

definition decisionInputsHash :: "(string \<Rightarrow> string) \<Rightarrow> autotune_inputs \<Rightarrow> string \<Rightarrow> string" where
  "decisionInputsHash sum256 i outputs = makeDigest sum256 [big_String (ai_DecisionEpochMs i), hashContextString i, outputs, ''this-chain-only'']"

text \<open>The diagnostics of one decision on the controller after it, enriched with the hashes; the decision sequence advances.\<close>

definition decide :: "(string \<Rightarrow> string) \<Rightarrow> autotune_inputs \<Rightarrow> int \<Rightarrow> telemetry_state \<Rightarrow> override_state \<Rightarrow> at_signal \<Rightarrow> string \<Rightarrow> int \<Rightarrow>
    int \<Rightarrow> int \<Rightarrow> controller \<Rightarrow> int \<times> diagnostics \<times> controller" where
  "decide sum256 i lag tel ov signal decision before releaseTicks activationTicks a =
     (let outputs = decisionOutputsString before (at_currentBatch a) decision (at_streak a) (at_cooldownLeft a);
          sq = wrap64 (at_decisionSequence a + 1)
      in (at_currentBatch a,
          \<lparr>dg_LagSequence = lag, dg_QueueDepth = ai_QueueDepth i, dg_QueueCapacity = ai_QueueCapacity i,
           dg_TelemetryState = telemetry_String tel, dg_OverrideState = override_String ov, dg_Signal = signal_String signal,
           dg_Decision = decision, dg_BatchBefore = before, dg_BatchAfter = at_currentBatch a, dg_Streak = at_streak a,
           dg_Cooldown = at_cooldownLeft a, dg_TelemetryStaleTicks = at_telemetryStaleObserved a,
           dg_TelemetryRecoveryTicks = at_telemetryRecoverySeen a, dg_OverrideReleaseTicks = releaseTicks,
           dg_PolicyVersion = at_policyVersion a, dg_PolicyManifestDigest = at_policyManifestDigest a, dg_PolicyEpoch = at_policyEpoch a,
           dg_PolicyActivationTicks = activationTicks, dg_DecisionInputsHash = decisionInputsHash sum256 i outputs,
           dg_LocalInputsDigest = decisionInputsDigest sum256 i, dg_DecisionInputsChainScoped = True,
           dg_DecisionScope = ''this-chain-only'', dg_CrossChainReads = False, dg_CrossChainWrites = False, dg_ChangedPeerCursor = 0,
           dg_ChangedPeerWatermark = 0, dg_CrossChainControlDelta = 0, dg_DecisionOutputs = outputs,
           dg_DecisionEpochMs = ai_DecisionEpochMs i, dg_DecisionSequence = sq\<rparr>,
          a\<lparr>at_decisionSequence := sq\<rparr>))"

definition lag_sequence :: "autotune_inputs \<Rightarrow> int" where
  "lag_sequence i = (if ai_HasHeadSignal i \<and> ai_HasMinCursorSignal i then max 0 (ai_HeadSequence i - ai_MinCursorSequence i) else 0)"

definition Resolve :: "(string \<Rightarrow> string) \<Rightarrow> autotune_inputs \<Rightarrow> controller \<Rightarrow> int \<times> diagnostics \<times> controller" where
  "Resolve sum256 i a0 =
     (let (tel, a) = resolveTelemetryState i a0;
          lag = lag_sequence i;
          ov = resolveOverrideState a;
          before = at_currentBatch a
      in case ov of
        OvManualHold \<Rightarrow>
          let a1 = resetAdaptiveControlState (a\<lparr>at_currentBatch := clampInt (at_operatorOverrideBatch a) (at_minBatchSize a) (at_maxBatchSize a)\<rparr>)
          in decide sum256 i lag tel ov SigHold ''hold_operator_override'' before (at_overrideReleaseLeft a1) (at_policyActivationLeft a1) a1
      | OvReleaseHold \<Rightarrow>
          let a1 = (resetAdaptiveControlState a)\<lparr>at_overrideReleaseLeft := at_overrideReleaseLeft a - 1\<rparr>
          in decide sum256 i lag tel ov SigHold ''hold_operator_release'' before (at_overrideReleaseLeft a) (at_policyActivationLeft a1) a1
      | OvAuto \<Rightarrow>
          if at_policyActivationLeft a > 0 then
            let a1 = (resetAdaptiveControlState a)\<lparr>at_policyActivationLeft := at_policyActivationLeft a - 1\<rparr>
            in decide sum256 i lag tel ov SigHold ''hold_policy_transition'' before (at_overrideReleaseLeft a1) (at_policyActivationLeft a) a1
          else
            let (signal, decision, a1) = adaptive_control i lag tel a
            in decide sum256 i lag tel ov signal decision before (at_overrideReleaseLeft a1) (at_policyActivationLeft a1) a1)"

section \<open>Transitions\<close>

definition exportOverrideTransition :: "controller \<Rightarrow> override_transition" where
  "exportOverrideTransition a = \<lparr>ot_WasManualOverride = (at_operatorOverrideBatch a > 0), ot_ReleaseHoldRemaining = at_overrideReleaseLeft a\<rparr>"

definition exportPolicyTransition :: "controller \<Rightarrow> policy_transition" where
  "exportPolicyTransition a = \<lparr>pt_HasState = True, pt_Version = at_policyVersion a, pt_ManifestDigest = at_policyManifestDigest a,
     pt_Epoch = at_policyEpoch a, pt_ActivationHoldRemaining = at_policyActivationLeft a, pt_FromWarmCheckpoint = False\<rparr>"

definition reconcileOverrideTransition :: "override_transition \<Rightarrow> controller \<Rightarrow> controller" where
  "reconcileOverrideTransition t a =
     (if at_operatorOverrideBatch a > 0 then
        resetAdaptiveControlState (a\<lparr>at_currentBatch := clampInt (at_operatorOverrideBatch a) (at_minBatchSize a) (at_maxBatchSize a),
          at_overrideReleaseLeft := 0\<rparr>)
      else if ot_ReleaseHoldRemaining t > 0 then resetAdaptiveControlState (a\<lparr>at_overrideReleaseLeft := ot_ReleaseHoldRemaining t\<rparr>)
      else if ot_WasManualOverride t \<and> at_operatorReleaseHold a > 0
        then resetAdaptiveControlState (a\<lparr>at_overrideReleaseLeft := at_operatorReleaseHold a\<rparr>)
      else a)"

definition normalizeTransitionActivationHold :: "policy_transition \<Rightarrow> int" where
  "normalizeTransitionActivationHold t =
     (let remaining = max (pt_ActivationHoldRemaining t) 0 in
      if remaining = 0 \<or> \<not> pt_FromWarmCheckpoint t then remaining
      else if isRollbackFenceEpochCompactionDigest (pt_Epoch t) (pt_ManifestDigest t) then 0
      else if \<not> isRollbackFenceTransition (pt_Epoch t) (pt_ManifestDigest t) then remaining
      else if remaining > 1 then 1 else remaining)"

text \<open>The three outcomes of a policy transition: the incoming lineage is activated, the previous one is pinned, and a
  pinned lineage restores a longer activation hold.\<close>

definition activate_policy :: "string \<Rightarrow> int \<Rightarrow> controller \<Rightarrow> controller" where
  "activate_policy digest epoch a = resetAdaptiveControlState (a\<lparr>at_policyManifestDigest := digest, at_policyEpoch := epoch,
     at_policyActivationLeft := at_policyActivationHold a\<rparr>)"

definition restore_hold :: "int \<Rightarrow> controller \<Rightarrow> controller" where
  "restore_hold hold a = (if hold > at_policyActivationLeft a then resetAdaptiveControlState (a\<lparr>at_policyActivationLeft := hold\<rparr>) else a)"

definition pin_policy :: "string \<Rightarrow> int \<Rightarrow> controller \<Rightarrow> controller" where
  "pin_policy digest epoch a = a\<lparr>at_policyManifestDigest := digest, at_policyEpoch := epoch\<rparr>"

definition reconcilePolicyTransition :: "policy_transition \<Rightarrow> controller \<Rightarrow> controller" where
  "reconcilePolicyTransition t a =
    (if \<not> pt_HasState t then a
     else
      let hold = normalizeTransitionActivationHold t;
          previousVersion = normalizePolicyVersion (pt_Version t);
          previousDigest = normalizePolicyManifestDigest (pt_ManifestDigest t);
          previousEpoch = max 0 (pt_Epoch t);
          incomingVersion = at_policyVersion a;
          incomingDigest = normalizePolicyManifestDigest (at_policyManifestDigest a);
          incomingEpoch = max 0 (at_policyEpoch a);
          succ = wrap64 (previousEpoch + 1)
      in if incomingVersion = previousVersion \<and> incomingDigest = previousDigest then
           restore_hold hold (if incomingEpoch = succ then activate_policy incomingDigest incomingEpoch a
             else pin_policy previousDigest previousEpoch a)
         else if incomingVersion \<noteq> previousVersion then activate_policy incomingDigest (max succ incomingEpoch) a
         else if incomingEpoch > previousEpoch then
           if isDeterministicRollbackFencePostReleaseWindowEpochRolloverStaleTransition previousEpoch incomingEpoch previousDigest incomingDigest
             then restore_hold hold (pin_policy previousDigest previousEpoch a)
           else if incomingEpoch = succ then activate_policy incomingDigest incomingEpoch a
           else if isDeterministicSnapshotCutover previousEpoch incomingEpoch incomingDigest then activate_policy incomingDigest incomingEpoch a
           else restore_hold hold (pin_policy previousDigest previousEpoch a)
         else if incomingEpoch < previousEpoch then
           if isDeterministicRollbackLineage previousEpoch incomingEpoch incomingDigest then activate_policy incomingDigest incomingEpoch a
           else restore_hold hold (pin_policy previousDigest previousEpoch a)
         else case resolveSameEpochPolicyLineage previousEpoch previousDigest incomingDigest of
           Some True \<Rightarrow> pin_policy incomingDigest incomingEpoch a
         | Some False \<Rightarrow> pin_policy previousDigest previousEpoch a
         | None \<Rightarrow> restore_hold hold (pin_policy previousDigest previousEpoch a))"

section \<open>Runtime signals (\<^verbatim>\<open>signals.go\<close>)\<close>

record rpc_series =
  rs_samples :: "bool list"
  rs_nextIndex :: nat
  rs_sampleCount :: nat
  rs_errorCount :: int

record commit_series =
  cs_window :: "int list"
  cs_nextIndex :: nat
  cs_sampleCount :: nat

record signal_series =
  ss_rpc :: rpc_series
  ss_commit :: commit_series

definition signal_window :: nat where "signal_window = 64"

definition new_series :: signal_series where
  "new_series = \<lparr>ss_rpc = \<lparr>rs_samples = replicate signal_window False, rs_nextIndex = 0, rs_sampleCount = 0, rs_errorCount = 0\<rparr>,
     ss_commit = \<lparr>cs_window = replicate signal_window 0, cs_nextIndex = 0, cs_sampleCount = 0\<rparr>\<rparr>"

definition rpc_record :: "bool \<Rightarrow> rpc_series \<Rightarrow> rpc_series" where
  "rpc_record isError s =
     (let old = rs_samples s ! rs_nextIndex s;
          s1 = (if rs_sampleCount s < signal_window then s\<lparr>rs_sampleCount := rs_sampleCount s + 1\<rparr>
                else if old then s\<lparr>rs_errorCount := rs_errorCount s - 1\<rparr> else s);
          s2 = (if isError then s1\<lparr>rs_errorCount := rs_errorCount s1 + 1\<rparr> else s1)
      in s2\<lparr>rs_samples := (rs_samples s2)[rs_nextIndex s2 := isError],
           rs_nextIndex := (if rs_nextIndex s2 + 1 \<ge> signal_window then 0 else rs_nextIndex s2 + 1)\<rparr>)"

definition errorRateBps :: "rpc_series \<Rightarrow> int" where
  "errorRateBps s = (if rs_sampleCount s = 0 then 0 else (rs_errorCount s * 10000) div int (rs_sampleCount s))"

definition commit_record :: "int \<Rightarrow> commit_series \<Rightarrow> commit_series" where
  "commit_record latencyMs s =
     (if latencyMs < 0 then s
      else s\<lparr>cs_window := (cs_window s)[cs_nextIndex s := latencyMs],
             cs_nextIndex := (if cs_nextIndex s + 1 \<ge> signal_window then 0 else cs_nextIndex s + 1),
             cs_sampleCount := (if cs_sampleCount s < signal_window then cs_sampleCount s + 1 else cs_sampleCount s)\<rparr>)"

definition p95Ms :: "commit_series \<Rightarrow> int" where
  "p95Ms s = (if cs_sampleCount s = 0 then 0
     else let samples = sort (take (cs_sampleCount s) (cs_window s));
              idx0 = (length samples * 95 + 99) div 100;
              idx1 = (if idx0 > 0 then idx0 - 1 else idx0);
              idx = (if idx1 \<ge> length samples then length samples - 1 else idx1)
          in samples ! idx)"

type_synonym signal_registry = "string \<rightharpoonup> signal_series"

definition autoTuneSignalKey :: "string \<Rightarrow> string \<Rightarrow> string" where
  "autoTuneSignalKey chain network = ToLower (TrimSpace chain) @ ''/'' @ ToLower (TrimSpace network)"

definition stateFor :: "string \<Rightarrow> signal_registry \<Rightarrow> signal_series" where
  "stateFor key r = (case r key of None \<Rightarrow> new_series | Some s \<Rightarrow> s)"

definition RecordRPCResult :: "string \<Rightarrow> string \<Rightarrow> bool \<Rightarrow> signal_registry \<Rightarrow> signal_registry" where
  "RecordRPCResult chain network isError r = (let key = autoTuneSignalKey chain network; s = stateFor key r in
     r(key \<mapsto> s\<lparr>ss_rpc := rpc_record isError (ss_rpc s)\<rparr>))"

definition RecordDBCommitLatencyMs :: "string \<Rightarrow> string \<Rightarrow> int \<Rightarrow> signal_registry \<Rightarrow> signal_registry" where
  "RecordDBCommitLatencyMs chain network latencyMs r = (if latencyMs < 0 then r
     else let key = autoTuneSignalKey chain network; s = stateFor key r in
       r(key \<mapsto> s\<lparr>ss_commit := commit_record latencyMs (ss_commit s)\<rparr>))"

definition signal_Snapshot :: "string \<Rightarrow> string \<Rightarrow> signal_registry \<Rightarrow> int \<times> int" where
  "signal_Snapshot chain network r = (case r (autoTuneSignalKey chain network) of
     None \<Rightarrow> (0, 0)
   | Some s \<Rightarrow> (errorRateBps (ss_rpc s), p95Ms (ss_commit s)))"

section \<open>Reachable controllers\<close>

inductive at_reach :: "controller \<Rightarrow> bool" where
  new: "newAutoTuneControllerWithSeedMode base cfg seed bounded = Some a \<Longrightarrow> at_reach a"
| resolve: "\<lbrakk>at_reach a; Resolve sum256 i a = (b, dg, a')\<rbrakk> \<Longrightarrow> at_reach a'"
| override: "at_reach a \<Longrightarrow> at_reach (reconcileOverrideTransition t a)"
| policy: "at_reach a \<Longrightarrow> at_reach (reconcilePolicyTransition u a)"

definition limits :: "controller \<Rightarrow> int \<times> int \<times> int \<times> int \<times> int \<times> int" where
  "limits a = (at_minBatchSize a, at_maxBatchSize a, at_stepUp a, at_stepDown a, at_hysteresisTicks a, at_operatorOverrideBatch a)"

definition batch_ok :: "controller \<Rightarrow> bool" where
  "batch_ok a \<longleftrightarrow> 1 \<le> at_minBatchSize a \<and> at_minBatchSize a \<le> at_currentBatch a \<and> at_currentBatch a \<le> at_maxBatchSize a \<and>
     1 \<le> at_stepUp a \<and> 1 \<le> at_stepDown a \<and> 1 \<le> at_hysteresisTicks a"

lemma batch_ok_cong: "\<lbrakk>limits b = limits a; at_currentBatch b = at_currentBatch a\<rbrakk> \<Longrightarrow> batch_ok b = batch_ok a"
  by (simp add: limits_def batch_ok_def)

lemma clampInt_bounds: "lo \<le> hi \<Longrightarrow> lo \<le> clampInt v lo hi \<and> clampInt v lo hi \<le> hi"
  by (simp add: clampInt_def)

lemma reset_frame [simp]: "limits (resetAdaptiveControlState a) = limits a" "at_currentBatch (resetAdaptiveControlState a) = at_currentBatch a"
  by (simp_all add: resetAdaptiveControlState_def limits_def)

lemma bump_frame [simp]: "limits (bump_streak s a) = limits a" "at_currentBatch (bump_streak s a) = at_currentBatch a"
  by (simp_all add: bump_streak_def limits_def)

text \<open>Telemetry tracking touches only its own counters.\<close>

definition without_telemetry :: "controller \<Rightarrow> controller" where
  "without_telemetry a = a\<lparr>at_telemetryArmed := False, at_telemetryFallback := False, at_telemetryStaleObserved := 0, at_telemetryRecoverySeen := 0\<rparr>"

lemma telemetry_frame: "without_telemetry (snd (resolveTelemetryState i a)) = without_telemetry a"
  by (simp add: resolveTelemetryState_def without_telemetry_def Let_def)

lemma without_telemetry_sel:
  "limits (without_telemetry a) = limits a" "at_currentBatch (without_telemetry a) = at_currentBatch a"
  "at_cooldownLeft (without_telemetry a) = at_cooldownLeft a" "at_lastApplied (without_telemetry a) = at_lastApplied a"
  "at_lastSignal (without_telemetry a) = at_lastSignal a" "at_streak (without_telemetry a) = at_streak a"
  "at_overrideReleaseLeft (without_telemetry a) = at_overrideReleaseLeft a"
  "at_policyActivationLeft (without_telemetry a) = at_policyActivationLeft a"
  "classifySignal i lag (without_telemetry a) = classifySignal i lag a" "batch_ok (without_telemetry a) = batch_ok a"
  by (simp_all add: without_telemetry_def limits_def classifySignal_def batch_ok_def)

lemma same_without_telemetry: "without_telemetry b = without_telemetry a \<Longrightarrow>
    limits b = limits a \<and> at_currentBatch b = at_currentBatch a \<and> at_cooldownLeft b = at_cooldownLeft a \<and>
    at_lastApplied b = at_lastApplied a \<and> at_lastSignal b = at_lastSignal a \<and> at_streak b = at_streak a \<and>
    at_overrideReleaseLeft b = at_overrideReleaseLeft a \<and> at_policyActivationLeft b = at_policyActivationLeft a \<and>
    classifySignal i lag b = classifySignal i lag a \<and> batch_ok b = batch_ok a"
  by (metis without_telemetry_sel)

lemma apply_step_cases:
  assumes "apply_step s a = (dec, changed, a')"
  shows "at_currentBatch a' = next_batch s a" "limits a' = limits a"
    "changed = (if s = SigIncrease then next_batch s a > at_currentBatch a else next_batch s a < at_currentBatch a)"
  using assms by (auto simp: apply_step_def limits_def Let_def split: if_splits)

lemma next_batch_bounds:
  "at_minBatchSize a \<le> at_maxBatchSize a \<Longrightarrow> at_minBatchSize a \<le> next_batch s a \<and> next_batch s a \<le> at_maxBatchSize a"
  unfolding next_batch_def by (rule clampInt_bounds)

lemma clear_frame [simp]: "limits (clear_saturation s a) = limits a" "at_currentBatch (clear_saturation s a) = at_currentBatch a"
  "at_lastSignal (clear_saturation s a) = at_lastSignal a" "at_streak (clear_saturation s a) = at_streak a"
  by (simp_all add: clear_saturation_def limits_def)

lemma next_batch_limits: "\<lbrakk>limits b = limits a; at_currentBatch b = at_currentBatch a\<rbrakk> \<Longrightarrow> next_batch s b = next_batch s a"
  by (simp add: next_batch_def limits_def)

definition streak_after :: "at_signal \<Rightarrow> controller \<Rightarrow> int" where
  "streak_after s a = (if at_lastSignal a = s then at_streak a + 1 else 1)"

lemma streak_after_clear [simp]: "streak_after s (clear_saturation s a) = streak_after s a"
  by (simp add: streak_after_def)

text \<open>The batch size moves only in the step, with a streak at the hysteresis.\<close>

lemma directed_control_moves:
  assumes "directed_control s a = (dec, applied, a')"
  shows "limits a' = limits a \<and> (at_currentBatch a' = at_currentBatch a \<or>
    at_currentBatch a' = next_batch s a \<and> at_hysteresisTicks a \<le> streak_after s a)"
proof -
  let ?b = "bump_streak s a"
  have n: "next_batch s ?b = next_batch s a" by (rule next_batch_limits) simp_all
  have st: "at_streak ?b = streak_after s a" "at_hysteresisTicks ?b = at_hysteresisTicks a"
    by (simp_all add: bump_streak_def streak_after_def)
  consider "at_saturationSignal ?b = s \<and> isSaturatedBoundary s ?b" | "\<not> (at_saturationSignal ?b = s \<and> isSaturatedBoundary s ?b)" "at_streak ?b \<ge> at_hysteresisTicks ?b"
    | "\<not> (at_saturationSignal ?b = s \<and> isSaturatedBoundary s ?b)" "\<not> at_streak ?b \<ge> at_hysteresisTicks ?b" by blast
  then show ?thesis
  proof cases
    case 1
    then have "a' = ?b\<lparr>at_streak := 0\<rparr>" using assms by (simp add: directed_control_def Let_def)
    then have "limits a' = limits ?b" "at_currentBatch a' = at_currentBatch ?b" by (simp_all add: limits_def)
    then show ?thesis by simp
  next
    case 2
    then have "apply_step s ?b = (dec, applied, a')" using assms by (simp only: directed_control_def Let_def if_False if_True)
    from apply_step_cases [OF this] show ?thesis using n st 2 by simp
  next
    case 3
    then have "a' = ?b" using assms by (simp only: directed_control_def Let_def if_False prod.inject)
    then show ?thesis by simp
  qed
qed

lemma control_branch_moves:
  assumes "control_branch i s a = (dec, applied, a')"
  shows "limits a' = limits a \<and> (at_currentBatch a' = at_currentBatch a \<or>
    s \<noteq> SigHold \<and> at_currentBatch a' = next_batch s a \<and> \<not> blockedByCooldown i s a \<and>
    at_hysteresisTicks a \<le> streak_after s a)"
proof -
  let ?c = "clear_saturation s a"
  have n: "next_batch s ?c = next_batch s a" by (rule next_batch_limits) simp_all
  have h: "at_hysteresisTicks ?c = at_hysteresisTicks a" by (simp add: clear_saturation_def)
  consider "blockedByCooldown i s a" | "\<not> blockedByCooldown i s a" "s = SigHold" | "\<not> blockedByCooldown i s a" "s \<noteq> SigHold" by blast
  then show ?thesis
  proof cases
    case 1
    then have "a' = bump_streak s ?c" using assms by (simp add: control_branch_def Let_def)
    then show ?thesis by simp
  next
    case 2
    then have "a' = ?c\<lparr>at_lastSignal := SigHold, at_saturationSignal := SigHold, at_streak := 0\<rparr>"
      using assms by (simp add: control_branch_def Let_def)
    then have "limits a' = limits ?c" "at_currentBatch a' = at_currentBatch ?c" by (simp_all add: limits_def)
    then show ?thesis by simp
  next
    case 3
    then have "directed_control s ?c = (dec, applied, a')" using assms by (cases s) (simp_all add: control_branch_def Let_def)
    from directed_control_moves [OF this] show ?thesis using 3 n h by simp
  qed
qed

lemma adaptive_control_moves:
  assumes "adaptive_control i lag tel a = (s, dec, a')"
  shows "s = (if tel = TelHealthy then classifySignal i lag a else SigHold) \<and> limits a' = limits a \<and>
    (at_currentBatch a' = at_currentBatch a \<or>
     s \<noteq> SigHold \<and> at_currentBatch a' = next_batch s a \<and> \<not> blockedByCooldown i s a \<and>
     at_hysteresisTicks a \<le> streak_after s a)"
proof -
  let ?s = "if tel = TelHealthy then classifySignal i lag a else SigHold"
  obtain dec0 applied a1 where r: "control_branch i ?s a = (dec0, applied, a1)" by (cases "control_branch i ?s a") auto
  have s: "s = ?s" and a': "a' = (if \<not> applied \<and> at_cooldownLeft a1 > 0 then a1\<lparr>at_cooldownLeft := at_cooldownLeft a1 - 1\<rparr> else a1)"
    using assms unfolding adaptive_control_def Let_def r case_prod_conv prod.inject by blast+
  have "limits a' = limits a1" "at_currentBatch a' = at_currentBatch a1" unfolding a' by (simp_all add: limits_def)
  then show ?thesis using control_branch_moves [OF r] s by simp
qed

text \<open>One tick of the controller: held by the operator or the policy, or one adaptive decision.\<close>

lemma Resolve_cases:
  assumes "Resolve sum256 i a = (b, dg, a')"
  obtains (held) "b = at_currentBatch a'" "limits a' = limits a"
      "at_currentBatch a' = (if at_operatorOverrideBatch a > 0 then clampInt (at_operatorOverrideBatch a) (at_minBatchSize a) (at_maxBatchSize a) else at_currentBatch a)"
  | (adaptive) c s dec a1 where "b = at_currentBatch a'" "without_telemetry c = without_telemetry a" "c = snd (resolveTelemetryState i a)"
      "adaptive_control i (lag_sequence i) (fst (resolveTelemetryState i a)) c = (s, dec, a1)" "limits a' = limits a1" "at_currentBatch a' = at_currentBatch a1"
      "at_operatorOverrideBatch a \<le> 0" "at_overrideReleaseLeft a \<le> 0" "at_policyActivationLeft a \<le> 0"
proof -
  obtain tel c where t: "resolveTelemetryState i a = (tel, c)" by (cases "resolveTelemetryState i a")
  have w: "without_telemetry c = without_telemetry a" using telemetry_frame [of i a] t by simp
  note same = same_without_telemetry [OF w]
  have lim: "at_operatorOverrideBatch c = at_operatorOverrideBatch a" "at_minBatchSize c = at_minBatchSize a" "at_maxBatchSize c = at_maxBatchSize a"
    using same by (simp_all add: limits_def)
  have ov: "at_overrideReleaseLeft c = at_overrideReleaseLeft a" "at_policyActivationLeft c = at_policyActivationLeft a" using same by simp_all
  have dec: "x = at_currentBatch y \<and> limits z = limits y \<and> at_currentBatch z = at_currentBatch y"
    if "decide sum256 i lag tel o' s d bef r p y = (x, dg, z)" for lag o' s d bef r p y x z
    using that by (auto simp: decide_def limits_def Let_def)
  note resolve = assms [unfolded Resolve_def Let_def t case_prod_conv]
  show thesis
  proof (cases "resolveOverrideState c")
    case OvManualHold
    then have o: "at_operatorOverrideBatch a > 0" using lim by (simp add: resolveOverrideState_def split: if_splits)
    let ?y = "resetAdaptiveControlState (c\<lparr>at_currentBatch := clampInt (at_operatorOverrideBatch c) (at_minBatchSize c) (at_maxBatchSize c)\<rparr>)"
    have y: "limits ?y = limits c" "at_currentBatch ?y = clampInt (at_operatorOverrideBatch c) (at_minBatchSize c) (at_maxBatchSize c)"
      by (simp_all add: limits_def resetAdaptiveControlState_def)
    from dec [OF resolve [unfolded OvManualHold override_state.case]] y show thesis
      using o lim same by (intro held) simp_all
  next
    case OvReleaseHold
    then have o: "\<not> at_operatorOverrideBatch a > 0" using lim by (simp add: resolveOverrideState_def split: if_splits)
    let ?y = "(resetAdaptiveControlState c)\<lparr>at_overrideReleaseLeft := at_overrideReleaseLeft c - 1\<rparr>"
    have y: "limits ?y = limits c" "at_currentBatch ?y = at_currentBatch c" by (simp_all add: limits_def resetAdaptiveControlState_def)
    from dec [OF resolve [unfolded OvReleaseHold override_state.case]] y show thesis
      using o same by (intro held) simp_all
  next
    case OvAuto
    then have o: "\<not> at_operatorOverrideBatch a > 0" "at_overrideReleaseLeft a \<le> 0"
      using lim ov by (simp_all add: resolveOverrideState_def split: if_splits)
    show thesis
    proof (cases "at_policyActivationLeft c > 0")
      case True
      let ?y = "(resetAdaptiveControlState c)\<lparr>at_policyActivationLeft := at_policyActivationLeft c - 1\<rparr>"
      have y: "limits ?y = limits c" "at_currentBatch ?y = at_currentBatch c" by (simp_all add: limits_def resetAdaptiveControlState_def)
      from dec [OF resolve [unfolded OvAuto override_state.case if_P [OF True]]] y show thesis
        using o same by (intro held) simp_all
    next
      case False
      obtain s d a1 where ad: "adaptive_control i (lag_sequence i) tel c = (s, d, a1)" by (cases "adaptive_control i (lag_sequence i) tel c") auto
      from dec [OF resolve [unfolded OvAuto override_state.case if_not_P [OF False] ad case_prod_conv]]
      have b: "b = at_currentBatch a'" "limits a' = limits a1" "at_currentBatch a' = at_currentBatch a1" by simp_all
      show thesis by (rule adaptive [OF b(1) w _ _ b(2,3)]) (use t ad o ov False in simp_all)
    qed
  qed
qed

lemma new_controller:
  assumes "newAutoTuneControllerWithSeedMode base cfg seed bounded = Some a"
  shows "1 \<le> at_minBatchSize a" "at_minBatchSize a \<le> at_maxBatchSize a" "1 \<le> at_stepUp a" "1 \<le> at_stepDown a" "1 \<le> at_hysteresisTicks a"
    "at_operatorOverrideBatch a = (if ac_OperatorOverrideBatchSize cfg > 0 then clampInt (ac_OperatorOverrideBatchSize cfg) (at_minBatchSize a) (at_maxBatchSize a) else 0)"
    "at_currentBatch a = (if at_operatorOverrideBatch a > 0 then at_operatorOverrideBatch a
       else start_batch base seed bounded (at_stepUp a) (at_stepDown a) (at_minBatchSize a) (at_maxBatchSize a))"
proof -
  have "ac_Enabled cfg" using assms by (cases "ac_Enabled cfg") (simp_all add: newAutoTuneControllerWithSeedMode_def)
  then have n: "\<not> \<not> ac_Enabled cfg" by simp
  note a = assms [unfolded newAutoTuneControllerWithSeedMode_def Let_def if_not_P [OF n] option.inject, symmetric]
  show "1 \<le> at_minBatchSize a" "1 \<le> at_stepUp a" "1 \<le> at_stepDown a" "1 \<le> at_hysteresisTicks a"
    by (simp_all only: a controller.simps) simp_all
  show "at_minBatchSize a \<le> at_maxBatchSize a" by (simp only: a controller.simps) simp
  show "at_operatorOverrideBatch a = (if ac_OperatorOverrideBatchSize cfg > 0 then clampInt (ac_OperatorOverrideBatchSize cfg) (at_minBatchSize a) (at_maxBatchSize a) else 0)"
    by (simp only: a controller.simps)
  show "at_currentBatch a = (if at_operatorOverrideBatch a > 0 then at_operatorOverrideBatch a
       else start_batch base seed bounded (at_stepUp a) (at_stepDown a) (at_minBatchSize a) (at_maxBatchSize a))"
    by (simp only: a controller.simps)
qed

lemma start_batch_bounds:
  assumes "1 \<le> lo" "lo \<le> hi"
  shows "lo \<le> start_batch base seed bounded up down lo hi \<and> start_batch base seed bounded up down lo hi \<le> hi"
proof -
  have "start_batch base seed bounded up down lo hi = lo \<or> (\<exists>v. start_batch base seed bounded up down lo hi = clampInt v lo hi)"
    unfolding start_batch_def Let_def by (auto split: if_splits)
  then show ?thesis using assms clampInt_bounds [OF assms(2)] by auto
qed

lemma batch_ok_reach: "at_reach a \<Longrightarrow> batch_ok a"
proof (induction rule: at_reach.induct)
  case (new base cfg seed bounded a)
  note n = new_controller [OF new]
  show ?case using n start_batch_bounds [OF n(1,2), of base seed bounded "at_stepUp a" "at_stepDown a"] clampInt_bounds [OF n(2)]
    by (simp add: batch_ok_def)
next
  case (resolve a sum256 i b dg a')
  from resolve.hyps(2) show ?case
  proof (cases rule: Resolve_cases)
    case held
    then show ?thesis using resolve.IH clampInt_bounds [of "at_minBatchSize a" "at_maxBatchSize a" "at_operatorOverrideBatch a"]
      by (auto simp: batch_ok_def limits_def split: if_splits)
  next
    case (adaptive c s dec a1)
    have "batch_ok c" using same_without_telemetry [OF adaptive(2)] resolve.IH by blast
    moreover have "batch_ok c \<Longrightarrow> batch_ok a1"
      using adaptive_control_moves [OF adaptive(4)] next_batch_bounds [of c s] by (auto simp: batch_ok_def limits_def)
    ultimately show ?thesis using batch_ok_cong adaptive(5,6) by blast
  qed
next
  case (override a t)
  then show ?case using clampInt_bounds [of "at_minBatchSize a" "at_maxBatchSize a" "at_operatorOverrideBatch a"]
    by (auto simp: reconcileOverrideTransition_def batch_ok_def resetAdaptiveControlState_def)
next
  case (policy a u)
  have "limits (activate_policy x e y) = limits y \<and> at_currentBatch (activate_policy x e y) = at_currentBatch y"
    "limits (pin_policy x e y) = limits y \<and> at_currentBatch (pin_policy x e y) = at_currentBatch y"
    "limits (restore_hold h y) = limits y \<and> at_currentBatch (restore_hold h y) = at_currentBatch y" for x e y h
    by (simp_all add: activate_policy_def pin_policy_def restore_hold_def limits_def resetAdaptiveControlState_def)
  then have "limits (reconcilePolicyTransition u a) = limits a \<and> at_currentBatch (reconcilePolicyTransition u a) = at_currentBatch a"
    by (simp add: reconcilePolicyTransition_def Let_def split: option.split bool.split)
  then show ?case using policy.IH batch_ok_cong by blast
qed

section \<open>Signal windows\<close>

lemma ring_next: "pos < n \<Longrightarrow> (if pos + 1 \<ge> n then 0 else pos + 1) = (pos + 1) mod (n::nat)"
  by (cases "pos + 1 = n") auto

definition errors_in :: "bool list \<Rightarrow> int" where
  "errors_in xs = int (count (mset xs) True)"

lemma rpc_window:
  assumes "fold rpc_record outcomes (ss_rpc new_series) = s"
  shows "ring_holds signal_window (rs_samples s) (rs_nextIndex s) (rs_sampleCount s) outcomes \<and> rs_errorCount s = errors_in (latest signal_window outcomes)"
  using assms
proof (induction outcomes arbitrary: s rule: rev_induct)
  case Nil
  then show ?case by (auto simp: new_series_def ring_holds_def errors_in_def latest_def signal_window_def)
next
  case (snoc x xs)
  define s0 where "s0 = fold rpc_record xs (ss_rpc new_series)"
  have s: "s = rpc_record x s0" using snoc.prems by (simp add: s0_def)
  note ih = snoc.IH [OF s0_def [symmetric]]
  then have r: "ring_holds signal_window (rs_samples s0) (rs_nextIndex s0) (rs_sampleCount s0) xs" by blast
  have pos: "rs_nextIndex s0 < signal_window" "rs_sampleCount s0 = min (length xs) signal_window" using r by (auto simp: ring_holds_def)
  have "rs_nextIndex s = (if rs_nextIndex s0 + 1 \<ge> signal_window then 0 else rs_nextIndex s0 + 1)" by (simp add: s rpc_record_def Let_def)
  with ring_next [OF pos(1)] have nx: "rs_nextIndex s = (rs_nextIndex s0 + 1) mod signal_window" by metis
  have fields: "rs_samples s = (rs_samples s0)[rs_nextIndex s0 := x]" "rs_sampleCount s = min (rs_sampleCount s0 + 1) signal_window"
    using pos by (auto simp: s rpc_record_def Let_def)
  have "errors_in (latest signal_window (xs @ [x])) = rs_errorCount s"
  proof (cases "length xs < signal_window")
    case True
    then have "rs_errorCount s = rs_errorCount s0 + (if x then 1 else 0)" using pos by (simp add: s rpc_record_def Let_def)
    moreover have "latest signal_window (xs @ [x]) = latest signal_window xs @ [x]" using True by (simp add: latest_def)
    ultimately show ?thesis using ih by (simp add: errors_in_def)
  next
    case False
    let ?k = "length xs - signal_window"
    have k: "?k < length xs" using False pos(1) by linarith
    have "rs_samples s0 ! (?k mod signal_window) = xs ! ?k" using r False k by (auto simp: ring_holds_def)
    moreover have "?k mod signal_window = rs_nextIndex s0" using r False by (simp add: ring_holds_def le_mod_geq)
    ultimately have old: "rs_samples s0 ! rs_nextIndex s0 = xs ! ?k" by simp
    have "latest signal_window xs = xs ! ?k # drop (Suc ?k) xs" using k by (simp add: latest_def Cons_nth_drop_Suc)
    moreover have "latest signal_window (xs @ [x]) = drop (Suc ?k) xs @ [x]" using False k by (simp add: latest_def Suc_diff_le)
    moreover have "rs_errorCount s = rs_errorCount s0 - (if xs ! ?k then 1 else 0) + (if x then 1 else 0)"
      using pos False old by (simp add: s rpc_record_def Let_def)
    ultimately show ?thesis using ih by (simp add: errors_in_def)
  qed
  then show ?case using ring_holds_push [OF r, of x] fields nx by simp
qed

lemma commit_window:
  assumes "fold commit_record latencies (ss_commit new_series) = s"
  shows "ring_holds signal_window (cs_window s) (cs_nextIndex s) (cs_sampleCount s) (filter (\<lambda>l. 0 \<le> l) latencies)"
  using assms
proof (induction latencies arbitrary: s rule: rev_induct)
  case Nil
  then show ?case by (auto simp: new_series_def ring_holds_def signal_window_def)
next
  case (snoc x xs)
  define s0 where "s0 = fold commit_record xs (ss_commit new_series)"
  have s: "s = commit_record x s0" using snoc.prems by (simp add: s0_def)
  note r = snoc.IH [OF s0_def [symmetric]]
  have pos: "cs_nextIndex s0 < signal_window" "cs_sampleCount s0 \<le> signal_window" using r by (auto simp: ring_holds_def)
  show ?case
  proof (cases "x < 0")
    case True
    then show ?thesis using r by (simp add: s commit_record_def)
  next
    case False
    have "cs_nextIndex s = (if cs_nextIndex s0 + 1 \<ge> signal_window then 0 else cs_nextIndex s0 + 1)" using False by (simp add: s commit_record_def)
    with ring_next [OF pos(1)] have "cs_nextIndex s = (cs_nextIndex s0 + 1) mod signal_window" by metis
    moreover have "cs_window s = (cs_window s0)[cs_nextIndex s0 := x]" "cs_sampleCount s = min (cs_sampleCount s0 + 1) signal_window"
      using False pos by (auto simp: s commit_record_def)
    ultimately show ?thesis using ring_holds_push [OF r, of x] False by simp
  qed
qed

lemma percentile_index:
  assumes "1 \<le> (n::nat)"
  shows "1 \<le> (n * 95 + 99) div 100 \<and> (n * 95 + 99) div 100 \<le> n"
proof -
  have "n * 95 + 99 < (n + 1) * 100" by simp
  then have "(n * 95 + 99) div 100 < n + 1" by (rule less_mult_imp_div_less)
  moreover have "100 div 100 \<le> (n * 95 + 99) div 100" using assms by (intro div_le_mono) simp
  ultimately show ?thesis by simp
qed

section \<open>Properties\<close>

text \<open>C29: the tuned batch size is safe and stable. Every batch size the controller returns is at least 1 and within
  the configured limits, even where a step overflows. Without an operator override and without
  overflow it changes only on healthy telemetry, outside every hold, by at most one step in the
  direction of the signal, after the signal has lasted for the hysteresis, and against the direction
  of the last change during its cooldown only for a critical signal.\<close>

theorem autotune_safe:
  assumes "at_reach a" "Resolve sum256 i a = (b, dg, a')"
  shows "1 \<le> at_minBatchSize a \<and> at_minBatchSize a \<le> b \<and> b \<le> at_maxBatchSize a \<and> b = at_currentBatch a' \<and>
    (at_operatorOverrideBatch a \<le> 0 \<and> at_maxBatchSize a + at_stepUp a < 2 ^ 63 \<and> at_stepDown a < 2 ^ 63 \<and> b \<noteq> at_currentBatch a \<longrightarrow>
      at_overrideReleaseLeft a \<le> 0 \<and> at_policyActivationLeft a \<le> 0 \<and> fst (resolveTelemetryState i a) = TelHealthy \<and>
      (\<exists>s. s = classifySignal i (lag_sequence i) a \<and>
        (s = SigIncrease \<and> at_currentBatch a < b \<and> b \<le> at_currentBatch a + at_stepUp a \<or>
         s = SigDecrease \<and> b < at_currentBatch a \<and> at_currentBatch a - at_stepDown a \<le> b) \<and>
        at_hysteresisTicks a \<le> (if at_lastSignal a = s then at_streak a + 1 else 1) \<and>
        (at_cooldownLeft a > 0 \<and> isOppositeSignal s (at_lastApplied a) \<longrightarrow> isCriticalChainScopedSignal s i)))"
proof -
  have ok: "batch_ok a" "batch_ok a'" using batch_ok_reach assms at_reach.resolve by blast+
  from assms(2) show ?thesis
  proof (cases rule: Resolve_cases)
    case held
    then show ?thesis using ok by (auto simp: batch_ok_def limits_def split: if_splits)
  next
    case (adaptive c s dec a1)
    note same = same_without_telemetry [OF adaptive(2), of i "lag_sequence i"]
    note moves = adaptive_control_moves [OF adaptive(4)]
    have lim: "limits a' = limits a" using adaptive(5) moves same by simp
    have lc: "at_minBatchSize c = at_minBatchSize a" "at_maxBatchSize c = at_maxBatchSize a" "at_stepUp c = at_stepUp a"
      "at_stepDown c = at_stepDown a" "at_hysteresisTicks c = at_hysteresisTicks a" using same by (simp_all add: limits_def)
    have within: "1 \<le> at_minBatchSize a" "at_minBatchSize a \<le> b" "b \<le> at_maxBatchSize a"
      using ok lim adaptive(1) by (simp_all add: batch_ok_def limits_def)
    have change: "at_overrideReleaseLeft a \<le> 0 \<and> at_policyActivationLeft a \<le> 0 \<and> fst (resolveTelemetryState i a) = TelHealthy \<and>
      (\<exists>s. s = classifySignal i (lag_sequence i) a \<and>
        (s = SigIncrease \<and> at_currentBatch a < b \<and> b \<le> at_currentBatch a + at_stepUp a \<or>
         s = SigDecrease \<and> b < at_currentBatch a \<and> at_currentBatch a - at_stepDown a \<le> b) \<and>
        at_hysteresisTicks a \<le> (if at_lastSignal a = s then at_streak a + 1 else 1) \<and>
        (at_cooldownLeft a > 0 \<and> isOppositeSignal s (at_lastApplied a) \<longrightarrow> isCriticalChainScopedSignal s i))"
      if h: "at_maxBatchSize a + at_stepUp a < 2 ^ 63" "at_stepDown a < 2 ^ 63" "b \<noteq> at_currentBatch a"
    proof -
      have "at_currentBatch a1 \<noteq> at_currentBatch c" using h(3) adaptive(1,6) same by simp
      then have "s \<noteq> SigHold \<and> at_currentBatch a1 = next_batch s c \<and> \<not> blockedByCooldown i s c \<and> at_hysteresisTicks c \<le> streak_after s c"
        using moves by blast
      then have m: "s \<noteq> SigHold" "b = next_batch s c" "\<not> blockedByCooldown i s c" "at_hysteresisTicks c \<le> streak_after s c"
        using adaptive(1,6) by simp_all
      have t: "fst (resolveTelemetryState i a) = TelHealthy" "s = classifySignal i (lag_sequence i) a"
        using moves [THEN conjunct1] m(1) same by metis+
      have up: "wrap64 (at_currentBatch a + at_stepUp a) = at_currentBatch a + at_stepUp a"
        "wrap64 (at_currentBatch a - at_stepDown a) = at_currentBatch a - at_stepDown a"
        using ok h(1,2) by (auto intro!: wrap64_id simp: batch_ok_def)
      have n: "b = clampInt (if s = SigIncrease then at_currentBatch a + at_stepUp a else at_currentBatch a - at_stepDown a) (at_minBatchSize a) (at_maxBatchSize a)"
        using m(2) up same by (simp add: next_batch_def lc)
      have d: "s = SigIncrease \<and> at_currentBatch a < b \<and> b \<le> at_currentBatch a + at_stepUp a \<or>
         s = SigDecrease \<and> b < at_currentBatch a \<and> at_currentBatch a - at_stepDown a \<le> b"
        using m(1) h(3) ok(1) unfolding n by (cases s) (auto simp: batch_ok_def clampInt_def split: if_splits)
      have st: "at_hysteresisTicks a \<le> (if at_lastSignal a = s then at_streak a + 1 else 1)"
        using m(4) same by (simp only: streak_after_def lc)
      have cd: "at_cooldownLeft a > 0 \<and> isOppositeSignal s (at_lastApplied a) \<longrightarrow> isCriticalChainScopedSignal s i"
        using m(3) same by (simp add: blockedByCooldown_def)
      show ?thesis using t d st cd adaptive(8,9) by blast
    qed
    show ?thesis using within change adaptive(1) by blast
  qed
qed

definition sample_tuning :: autotune_config where
  "sample_tuning = \<lparr>ac_Enabled = True, ac_MinBatchSize = 1, ac_MaxBatchSize = 100, ac_StepUp = 5, ac_StepDown = 5, ac_LagHighWatermark = 50,
     ac_LagLowWatermark = 10, ac_QueueHighWatermarkPct = 80, ac_QueueLowWatermarkPct = 30, ac_HysteresisTicks = 1, ac_CooldownTicks = 2,
     ac_TelemetryStaleTicks = 2, ac_TelemetryRecoveryTicks = 1, ac_OperatorOverrideBatchSize = 0, ac_OperatorReleaseHoldTicks = 0,
     ac_PolicyVersion = '''', ac_PolicyManifestDigest = '''', ac_PolicyManifestRefreshEpoch = 0, ac_PolicyActivationHoldTicks = 0\<rparr>"

definition sample_inputs :: autotune_inputs where
  "sample_inputs = \<lparr>ai_Chain = ''base'', ai_Network = ''mainnet'', ai_HasHeadSignal = True, ai_HeadSequence = 500, ai_HasMinCursorSignal = True,
     ai_MinCursorSequence = 100, ai_QueueDepth = 0, ai_QueueCapacity = 20, ai_RPCErrorRateBps = 0, ai_DBCommitLatencyP95Ms = 0, ai_DecisionEpochMs = 0\<rparr>"

theorem autotune_safe_witness:
  "\<exists>a dg a'. newAutoTuneControllerWithSeed 10 sample_tuning None = Some a \<and> Resolve (\<lambda>s. s) sample_inputs a = (15, dg, a') \<and>
     at_currentBatch a = 10 \<and> 15 \<le> at_maxBatchSize a \<and> at_currentBatch a' = 15 \<and> classifySignal sample_inputs (lag_sequence sample_inputs) a = SigIncrease"
proof -
  let ?n = "newAutoTuneControllerWithSeed 10 sample_tuning None"
  have "\<not> Option.is_none ?n" by code_simp
  then obtain a where a: "?n = Some a" by (auto simp: Option.is_none_def)
  then have r: "at_reach a" by (auto simp: newAutoTuneControllerWithSeed_def intro: at_reach.new)
  have "fst (Resolve (\<lambda>s. s) sample_inputs (the ?n)) = 15" by code_simp
  then obtain dg a' where res: "Resolve (\<lambda>s. s) sample_inputs a = (15, dg, a')" using a by (cases "Resolve (\<lambda>s. s) sample_inputs a") auto
  have "at_currentBatch (the ?n) = 10 \<and> at_operatorOverrideBatch (the ?n) = 0 \<and> at_maxBatchSize (the ?n) = 100 \<and> at_stepUp (the ?n) = 5 \<and> at_stepDown (the ?n) = 5"
    by code_simp
  then have v: "at_currentBatch a = 10" "at_operatorOverrideBatch a = 0" "at_maxBatchSize a = 100" "at_stepUp a = 5" "at_stepDown a = 5" using a by simp_all
  from autotune_safe [OF r res] v have "classifySignal sample_inputs (lag_sequence sample_inputs) a = SigIncrease" "at_currentBatch a' = 15" by auto
  then show ?thesis using a res v by auto
qed

text \<open>The runtime signals are exact over their windows. The reported RPC error rate is the share of errors among
  the last 64 outcomes in basis points, and the reported commit latency is the 95th percentile
  (nearest rank) of the last 64 latencies that are not negative.\<close>

theorem signal_windows_exact:
  "errorRateBps (fold rpc_record outcomes (ss_rpc new_series)) =
     (if outcomes = [] then 0 else int (length (filter id (latest 64 outcomes))) * 10000 div int (length (latest 64 outcomes))) \<and>
   p95Ms (fold commit_record latencies (ss_commit new_series)) =
     (let h = latest 64 (filter (\<lambda>l. 0 \<le> l) latencies) in if h = [] then 0 else sort h ! ((length h * 95 + 99) div 100 - 1))"
proof
  define s where "s = fold rpc_record outcomes (ss_rpc new_series)"
  define l where "l = latest 64 outcomes"
  note w = rpc_window [of outcomes s, OF s_def [symmetric]]
  have c: "rs_sampleCount s = length l" using ring_holds_count w unfolding signal_window_def l_def by blast
  have "count (mset xs) True = length (filter id xs)" for xs :: "bool list" by (induction xs) auto
  then have e: "rs_errorCount s = int (length (filter id l))" using w by (simp add: errors_in_def signal_window_def l_def)
  have n: "length l = 0 \<longleftrightarrow> outcomes = []" by (cases outcomes) (auto simp: latest_def l_def)
  show "errorRateBps (fold rpc_record outcomes (ss_rpc new_series)) = (if outcomes = [] then 0
      else int (length (filter id (latest 64 outcomes))) * 10000 div int (length (latest 64 outcomes)))"
    unfolding s_def [symmetric] l_def [symmetric] errorRateBps_def c e n ..
next
  define s where "s = fold commit_record latencies (ss_commit new_series)"
  define h where "h = latest 64 (filter (\<lambda>l. 0 \<le> l) latencies)"
  note w = commit_window [of latencies s, OF s_def [symmetric]]
  note cn = ring_holds_count [OF w, unfolded signal_window_def, folded h_def]
  note c = conjunct1 [OF cn] and n = conjunct2 [OF cn]
  note m = ring_holds_latest [OF w, unfolded signal_window_def, folded h_def]
  have st: "sort (take (cs_sampleCount s) (cs_window s)) = sort h"
    by (rule properties_for_sort) (simp_all only: mset_sort m sorted_sort)
  have "p95Ms s = (if h = [] then 0 else sort h ! ((length h * 95 + 99) div 100 - 1))"
  proof (cases "h = []")
    case True
    then show ?thesis using c by (simp add: p95Ms_def)
  next
    case False
    then have "1 \<le> length h" by (simp add: Suc_le_eq)
    note idx = percentile_index [OF this]
    have "\<not> length h \<le> (length h * 95 + 99) div 100 - 1" "0 < (length h * 95 + 99) div 100" using idx by linarith+
    then show ?thesis using False c unfolding p95Ms_def st Let_def length_sort by simp
  qed
  then show "p95Ms (fold commit_record latencies (ss_commit new_series)) =
     (let h = latest 64 (filter (\<lambda>l. 0 \<le> l) latencies) in if h = [] then 0 else sort h ! ((length h * 95 + 99) div 100 - 1))"
    unfolding s_def h_def Let_def .
qed

end
