(* ===== verification/Coordinator.thy ===== *)
theory Coordinator
  imports Autotune Watched_Addresses Store_DB
begin

text \<open>
  The coordinator (\<^verbatim>\<open>internal/pipeline/coordinator/coordinator.go\<close>): every tick reads the active addresses,
  the chain head and the watermark, lets the auto-tuner choose a batch size and enqueues one block
  range. A tick is given by what the adapter, the repositories and the channels answer. Heights are
  far below the 64-bit limit and are plain integers; the base batch size is stored as a 32-bit
  integer. The theory shows the shape of the ranges, that consecutive ranges leave no gap, and that a
  failed watermark read is taken for a first run.
\<close>

section \<open>State\<close>

record backfill_request =
  bf_Chain :: chain
  bf_Network :: network
  bf_FromBlock :: block_no

record restart_state =
  rst_Chain :: chain
  rst_Network :: network
  rst_BatchSize :: int
  rst_OverrideManualActive :: bool
  rst_OverrideReleaseRemaining :: int
  rst_PolicyVersion :: string
  rst_PolicyManifestDigest :: string
  rst_PolicyEpoch :: int
  rst_PolicyActivationRemaining :: int

record coordinator =
  co_chain :: chain
  co_network :: network
  co_batchSize :: int
  co_intervalNs :: duration
  co_hasHeadProvider :: bool
  co_autoTune :: "controller option"
  co_hasWmRepo :: bool
  co_maxInitialLookbackBlocks :: int
  co_intervalReset :: bool
  co_hasEnqueued :: bool
  co_lastEnqueuedStart :: block_no
  co_lastEnqueuedEnd :: block_no
  co_hasBackfillCh :: bool

definition NewCoordinator :: "chain \<Rightarrow> network \<Rightarrow> int \<Rightarrow> duration \<Rightarrow> coordinator" where
  "NewCoordinator c n batchSize interval = \<lparr>co_chain = c, co_network = n, co_batchSize = wrap32 batchSize, co_intervalNs = interval,
     co_hasHeadProvider = False, co_autoTune = None, co_hasWmRepo = False, co_maxInitialLookbackBlocks = 0, co_intervalReset = False,
     co_hasEnqueued = False, co_lastEnqueuedStart = 0, co_lastEnqueuedEnd = 0, co_hasBackfillCh = False\<rparr>"

definition WithHeadProvider :: "coordinator \<Rightarrow> coordinator" where
  "WithHeadProvider c = c\<lparr>co_hasHeadProvider := True\<rparr>"

definition WithBlockScanMode :: "coordinator \<Rightarrow> coordinator" where
  "WithBlockScanMode c = c\<lparr>co_hasWmRepo := True\<rparr>"

definition WithMaxInitialLookbackBlocks :: "int \<Rightarrow> coordinator \<Rightarrow> coordinator" where
  "WithMaxInitialLookbackBlocks n c = c\<lparr>co_maxInitialLookbackBlocks := n\<rparr>"

definition WithBackfillChannel :: "coordinator \<Rightarrow> coordinator" where
  "WithBackfillChannel c = c\<lparr>co_hasBackfillCh := True\<rparr>"

definition UpdateBatchSize :: "int \<Rightarrow> coordinator \<Rightarrow> coordinator" where
  "UpdateBatchSize newBatchSize c = (if newBatchSize \<le> 0 then c else c\<lparr>co_batchSize := wrap32 newBatchSize\<rparr>)"

definition UpdateInterval :: "duration \<Rightarrow> coordinator \<Rightarrow> bool \<times> coordinator" where
  "UpdateInterval newInterval c =
     (if newInterval \<le> 0 then (False, c)
      else if co_intervalNs c \<noteq> newInterval then (True, c\<lparr>co_intervalNs := newInterval, co_intervalReset := True\<rparr>)
      else (False, c))"

section \<open>Auto-tuning across restarts\<close>

definition ExportAutoTuneRestartState :: "coordinator \<Rightarrow> restart_state option" where
  "ExportAutoTuneRestartState c = (case co_autoTune c of
     None \<Rightarrow> None
   | Some a \<Rightarrow> (let ov = exportOverrideTransition a; po = exportPolicyTransition a in
       Some \<lparr>rst_Chain = co_chain c, rst_Network = co_network c, rst_BatchSize = at_currentBatch a,
         rst_OverrideManualActive = ot_WasManualOverride ov, rst_OverrideReleaseRemaining = ot_ReleaseHoldRemaining ov,
         rst_PolicyVersion = pt_Version po, rst_PolicyManifestDigest = pt_ManifestDigest po, rst_PolicyEpoch = pt_Epoch po,
         rst_PolicyActivationRemaining = pt_ActivationHoldRemaining po\<rparr>))"

definition no_override :: override_transition where
  "no_override = \<lparr>ot_WasManualOverride = False, ot_ReleaseHoldRemaining = 0\<rparr>"

definition no_policy :: policy_transition where
  "no_policy = \<lparr>pt_HasState = False, pt_Version = '''', pt_ManifestDigest = '''', pt_Epoch = 0, pt_ActivationHoldRemaining = 0,
     pt_FromWarmCheckpoint = False\<rparr>"

definition warm_policy :: "restart_state \<Rightarrow> policy_transition" where
  "warm_policy w =
     (if TrimSpace (rst_PolicyVersion w) \<noteq> '''' \<or> TrimSpace (rst_PolicyManifestDigest w) \<noteq> '''' \<or> rst_PolicyEpoch w > 0 \<or>
        rst_PolicyActivationRemaining w > 0
      then \<lparr>pt_HasState = True, pt_Version = rst_PolicyVersion w, pt_ManifestDigest = rst_PolicyManifestDigest w,
        pt_Epoch = max 0 (rst_PolicyEpoch w), pt_ActivationHoldRemaining = max (rst_PolicyActivationRemaining w) 0, pt_FromWarmCheckpoint = True\<rparr>
      else no_policy)"

text \<open>The seed, whether it is a warm start, and the two transitions to reconcile.\<close>

definition tuning_seed :: "restart_state option \<Rightarrow> coordinator \<Rightarrow> int option \<times> bool \<times> override_transition \<times> policy_transition" where
  "tuning_seed warmState c = (case warmState of
     Some w \<Rightarrow>
       if rst_Chain w \<noteq> co_chain c \<or> rst_Network w \<noteq> co_network c \<or> rst_BatchSize w \<le> 0 then (None, False, no_override, no_policy)
       else (Some (rst_BatchSize w), True,
         \<lparr>ot_WasManualOverride = rst_OverrideManualActive w, ot_ReleaseHoldRemaining = max (rst_OverrideReleaseRemaining w) 0\<rparr>, warm_policy w)
   | None \<Rightarrow> (case co_autoTune c of
       None \<Rightarrow> (None, False, no_override, no_policy)
     | Some a \<Rightarrow> (Some (at_currentBatch a), False, exportOverrideTransition a, exportPolicyTransition a)))"

definition withAutoTune :: "autotune_config \<Rightarrow> restart_state option \<Rightarrow> coordinator \<Rightarrow> coordinator" where
  "withAutoTune cfg warmState c =
     (let (seed, warm, ov, po) = tuning_seed warmState c;
          boundedStart = (warm \<and> \<not> ot_WasManualOverride ov \<and> ot_ReleaseHoldRemaining ov = 0 \<and> \<not> pt_HasState po);
          a = (if boundedStart then newAutoTuneControllerWithRestartSeed (co_batchSize c) cfg seed
               else newAutoTuneControllerWithSeed (co_batchSize c) cfg seed)
      in c\<lparr>co_autoTune := map_option (\<lambda>x. reconcilePolicyTransition po (reconcileOverrideTransition ov x)) a\<rparr>)"

section \<open>A tick\<close>

record tick_io =
  ti_activeErr :: "gerr option"
  ti_head :: "gerr + block_no"
  ti_wmErr :: "gerr option"
  ti_queueDepth :: int
  ti_queueCap :: int
  ti_sendErr :: "gerr option"
  ti_pendingErr :: "gerr option"
  ti_backfillFull :: bool

definition start_block :: "tick_io \<Rightarrow> db \<Rightarrow> block_no \<Rightarrow> coordinator \<Rightarrow> block_no \<times> bool" where
  "start_block io d head c =
     (let (start, hasWatermark) =
        (if co_hasWmRepo c \<and> ti_wmErr io = None then
           (case GetWatermark (co_chain c) (co_network c) d of
              Some w \<Rightarrow> if w > 0 then (w + 1, True) else (0, False)
            | None \<Rightarrow> (0, False))
         else (0, False))
      in if \<not> hasWatermark \<and> head > 0 \<and> co_maxInitialLookbackBlocks c > 0
         then (max start (max 0 (head - co_maxInitialLookbackBlocks c + 1)), hasWatermark)
         else (start, hasWatermark))"

definition tick_inputs :: "tick_io \<Rightarrow> block_no \<Rightarrow> block_no \<Rightarrow> coordinator \<Rightarrow> autotune_inputs" where
  "tick_inputs io head start c = \<lparr>ai_Chain = co_chain c, ai_Network = co_network c, ai_HasHeadSignal = co_hasHeadProvider c, ai_HeadSequence = head,
     ai_HasMinCursorSignal = True, ai_MinCursorSequence = start, ai_QueueDepth = ti_queueDepth io, ai_QueueCapacity = ti_queueCap io,
     ai_RPCErrorRateBps = 0, ai_DBCommitLatencyP95Ms = 0, ai_DecisionEpochMs = 0\<rparr>"

definition tick_batch :: "(string \<Rightarrow> string) \<Rightarrow> tick_io \<Rightarrow> block_no \<Rightarrow> block_no \<Rightarrow> coordinator \<Rightarrow> int \<times> coordinator" where
  "tick_batch sum256 io head start c =
     (let (b, c') = (case co_autoTune c of
            None \<Rightarrow> (co_batchSize c, c)
          | Some a \<Rightarrow> (let (b, _, a') = Resolve sum256 (tick_inputs io head start c) a in (b, c\<lparr>co_autoTune := Some a'\<rparr>)))
      in (if b \<le> 0 then co_batchSize c else b, c'))"

definition end_block :: "block_no \<Rightarrow> block_no \<Rightarrow> int \<Rightarrow> block_no" where
  "end_block head start batch = (if head > 0 \<and> head - start + 1 > batch then start + batch - 1 else head)"

definition backfill_check :: "tick_io \<Rightarrow> watched_address list \<Rightarrow> block_no \<Rightarrow> bool \<Rightarrow> coordinator \<Rightarrow> backfill_request option" where
  "backfill_check io rows start hasWatermark c =
     (if co_hasBackfillCh c \<and> co_hasWmRepo c \<and> hasWatermark \<and> ti_pendingErr io = None then
        (case GetPendingBackfill rows (co_chain c) (co_network c) of
           [] \<Rightarrow> None
         | a # _ \<Rightarrow> (case wa_BackfillFromBlock a of
             None \<Rightarrow> None
           | Some b \<Rightarrow> if b < start \<and> \<not> ti_backfillFull io
               then Some \<lparr>bf_Chain = co_chain c, bf_Network = co_network c, bf_FromBlock = b\<rparr> else None))
      else None)"

type_synonym tick_result = "gerr option \<times> fetch_job option \<times> backfill_request option \<times> coordinator"

definition tickBlockScan :: "(string \<Rightarrow> string) \<Rightarrow> tick_io \<Rightarrow> watched_address list \<Rightarrow> db \<Rightarrow> coordinator \<Rightarrow> tick_result" where
  "tickBlockScan sum256 io rows d c = (case ti_activeErr io of
     Some e \<Rightarrow> (Some e, None, None, c)
   | None \<Rightarrow>
     let addresses = GetActive rows (co_chain c) (co_network c) in
     if addresses = [] then (None, None, None, c)
     else case (if co_hasHeadProvider c then ti_head io else Inr 0) of
       Inl e \<Rightarrow> (Some (ErrWrap ''resolve tick cutoff head: '' e), None, None, c)
     | Inr h \<Rightarrow>
       let head = max h 0; (start, hasWatermark) = start_block io d head c in
       if head > 0 \<and> start > head then (None, None, None, c)
       else
         let (batch, c1) = tick_batch sum256 io head start c; endB = end_block head start batch in
         if co_hasWmRepo c1 \<and> co_hasEnqueued c1 \<and> start = co_lastEnqueuedStart c1 \<and> endB = co_lastEnqueuedEnd c1 then (None, None, None, c1)
         else case ti_sendErr io of
           Some e \<Rightarrow> (Some e, None, None, c1)
         | None \<Rightarrow>
           let job = \<lparr>fj_Chain = co_chain c, fj_Network = co_network c, fj_Address = '''', fj_CursorValue = None, fj_CursorSequence = 0,
                 fj_FetchCutoffSeq = endB, fj_BatchSize = batch, fj_WalletID = None, fj_OrgID = None, fj_BlockScanMode = True,
                 fj_StartBlock = start, fj_EndBlock = endB,
                 fj_WatchedAddresses = map wa_Address addresses\<rparr>;
               c2 = c1\<lparr>co_hasEnqueued := True, co_lastEnqueuedStart := start, co_lastEnqueuedEnd := endB\<rparr>
           in (None, Some job, backfill_check io rows start hasWatermark c2, c2))"

text \<open>The loop of \<^verbatim>\<open>Run\<close> over its ticks; the first error stops it. Between two ticks the other components change
  the tables.\<close>

fun coordinator_run :: "(string \<Rightarrow> string) \<Rightarrow> (tick_io \<times> watched_address list \<times> db) list \<Rightarrow> coordinator \<Rightarrow> gerr option \<times> fetch_job list \<times> coordinator" where
  "coordinator_run sum256 [] c = (None, [], c)"
| "coordinator_run sum256 ((io, rows, d) # ts) c = (case tickBlockScan sum256 io rows d c of
     (Some e, _, _, c') \<Rightarrow> (Some (ErrWrap ''coordinator tick failed: '' e), [], c')
   | (None, job, _, c') \<Rightarrow> (let (err, jobs, c'') = coordinator_run sum256 ts c' in (err, (case job of None \<Rightarrow> jobs | Some j \<Rightarrow> j # jobs), c'')))"

section \<open>What a tick does\<close>

definition co_ok :: "coordinator \<Rightarrow> bool" where
  "co_ok c \<longleftrightarrow> 0 < co_batchSize c \<and> (\<forall>a. co_autoTune c = Some a \<longrightarrow> at_reach a)"

definition same_wiring :: "coordinator \<Rightarrow> coordinator \<Rightarrow> bool" where
  "same_wiring c c' \<longleftrightarrow> co_chain c' = co_chain c \<and> co_network c' = co_network c \<and> co_batchSize c' = co_batchSize c \<and>
     co_hasHeadProvider c' = co_hasHeadProvider c \<and> co_hasWmRepo c' = co_hasWmRepo c \<and>
     co_maxInitialLookbackBlocks c' = co_maxInitialLookbackBlocks c"

lemma tick_batch_ok:
  assumes "co_ok c" "tick_batch sum256 io head start c = (b, c')"
  shows "1 \<le> b \<and> co_ok c' \<and> (\<exists>at. c' = c\<lparr>co_autoTune := at\<rparr>)"
proof (cases "co_autoTune c")
  case None
  then have "c' = c\<lparr>co_autoTune := co_autoTune c\<rparr>" using assms(2) by (simp add: tick_batch_def)
  then show ?thesis using assms None by (auto simp: tick_batch_def co_ok_def)
next
  case (Some a)
  obtain b0 dg a' where r: "Resolve sum256 (tick_inputs io head start c) a = (b0, dg, a')" by (cases "Resolve sum256 (tick_inputs io head start c) a") auto
  have reach: "at_reach a" "at_reach a'" using assms(1) Some r at_reach.resolve by (auto simp: co_ok_def)
  have "b0 = at_currentBatch a'" using r by (cases rule: Resolve_cases) simp_all
  moreover have "1 \<le> at_currentBatch a'" using batch_ok_reach [OF reach(2)] by (simp add: batch_ok_def)
  ultimately have "1 \<le> b0" by simp
  then show ?thesis using assms Some r reach by (auto simp: tick_batch_def co_ok_def)
qed

text \<open>A tick that enqueues a job, and one that does not.\<close>

lemma tick_cases:
  assumes "tickBlockScan sum256 io rows d c = (err, job, bf, c')" "co_ok c"
  obtains (idle) "job = None" "co_ok c'" "same_wiring c c'" "co_hasEnqueued c' = co_hasEnqueued c"
      "co_lastEnqueuedStart c' = co_lastEnqueuedStart c" "co_lastEnqueuedEnd c' = co_lastEnqueuedEnd c"
  | (sent) j head start hasWm batch where "job = Some j" "err = None" "co_ok c'" "same_wiring c c'"
      "(if co_hasHeadProvider c then ti_head io else Inr 0) = Inr head" "start_block io d (max head 0) c = (start, hasWm)"
      "\<not> (max head 0 > 0 \<and> start > max head 0)" "1 \<le> batch" "fj_BatchSize j = batch"
      "fj_StartBlock j = start" "fj_EndBlock j = end_block (max head 0) start batch" "fj_FetchCutoffSeq j = fj_EndBlock j"
      "fj_WatchedAddresses j = map wa_Address (GetActive rows (co_chain c) (co_network c))" "fj_Chain j = co_chain c" "fj_Network j = co_network c"
proof -
  have self: "same_wiring c c" by (simp add: same_wiring_def)
  show thesis
  proof (cases "ti_activeErr io = None \<and> GetActive rows (co_chain c) (co_network c) \<noteq> []")
    case False
    then have "job = None \<and> c' = c" using assms(1) by (auto simp: tickBlockScan_def split: option.splits)
    then show thesis using idle assms(2) self by simp
  next
    case True
    let ?src = "if co_hasHeadProvider c then ti_head io else Inr 0"
    show thesis
    proof (cases ?src)
      case (Inl e)
      then have "job = None \<and> c' = c" using assms(1) True by (auto simp: tickBlockScan_def Let_def)
      then show thesis using idle assms(2) self by simp
    next
      case (Inr h)
      obtain start hasWm where st: "start_block io d (max h 0) c = (start, hasWm)" by (cases "start_block io d (max h 0) c")
      obtain batch c1 where b: "tick_batch sum256 io (max h 0) start c = (batch, c1)" by (cases "tick_batch sum256 io (max h 0) start c")
      from tick_batch_ok [OF assms(2) b] obtain at where c1: "1 \<le> batch" "co_ok c1" "c1 = c\<lparr>co_autoTune := at\<rparr>" by blast
      then have w1: "same_wiring c c1" by (simp add: same_wiring_def)
      note body = assms(1) [unfolded tickBlockScan_def Let_def Inr st b sum.case case_prod_conv]
      show thesis
      proof (cases "max h 0 > 0 \<and> start > max h 0")
        case True': True
        then have "job = None \<and> c' = c" using body True by auto
        then show thesis using idle assms(2) self by simp
      next
        case inside: False
        show thesis
        proof (cases "(co_hasWmRepo c1 \<and> co_hasEnqueued c1 \<and> start = co_lastEnqueuedStart c1 \<and> end_block (max h 0) start batch = co_lastEnqueuedEnd c1) \<or> ti_sendErr io \<noteq> None")
          case dup: True
          then have "job = None \<and> c' = c1" using body True inside by (auto split: if_splits option.splits)
          then show thesis using idle c1 w1 by simp
        next
          case send: False
          then have nd: "\<not> (co_hasWmRepo c1 \<and> co_hasEnqueued c1 \<and> start = co_lastEnqueuedStart c1 \<and> end_block (max h 0) start batch = co_lastEnqueuedEnd c1)"
            and se: "ti_sendErr io = None" by blast+
          have na: "ti_activeErr io = None" "\<not> GetActive rows (co_chain c) (co_network c) = []" using True by blast+
          note sends = body [unfolded na(1) option.case if_not_P [OF na(2)] if_not_P [OF inside] if_not_P [OF nd] se]
          then obtain j where j: "job = Some j" "err = None" "fj_BatchSize j = batch" "fj_StartBlock j = start"
            "fj_EndBlock j = end_block (max h 0) start batch" "fj_FetchCutoffSeq j = fj_EndBlock j"
            "fj_WatchedAddresses j = map wa_Address (GetActive rows (co_chain c) (co_network c))" "fj_Chain j = co_chain c" "fj_Network j = co_network c"
            and c': "c' = c1\<lparr>co_hasEnqueued := True, co_lastEnqueuedStart := start, co_lastEnqueuedEnd := end_block (max h 0) start batch\<rparr>"
            by auto
          have "co_ok c'" "same_wiring c c'" using c1 w1 c' by (simp_all add: co_ok_def same_wiring_def)
          then show thesis using sent [OF j(1,2) _ _ Inr st inside c1(1) j(3-)] by blast
        qed
      qed
    qed
  qed
qed

lemma start_watermark:
  "\<lbrakk>co_hasWmRepo c; ti_wmErr io = None; GetWatermark (co_chain c) (co_network c) d = Some w; 0 < w\<rbrakk> \<Longrightarrow> start_block io d head c = (w + 1, True)"
  by (simp add: start_block_def)

lemma start_lookback:
  assumes "start_block io d head c = (start, False)" "0 < head" "0 < co_maxInitialLookbackBlocks c"
  shows "start = max 0 (head - co_maxInitialLookbackBlocks c + 1)"
  using assms by (auto simp: start_block_def split: if_splits option.splits)

lemma end_block_bounds:
  "\<lbrakk>0 < head; start \<le> head; 1 \<le> batch\<rbrakk> \<Longrightarrow> start \<le> end_block head start batch \<and> end_block head start batch \<le> head \<and>
     end_block head start batch < start + batch \<and> (end_block head start batch = head \<or> end_block head start batch = start + batch - 1)"
  by (auto simp: end_block_def)

section \<open>Properties\<close>


definition sample_address :: watched_address where
  "sample_address = \<lparr>wa_ID = 1, wa_Chain = ''base'', wa_Network = ''mainnet'', wa_Address = ''0xaa'', wa_WalletID = None, wa_OrganizationID = None,
     wa_Label = None, wa_IsActive = True, wa_Source = ''db'', wa_BackfillFromBlock = None\<rparr>"

definition at_watermark :: "int \<Rightarrow> db" where
  "at_watermark w = empty_db\<lparr>db_watermarks := [(''base'', ''mainnet'') \<mapsto> w]\<rparr>"

definition at_head :: "block_no \<Rightarrow> tick_io" where
  "at_head h = \<lparr>ti_activeErr = None, ti_head = Inr h, ti_wmErr = None, ti_queueDepth = 0, ti_queueCap = 20, ti_sendErr = None, ti_pendingErr = None,
     ti_backfillFull = False\<rparr>"

definition sample_coordinator :: coordinator where
  "sample_coordinator = WithMaxInitialLookbackBlocks 50 (WithBlockScanMode (WithHeadProvider (NewCoordinator ''base'' ''mainnet'' 100 1000)))"

lemma sample_coordinator_ok: "co_ok sample_coordinator"
  by (simp add: co_ok_def sample_coordinator_def WithMaxInitialLookbackBlocks_def WithBlockScanMode_def WithHeadProvider_def NewCoordinator_def wrap32_def)

lemma sample_tick:
  "\<exists>err j bf c'. tickBlockScan (\<lambda>s. s) (at_head 1000) [sample_address] (at_watermark 99) sample_coordinator = (err, Some j, bf, c') \<and>
     co_hasHeadProvider sample_coordinator"
proof -
  let ?r = "tickBlockScan (\<lambda>s. s) (at_head 1000) [sample_address] (at_watermark 99) sample_coordinator"
  have "\<not> Option.is_none (fst (snd ?r))" "co_hasHeadProvider sample_coordinator" by code_simp+
  then show ?thesis by (cases ?r) (auto simp: Option.is_none_def)
qed


text \<open>Every tick reads a positive watermark at or below the largest block enqueued so far.\<close>

fun watermark_follows :: "(string \<Rightarrow> string) \<Rightarrow> (tick_io \<times> watched_address list \<times> db) list \<Rightarrow> coordinator \<Rightarrow> block_no \<Rightarrow> bool" where
  "watermark_follows sum256 [] c hi = True"
| "watermark_follows sum256 ((io, rows, d) # ts) c hi \<longleftrightarrow>
     ti_wmErr io = None \<and> (case ti_head io of Inl _ \<Rightarrow> False | Inr h \<Rightarrow> 0 < h) \<and>
     (case GetWatermark (co_chain c) (co_network c) d of None \<Rightarrow> False | Some w \<Rightarrow> 0 < w \<and> w \<le> hi) \<and>
     (case tickBlockScan sum256 io rows d c of (_, job, _, c') \<Rightarrow>
        watermark_follows sum256 ts c' (case job of None \<Rightarrow> hi | Some j \<Rightarrow> max hi (fj_EndBlock j)))"

lemma tick_no_gap:
  assumes "co_ok c" "co_hasHeadProvider c" "co_hasWmRepo c" "tickBlockScan sum256 io rows d c = (err, Some j, bf, c')"
    and "ti_wmErr io = None" "ti_head io = Inr h" "0 < h" "GetWatermark (co_chain c) (co_network c) d = Some w" "0 < w"
  shows "fj_StartBlock j = w + 1"
  using assms(4,1)
proof (cases rule: tick_cases)
  case (sent j' h' start hasWm batch)
  then show ?thesis using start_watermark [OF assms(3,5,8,9)] by simp
qed simp

lemma no_gaps_run:
  assumes "watermark_follows sum256 ts c hi" "coordinator_run sum256 ts c = (err, jobs, c')" "co_ok c" "co_hasHeadProvider c" "co_hasWmRepo c"
  shows "\<forall>j \<in> set jobs. \<forall>b. hi < b \<and> b \<le> fj_EndBlock j \<longrightarrow> (\<exists>j' \<in> set jobs. fj_StartBlock j' \<le> b \<and> b \<le> fj_EndBlock j')"
  using assms
proof (induction ts arbitrary: c hi err jobs c')
  case (Cons t ts)
  obtain io rows d where t: "t = (io, rows, d)" by (cases t)
  obtain e job bf c1 where r: "tickBlockScan sum256 io rows d c = (e, job, bf, c1)" by (cases "tickBlockScan sum256 io rows d c") auto
  from Cons.prems(1) obtain h w where f: "ti_wmErr io = None" "ti_head io = Inr h" "0 < h" "GetWatermark (co_chain c) (co_network c) d = Some w" "0 < w" "w \<le> hi"
    "watermark_follows sum256 ts c1 (case job of None \<Rightarrow> hi | Some j \<Rightarrow> max hi (fj_EndBlock j))"
    using r by (auto simp: t split: option.splits sum.splits)
  have keep: "co_ok c1 \<and> same_wiring c c1" using r Cons.prems(3) by (cases rule: tick_cases) auto
  then have ok: "co_ok c1" "co_hasHeadProvider c1" "co_hasWmRepo c1" using Cons.prems(4,5) by (simp_all add: same_wiring_def)
  show ?case
  proof (cases e)
    case (Some x)
    then show ?thesis using Cons.prems(2) r by (simp add: t)
  next
    case None
    obtain err2 jobs2 c2 where rest: "coordinator_run sum256 ts c1 = (err2, jobs2, c2)" by (cases "coordinator_run sum256 ts c1") auto
    have jobs: "jobs = (case job of None \<Rightarrow> jobs2 | Some j \<Rightarrow> j # jobs2)" using Cons.prems(2) r rest None by (simp add: t)
    note ih = Cons.IH [OF f(7) rest ok]
    show ?thesis
    proof (cases job)
      case None
      then show ?thesis using ih jobs by simp
    next
      case (Some j)
      have start: "fj_StartBlock j = w + 1" using tick_no_gap [OF Cons.prems(3,4,5) _ f(1-5)] r Some by blast
      show ?thesis
      proof (intro ballI allI impI)
        fix k b assume k: "k \<in> set jobs" and b: "hi < b \<and> b \<le> fj_EndBlock k"
        show "\<exists>j' \<in> set jobs. fj_StartBlock j' \<le> b \<and> b \<le> fj_EndBlock j'"
        proof (cases "b \<le> fj_EndBlock j")
          case True
          then show ?thesis using start f(6) b jobs Some by auto
        next
          case False
          then have "k \<in> set jobs2" using k jobs Some b by auto
          then obtain j' where "j' \<in> set jobs2" "fj_StartBlock j' \<le> b" "b \<le> fj_EndBlock j'"
            using ih False b Some by fastforce
          then show ?thesis using jobs Some by auto
        qed
      qed
    qed
  qed
qed simp

text \<open>C32: the scan leaves no gap. While the watermark can be read and never overtakes what has been enqueued, every
  block between the first watermark and the end of any enqueued job is covered by an enqueued job.\<close>

theorem coordinator_no_gaps:
  assumes "watermark_follows sum256 ticks c hi" "coordinator_run sum256 ticks c = (err, jobs, c')"
    and "co_ok c" "co_hasHeadProvider c" "co_hasWmRepo c" "j \<in> set jobs" "hi < b" "b \<le> fj_EndBlock j"
  shows "\<exists>j' \<in> set jobs. fj_StartBlock j' \<le> b \<and> b \<le> fj_EndBlock j'"
  using no_gaps_run [OF assms(1-5)] assms(6-8) by blast

definition sample_schedule :: "(tick_io \<times> watched_address list \<times> db) list" where
  "sample_schedule = [(at_head 150, [sample_address], at_watermark 99), (at_head 150, [sample_address], at_watermark 99),
     (at_head 300, [sample_address], at_watermark 150)]"

theorem coordinator_no_gaps_witness:
  "\<exists>err jobs c' j. coordinator_run (\<lambda>s. s) sample_schedule sample_coordinator = (err, jobs, c') \<and> j \<in> set jobs \<and> fj_EndBlock j = 250 \<and>
     (\<exists>j' \<in> set jobs. fj_StartBlock j' \<le> 120 \<and> 120 \<le> fj_EndBlock j')"
proof -
  let ?r = "coordinator_run (\<lambda>s. s) sample_schedule sample_coordinator"
  obtain err jobs c' where r: "?r = (err, jobs, c')" by (cases ?r) auto
  have f: "watermark_follows (\<lambda>s. s) sample_schedule sample_coordinator 99"
    by code_simp
  have "list_ex (\<lambda>j. fj_EndBlock j = 250) (fst (snd ?r))" "co_hasHeadProvider sample_coordinator" "co_hasWmRepo sample_coordinator" by code_simp+
  moreover obtain j where j: "j \<in> set jobs" "fj_EndBlock j = 250" using calculation(1) r by (auto simp: list_ex_iff)
  ultimately have "\<exists>j' \<in> set jobs. fj_StartBlock j' \<le> 120 \<and> 120 \<le> fj_EndBlock j'"
    using coordinator_no_gaps [OF f r sample_coordinator_ok _ _ j(1), of 120] by simp
  then show ?thesis using r j by blast
qed

text \<open>A failed watermark read is taken for a first run. With a lookback limit the next job starts near the head
  whatever the stored watermark is, so the blocks between the watermark and that start are never enqueued by it.\<close>

theorem watermark_error_skips:
  assumes "co_ok c" "co_hasHeadProvider c" "ti_head io = Inr head" "0 < head" "0 < co_maxInitialLookbackBlocks c" "ti_wmErr io \<noteq> None"
    and "tickBlockScan sum256 io rows d c = (err, Some j, bf, c')"
  shows "fj_StartBlock j = max 0 (head - co_maxInitialLookbackBlocks c + 1) \<and> err = None"
  using assms(7,1)
proof (cases rule: tick_cases)
  case (sent j' h start hasWm batch)
  then show ?thesis using assms(2-6) by (auto simp: start_block_def)
qed simp

definition wm_down :: tick_io where
  "wm_down = (at_head 1000)\<lparr>ti_wmErr := Some (ErrMsg ''connection refused'')\<rparr>"

theorem watermark_error_skips_witness:
  "\<exists>err j bf c'. tickBlockScan (\<lambda>s. s) wm_down [sample_address] (at_watermark 99) sample_coordinator = (err, Some j, bf, c') \<and> fj_StartBlock j = 951"
proof -
  let ?r = "tickBlockScan (\<lambda>s. s) wm_down [sample_address] (at_watermark 99) sample_coordinator"
  have "\<not> Option.is_none (fst (snd ?r))" "co_hasHeadProvider sample_coordinator" "co_maxInitialLookbackBlocks sample_coordinator = 50"
    "ti_head wm_down = Inr 1000" "\<not> Option.is_none (ti_wmErr wm_down)" by code_simp+
  moreover obtain err j bf c' where r: "?r = (err, Some j, bf, c')" using calculation(1) by (cases ?r) (auto simp: Option.is_none_def)
  ultimately have "fj_StartBlock j = 951" using watermark_error_skips [OF sample_coordinator_ok _ _ _ _ _ r, of 1000] by (auto simp: Option.is_none_def)
  then show ?thesis using r by blast
qed

end
