(* ===== verification/Health.thy ===== *)
theory Health
  imports Go_Text Ring_Window Domain_Model
begin

text \<open>
  The health tracker of a pipeline (\<^verbatim>\<open>internal/pipeline/health.go\<close>): status, consecutive failures and a ring
  of the last ten latencies. Every method runs under one mutex and is a function of the tracker and
  the current time. The 95th percentile of at most ten samples is their maximum, so the tracker is
  degraded exactly when one of the last ten latencies is above the threshold.
\<close>

datatype health_status = HealthStatusUnknown | HealthStatusHealthy | HealthStatusDegraded | HealthStatusUnhealthy | HealthStatusInactive

definition latencyWindowSize :: nat where
  "latencyWindowSize = 10"

record pipeline_health =
  ph_chain :: chain
  ph_network :: network
  ph_status :: health_status
  ph_consecutiveFailures :: int
  ph_lastSuccessAt :: "time option"
  ph_lastFailureAt :: "time option"
  ph_unhealthyThreshold :: int
  ph_latencyBuf :: "duration list"
  ph_latencyHead :: nat
  ph_latencyCount :: nat
  ph_degradedLatencyThreshold :: duration

record health_snapshot =
  hs_Chain :: string
  hs_Network :: string
  hs_Status :: health_status
  hs_ConsecutiveFailures :: int
  hs_LastSuccessAt :: "time option"
  hs_LastFailureAt :: "time option"

definition NewPipelineHealth :: "chain \<Rightarrow> network \<Rightarrow> pipeline_health" where
  "NewPipelineHealth c n = \<lparr>ph_chain = c, ph_network = n, ph_status = HealthStatusUnknown, ph_consecutiveFailures = 0, ph_lastSuccessAt = None,
     ph_lastFailureAt = None, ph_unhealthyThreshold = 5, ph_latencyBuf = replicate latencyWindowSize 0, ph_latencyHead = 0, ph_latencyCount = 0,
     ph_degradedLatencyThreshold = 5000000000\<rparr>"

definition SetStatus :: "health_status \<Rightarrow> pipeline_health \<Rightarrow> pipeline_health" where
  "SetStatus s h = h\<lparr>ph_status := s\<rparr>"

definition percentileLatency :: "nat \<Rightarrow> pipeline_health \<Rightarrow> duration" where
  "percentileLatency pct h =
     (let n = ph_latencyCount h in
      if n = 0 then 0
      else sort (take n (ph_latencyBuf h)) ! min ((pct * n - 1) div 100) (n - 1))"

definition isLatencyDegraded :: "pipeline_health \<Rightarrow> bool" where
  "isLatencyDegraded h = (if ph_latencyCount h < 2 then False else percentileLatency 95 h > ph_degradedLatencyThreshold h)"

definition health_RecordSuccess :: "time \<Rightarrow> pipeline_health \<Rightarrow> pipeline_health" where
  "health_RecordSuccess now h =
     h\<lparr>ph_consecutiveFailures := 0, ph_lastSuccessAt := Some now,
       ph_status := if isLatencyDegraded h then HealthStatusDegraded else HealthStatusHealthy\<rparr>"

definition RecordSuccessWithRecovery :: "time \<Rightarrow> pipeline_health \<Rightarrow> bool \<times> pipeline_health" where
  "RecordSuccessWithRecovery now h =
     (ph_status h = HealthStatusUnhealthy,
      h\<lparr>ph_consecutiveFailures := 0, ph_lastSuccessAt := Some now,
        ph_status := if isLatencyDegraded h then HealthStatusDegraded else HealthStatusHealthy\<rparr>)"

definition RecordLatency :: "duration \<Rightarrow> pipeline_health \<Rightarrow> pipeline_health" where
  "RecordLatency d h =
     (let h1 = h\<lparr>ph_latencyBuf := (ph_latencyBuf h)[ph_latencyHead h := d], ph_latencyHead := (ph_latencyHead h + 1) mod latencyWindowSize,
            ph_latencyCount := if ph_latencyCount h < latencyWindowSize then ph_latencyCount h + 1 else ph_latencyCount h\<rparr>
      in if ph_status h1 = HealthStatusHealthy \<or> ph_status h1 = HealthStatusDegraded then
           (if isLatencyDegraded h1 then h1\<lparr>ph_status := HealthStatusDegraded\<rparr>
            else if ph_status h1 = HealthStatusDegraded \<and> ph_consecutiveFailures h1 = 0 then h1\<lparr>ph_status := HealthStatusHealthy\<rparr>
            else h1)
         else h1)"

definition health_RecordFailure :: "time \<Rightarrow> pipeline_health \<Rightarrow> bool \<times> pipeline_health" where
  "health_RecordFailure now h =
     (let h1 = h\<lparr>ph_consecutiveFailures := ph_consecutiveFailures h + 1, ph_lastFailureAt := Some now\<rparr> in
      if ph_consecutiveFailures h1 \<ge> ph_unhealthyThreshold h1 \<and> ph_status h1 \<noteq> HealthStatusUnhealthy
      then (True, h1\<lparr>ph_status := HealthStatusUnhealthy\<rparr>) else (False, h1))"

definition health_Snapshot :: "pipeline_health \<Rightarrow> health_snapshot" where
  "health_Snapshot h = \<lparr>hs_Chain = ph_chain h, hs_Network = ph_network h, hs_Status = ph_status h,
     hs_ConsecutiveFailures = ph_consecutiveFailures h, hs_LastSuccessAt = ph_lastSuccessAt h, hs_LastFailureAt = ph_lastFailureAt h\<rparr>"

section \<open>The latency window\<close>

definition health_window :: "pipeline_health \<Rightarrow> duration list \<Rightarrow> bool" where
  "health_window h hist \<longleftrightarrow> ring_holds latencyWindowSize (ph_latencyBuf h) (ph_latencyHead h) (ph_latencyCount h) hist"

lemma health_window_New: "health_window (NewPipelineHealth c n) []"
  by (simp add: health_window_def NewPipelineHealth_def ring_holds_empty latencyWindowSize_def)

lemma RecordLatency_buffer:
  "ph_latencyBuf (RecordLatency d h) = (ph_latencyBuf h)[ph_latencyHead h := d]"
  "ph_latencyHead (RecordLatency d h) = (ph_latencyHead h + 1) mod latencyWindowSize"
  "ph_latencyCount (RecordLatency d h) = (if ph_latencyCount h < latencyWindowSize then ph_latencyCount h + 1 else ph_latencyCount h)"
  "ph_degradedLatencyThreshold (RecordLatency d h) = ph_degradedLatencyThreshold h"
  by (simp_all add: RecordLatency_def Let_def)

lemma health_window_RecordLatency:
  assumes "health_window h hist"
  shows "health_window (RecordLatency d h) (hist @ [d])"
proof -
  have "ph_latencyCount h \<le> latencyWindowSize" using assms by (simp add: health_window_def ring_holds_def)
  then have "(if ph_latencyCount h < latencyWindowSize then ph_latencyCount h + 1 else ph_latencyCount h) = min (ph_latencyCount h + 1) latencyWindowSize"
    by simp
  then show ?thesis using ring_holds_push assms unfolding health_window_def RecordLatency_buffer by metis
qed

lemma health_window_keep:
  "health_window (SetStatus s h) hist = health_window h hist"
  "health_window (health_RecordSuccess now h) hist = health_window h hist"
  "health_window (snd (RecordSuccessWithRecovery now h)) hist = health_window h hist"
  "health_window (snd (health_RecordFailure now h)) hist = health_window h hist"
  by (simp_all add: health_window_def SetStatus_def health_RecordSuccess_def RecordSuccessWithRecovery_def health_RecordFailure_def Let_def)

lemma p95_index: "0 < n \<Longrightarrow> n \<le> 10 \<Longrightarrow> min ((95 * n - 1) div 100) (n - 1) = n - (1::nat)"
proof -
  assume "0 < n" "n \<le> 10"
  then have "100 * (n - 1) \<le> 95 * n - 1" by arith
  then have "n - 1 \<le> (95 * n - 1) div 100" using div_le_mono [of "100 * (n - 1)" "95 * n - 1" 100] by simp
  then show ?thesis by simp
qed

lemma sort_last_Max: "xs \<noteq> [] \<Longrightarrow> sort xs ! (length xs - 1) = Max (set (xs :: 'a::linorder list))"
proof -
  assume "xs \<noteq> []"
  then have ne: "sort xs \<noteq> []" by (metis mset_sort mset_zero_iff)
  have "y \<le> last ys" if "sorted ys" "y \<in> set ys" for y and ys :: "'a list"
    using that by (induction ys) (auto simp: Ball_def)
  then have "last (sort xs) = Max (set (sort xs))"
    using ne by (intro Max_eqI [symmetric] last_in_set) (simp_all del: set_sort)
  then show ?thesis using ne by (simp add: last_conv_nth)
qed

text \<open>Degraded means: at least two samples, and one of the last ten is above the threshold.\<close>

theorem latency_degraded_exact:
  assumes "health_window h hist"
  shows "isLatencyDegraded h \<longleftrightarrow> 2 \<le> length hist \<and> (\<exists>d \<in> set (latest latencyWindowSize hist). ph_degradedLatencyThreshold h < d)"
proof -
  let ?n = "ph_latencyCount h" and ?w = "latest latencyWindowSize hist"
  have r: "ring_holds latencyWindowSize (ph_latencyBuf h) (ph_latencyHead h) ?n hist" using assms by (simp add: health_window_def)
  have n: "?n = min (length hist) 10" "?n \<le> 10" using r by (auto simp: ring_holds_def latencyWindowSize_def)
  have m: "mset (take ?n (ph_latencyBuf h)) = mset ?w" by (rule ring_holds_latest [OF r])
  have len: "length ?w = ?n" using ring_holds_count [OF r] by simp
  show ?thesis
  proof (cases "?n < 2")
    case True
    then show ?thesis using n by (auto simp: isLatencyDegraded_def)
  next
    case False
    then have ne: "?w \<noteq> []" using len by auto
    have e: "sort (take ?n (ph_latencyBuf h)) = sort ?w"
      using m by (metis mset_sort properties_for_sort sorted_sort)
    have "percentileLatency 95 h = sort ?w ! min ((95 * ?n - 1) div 100) (?n - 1)"
      using False unfolding percentileLatency_def Let_def e by simp
    also have "min ((95 * ?n - 1) div 100) (?n - 1) = length ?w - 1" using p95_index [of ?n] False n(2) unfolding len by simp
    also have "sort ?w ! (length ?w - 1) = Max (set ?w)" by (rule sort_last_Max [OF ne])
    finally have "isLatencyDegraded h \<longleftrightarrow> ph_degradedLatencyThreshold h < Max (set ?w)" using False by (simp add: isLatencyDegraded_def)
    moreover have "ph_degradedLatencyThreshold h < Max (set ?w) \<longleftrightarrow> (\<exists>d \<in> set ?w. ph_degradedLatencyThreshold h < d)" using ne by (simp add: Max_gr_iff)
    moreover have "2 \<le> length hist" using False n(1) by linarith
    ultimately show ?thesis by simp
  qed
qed

end
