(* ===== verification/Pipeline.thy ===== *)
theory Pipeline
  imports Coordinator Health Reorg_Detector Finalizer Replay_Service "HOL-Library.AList"
begin

text \<open>
  A pipeline and its operations (\<^verbatim>\<open>internal/pipeline/pipeline.go\<close>): construction, activation, the replay
  request queue, the restart backoff, and how \<^verbatim>\<open>runPipeline\<close> builds the stages from the configuration.
  The channels are the lists of what is buffered in them; the capacity-one channels are options.
\<close>

section \<open>Configuration and state\<close>

record coordinator_autotune_config =
  cat_Enabled :: bool
  cat_MinBatchSize :: int
  cat_MaxBatchSize :: int
  cat_StepUp :: int
  cat_StepDown :: int
  cat_LagHighWatermark :: int
  cat_LagLowWatermark :: int
  cat_QueueHighWatermarkPct :: int
  cat_QueueLowWatermarkPct :: int
  cat_HysteresisTicks :: int
  cat_TelemetryStaleTicks :: int
  cat_TelemetryRecoveryTicks :: int
  cat_OperatorOverrideBatch :: int
  cat_OperatorReleaseHoldTicks :: int
  cat_PolicyVersion :: string
  cat_PolicyManifestDigest :: string
  cat_PolicyManifestRefreshEpoch :: int
  cat_PolicyActivationHoldTicks :: int

text \<open>The fields read by the modelled stages. Of the optional collaborators only their presence is kept.\<close>

record pipeline_config =
  pc_Chain :: chain
  pc_Network :: network
  pc_BatchSize :: int
  pc_IndexingInterval :: duration
  pc_CoordinatorAutoTune :: coordinator_autotune_config
  pc_ChannelBufferSize :: int
  pc_JobChBufferSize :: int
  pc_RawBatchChBufferSize :: int
  pc_NormalizedChBufferSize :: int
  pc_CommitInterleaver :: bool
  pc_ReorgDetectorInterval :: duration
  pc_FinalizerInterval :: duration
  pc_IndexedBlocksRetention :: int
  pc_IngesterRetryMaxAttempts :: int
  pc_IngesterRetryDelayInitialMs :: int
  pc_IngesterRetryDelayMaxMs :: int
  pc_DeniedCacheCapacity :: int
  pc_DeniedCacheTTLSec :: int
  pc_BlockScanAddrCacheTTLSec :: int
  pc_AddressIndex :: tiered_config
  pc_UnhealthyThreshold :: int
  pc_ReorgDetectorMaxCheckDepth :: int
  pc_MaxInitialLookbackBlocks :: int
  pc_Alerter :: bool
  pc_blockScanAdapter :: bool
  pc_IndexedBlockRepo :: bool

record pipeline =
  pl_cfg :: pipeline_config
  pl_replayService :: "bool option"
  pl_replayCh :: "purge_request option"
  pl_backfillCh :: "backfill_request option"
  pl_health :: pipeline_health
  pl_jobCh :: "fetch_job list"
  pl_rawBatchCh :: "raw_batch list"
  pl_normalizedCh :: "normalized_batch list"
  pl_jobCap :: int
  pl_rawCap :: int
  pl_normCap :: int
  pl_active :: bool
  pl_stateFlag :: int
  pl_deactiveCh :: bool
  pl_consecutiveFailures :: int

definition buffer_size :: "int \<Rightarrow> int \<Rightarrow> int \<Rightarrow> int" where
  "buffer_size stage fallback dflt = (if stage \<le> 0 then (if fallback > 0 then fallback else dflt) else stage)"

definition NewPipeline :: "pipeline_config \<Rightarrow> pipeline" where
  "NewPipeline cfg =
     (let h = NewPipelineHealth (pc_Chain cfg) (pc_Network cfg) in
      \<lparr>pl_cfg = cfg, pl_replayService = None, pl_replayCh = None, pl_backfillCh = None,
       pl_health = (if pc_UnhealthyThreshold cfg > 0 then h\<lparr>ph_unhealthyThreshold := pc_UnhealthyThreshold cfg\<rparr> else h),
       pl_jobCh = [], pl_rawBatchCh = [], pl_normalizedCh = [],
       pl_jobCap = buffer_size (pc_JobChBufferSize cfg) (pc_ChannelBufferSize cfg) 20,
       pl_rawCap = buffer_size (pc_RawBatchChBufferSize cfg) (pc_ChannelBufferSize cfg) 10,
       pl_normCap = buffer_size (pc_NormalizedChBufferSize cfg) (pc_ChannelBufferSize cfg) 5,
       pl_active = True, pl_stateFlag = 1, pl_deactiveCh = False, pl_consecutiveFailures = 0\<rparr>)"

section \<open>Operations\<close>

definition Deactivate :: "pipeline \<Rightarrow> pipeline" where
  "Deactivate p = (if \<not> pl_active p then p
     else p\<lparr>pl_active := False, pl_stateFlag := 0, pl_health := SetStatus HealthStatusInactive (pl_health p), pl_deactiveCh := True\<rparr>)"

definition Activate :: "pipeline \<Rightarrow> pipeline" where
  "Activate p = (if pl_active p then p else p\<lparr>pl_active := True, pl_stateFlag := 1\<rparr>)"

definition IsActive :: "pipeline \<Rightarrow> bool" where
  "IsActive p = pl_active p"

definition SetReplayService :: "bool \<Rightarrow> pipeline \<Rightarrow> pipeline" where
  "SetReplayService hasBlockRepo p = p\<lparr>pl_replayService := Some hasBlockRepo\<rparr>"

text \<open>The send half of \<^verbatim>\<open>RequestReplay\<close>; it blocks while an operation is queued.\<close>

definition RequestReplay :: "purge_request \<Rightarrow> pipeline \<Rightarrow> pipeline option" where
  "RequestReplay req p = (if pl_replayCh p = None then Some (p\<lparr>pl_replayCh := Some req\<rparr>) else None)"

definition maxRestartBackoff :: duration where
  "maxRestartBackoff = 300000000000"

text \<open>\<^verbatim>\<open>time.Second << uint(n)\<close> on 64-bit durations. A negative count converts to a huge shift.\<close>

definition calcRestartBackoff :: "pipeline \<Rightarrow> duration" where
  "calcRestartBackoff p =
     (let n = pl_consecutiveFailures p; d = (if n < 0 then 0 else wrap64 (1000000000 * 2 ^ nat n))
      in if d > maxRestartBackoff then maxRestartBackoff else d)"

definition drainChannels :: "pipeline \<Rightarrow> pipeline" where
  "drainChannels p = p\<lparr>pl_jobCh := [], pl_rawBatchCh := [], pl_normalizedCh := []\<rparr>"

section \<open>Building the stages\<close>

definition autotune_of :: "coordinator_autotune_config \<Rightarrow> autotune_config" where
  "autotune_of c = \<lparr>ac_Enabled = cat_Enabled c, ac_MinBatchSize = cat_MinBatchSize c, ac_MaxBatchSize = cat_MaxBatchSize c,
     ac_StepUp = cat_StepUp c, ac_StepDown = cat_StepDown c, ac_LagHighWatermark = cat_LagHighWatermark c,
     ac_LagLowWatermark = cat_LagLowWatermark c, ac_QueueHighWatermarkPct = cat_QueueHighWatermarkPct c,
     ac_QueueLowWatermarkPct = cat_QueueLowWatermarkPct c, ac_HysteresisTicks = cat_HysteresisTicks c, ac_CooldownTicks = 0,
     ac_TelemetryStaleTicks = cat_TelemetryStaleTicks c, ac_TelemetryRecoveryTicks = cat_TelemetryRecoveryTicks c,
     ac_OperatorOverrideBatchSize = cat_OperatorOverrideBatch c, ac_OperatorReleaseHoldTicks = cat_OperatorReleaseHoldTicks c,
     ac_PolicyVersion = cat_PolicyVersion c, ac_PolicyManifestDigest = cat_PolicyManifestDigest c,
     ac_PolicyManifestRefreshEpoch = cat_PolicyManifestRefreshEpoch c, ac_PolicyActivationHoldTicks = cat_PolicyActivationHoldTicks c\<rparr>"

definition run_coordinator :: "pipeline \<Rightarrow> coordinator" where
  "run_coordinator p =
     (let cfg = pl_cfg p;
          c = withAutoTune (autotune_of (pc_CoordinatorAutoTune cfg)) None
                (WithHeadProvider (NewCoordinator (pc_Chain cfg) (pc_Network cfg) (pc_BatchSize cfg) (pc_IndexingInterval cfg)))
      in if pc_blockScanAdapter cfg
         then WithBackfillChannel ((if pc_MaxInitialLookbackBlocks cfg > 0 then WithMaxInitialLookbackBlocks (pc_MaxInitialLookbackBlocks cfg) else (\<lambda>c. c))
                (WithBlockScanMode c))
         else c)"

definition NewIngester :: ingester where
  "NewIngester = \<lparr>ig_cfg = \<lparr>ic_retryMaxAttempts = 3, ic_retryDelayStart = 100000000, ic_retryDelayMax = 1000000000, ic_hasInterleaver = False,
       ic_hasBlockRepo = False, ic_hasWatchedRepo = False, ic_replayService = None, ic_addrCacheTTL = 30000000000\<rparr>,
     ig_deniedCache = NewShardedLRU 10000 300000000000 (\<lambda>k. k), ig_addressIndex = None, ig_addrCache = Map.empty\<rparr>"

text \<open>The options of \<^verbatim>\<open>runPipeline\<close>, applied in their order; \<^verbatim>\<open>idx\<close> is the address index after its first reload.\<close>

definition run_ingester :: "tiered_index \<Rightarrow> pipeline \<Rightarrow> ingester" where
  "run_ingester idx p =
     (let cfg = pl_cfg p;
          ic = (ig_cfg NewIngester)\<lparr>ic_hasInterleaver := pc_CommitInterleaver cfg\<rparr>;
          ic = (if pc_IngesterRetryMaxAttempts cfg > 0
                then ic\<lparr>ic_retryMaxAttempts := pc_IngesterRetryMaxAttempts cfg,
                        ic_retryDelayStart := wrap64 (pc_IngesterRetryDelayInitialMs cfg * 1000000),
                        ic_retryDelayMax := wrap64 (pc_IngesterRetryDelayMaxMs cfg * 1000000)\<rparr> else ic);
          denied = (if pc_DeniedCacheCapacity cfg > 0
                then NewShardedLRU (pc_DeniedCacheCapacity cfg) (wrap64 (pc_DeniedCacheTTLSec cfg * 1000000000)) (\<lambda>k. k) else ig_deniedCache NewIngester);
          ic = (if pc_BlockScanAddrCacheTTLSec cfg > 0 then ic\<lparr>ic_addrCacheTTL := wrap64 (pc_BlockScanAddrCacheTTLSec cfg * 1000000000)\<rparr> else ic);
          ic = (if pc_IndexedBlockRepo cfg then ic\<lparr>ic_hasBlockRepo := True\<rparr> else ic);
          ic = ic\<lparr>ic_replayService := pl_replayService p, ic_hasWatchedRepo := pc_blockScanAdapter cfg\<rparr>
      in NewIngester\<lparr>ig_cfg := ic, ig_deniedCache := denied, ig_addressIndex := if pc_blockScanAdapter cfg then Some idx else None\<rparr>)"

definition run_detector :: "pipeline \<Rightarrow> detector" where
  "run_detector p =
     (let cfg = pl_cfg p; d = NewDetector (pc_Chain cfg) (pc_Network cfg) (pc_ReorgDetectorInterval cfg);
          d = (if pc_ReorgDetectorMaxCheckDepth cfg > 0 then WithMaxCheckDepth (pc_ReorgDetectorMaxCheckDepth cfg) d else d)
      in if pc_Alerter cfg then WithAlerter d else d)"

definition run_finalizer :: "pipeline \<Rightarrow> finalizer" where
  "run_finalizer p =
     (let cfg = pl_cfg p; f = NewFinalizer (pc_Chain cfg) (pc_Network cfg) (pc_FinalizerInterval cfg)
      in if pc_IndexedBlocksRetention cfg > 0 then WithRetentionBlocks (pc_IndexedBlocksRetention cfg) f else f)"

section \<open>Registry\<close>

text \<open>\<^verbatim>\<open>registry.go\<close> and \<^verbatim>\<open>registry_replay_adapter.go\<close>: the running pipelines by chain and network. The association list
  holds the map; its order is the order of an iteration.\<close>

type_synonym registry = "(string \<times> pipeline) list"

definition registry_key :: "chain \<Rightarrow> network \<Rightarrow> string" where
  "registry_key c n = c @ '':'' @ n"

definition Register :: "pipeline \<Rightarrow> registry \<Rightarrow> registry" where
  "Register p r = AList.update (registry_key (pc_Chain (pl_cfg p)) (pc_Network (pl_cfg p))) p r"

definition registry_Get :: "chain \<Rightarrow> network \<Rightarrow> registry \<Rightarrow> pipeline option" where
  "registry_Get c n r = map_of r (registry_key c n)"

definition HealthSnapshots :: "registry \<Rightarrow> health_snapshot list" where
  "HealthSnapshots r = map (health_Snapshot \<circ> pl_health \<circ> snd) r"

definition AllPipelines :: "registry \<Rightarrow> pipeline list" where
  "AllPipelines r = map snd r"

definition HasPipeline :: "chain \<Rightarrow> network \<Rightarrow> registry \<Rightarrow> bool" where
  "HasPipeline c n r = (registry_Get c n r \<noteq> None)"

definition DryRunPurge :: "ing_env \<Rightarrow> bool \<Rightarrow> purge_request \<Rightarrow> db \<Rightarrow> (gerr + purge_result) \<times> db" where
  "DryRunPurge env hasBlockRepo req d = PurgeFromBlock env hasBlockRepo (req\<lparr>pr_DryRun := True\<rparr>) d"

lemma registry_Get_Register:
  "registry_Get c n (Register p r) =
     (if registry_key c n = registry_key (pc_Chain (pl_cfg p)) (pc_Network (pl_cfg p)) then Some p else registry_Get c n r)"
  by (simp add: registry_Get_def Register_def update_conv')

lemma Register_distinct: "distinct (map fst r) \<Longrightarrow> distinct (map fst (Register p r))"
  by (simp add: Register_def distinct_update)

lemma DryRunPurge_db: "snd (DryRunPurge env h req d) = d"
  by (simp add: DryRunPurge_def PurgeFromBlock_def split: sum.split)

section \<open>The restart backoff\<close>

lemma backoff_exact: "0 \<le> n \<Longrightarrow> n \<le> 33 \<Longrightarrow> wrap64 (1000000000 * 2 ^ nat n) = 1000000000 * 2 ^ nat n"
proof -
  assume "0 \<le> n" "n \<le> 33"
  then have "(2::int) ^ nat n \<le> 2 ^ 33" by (intro power_increasing) auto
  then show ?thesis by (intro wrap64_id) (auto intro: order_trans [of _ 0])
qed

lemma backoff_vanishes: "55 \<le> n \<Longrightarrow> wrap64 (1000000000 * 2 ^ nat n) = 0"
proof -
  assume "55 \<le> n"
  then have "nat n = 55 + (nat n - 55)" by simp
  then have "(2::int) ^ nat n = 2 ^ 55 * 2 ^ (nat n - 55)" by (metis power_add)
  then have "(1000000000 * 2 ^ nat n :: int) = 2 ^ 64 * (1953125 * 2 ^ (nat n - 55))" by simp
  then have "(1000000000 * 2 ^ nat n + 2 ^ 63 :: int) mod 2 ^ 64 = 2 ^ 63 mod 2 ^ 64" by (metis add.commute mod_mult_self2)
  then show ?thesis by (simp add: wrap64_def)
qed

lemma calcRestartBackoff_values:
  "pl_consecutiveFailures p = n \<Longrightarrow> 0 \<le> n \<Longrightarrow> n \<le> 33 \<Longrightarrow> calcRestartBackoff p = min (1000000000 * 2 ^ nat n) maxRestartBackoff"
  "55 \<le> pl_consecutiveFailures p \<Longrightarrow> calcRestartBackoff p = 0"
  by (auto simp: calcRestartBackoff_def Let_def backoff_exact backoff_vanishes maxRestartBackoff_def)

lemma calcRestartBackoff_34: "pl_consecutiveFailures p = 34 \<Longrightarrow> calcRestartBackoff p < 0"
  by (simp add: calcRestartBackoff_def wrap64_def maxRestartBackoff_def)

end
