(* ===== verification/Config_Watcher.thy ===== *)
theory Config_Watcher
  imports Pipeline "HOL-Library.Multiset"
begin

text \<open>
  The runtime configuration watcher (\<^verbatim>\<open>internal/pipeline/config_watcher.go\<close>). A poll receives the active
  configuration rows as a Go map; the list gives the order in which the map is iterated, with every
  key once. The targets are the running coordinator and, when set, the pipeline as the activation
  controller.
\<close>

record config_watcher =
  cw_chain :: chain
  cw_network :: network
  cw_interval :: duration
  cw_hasActivation :: bool
  cw_lastSeen :: "string \<Rightarrow> string option"

record watch_target =
  wt_coordinator :: coordinator
  wt_pipeline :: pipeline

definition NewConfigWatcher :: "chain \<Rightarrow> network \<Rightarrow> duration \<Rightarrow> config_watcher" where
  "NewConfigWatcher c n interval = \<lparr>cw_chain = c, cw_network = n, cw_interval = (if interval \<le> 0 then 30000000000 else interval),
     cw_hasActivation = False, cw_lastSeen = Map.empty\<rparr>"

definition WithActivationController :: "config_watcher \<Rightarrow> config_watcher" where
  "WithActivationController w = w\<lparr>cw_hasActivation := True\<rparr>"

datatype config_key = KeyBatchSize | KeyIndexingInterval | KeyIsActive | KeyOther

definition config_key_of :: "string \<Rightarrow> config_key" where
  "config_key_of key =
     (if TrimSpace key = ''batch_size'' then KeyBatchSize
      else if TrimSpace key = ''indexing_interval_ms'' then KeyIndexingInterval
      else if TrimSpace key = ''is_active'' then KeyIsActive else KeyOther)"

definition applyConfig :: "bool \<Rightarrow> string \<Rightarrow> string \<Rightarrow> watch_target \<Rightarrow> watch_target" where
  "applyConfig hasActivation key value t = (case config_key_of key of
     KeyBatchSize \<Rightarrow> (case ParseInt (TrimSpace value) of
         Some v \<Rightarrow> if v > 0 \<and> v \<le> 10000 then t\<lparr>wt_coordinator := UpdateBatchSize v (wt_coordinator t)\<rparr> else t
       | None \<Rightarrow> t)
   | KeyIndexingInterval \<Rightarrow> (case ParseInt (TrimSpace value) of
         Some v \<Rightarrow> if v > 0 then t\<lparr>wt_coordinator := snd (UpdateInterval (wrap64 (v * 1000000)) (wt_coordinator t))\<rparr> else t
       | None \<Rightarrow> t)
   | KeyIsActive \<Rightarrow>
       if \<not> hasActivation then t
       else let trimmed = ToLower (TrimSpace value) in
         if trimmed \<in> {''false'', ''0'', ''no'', ''off''} then
           (if IsActive (wt_pipeline t) then t\<lparr>wt_pipeline := Deactivate (wt_pipeline t)\<rparr> else t)
         else if trimmed \<in> {''true'', ''1'', ''yes'', ''on''} then
           (if \<not> IsActive (wt_pipeline t) then t\<lparr>wt_pipeline := Activate (wt_pipeline t)\<rparr> else t)
         else t
   | KeyOther \<Rightarrow> t)"

text \<open>Reading an absent key of \<^verbatim>\<open>lastSeen\<close> gives the empty string.\<close>

definition seen :: "(string \<Rightarrow> string option) \<Rightarrow> string \<Rightarrow> string" where
  "seen ls key = (case ls key of None \<Rightarrow> '''' | Some v \<Rightarrow> v)"

fun poll_loop :: "bool \<Rightarrow> (string \<times> string) list \<Rightarrow> (string \<Rightarrow> string option) \<times> watch_target \<Rightarrow> (string \<Rightarrow> string option) \<times> watch_target" where
  "poll_loop act [] s = s"
| "poll_loop act ((key, value) # cs) (ls, t) =
     (if seen ls key = value then poll_loop act cs (ls, t)
      else poll_loop act cs (ls(key \<mapsto> value), applyConfig act key value t))"

definition poll :: "gerr + (string \<times> string) list \<Rightarrow> config_watcher \<times> watch_target \<Rightarrow> config_watcher \<times> watch_target" where
  "poll answer s = (case s of (w, t) \<Rightarrow> (case answer of
     Inl e \<Rightarrow> (w, t)
   | Inr configs \<Rightarrow>
       let kept = (\<lambda>k. if k \<in> fst ` set configs then cw_lastSeen w k else None);
           (ls, t') = poll_loop (cw_hasActivation w) configs (kept, t)
       in (w\<lparr>cw_lastSeen := ls\<rparr>, t')))"

section \<open>Order of iteration\<close>

lemma applyConfig_other: "config_key_of key = KeyOther \<Longrightarrow> applyConfig act key v t = t"
  by (simp add: applyConfig_def)

definition new_batch :: "string \<Rightarrow> coordinator \<Rightarrow> coordinator" where
  "new_batch v c = (case ParseInt (TrimSpace v) of None \<Rightarrow> c | Some i \<Rightarrow> if 0 < i \<and> i \<le> 10000 then UpdateBatchSize i c else c)"

definition new_interval :: "string \<Rightarrow> coordinator \<Rightarrow> coordinator" where
  "new_interval v c = (case ParseInt (TrimSpace v) of None \<Rightarrow> c | Some i \<Rightarrow> if 0 < i then snd (UpdateInterval (wrap64 (i * 1000000)) c) else c)"

lemma applyConfig_batch:
  "config_key_of k = KeyBatchSize \<Longrightarrow> applyConfig act k v t = t\<lparr>wt_coordinator := new_batch v (wt_coordinator t)\<rparr>"
  by (simp add: applyConfig_def new_batch_def split: option.split)

lemma applyConfig_interval:
  "config_key_of k = KeyIndexingInterval \<Longrightarrow> applyConfig act k v t = t\<lparr>wt_coordinator := new_interval v (wt_coordinator t)\<rparr>"
  by (simp add: applyConfig_def new_interval_def split: option.split)

lemma applyConfig_active:
  assumes "config_key_of k = KeyIsActive"
  obtains f where "\<And>t. applyConfig act k v t = t\<lparr>wt_pipeline := f (wt_pipeline t)\<rparr>"
proof -
  let ?f = "\<lambda>p. if \<not> act then p else if ToLower (TrimSpace v) \<in> {''false'', ''0'', ''no'', ''off''} then (if IsActive p then Deactivate p else p)
     else if ToLower (TrimSpace v) \<in> {''true'', ''1'', ''yes'', ''on''} then (if \<not> IsActive p then Activate p else p) else p"
  have "applyConfig act k v t = t\<lparr>wt_pipeline := ?f (wt_pipeline t)\<rparr>" for t
    unfolding applyConfig_def assms Let_def by simp
  then show thesis by (rule that)
qed

lemma new_batch_interval: "new_batch v (new_interval w c) = new_interval w (new_batch v c)"
  by (simp add: new_batch_def new_interval_def UpdateBatchSize_def UpdateInterval_def split: option.split)

lemma applyConfig_commute:
  assumes "config_key_of k \<noteq> config_key_of l \<or> config_key_of k = KeyOther"
  shows "applyConfig act k v (applyConfig act l w t) = applyConfig act l w (applyConfig act k v t)"
proof -
  have pc: "applyConfig act k v (applyConfig act l w t) = applyConfig act l w (applyConfig act k v t)"
    if "config_key_of k = KeyIsActive" "config_key_of l = KeyBatchSize \<or> config_key_of l = KeyIndexingInterval" for k l v w t
  proof -
    note key = that(1)
    obtain f where "\<And>t. applyConfig act k v t = t\<lparr>wt_pipeline := f (wt_pipeline t)\<rparr>" using applyConfig_active [OF key] by metis
    then show ?thesis using that(2) by (elim disjE) (simp_all add: applyConfig_batch applyConfig_interval)
  qed
  show ?thesis
  proof (cases "config_key_of k"; cases "config_key_of l")
    assume "config_key_of k = KeyBatchSize" "config_key_of l = KeyIndexingInterval"
    then show ?thesis by (simp add: applyConfig_batch applyConfig_interval new_batch_interval)
  next
    assume "config_key_of k = KeyIndexingInterval" "config_key_of l = KeyBatchSize"
    then show ?thesis by (simp add: applyConfig_batch applyConfig_interval new_batch_interval)
  qed (use assms pc [of k l v w t] pc [of l k w v t] in \<open>auto simp: applyConfig_other\<close>)
qed

definition poll_one :: "bool \<Rightarrow> string \<times> string \<Rightarrow> (string \<Rightarrow> string option) \<times> watch_target \<Rightarrow> (string \<Rightarrow> string option) \<times> watch_target" where
  "poll_one act kv s = (if seen (fst s) (fst kv) = snd kv then s else ((fst s)(fst kv \<mapsto> snd kv), applyConfig act (fst kv) (snd kv) (snd s)))"

lemma poll_loop_fold: "poll_loop act cs s = fold (poll_one act) cs s"
proof (induction cs arbitrary: s)
  case (Cons kv cs)
  then show ?case by (cases kv; cases s) (simp add: poll_one_def)
qed simp

lemma poll_one_commute:
  assumes "fst a \<noteq> fst b" "config_key_of (fst a) \<noteq> config_key_of (fst b) \<or> config_key_of (fst a) = KeyOther"
  shows "poll_one act a (poll_one act b s) = poll_one act b (poll_one act a s)"
proof -
  have "seen (m(x \<mapsto> v)) y = seen m y" if "x \<noteq> y" for m x v y using that by (simp add: seen_def)
  then show ?thesis
    using assms applyConfig_commute [OF assms(2), of act "snd a" "snd b" "snd s"] by (auto simp: poll_one_def fun_upd_twist)
qed

text \<open>No two rows name one setting: their keys differ also after trimming.\<close>

definition distinct_settings :: "(string \<times> string) list \<Rightarrow> bool" where
  "distinct_settings cs \<longleftrightarrow> distinct (map (TrimSpace \<circ> fst) cs)"

lemma poll_order:
  assumes "distinct_settings cs" "mset ds = mset cs"
  shows "poll_loop act cs s = poll_loop act ds s"
proof -
  have "inj_on (TrimSpace \<circ> fst) (set cs)" using assms(1) by (simp add: distinct_settings_def distinct_map)
  then have k: "TrimSpace (fst a) \<noteq> TrimSpace (fst b)" if "a \<in> set cs" "b \<in> set cs" "a \<noteq> b" for a b
    using that by (auto simp: inj_on_def)
  have "poll_one act a \<circ> poll_one act b = poll_one act b \<circ> poll_one act a" if "a \<in> set cs" "b \<in> set cs" for a b
  proof (cases "a = b")
    case False
    from k [OF that False] have "config_key_of (fst a) \<noteq> config_key_of (fst b) \<or> config_key_of (fst a) = KeyOther" and "fst a \<noteq> fst b"
      by (auto simp: config_key_of_def)
    then show ?thesis by (auto simp: poll_one_commute)
  qed simp
  then have "fold (poll_one act) cs = fold (poll_one act) ds" by (rule fold_multiset_equiv) (use assms(2) in simp_all)
  then show ?thesis by (simp add: poll_loop_fold)
qed

section \<open>Repeated polls\<close>

lemma poll_loop_seen:
  "distinct (map fst cs) \<Longrightarrow> (k, v) \<in> set cs \<Longrightarrow> seen (fst (poll_loop act cs (ls, t))) k = v"
proof (induction cs arbitrary: ls t)
  case (Cons kv cs)
  obtain k' v' where kv: "kv = (k', v')" by (cases kv)
  have stay: "seen (fst (poll_loop act cs (m, t))) x = seen m x" if "x \<notin> fst ` set cs" for m t x
    using that
  proof (induction cs arbitrary: m t)
    case (Cons z zs)
    then show ?case by (cases z) (auto simp: seen_def)
  qed simp
  show ?case
  proof (cases "(k, v) = (k', v')")
    case True
    then show ?thesis using Cons.prems(1) stay [of k'] by (auto simp: kv seen_def)
  next
    case False
    then show ?thesis using Cons by (auto simp: kv)
  qed
qed simp

lemma poll_loop_idle:
  "(\<And>k v. (k, v) \<in> set cs \<Longrightarrow> seen ls k = v) \<Longrightarrow> poll_loop act cs (ls, t) = (ls, t)"
proof (induction cs)
  case (Cons kv cs)
  then show ?case by (cases kv) auto
qed simp

section \<open>Properties\<close>

text \<open>A poll is deterministic and settles. With one row per setting the random iteration order of the map does not
  matter, and polling the same rows again changes nothing.\<close>

theorem poll_deterministic:
  assumes "distinct_settings configs" "mset configs' = mset configs"
  shows "poll (Inr configs') s = poll (Inr configs) s \<and> poll (Inr configs') (poll (Inr configs) s) = poll (Inr configs) s"
proof -
  obtain w t where s: "s = (w, t)" by (cases s)
  have keys: "set configs' = set configs" using assms(2) by (rule mset_eq_setD)
  have same: "poll (Inr configs') s' = poll (Inr configs) s'" for s'
    by (simp add: poll_def keys poll_order [OF assms] case_prod_beta)
  have d: "distinct (map fst configs)" using assms(1) distinct_map [of TrimSpace "map fst configs"] by (simp add: distinct_settings_def)
  let ?kept = "\<lambda>k. if k \<in> fst ` set configs then cw_lastSeen w k else None"
  obtain ls t' where r: "poll_loop (cw_hasActivation w) configs (?kept, t) = (ls, t')" by fastforce
  have dom: "ls k = None" if "k \<notin> fst ` set configs" for k
  proof -
    have "fst (poll_loop act cs (m, t)) k = m k" if "k \<notin> fst ` set cs" for act cs m t
      using that by (induction cs arbitrary: m t) auto
    from this [OF that, of "cw_hasActivation w" ?kept t] show ?thesis using r that by simp
  qed
  have seen: "seen ls k = v" if "(k, v) \<in> set configs" for k v
    using poll_loop_seen [OF d that, of "cw_hasActivation w" ?kept t] r by simp
  have p: "poll (Inr configs) s = (w\<lparr>cw_lastSeen := ls\<rparr>, t')" by (simp add: poll_def s r)
  have "(\<lambda>k. if k \<in> fst ` set configs then ls k else None) = ls" using dom by auto
  then have "poll (Inr configs) (w\<lparr>cw_lastSeen := ls\<rparr>, t') = (w\<lparr>cw_lastSeen := ls\<rparr>, t')"
    using poll_loop_idle [of configs ls "cw_hasActivation w" t', OF seen] by (simp add: poll_def cong: if_cong)
  then show ?thesis using same p by simp
qed

theorem poll_deterministic_witness:
  "\<forall>s. poll (Inr [(''is_active'', ''off''), (''batch_size'', ''50'')]) s = poll (Inr [(''batch_size'', ''50''), (''is_active'', ''off'')]) s"
proof -
  have "distinct_settings [(''batch_size'', ''50''), (''is_active'', ''off'')]" by code_simp
  from poll_deterministic [OF this, of "[(''is_active'', ''off''), (''batch_size'', ''50'')]"] show ?thesis by (simp add: add_mset_commute)
qed

end
