(* ===== verification/Activation.thy ===== *)
theory Activation
  imports Go_Prelude
begin

text \<open>
  How \<^verbatim>\<open>Pipeline.Run\<close> waits while the pipeline is deactivated (\<^verbatim>\<open>internal/pipeline/pipeline.go\<close>, the block
  around \<^verbatim>\<open>stateCond.Wait\<close>). Three goroutines take part: the loop of \<^verbatim>\<open>Run\<close>, a waiter on the condition
  variable and a watcher of the context. They interleave with cancellation and with calls of
  \<^verbatim>\<open>Activate\<close> and \<^verbatim>\<open>Deactivate\<close>. \<^verbatim>\<open>sync.Cond.Wait\<close> joins the notify list while it holds the mutex, releases
  the mutex, sleeps until a broadcast that comes after the join, and takes the mutex again.
\<close>

section \<open>The goroutines\<close>

datatype waiter =
    WLock \<comment> \<open>about to take the mutex\<close>
  | WCheck \<comment> \<open>holds the mutex, about to test the loop condition\<close>
  | WJoin \<comment> \<open>holds the mutex, about to join the notify list\<close>
  | WAsleep \<comment> \<open>in the notify list, mutex released\<close>
  | WWoken \<comment> \<open>notified, about to take the mutex\<close>
  | WExit \<comment> \<open>holds the mutex, about to release it and close \<^verbatim>\<open>activated\<close>\<close>
  | WDone

datatype watcher = XSelect | XBroadcast | XDone

datatype run_wait =
    RSelect \<comment> \<open>in the select over \<^verbatim>\<open>activated\<close> and \<^verbatim>\<open>ctx.Done()\<close>\<close>
  | RJoinWatcher \<comment> \<open>activated, about to receive from \<^verbatim>\<open>ctxWatchDone\<close>\<close>
  | RBroadcast \<comment> \<open>cancelled, about to broadcast\<close>
  | RJoinWaiter \<comment> \<open>cancelled, about to receive from \<^verbatim>\<open>activated\<close>\<close>
  | RJoinBoth \<comment> \<open>cancelled, about to receive from \<^verbatim>\<open>ctxWatchDone\<close>\<close>
  | RContinue
  | RReturn

record wait_state =
  ws_flag :: int
  ws_cancelled :: bool
  ws_waiter :: waiter
  ws_watcher :: watcher
  ws_run :: run_wait

definition wait_start :: wait_state where
  "wait_start = \<lparr>ws_flag = 0, ws_cancelled = False, ws_waiter = WLock, ws_watcher = XSelect, ws_run = RSelect\<rparr>"

definition mutex_free :: "wait_state \<Rightarrow> bool" where
  "mutex_free s \<longleftrightarrow> ws_waiter s \<noteq> WCheck \<and> ws_waiter s \<noteq> WJoin \<and> ws_waiter s \<noteq> WExit"

definition Broadcast :: "wait_state \<Rightarrow> wait_state" where
  "Broadcast s = (if ws_waiter s = WAsleep then s\<lparr>ws_waiter := WWoken\<rparr> else s)"

text \<open>The steps of the three goroutines.\<close>

inductive go_step :: "wait_state \<Rightarrow> wait_state \<Rightarrow> bool" where
  lock: "ws_waiter s = WLock \<Longrightarrow> go_step s (s\<lparr>ws_waiter := WCheck\<rparr>)"
| check: "ws_waiter s = WCheck \<Longrightarrow>
    go_step s (s\<lparr>ws_waiter := if ws_flag s = 0 \<and> \<not> ws_cancelled s then WJoin else WExit\<rparr>)"
| join: "ws_waiter s = WJoin \<Longrightarrow> go_step s (s\<lparr>ws_waiter := WAsleep\<rparr>)"
| relock: "ws_waiter s = WWoken \<Longrightarrow> go_step s (s\<lparr>ws_waiter := WCheck\<rparr>)"
| exit: "ws_waiter s = WExit \<Longrightarrow> go_step s (s\<lparr>ws_waiter := WDone\<rparr>)"
| watch_cancel: "ws_watcher s = XSelect \<Longrightarrow> ws_cancelled s \<Longrightarrow> go_step s (s\<lparr>ws_watcher := XBroadcast\<rparr>)"
| watch_activated: "ws_watcher s = XSelect \<Longrightarrow> ws_waiter s = WDone \<Longrightarrow> go_step s (s\<lparr>ws_watcher := XDone\<rparr>)"
| watch_broadcast: "ws_watcher s = XBroadcast \<Longrightarrow> go_step s ((Broadcast s)\<lparr>ws_watcher := XDone\<rparr>)"
| run_activated: "ws_run s = RSelect \<Longrightarrow> ws_waiter s = WDone \<Longrightarrow> go_step s (s\<lparr>ws_run := RJoinWatcher\<rparr>)"
| run_joined: "ws_run s = RJoinWatcher \<Longrightarrow> ws_watcher s = XDone \<Longrightarrow>
    go_step s (s\<lparr>ws_run := if ws_cancelled s then RReturn else RContinue\<rparr>)"
| run_cancelled: "ws_run s = RSelect \<Longrightarrow> ws_cancelled s \<Longrightarrow> go_step s (s\<lparr>ws_run := RBroadcast\<rparr>)"
| run_broadcast: "ws_run s = RBroadcast \<Longrightarrow> go_step s ((Broadcast s)\<lparr>ws_run := RJoinWaiter\<rparr>)"
| run_wait: "ws_run s = RJoinWaiter \<Longrightarrow> ws_waiter s = WDone \<Longrightarrow> go_step s (s\<lparr>ws_run := RJoinBoth\<rparr>)"
| run_return: "ws_run s = RJoinBoth \<Longrightarrow> ws_watcher s = XDone \<Longrightarrow> go_step s (s\<lparr>ws_run := RReturn\<rparr>)"

text \<open>What the rest of the process does: cancel the context, or call \<^verbatim>\<open>Activate\<close> or \<^verbatim>\<open>Deactivate\<close> under the mutex.\<close>

inductive env_step :: "wait_state \<Rightarrow> wait_state \<Rightarrow> bool" where
  cancel: "env_step s (s\<lparr>ws_cancelled := True\<rparr>)"
| activate: "mutex_free s \<Longrightarrow> ws_flag s = 0 \<Longrightarrow> env_step s (Broadcast (s\<lparr>ws_flag := 1\<rparr>))"
| deactivate: "mutex_free s \<Longrightarrow> ws_flag s = 1 \<Longrightarrow> env_step s (Broadcast (s\<lparr>ws_flag := 0\<rparr>))"

inductive wait_reach :: "wait_state \<Rightarrow> bool" where
  start: "wait_reach wait_start"
| go: "wait_reach s \<Longrightarrow> go_step s s' \<Longrightarrow> wait_reach s'"
| env: "wait_reach s \<Longrightarrow> env_step s s' \<Longrightarrow> wait_reach s'"

inductive_cases go_stepE: "go_step s s'"
inductive_cases env_stepE: "env_step s s'"

section \<open>Invariant and progress\<close>

definition wait_inv :: "wait_state \<Rightarrow> bool" where
  "wait_inv s \<longleftrightarrow> (ws_flag s = 0 \<or> ws_flag s = 1) \<and> (ws_waiter s = WAsleep \<or> ws_waiter s = WJoin \<longrightarrow> ws_flag s = 0) \<and>
     (ws_run s \<in> {RJoinWatcher, RJoinBoth, RContinue, RReturn} \<longrightarrow> ws_waiter s = WDone) \<and>
     (ws_run s \<in> {RBroadcast, RJoinWaiter, RJoinBoth, RReturn} \<longrightarrow> ws_cancelled s) \<and>
     (ws_run s \<in> {RContinue, RReturn} \<longrightarrow> ws_watcher s = XDone) \<and>
     (ws_watcher s = XBroadcast \<longrightarrow> ws_cancelled s) \<and> (ws_watcher s = XDone \<longrightarrow> ws_cancelled s \<or> ws_waiter s = WDone)"

lemma wait_inv_go: "go_step s s' \<Longrightarrow> wait_inv s \<Longrightarrow> wait_inv s'"
  by (erule go_stepE) (simp_all add: wait_inv_def Broadcast_def split: if_splits)

lemma wait_inv_env: "env_step s s' \<Longrightarrow> wait_inv s \<Longrightarrow> wait_inv s'"
  by (erule env_stepE) (simp_all add: wait_inv_def Broadcast_def mutex_free_def split: if_splits)

lemma wait_reach_inv: "wait_reach s \<Longrightarrow> wait_inv s"
  by (induction rule: wait_reach.induct) (simp add: wait_inv_def wait_start_def, blast intro: wait_inv_go, blast intro: wait_inv_env)

lemma stuck_cases:
  assumes "wait_inv s" "\<And>s'. \<not> go_step s s'"
  shows "ws_run s \<in> {RContinue, RReturn} \<or> ws_waiter s = WAsleep \<and> ws_flag s = 0 \<and>
    (\<not> ws_cancelled s \<and> ws_run s = RSelect \<or> ws_cancelled s \<and> ws_run s = RJoinWaiter \<and> ws_watcher s = XDone)"
proof -
  have w: "ws_waiter s = WAsleep \<or> ws_waiter s = WDone"
    using assms(2) go_step.lock [of s] go_step.check [of s] go_step.join [of s] go_step.relock [of s] go_step.exit [of s]
    by (cases "ws_waiter s") auto
  have x: "ws_watcher s \<noteq> XBroadcast" "ws_cancelled s \<Longrightarrow> ws_watcher s = XDone" "ws_waiter s = WDone \<Longrightarrow> ws_watcher s = XDone"
    using assms(2) go_step.watch_cancel [of s] go_step.watch_activated [of s] go_step.watch_broadcast [of s]
    by (cases "ws_watcher s"; auto)+
  show ?thesis
    using assms w x go_step.run_activated [of s] go_step.run_joined [of s] go_step.run_cancelled [of s] go_step.run_broadcast [of s]
      go_step.run_wait [of s] go_step.run_return [of s]
    by (cases "ws_run s") (auto simp: wait_inv_def)
qed

primrec waiter_rank :: "waiter \<Rightarrow> nat" where
  "waiter_rank WLock = 5"
| "waiter_rank WCheck = 4"
| "waiter_rank WJoin = 3"
| "waiter_rank WAsleep = 2"
| "waiter_rank WWoken = 5"
| "waiter_rank WExit = 1"
| "waiter_rank WDone = 0"

primrec watcher_rank :: "watcher \<Rightarrow> nat" where
  "watcher_rank XSelect = 2"
| "watcher_rank XBroadcast = 1"
| "watcher_rank XDone = 0"

primrec run_rank :: "run_wait \<Rightarrow> nat" where
  "run_rank RSelect = 4"
| "run_rank RBroadcast = 3"
| "run_rank RJoinWaiter = 2"
| "run_rank RJoinBoth = 1"
| "run_rank RJoinWatcher = 1"
| "run_rank RContinue = 0"
| "run_rank RReturn = 0"

definition wait_rank :: "wait_state \<Rightarrow> nat" where
  "wait_rank s = waiter_rank (ws_waiter s) + 4 * watcher_rank (ws_watcher s) + 4 * run_rank (ws_run s)"

lemma go_step_rank: "go_step s s' \<Longrightarrow> wait_rank s' < wait_rank s"
  by (erule go_stepE) (simp_all add: wait_rank_def Broadcast_def)

lemma go_step_flag: "go_step s s' \<Longrightarrow> ws_flag s' = ws_flag s \<and> ws_cancelled s' = ws_cancelled s"
  by (erule go_stepE) (simp_all add: Broadcast_def)

lemma wait_reach_go_steps: "go_step\<^sup>*\<^sup>* s s' \<Longrightarrow> wait_reach s \<Longrightarrow> wait_reach s' \<and> ws_flag s' = ws_flag s"
  by (induction rule: rtranclp_induct) (auto dest: go_step_flag intro: wait_reach.go)

section \<open>Properties\<close>

text \<open>C33: no activation is lost. Once the pipeline is active, the goroutines cannot run forever and cannot block before
  the loop of Run has left the wait.\<close>

theorem activation_not_lost:
  assumes "wait_reach s" "ws_flag s \<noteq> 0"
  shows "wfp (\<lambda>b a. go_step a b) \<and> (\<forall>s'. go_step\<^sup>*\<^sup>* s s' \<longrightarrow> ws_run s' \<in> {RContinue, RReturn} \<or> (\<exists>s''. go_step s' s''))"
proof
  show "wfp (\<lambda>b a. go_step a b)"
    by (rule wfp_if_convertible_to_nat [where f = wait_rank]) (rule go_step_rank)
  show "\<forall>s'. go_step\<^sup>*\<^sup>* s s' \<longrightarrow> ws_run s' \<in> {RContinue, RReturn} \<or> (\<exists>s''. go_step s' s'')"
    using stuck_cases wait_reach_inv wait_reach_go_steps [OF _ assms(1)] assms(2) by metis
qed

definition activated_state :: wait_state where
  "activated_state = Broadcast (wait_start\<lparr>ws_flag := 1\<rparr>)"

theorem activation_not_lost_witness:
  "wait_reach activated_state \<and> (ws_run activated_state \<in> {RContinue, RReturn} \<or> (\<exists>s''. go_step activated_state s''))"
proof -
  have r: "wait_reach activated_state" unfolding activated_state_def
    by (rule wait_reach.env [OF wait_reach.start], rule env_step.activate) (simp_all add: mutex_free_def wait_start_def)
  have "ws_flag activated_state \<noteq> 0" by code_simp
  then show ?thesis using activation_not_lost [OF r] r by blast
qed

text \<open>C34: a cancellation can be lost. The broadcasts on cancellation are sent without the mutex; when both fall between
  the waiter's test and its joining of the notify list, every goroutine blocks and Run does not return.\<close>

theorem cancellation_can_be_lost:
  "\<exists>s. wait_reach s \<and> ws_cancelled s \<and> ws_run s = RJoinWaiter \<and> (\<forall>s'. \<not> go_step s s')"
proof -
  let ?s = "\<lambda>c w x r. \<lparr>ws_flag = 0, ws_cancelled = c, ws_waiter = w, ws_watcher = x, ws_run = r\<rparr>"
  have "wait_reach (?s False WLock XSelect RSelect)" using wait_reach.start by (simp add: wait_start_def)
  from wait_reach.go [OF this go_step.lock] have "wait_reach (?s False WCheck XSelect RSelect)" by (simp add: Broadcast_def)
  from wait_reach.go [OF this go_step.check] have "wait_reach (?s False WJoin XSelect RSelect)" by (simp add: Broadcast_def)
  from wait_reach.env [OF this env_step.cancel] have "wait_reach (?s True WJoin XSelect RSelect)" by (simp add: Broadcast_def)
  from wait_reach.go [OF this go_step.watch_cancel] have "wait_reach (?s True WJoin XBroadcast RSelect)" by (simp add: Broadcast_def)
  from wait_reach.go [OF this go_step.watch_broadcast] have "wait_reach (?s True WJoin XDone RSelect)" by (simp add: Broadcast_def)
  from wait_reach.go [OF this go_step.run_cancelled] have "wait_reach (?s True WJoin XDone RBroadcast)" by (simp add: Broadcast_def)
  from wait_reach.go [OF this go_step.run_broadcast] have "wait_reach (?s True WJoin XDone RJoinWaiter)" by (simp add: Broadcast_def)
  from wait_reach.go [OF this go_step.join] have "wait_reach (?s True WAsleep XDone RJoinWaiter)" by (simp add: Broadcast_def)
  moreover have "\<not> go_step (?s True WAsleep XDone RJoinWaiter) s'" for s'
    by (rule notI, erule go_stepE) simp_all
  ultimately show ?thesis by (intro exI [of _ "?s True WAsleep XDone RJoinWaiter"]) simp
qed

end
