(* ===== verification/Supervisor.thy ===== *)
theory Supervisor
  imports Config_Watcher Activation Alerting Ingester_Properties
begin

text \<open>
  The restart loop of \<^verbatim>\<open>Pipeline.Run\<close> (\<^verbatim>\<open>internal/pipeline/pipeline.go\<close>) as a step relation. A step is one
  case of the select, one turn of the loop, or one action of the workers while they run. The
  configuration watcher is one of the workers. The state records the alerts sent and, as history,
  how often the workers have failed. Waiting for activation is one place here; its goroutines are
  the subject of the theory on activation.
\<close>

section \<open>The cases of the select\<close>

definition run_failed :: "time \<Rightarrow> pipeline \<Rightarrow> alert_type list \<times> pipeline" where
  "run_failed now p =
     (let (becameUnhealthy, h) = health_RecordFailure now (pl_health p)
      in (if becameUnhealthy \<and> pc_Alerter (pl_cfg p) then [AlertTypeUnhealthy] else [],
          p\<lparr>pl_consecutiveFailures := pl_consecutiveFailures p + 1, pl_health := h\<rparr>))"

definition run_succeeded :: "time \<Rightarrow> pipeline \<Rightarrow> alert_type list \<times> pipeline" where
  "run_succeeded now p =
     (let (recovered, h) = RecordSuccessWithRecovery now (pl_health p)
      in (if recovered \<and> pc_Alerter (pl_cfg p) then [AlertTypeRecovery] else [], p\<lparr>pl_consecutiveFailures := 0, pl_health := h\<rparr>))"

definition backfill_purge :: "backfill_request \<Rightarrow> purge_request" where
  "backfill_purge req = \<lparr>pr_Chain = bf_Chain req, pr_Network = bf_Network req, pr_FromBlock = bf_FromBlock req, pr_DryRun = False, pr_Force = True,
     pr_Reason = ''address backfill'', pr_BlockScanMode = False\<rparr>"

text \<open>A failed purge is logged; the flags are cleared in any case, unless the statement that clears them fails.\<close>

definition backfill_case :: "ing_env \<Rightarrow> gerr option \<Rightarrow> bool option \<Rightarrow> backfill_request \<Rightarrow> db \<times> watched_address list \<Rightarrow> db \<times> watched_address list" where
  "backfill_case env clearErr svc req s = (case s of (d, rows) \<Rightarrow>
     (case svc of None \<Rightarrow> d | Some hasBlockRepo \<Rightarrow> snd (PurgeFromBlock env hasBlockRepo (backfill_purge req) d),
      if clearErr = None then ClearBackfill (bf_Chain req) (bf_Network req) rows else rows))"

section \<open>The loop\<close>

datatype run_loc = LoopTop | Waiting | Running | Backoff duration | Returned "gerr option" | Crashed

record system =
  sy_pipeline :: pipeline
  sy_loc :: run_loc
  sy_cancelled :: bool
  sy_db :: db
  sy_rows :: "watched_address list"
  sy_coordinator :: coordinator
  sy_watcher :: config_watcher
  sy_replies :: "(gerr + purge_result) list"
  sy_alerts :: "alert_type list"
  sy_failures :: nat

definition system_start :: "pipeline \<Rightarrow> db \<Rightarrow> watched_address list \<Rightarrow> system" where
  "system_start p d rows = \<lparr>sy_pipeline = p, sy_loc = LoopTop, sy_cancelled = False, sy_db = d, sy_rows = rows,
     sy_coordinator = run_coordinator p, sy_watcher = NewConfigWatcher (pc_Chain (pl_cfg p)) (pc_Network (pl_cfg p)) 0,
     sy_replies = [], sy_alerts = [], sy_failures = 0\<rparr>"

definition start_run :: "duration \<Rightarrow> system \<Rightarrow> system" where
  "start_run interval s =
     (let p = drainChannels ((sy_pipeline s)\<lparr>pl_health := SetStatus HealthStatusHealthy (pl_health (sy_pipeline s))\<rparr>)
      in s\<lparr>sy_pipeline := p, sy_loc := Running, sy_coordinator := run_coordinator p,
           sy_watcher := WithActivationController (NewConfigWatcher (pc_Chain (pl_cfg p)) (pc_Network (pl_cfg p)) interval)\<rparr>)"

definition fail_run :: "time \<Rightarrow> system \<Rightarrow> system" where
  "fail_run now s = (case run_failed now (sy_pipeline s) of (als, p) \<Rightarrow>
     s\<lparr>sy_pipeline := p, sy_loc := Backoff (calcRestartBackoff p), sy_alerts := sy_alerts s @ als, sy_failures := sy_failures s + 1\<rparr>)"

definition succeed_run :: "time \<Rightarrow> system \<Rightarrow> system" where
  "succeed_run now s = (case run_succeeded now (sy_pipeline s) of (als, p) \<Rightarrow>
     s\<lparr>sy_pipeline := p, sy_loc := Returned None, sy_alerts := sy_alerts s @ als\<rparr>)"

text \<open>The replay case calls the service without a nil check.\<close>

definition replay_run :: "ing_env \<Rightarrow> purge_request \<Rightarrow> system \<Rightarrow> system" where
  "replay_run env req s =
     (let p = (sy_pipeline s)\<lparr>pl_replayCh := None\<rparr> in
      case pl_replayService p of
        None \<Rightarrow> s\<lparr>sy_pipeline := p, sy_loc := Crashed\<rparr>
      | Some hasBlockRepo \<Rightarrow> (case PurgeFromBlock env hasBlockRepo req (sy_db s) of
          (r, d) \<Rightarrow> s\<lparr>sy_pipeline := p, sy_loc := LoopTop, sy_db := d, sy_replies := sy_replies s @ [r]\<rparr>))"

definition backfill_run :: "ing_env \<Rightarrow> gerr option \<Rightarrow> backfill_request \<Rightarrow> system \<Rightarrow> system" where
  "backfill_run env clearErr req s =
     (let p = (sy_pipeline s)\<lparr>pl_backfillCh := None\<rparr> in
      case backfill_case env clearErr (pl_replayService p) req (sy_db s, sy_rows s) of
        (d, rows) \<Rightarrow> s\<lparr>sy_pipeline := p, sy_loc := LoopTop, sy_db := d, sy_rows := rows\<rparr>)"

inductive loop_step :: "system \<Rightarrow> system \<Rightarrow> bool" where
  top_cancelled: "sy_loc s = LoopTop \<Longrightarrow> sy_cancelled s \<Longrightarrow> loop_step s (s\<lparr>sy_loc := Returned (Some CtxCanceled)\<rparr>)"
| top_wait: "sy_loc s = LoopTop \<Longrightarrow> \<not> sy_cancelled s \<Longrightarrow> \<not> pl_active (sy_pipeline s) \<Longrightarrow> loop_step s (s\<lparr>sy_loc := Waiting\<rparr>)"
| top_run: "sy_loc s = LoopTop \<Longrightarrow> \<not> sy_cancelled s \<Longrightarrow> pl_active (sy_pipeline s) \<Longrightarrow> loop_step s (start_run interval s)"
| wait_activated: "sy_loc s = Waiting \<Longrightarrow> \<not> sy_cancelled s \<Longrightarrow> pl_stateFlag (sy_pipeline s) \<noteq> 0 \<Longrightarrow>
    loop_step s (s\<lparr>sy_loc := LoopTop, sy_pipeline := (sy_pipeline s)\<lparr>pl_health := SetStatus HealthStatusHealthy (pl_health (sy_pipeline s))\<rparr>\<rparr>)"
| wait_cancelled: "sy_loc s = Waiting \<Longrightarrow> sy_cancelled s \<Longrightarrow> loop_step s (s\<lparr>sy_loc := Returned (Some CtxCanceled)\<rparr>)"
| run_error: "sy_loc s = Running \<Longrightarrow> \<not> errors_Is err CtxCanceled \<Longrightarrow> loop_step s (fail_run now s)"
| run_ended: "sy_loc s = Running \<Longrightarrow> err = None \<or> (\<exists>e. err = Some e \<and> errors_Is e CtxCanceled) \<Longrightarrow> loop_step s (succeed_run now s)"
| run_replay: "sy_loc s = Running \<Longrightarrow> pl_replayCh (sy_pipeline s) = Some req \<Longrightarrow> loop_step s (replay_run env req s)"
| run_backfill: "sy_loc s = Running \<Longrightarrow> pl_backfillCh (sy_pipeline s) = Some req \<Longrightarrow> loop_step s (backfill_run env clearErr req s)"
| run_deactivated: "sy_loc s = Running \<Longrightarrow> pl_deactiveCh (sy_pipeline s) \<Longrightarrow>
    loop_step s (s\<lparr>sy_loc := LoopTop, sy_pipeline := (sy_pipeline s)\<lparr>pl_deactiveCh := False\<rparr>\<rparr>)"
| run_cancelled: "sy_loc s = Running \<Longrightarrow> sy_cancelled s \<Longrightarrow> loop_step s (s\<lparr>sy_loc := Returned (Some CtxCanceled)\<rparr>)"
| backoff_over: "sy_loc s = Backoff b \<Longrightarrow> loop_step s (s\<lparr>sy_loc := LoopTop\<rparr>)"
| backoff_cancelled: "sy_loc s = Backoff b \<Longrightarrow> sy_cancelled s \<Longrightarrow> loop_step s (s\<lparr>sy_loc := Returned (Some CtxCanceled)\<rparr>)"

text \<open>Everything else: while the workers run, they write the database and the channels, the coordinator asks for
  backfills and the watcher polls; at any time the context is cancelled, a replay is requested or
  the address table changes.\<close>

inductive other_step :: "system \<Rightarrow> system \<Rightarrow> bool" where
  workers: "sy_loc s = Running \<Longrightarrow>
    other_step s (s\<lparr>sy_db := d, sy_coordinator := c, sy_pipeline := (sy_pipeline s)\<lparr>pl_jobCh := js, pl_rawBatchCh := rs, pl_normalizedCh := ns\<rparr>\<rparr>)"
| ask_backfill: "sy_loc s = Running \<Longrightarrow> pl_backfillCh (sy_pipeline s) = None \<Longrightarrow>
    other_step s (s\<lparr>sy_pipeline := (sy_pipeline s)\<lparr>pl_backfillCh := Some req\<rparr>\<rparr>)"
| watch: "sy_loc s = Running \<Longrightarrow>
    poll answer (sy_watcher s, \<lparr>wt_coordinator = sy_coordinator s, wt_pipeline = sy_pipeline s\<rparr>) = (w, t) \<Longrightarrow>
    other_step s (s\<lparr>sy_watcher := w, sy_coordinator := wt_coordinator t, sy_pipeline := wt_pipeline t\<rparr>)"
| cancel: "other_step s (s\<lparr>sy_cancelled := True\<rparr>)"
| ask_replay: "RequestReplay req (sy_pipeline s) = Some p \<Longrightarrow> other_step s (s\<lparr>sy_pipeline := p\<rparr>)"
| addresses: "other_step s (s\<lparr>sy_rows := rows\<rparr>)"

definition sys_step :: "system \<Rightarrow> system \<Rightarrow> bool" where
  "sys_step s s' \<longleftrightarrow> loop_step s s' \<or> other_step s s'"

inductive_cases loop_stepE: "loop_step s s'"
inductive_cases other_stepE: "other_step s s'"

lemma sys_step_cases:
  assumes "sys_step s s'"
  obtains (loop) "loop_step s s'" | (other) "other_step s s'"
  using assms by (auto simp: sys_step_def)

section \<open>Failure accounting\<close>

text \<open>What the operations of the workers keep of a pipeline.\<close>

definition flag_ok :: "pipeline \<Rightarrow> bool" where
  "flag_ok p \<longleftrightarrow> (pl_active p \<and> pl_stateFlag p = 1 \<or> \<not> pl_active p \<and> pl_stateFlag p = 0)"

definition same_books :: "pipeline \<Rightarrow> pipeline \<Rightarrow> bool" where
  "same_books p p' \<longleftrightarrow> pl_cfg p' = pl_cfg p \<and> pl_consecutiveFailures p' = pl_consecutiveFailures p \<and>
     ph_consecutiveFailures (pl_health p') = ph_consecutiveFailures (pl_health p) \<and>
     ph_unhealthyThreshold (pl_health p') = ph_unhealthyThreshold (pl_health p) \<and>
     (ph_status (pl_health p') = HealthStatusUnhealthy \<longrightarrow> ph_status (pl_health p) = HealthStatusUnhealthy) \<and> (flag_ok p \<longrightarrow> flag_ok p')"

lemma same_books_trans: "same_books p q \<Longrightarrow> same_books q r \<Longrightarrow> same_books p r"
  by (simp add: same_books_def)

lemma same_books_refl: "same_books p p"
  by (simp add: same_books_def)

lemma same_books_ops:
  "same_books p (Deactivate p)" "same_books p (Activate p)"
  "RequestReplay req p = Some p' \<Longrightarrow> same_books p p'"
  "same_books p (p\<lparr>pl_jobCh := js, pl_rawBatchCh := rs, pl_normalizedCh := ns\<rparr>)"
  "same_books p (p\<lparr>pl_backfillCh := bf\<rparr>)" "same_books p (p\<lparr>pl_replayCh := ro\<rparr>)" "same_books p (p\<lparr>pl_deactiveCh := b\<rparr>)"
  "same_books p (p\<lparr>pl_health := SetStatus HealthStatusHealthy (pl_health p)\<rparr>)"
  by (auto simp: same_books_def Deactivate_def Activate_def SetStatus_def flag_ok_def RequestReplay_def split: if_splits)

lemma applyConfig_books: "same_books (wt_pipeline t) (wt_pipeline (applyConfig act k v t))"
proof (cases "config_key_of k")
  case KeyIsActive
  then show ?thesis by (simp add: applyConfig_def Let_def same_books_ops same_books_refl)
qed (simp_all add: applyConfig_batch applyConfig_interval applyConfig_other same_books_refl)

lemma poll_loop_books: "same_books (wt_pipeline t) (wt_pipeline (snd (poll_loop act cs (ls, t))))"
proof (induction cs arbitrary: ls t)
  case (Cons kv cs)
  obtain k v where kv: "kv = (k, v)" by (cases kv)
  show ?case using Cons same_books_trans [OF applyConfig_books Cons] by (simp add: kv)
qed (simp add: same_books_refl)

lemma poll_books: "poll answer (w, t) = (w', t') \<Longrightarrow> same_books (wt_pipeline t) (wt_pipeline t')"
proof (cases answer)
  case (Inr configs)
  assume "poll answer (w, t) = (w', t')"
  then have "t' = snd (poll_loop (cw_hasActivation w) configs (\<lambda>k. if k \<in> fst ` set configs then cw_lastSeen w k else None, t))"
    by (simp add: poll_def Inr case_prod_beta cong: if_cong)
  then show ?thesis by (simp only: poll_loop_books)
qed (simp add: poll_def same_books_refl)

text \<open>The invariant of the loop.\<close>

definition books :: "pipeline_config \<Rightarrow> int \<Rightarrow> system \<Rightarrow> bool" where
  "books cfg thr s \<longleftrightarrow> (let p = sy_pipeline s in
     pl_cfg p = cfg \<and> ph_unhealthyThreshold (pl_health p) = thr \<and> flag_ok p \<and>
     (sy_loc s \<noteq> Returned None \<longrightarrow> pl_consecutiveFailures p = int (sy_failures s) \<and> ph_consecutiveFailures (pl_health p) = int (sy_failures s)) \<and>
     (\<forall>b. sy_loc s = Backoff b \<longrightarrow> b = calcRestartBackoff p) \<and>
     (sy_loc s = Running \<longrightarrow> ph_status (pl_health p) \<noteq> HealthStatusUnhealthy) \<and>
     sy_alerts s = (if pc_Alerter cfg then replicate (sy_failures s + 1 - nat thr) AlertTypeUnhealthy else []))"

lemma books_keep:
  assumes "books cfg thr s" "same_books (sy_pipeline s) p" "sy_loc s \<noteq> Returned None"
    and "sy_pipeline s' = p" "sy_failures s' = sy_failures s" "sy_alerts s' = sy_alerts s"
    and "\<And>b. sy_loc s' = Backoff b \<Longrightarrow> sy_loc s = Backoff b"
    and "sy_loc s' = Running \<Longrightarrow> sy_loc s = Running \<or> ph_status (pl_health p) \<noteq> HealthStatusUnhealthy"
  shows "books cfg thr s'"
proof -
  have "calcRestartBackoff p = calcRestartBackoff (sy_pipeline s)" using assms(2) by (simp add: calcRestartBackoff_def same_books_def)
  then show ?thesis using assms unfolding books_def same_books_def Let_def by auto
qed

lemma books_fail:
  assumes "books cfg thr s" "sy_loc s = Running" "0 < thr"
  shows "books cfg thr (fail_run now s)"
proof -
  let ?p = "sy_pipeline s" and ?n = "sy_failures s"
  have b: "pl_cfg ?p = cfg" "ph_unhealthyThreshold (pl_health ?p) = thr" "flag_ok ?p" "pl_consecutiveFailures ?p = int ?n"
    "ph_consecutiveFailures (pl_health ?p) = int ?n" "ph_status (pl_health ?p) \<noteq> HealthStatusUnhealthy"
    "sy_alerts s = (if pc_Alerter cfg then replicate (?n + 1 - nat thr) AlertTypeUnhealthy else [])"
    using assms(1,2) by (auto simp: books_def Let_def)
  show ?thesis
  proof (cases "thr \<le> int ?n + 1")
    case True
    then have "replicate (?n + 1 - nat thr) AlertTypeUnhealthy @ [AlertTypeUnhealthy] = replicate (?n + 2 - nat thr) AlertTypeUnhealthy"
      using assms(3) by (simp add: replicate_append_same Suc_diff_le nat_le_iff flip: replicate_Suc)
    then show ?thesis using b True
      by (simp add: books_def fail_run_def run_failed_def health_RecordFailure_def Let_def flag_ok_def add.commute)
  next
    case False
    then have "?n + 1 - nat thr = 0" "?n + 2 - nat thr = 0" by auto
    then show ?thesis using b False
      by (simp add: books_def fail_run_def run_failed_def health_RecordFailure_def Let_def flag_ok_def add.commute)
  qed
qed

lemma books_loop:
  assumes "loop_step s s'" "books cfg thr s" "0 < thr"
  shows "books cfg thr s'"
  using assms(1)
proof cases
  case (top_run interval)
  have "same_books (sy_pipeline s) (sy_pipeline s') \<and> ph_status (pl_health (sy_pipeline s')) \<noteq> HealthStatusUnhealthy"
    unfolding top_run(1) by (simp add: start_run_def Let_def drainChannels_def same_books_def SetStatus_def flag_ok_def)
  then show ?thesis using books_keep [OF assms(2), of _ s'] top_run by (simp add: start_run_def Let_def)
next
  case (run_error err now)
  then show ?thesis using books_fail [OF assms(2) _ assms(3)] by simp
next
  case (run_ended err now)
  then show ?thesis using assms(2)
    by (auto simp: succeed_run_def run_succeeded_def RecordSuccessWithRecovery_def books_def Let_def flag_ok_def)
next
  case (run_replay req env)
  then show ?thesis using books_keep [OF assms(2) same_books_ops(6) [where ro = None], of s']
    by (auto simp: replay_run_def Let_def split: option.split prod.split)
next
  case (run_backfill req env clearErr)
  then show ?thesis using books_keep [OF assms(2) same_books_ops(5) [where bf = None], of s']
    by (auto simp: backfill_run_def Let_def split: prod.split)
qed (rule books_keep [OF assms(2)], simp_all add: same_books_ops same_books_refl)+

lemma books_other:
  assumes "other_step s s'" "books cfg thr s" "sy_loc s \<noteq> Returned None"
  shows "books cfg thr s'"
  using assms(1)
proof cases
  case (watch answer w t)
  have "same_books (sy_pipeline s) (wt_pipeline t)" using poll_books [OF watch(3)] by simp
  then show ?thesis using books_keep [OF assms(2) _ assms(3), of _ s'] watch by simp
qed (rule books_keep [OF assms(2) _ assms(3)], simp_all add: same_books_ops same_books_refl)+

definition start_threshold :: "pipeline_config \<Rightarrow> int" where
  "start_threshold cfg = (if pc_UnhealthyThreshold cfg > 0 then pc_UnhealthyThreshold cfg else 5)"

definition fresh_pipeline :: "pipeline_config \<Rightarrow> pipeline \<Rightarrow> bool" where
  "fresh_pipeline cfg p \<longleftrightarrow> p = NewPipeline cfg \<or> (\<exists>h. p = SetReplayService h (NewPipeline cfg))"

lemma books_start: "fresh_pipeline cfg p \<Longrightarrow> books cfg (start_threshold cfg) (system_start p d rows)"
  by (auto simp: fresh_pipeline_def books_def system_start_def NewPipeline_def SetReplayService_def NewPipelineHealth_def start_threshold_def flag_ok_def)

lemma books_reach:
  assumes "sys_step\<^sup>*\<^sup>* (system_start p d rows) s" "fresh_pipeline cfg p"
  shows "books cfg (start_threshold cfg) s \<or> sy_loc s = Returned None"
  using assms(1)
proof (induction rule: rtranclp_induct)
  case (step s s')
  have "0 < start_threshold cfg" by (simp add: start_threshold_def)
  show ?case
  proof (cases "sy_loc s = Returned None")
    case True
    then show ?thesis using step.hyps(2) by (auto simp: sys_step_def elim!: loop_stepE other_stepE)
  next
    case False
    then show ?thesis using step \<open>0 < start_threshold cfg\<close> by (auto simp: sys_step_def intro: books_loop books_other)
  qed
qed (simp add: books_start assms(2))

section \<open>Properties\<close>

definition sample_pipeline_config :: pipeline_config where
  "sample_pipeline_config = \<lparr>pc_Chain = ''base'', pc_Network = ''mainnet'', pc_BatchSize = 100, pc_IndexingInterval = 5000000000,
     pc_CoordinatorAutoTune = \<lparr>cat_Enabled = False, cat_MinBatchSize = 0, cat_MaxBatchSize = 0, cat_StepUp = 0, cat_StepDown = 0,
       cat_LagHighWatermark = 0, cat_LagLowWatermark = 0, cat_QueueHighWatermarkPct = 0, cat_QueueLowWatermarkPct = 0, cat_HysteresisTicks = 0,
       cat_TelemetryStaleTicks = 0, cat_TelemetryRecoveryTicks = 0, cat_OperatorOverrideBatch = 0, cat_OperatorReleaseHoldTicks = 0,
       cat_PolicyVersion = '''', cat_PolicyManifestDigest = '''', cat_PolicyManifestRefreshEpoch = 0, cat_PolicyActivationHoldTicks = 0\<rparr>,
     pc_ChannelBufferSize = 10, pc_JobChBufferSize = 0, pc_RawBatchChBufferSize = 0, pc_NormalizedChBufferSize = 0, pc_CommitInterleaver = False,
     pc_ReorgDetectorInterval = 0, pc_FinalizerInterval = 0, pc_IndexedBlocksRetention = 0, pc_IngesterRetryMaxAttempts = 0,
     pc_IngesterRetryDelayInitialMs = 0, pc_IngesterRetryDelayMaxMs = 0, pc_DeniedCacheCapacity = 0, pc_DeniedCacheTTLSec = 0,
     pc_BlockScanAddrCacheTTLSec = 0,
     pc_AddressIndex = \<lparr>tc_BloomExpectedItems = 0, tc_BloomFPR = 0, tc_LRUCapacity = 0, tc_LRUTTL = 0\<rparr>,
     pc_UnhealthyThreshold = 1, pc_ReorgDetectorMaxCheckDepth = 0, pc_MaxInitialLookbackBlocks = 0, pc_Alerter = True, pc_blockScanAdapter = True,
     pc_IndexedBlockRepo = True\<rparr>"

definition sample_start :: system where
  "sample_start = system_start (NewPipeline sample_pipeline_config) empty_db []"

definition sample_running :: system where
  "sample_running = start_run 0 sample_start"

definition sample_failed :: system where
  "sample_failed = fail_run 7 sample_running"

lemma sample_start_top: "sy_loc sample_start = LoopTop" "\<not> sy_cancelled sample_start" "pl_active (sy_pipeline sample_start)"
  by (simp_all add: sample_start_def system_start_def NewPipeline_def Let_def)

lemma sample_running_reach: "sys_step\<^sup>*\<^sup>* sample_start sample_running"
  unfolding sample_running_def using loop_step.top_run [OF sample_start_top] by (blast intro: sys_step_def [THEN iffD2])

lemma sample_running_loc: "sy_loc sample_running = Running"
  by (simp add: sample_running_def start_run_def Let_def)

lemma sample_failed_reach: "sys_step\<^sup>*\<^sup>* sample_start sample_failed"
proof -
  have "loop_step sample_running sample_failed"
    unfolding sample_failed_def by (rule loop_step.run_error [OF sample_running_loc, of "ErrMsg ''boom''"]) (simp add: errors_Is_def)
  then show ?thesis using sample_running_reach by (auto simp: sys_step_def intro: rtranclp.rtrancl_into_rtrancl)
qed

lemma sample_failed_values: "sy_failures sample_failed = 1" "sy_loc sample_failed = Backoff (calcRestartBackoff (sy_pipeline sample_failed))"
  by (simp_all add: sample_failed_def sample_running_def sample_start_def fail_run_def start_run_def system_start_def Let_def split: prod.split)

lemma sample_fresh: "fresh_pipeline sample_pipeline_config (NewPipeline sample_pipeline_config)"
  by (simp add: fresh_pipeline_def)



text \<open>The restart backoff. After n failures the loop pauses min (2 to the n) seconds and five minutes for n up to
  33; from 55 failures on the shift has overflowed to zero and the loop restarts without a pause.\<close>

theorem restart_backoff_wraps:
  assumes "sys_step\<^sup>*\<^sup>* (system_start p d rows) s" "fresh_pipeline cfg p" "sy_loc s = Backoff b"
  shows "(sy_failures s \<le> 33 \<longrightarrow> b = min (1000000000 * 2 ^ sy_failures s) maxRestartBackoff) \<and> (55 \<le> sy_failures s \<longrightarrow> b = 0)"
proof -
  have "b = calcRestartBackoff (sy_pipeline s)" "pl_consecutiveFailures (sy_pipeline s) = int (sy_failures s)"
    using books_reach [OF assms(1,2)] assms(3) by (auto simp: books_def Let_def)
  then show ?thesis using calcRestartBackoff_values [of "sy_pipeline s"] by simp
qed

theorem restart_backoff_wraps_witness: "sy_loc sample_failed = Backoff 2000000000"
  using restart_backoff_wraps [OF sample_failed_reach [unfolded sample_start_def] sample_fresh sample_failed_values(2)] sample_failed_values
  by (simp add: maxRestartBackoff_def)

text \<open>C36: a deactivated pipeline stays down. The watcher that could reactivate it is one of the stopped workers: once
  the loop waits for activation, it waits until the process is shut down.\<close>

theorem deactivated_stays_down:
  assumes "sys_step\<^sup>*\<^sup>* s s'" "sy_loc s = Waiting" "pl_stateFlag (sy_pipeline s) = 0"
  shows "sy_loc s' = Waiting \<and> pl_stateFlag (sy_pipeline s') = 0 \<or> sy_loc s' = Returned (Some CtxCanceled)"
  using assms(1)
proof (induction rule: rtranclp_induct)
  case (step t u)
  then show ?case by (auto simp: sys_step_def RequestReplay_def elim!: loop_stepE other_stepE split: if_splits)
qed (use assms in simp)

definition off_target :: watch_target where
  "off_target = snd (poll (Inr [(''is_active'', ''off'')])
     (sy_watcher sample_running, \<lparr>wt_coordinator = sy_coordinator sample_running, wt_pipeline = sy_pipeline sample_running\<rparr>))"

lemma sample_off: "pl_active (wt_pipeline off_target) = False" "pl_stateFlag (wt_pipeline off_target) = 0" "pl_deactiveCh (wt_pipeline off_target)"
  by code_simp+

lemma sample_waiting_reach:
  "\<exists>s. sys_step\<^sup>*\<^sup>* sample_start s \<and> sy_loc s = Waiting \<and> pl_stateFlag (sy_pipeline s) = 0"
proof -
  let ?in = "(sy_watcher sample_running, \<lparr>wt_coordinator = sy_coordinator sample_running, wt_pipeline = sy_pipeline sample_running\<rparr>)"
  obtain w where p: "poll (Inr [(''is_active'', ''off'')]) ?in = (w, off_target)"
    unfolding off_target_def by (metis prod.collapse)
  define s1 where "s1 = sample_running\<lparr>sy_watcher := w, sy_coordinator := wt_coordinator off_target, sy_pipeline := wt_pipeline off_target\<rparr>"
  define s2 where "s2 = s1\<lparr>sy_loc := LoopTop, sy_pipeline := (sy_pipeline s1)\<lparr>pl_deactiveCh := False\<rparr>\<rparr>"
  define s3 where "s3 = s2\<lparr>sy_loc := Waiting\<rparr>"
  have c: "sy_cancelled sample_running = False"
    by (simp add: sample_running_def start_run_def Let_def sample_start_def system_start_def)
  have "sys_step sample_running s1" unfolding sys_step_def s1_def using other_step.watch [OF sample_running_loc p] by blast
  moreover have "sys_step s1 s2" unfolding sys_step_def s2_def
    by (rule disjI1, rule loop_step.run_deactivated) (simp_all add: s1_def sample_running_loc sample_off)
  moreover have "sys_step s2 s3" unfolding sys_step_def s3_def
    by (rule disjI1, rule loop_step.top_wait) (simp_all add: s2_def s1_def c sample_off)
  ultimately have "sys_step\<^sup>*\<^sup>* sample_start s3" using sample_running_reach by (meson rtranclp.rtrancl_into_rtrancl)
  moreover have "sy_loc s3 = Waiting" "pl_stateFlag (sy_pipeline s3) = 0" by (simp_all add: s3_def s2_def s1_def sample_off)
  ultimately show ?thesis by blast
qed

theorem deactivated_stays_down_witness:
  "\<exists>s s'. sys_step\<^sup>*\<^sup>* sample_start s \<and> sy_loc s = Waiting \<and> sys_step\<^sup>*\<^sup>* s s' \<and> sy_cancelled s' \<and>
     (sy_loc s' = Waiting \<and> pl_stateFlag (sy_pipeline s') = 0 \<or> sy_loc s' = Returned (Some CtxCanceled))"
proof -
  from sample_waiting_reach obtain s where s: "sys_step\<^sup>*\<^sup>* sample_start s" "sy_loc s = Waiting" "pl_stateFlag (sy_pipeline s) = 0" by blast
  have "sys_step s (s\<lparr>sy_cancelled := True\<rparr>)" by (simp add: sys_step_def other_step.cancel)
  then have r: "sys_step\<^sup>*\<^sup>* s (s\<lparr>sy_cancelled := True\<rparr>)" by blast
  show ?thesis using s r deactivated_stays_down [OF r s(2,3)] by (intro exI [of _ s] exI [of _ "s\<lparr>sy_cancelled := True\<rparr>"]) simp
qed

text \<open>A failed backfill is forgotten. When the purge fails, the database is as the purge left it, unchanged for every
  failure before the commit, but the backfill flags are cleared, so no later tick asks for the
  backfill again.\<close>

theorem failed_backfill_forgotten:
  assumes "PurgeFromBlock env h (backfill_purge req) d = (Inl e, d1)" "env_commit env = Committed"
    and "backfill_case env None (Some h) req (d, rows) = (d', rows')"
  shows "d' = d \<and> GetPendingBackfill rows' (bf_Chain req) (bf_Network req) = [] \<and>
    (co_chain c = bf_Chain req \<and> co_network c = bf_Network req \<longrightarrow> backfill_check io rows' start hasWm c = None)"
proof -
  have "executePurge env h (backfill_purge req) d = (Inl e, d1)"
    using assms(1) by (simp add: PurgeFromBlock_def backfill_purge_def)
  then have "d1 = d" using assms(2) by (auto simp: executePurge_def commit_def split: sum.splits option.splits prod.splits)
  moreover have "d' = d1" "rows' = ClearBackfill (bf_Chain req) (bf_Network req) rows" using assms(1,3) by (simp_all add: backfill_case_def)
  ultimately show ?thesis by (auto simp: GetPendingBackfill_Clear backfill_check_def)
qed

definition begin_down :: ing_env where
  "begin_down = sample_env\<lparr>env_begin := Some (ErrMsg ''too many connections''), env_commit := Committed\<rparr>"

definition sample_backfill :: backfill_request where
  "sample_backfill = \<lparr>bf_Chain = ''base'', bf_Network = ''mainnet'', bf_FromBlock = 10\<rparr>"

definition flagged_address :: watched_address where
  "flagged_address = sample_address\<lparr>wa_BackfillFromBlock := Some 10\<rparr>"

theorem failed_backfill_forgotten_witness:
  "GetPendingBackfill [flagged_address] ''base'' ''mainnet'' \<noteq> [] \<and>
   (\<exists>rows. backfill_case begin_down None (Some True) sample_backfill (at_watermark 99, [flagged_address]) = (at_watermark 99, rows) \<and>
     GetPendingBackfill rows ''base'' ''mainnet'' = [])"
proof -
  have p: "PurgeFromBlock begin_down True (backfill_purge sample_backfill) (at_watermark 99) =
      (Inl (ErrWrap ''begin purge tx: '' (ErrMsg ''too many connections'')), at_watermark 99)"
    by (simp add: PurgeFromBlock_def executePurge_def backfill_purge_def begin_down_def)
  have c: "env_commit begin_down = Committed" by (simp add: begin_down_def)
  obtain d rows where b: "backfill_case begin_down None (Some True) sample_backfill (at_watermark 99, [flagged_address]) = (d, rows)" by fastforce
  from failed_backfill_forgotten [OF p c b] have "d = at_watermark 99" "GetPendingBackfill rows ''base'' ''mainnet'' = []"
    by (simp_all add: sample_backfill_def)
  moreover have "GetPendingBackfill [flagged_address] ''base'' ''mainnet'' \<noteq> []"
    by (simp add: GetPendingBackfill_def flagged_address_def sample_address_def)
  ultimately show ?thesis using b by blast
qed

end
