(* ===== verification/Spec2Isabelle.thy ===== *)
theory Spec2Isabelle
  imports Runtime_Targets Composition Fetcher_Properties Ingester_Run Reconciliation Circuit_Breaker Replay_Properties Reorg_Detector Finalizer Interleaver Supervisor
begin

text \<open>
  \<^bold>\<open>Verification of the multichain indexer\<close>

  The program is a pipeline of stages connected by channels, one pipeline for each chain and network. The coordinator
  reads the watermark and the watched addresses and enqueues jobs. The fetcher turns a job into raw batches: the
  signatures of the transactions and their raw texts, from a chain adapter. The normalizer sends a raw batch to the
  decoder sidecar and builds canonical balance events from the answer. The ingester writes the events, the balances and
  the watermark in one database transaction. Beside it the reorg detector compares indexed blocks with the chain, the
  finalizer reports finalized heights, and both send messages to the ingester; the replay service purges blocks; the
  reconciliation service compares balances with the chain. A supervisor builds the stages, restarts them and follows the
  runtime configuration.

  \<^bold>\<open>Conventions.\<close> Go strings are lists of characters (bytes), pointers are options, times and durations are integers of
  nanoseconds, identifiers of rows are natural numbers. Integers are unbounded where the code cannot overflow them and
  wrapped to 32 or 64 bits (\<^verbatim>\<open>wrap32\<close>, \<^verbatim>\<open>wrap64\<close>) or machine words where it can. Errors are values of \<^verbatim>\<open>gerr\<close>, which keeps
  the wrapping that the retry classification inspects; a fallible operation returns a sum. What the code asks of the
  outside (the clock, chain adapters, the sidecar, the hash function, faults of statements and commits, the context)
  is a field of an environment record, so that every theorem holds for all answers unless it names a hypothesis.
  Panics of the fetcher are values. A loop that waits for messages is a function of the messages in the order it takes them.

  \<^bold>\<open>Foundations.\<close>
  \<^item> \<^verbatim>\<open>Go_Prelude\<close>, \<^verbatim>\<open>Go_Text\<close>, \<^verbatim>\<open>Go_JSON\<close>: the parts of the standard library in use (trimming, splitting, decimal
    numbers, chunked loops, JSON of string maps) with their round trips.
  \<^item> \<^verbatim>\<open>Best_Selection\<close>, \<^verbatim>\<open>Keyed_Table\<close>, \<^verbatim>\<open>Cache_Interface\<close>, \<^verbatim>\<open>Ring_Window\<close>: the interfaces shared by components. The
    locale \<^verbatim>\<open>ranked_choice\<close> shows that keeping one element for each key does not depend on their order; it is
    interpreted on the comparisons of the normalizer and of the fetcher. The locale \<^verbatim>\<open>keyed_table\<close> gives the laws of
    inserts with conflict clauses; it is interpreted on the five tables. The locale \<^verbatim>\<open>cache\<close> gives the laws of a cache
    with expiry; it is interpreted on the LRU and on the sharded LRU.
  \<^item> \<^verbatim>\<open>Domain_Model\<close> (\<^verbatim>\<open>internal/domain\<close>), \<^verbatim>\<open>Identity\<close> (\<^verbatim>\<open>pipeline/identity\<close>), \<^verbatim>\<open>Retry\<close> (\<^verbatim>\<open>pipeline/retry\<close>),
    \<^verbatim>\<open>LRU_Cache\<close> (\<^verbatim>\<open>internal/cache\<close>), \<^verbatim>\<open>Circuit_Breaker\<close> (\<^verbatim>\<open>internal/circuitbreaker\<close>), \<^verbatim>\<open>Address_Index\<close>
    (\<^verbatim>\<open>internal/addressindex\<close>).

  \<^bold>\<open>Database and ledger.\<close> \<^verbatim>\<open>Store_DB\<close> and \<^verbatim>\<open>Watched_Addresses\<close> model the SQL statements of \<^verbatim>\<open>internal/store/postgres\<close> as
  functions on a record of tables. \<^verbatim>\<open>Ledger\<close> defines \<^verbatim>\<open>ledger_ok\<close>: every balance is the sum of the effects of its
  applied events. It is the specification that the ingester, the replay service and the reconciliation refer to.

  \<^bold>\<open>Stages.\<close>
  \<^item> Coordinator (\<^verbatim>\<open>pipeline/coordinator\<close>): \<^verbatim>\<open>Coordinator\<close>, \<^verbatim>\<open>Autotune\<close>, \<^verbatim>\<open>Policy_Lineage\<close>. The ranges of the jobs,
    the absence of gaps, the bounds and cooldowns of the batch size, the rules that choose between policies.
  \<^item> Fetcher (\<^verbatim>\<open>pipeline/fetcher\<close>): \<^verbatim>\<open>Fetcher\<close> has the retries, the adaptive batch sizes and the selection of
    signatures, \<^verbatim>\<open>Fetcher_Properties\<close> what its batches contain, in address mode and in a block scan.
  \<^item> Normalizer (\<^verbatim>\<open>pipeline/normalizer\<close>): \<^verbatim>\<open>Decoded_Result\<close> reads the answer of the sidecar, \<^verbatim>\<open>Decoded_Coverage\<close> shows what
    merging two decodings keeps, \<^verbatim>\<open>Balance_Events\<close> builds the canonical events of Solana, EVM and BTC chains,
    \<^verbatim>\<open>Event_Properties\<close> shows that they are well formed and independent of the order of the input, \<^verbatim>\<open>Normalizer\<close> has the
    processing of a batch and the worker, \<^verbatim>\<open>Normalizer_Properties\<close> what a sent batch satisfies.
  \<^item> Ingester (\<^verbatim>\<open>pipeline/ingester\<close>): \<^verbatim>\<open>Ingester_Rules\<close> and \<^verbatim>\<open>Ingester\<close> have the decisions and the transactions,
    \<^verbatim>\<open>Ingester_Ledger\<close>, \<^verbatim>\<open>Ingester_Safety\<close> and \<^verbatim>\<open>Ingester_Properties\<close> show that they are atomic, keep the ledger and
    move the watermark forward, \<^verbatim>\<open>Ingester_Run\<close> composes them into the loop, \<^verbatim>\<open>Interleaver\<close> is the commit order
    between chains as a step relation.
  \<^item> Around the ingester: \<^verbatim>\<open>Replay_Service\<close> and \<^verbatim>\<open>Replay_Properties\<close> (\<^verbatim>\<open>pipeline/replay\<close>), \<^verbatim>\<open>Reorg_Detector\<close>,
    \<^verbatim>\<open>Finalizer\<close>, \<^verbatim>\<open>Reconciliation\<close> (\<^verbatim>\<open>internal/reconciliation\<close>).
  \<^item> Supervision (\<^verbatim>\<open>pipeline/pipeline.go\<close>, \<^verbatim>\<open>health.go\<close>, \<^verbatim>\<open>registry.go\<close>, \<^verbatim>\<open>config_watcher.go\<close>, \<^verbatim>\<open>internal/alert\<close>): \<^verbatim>\<open>Health\<close>,
    \<^verbatim>\<open>Activation\<close> (the wait for activation with its mutex and condition variable, as interleaved steps), \<^verbatim>\<open>Pipeline\<close>,
    \<^verbatim>\<open>Config_Watcher\<close>, \<^verbatim>\<open>Supervisor\<close> (the restart loop as a step relation), \<^verbatim>\<open>Alerting\<close>.
  \<^item> Start of the process (\<^verbatim>\<open>internal/config\<close>, \<^verbatim>\<open>cmd/indexer/main.go\<close>): \<^verbatim>\<open>Runtime_Targets\<close> has the validation of the
    configuration and the choice of the chains to run; what is selected from a valid configuration can run.

  \<^bold>\<open>Composition.\<close> \<^verbatim>\<open>Composition\<close> and this theory connect the stages: a batch that the normalizer sends has the properties the
  ledger theorem of the ingester asks for; the cursor that the fetcher holds back in a divided block scan is moved by the
  normalizer and committed by the ingester; the fee that the ingester adds to a failed transaction belongs to an address
  that nobody watches; a reconciliation without mismatches confirms the ledger.

  \<^bold>\<open>Bounds and fuel.\<close> No definition uses fuel that could run out. Retry loops count down the configured number of attempts,
  which is at least one. Paged and chunked loops terminate on the length of what remains. The step relations of
  \<^verbatim>\<open>Interleaver\<close>, \<^verbatim>\<open>Activation\<close> and \<^verbatim>\<open>Supervisor\<close> have no bound; their theorems are invariants by rule induction or exhibit a
  path. Strings are compared and lower-cased bytewise, which is what Go does for ASCII.

  \<^bold>\<open>Not modelled.\<close>
  \<^item> The chain adapters (\<^verbatim>\<open>internal/chain\<close>) and the decoder sidecar (\<^verbatim>\<open>src/sidecar\<close>, TypeScript): conversions around the
    JSON of external nodes and programs. The stages see them through the interfaces that are parameters here.
  \<^item> The administration API and the repositories only it uses, the reading of the environment and of the YAML file, the
    start of the servers and the construction of the components, metrics and tracing: input and output without effect on the ledger.
  \<^item> Goroutine scheduling apart from the three step relations: worker pools, error groups and channel capacities. The
    workers of a stage are modelled one at a time.
  \<^item> The SQL planner: where a statement may match several rows in any order, the choice is the parameter \<^verbatim>\<open>env_pick\<close>.
  \<^item> Generated gRPC code apart from the records of the decoder answer, mocks, and load-test programs.
\<close>

section \<open>Fetcher, normalizer and ingester\<close>


definition digest_env :: "transaction_result \<Rightarrow> norm_env" where
  "digest_env r = sample_norm_env\<lparr>nv_sum256 := bit_digest, nv_decode := \<lambda>txs ws. Inr \<lparr>rs_Results = [Some r], rs_Errors = []\<rparr>\<rparr>"

definition sent_of :: "raw_batch \<Rightarrow> transaction_result \<Rightarrow> normalized_batch" where
  "sent_of b r = (batch_shell b)\<lparr>nb_NewCursorValue := Some ''sig1'', nb_NewCursorSequence := 12,
     nb_Transactions := [normalizedTxFromResult bit_digest b r None (resolveWatchedAddressSet b)]\<rparr>"

lemma sent_of_ok:
  assumes "rb_Chain b = ChainSolana" "rb_Signatures b = [sig1]" "rb_RawTransactions b = [raw]" "start_cursor b = (None, q)" "q < 12" "dr_TxHash r = ''sig1''"
  shows "\<exists>nz'. norm_processBatch (digest_env r) b NewNormalizer = (None, Some (sent_of b r), nz')"
  using single_sent [OF assms(1-5), of "digest_env r" r] assms(6) by (simp add: digest_env_def sent_of_def sample_norm_env_def)

lemma sample_parts:
  "rb_Chain sample_raw_batch = ChainSolana" "rb_Signatures sample_raw_batch = [sig1]" "rb_RawTransactions sample_raw_batch = [''{}'']"
  "start_cursor sample_raw_batch = (None, 0)" "(0::int) < 12" "\<not> rb_BlockScanMode sample_raw_batch"
  by (simp_all add: sample_raw_batch_def sig1_def start_cursor_def CanonicalizeCursorValue_def)




text \<open>C10: a block scan in several sub-batches moves the watermark with the first of them. Every sub-batch but the last is sent with the cursor
  held before the first block, so that a restart would scan the range again; but the normalizer starts from that cursor and moves it to
  the decoded signatures, so that once the sub-batch is ingested the watermark stands inside the range.\<close>

theorem partial_scan_moves_watermark:
  assumes "processBlockScanJob fenv job f = (err, sent, f')" "b \<in> set (butlast sent)"
    and "\<And>s. s \<in> set (rb_Signatures b) \<Longrightarrow> fj_StartBlock job \<le> sig_Sequence s"
    and "norm_processBatch env b nz = (None, Some nb, nz')" "pb_err (processBatch ienv ig nb d) = None"
  shows "rb_NewCursorValue b = None \<and> rb_NewCursorSequence b = wrap64 (fj_StartBlock job - 1) \<and>
    (\<exists>w \<ge> fj_StartBlock job. GetWatermark (nb_Chain nb) (nb_Network nb) (pb_db (processBatch ienv ig nb d)) = Some w)"
proof -
  have held: "rb_Signatures b \<noteq> []" "rb_NewCursorValue b = None" "rb_NewCursorSequence b = wrap64 (fj_StartBlock job - 1)"
    using held_sub_batch [OF assms(1,2)] by simp_all
  obtain s where "s \<in> set (rb_Signatures b)" "sig_Sequence s \<le> nb_NewCursorSequence nb" using sent_cursor_reaches [OF assms(4) held(1)] by blast
  then have start: "fj_StartBlock job \<le> nb_NewCursorSequence nb" using assms(3) by fastforce
  obtain w where "nb_NewCursorSequence nb \<le> w" "GetWatermark (nb_Chain nb) (nb_Network nb) (pb_db (processBatch ienv ig nb d)) = Some w"
    using success_watermark [OF sent_no_drift [OF assms(4) held(1)] assms(5)] by blast
  then show ?thesis using held start by (intro conjI exI [of _ w]) simp_all
qed

definition scan_env :: fetch_env where
  "scan_env = sample_fetch_env [sig1, sample_sig ''sig2'' 13]"

definition scan_job :: fetch_job where
  "scan_job = sample_job\<lparr>fj_StartBlock := 12, fj_EndBlock := 20\<rparr>"

definition first_part :: raw_batch where
  "first_part = scan_sub_batch scan_job (sample_sig ''sig2'' 13) False [sig1] [''{}'']"

lemma first_part_sent: "fst (snd (processBlockScanJob scan_env scan_job sample_fetcher)) = [first_part, scan_sub_batch scan_job (sample_sig ''sig2'' 13) True [sample_sig ''sig2'' 13] [''{}'']]"
  by code_simp

theorem partial_scan_moves_watermark_witness:
  "rb_NewCursorSequence first_part = 11 \<and>
   (\<exists>w \<ge> 12. GetWatermark ChainSolana ''mainnet'' (pb_db (processBatch sample_env sample_ingester (sent_of first_part (sample_result\<lparr>dr_FeePayer := ''other''\<rparr>)) empty_db)) = Some w)"
proof -
  let ?r = "sample_result\<lparr>dr_FeePayer := ''other''\<rparr>"
  obtain err sent f' where run: "processBlockScanJob scan_env scan_job sample_fetcher = (err, sent, f')" by (metis prod_cases3)
  have b: "first_part \<in> set (butlast sent)" using first_part_sent by (simp add: run)
  have part: "rb_Chain first_part = ChainSolana" "rb_Signatures first_part = [sig1]" "rb_RawTransactions first_part = [''{}'']" "start_cursor first_part = (None, 11)"
    "sig_Sequence sig1 = 12" "fj_StartBlock scan_job = 12" "rb_NewCursorSequence first_part = 11" "rb_Network first_part = ''mainnet''" by code_simp+
  obtain nz' where norm: "norm_processBatch (digest_env ?r) first_part NewNormalizer = (None, Some (sent_of first_part ?r), nz')"
    using sent_of_ok [OF part(1-4), of ?r] by (auto simp: sample_result_def)
  have "Option.is_none (pb_err (processBatch sample_env sample_ingester (sent_of first_part ?r) empty_db))" by code_simp
  then have ok: "pb_err (processBatch sample_env sample_ingester (sent_of first_part ?r) empty_db) = None" by (simp only: Option.is_none_def)
  have names: "nb_Chain (sent_of first_part ?r) = ChainSolana" "nb_Network (sent_of first_part ?r) = ''mainnet''"
    using part by (simp_all add: sent_of_def batch_shell_def)
  show ?thesis using partial_scan_moves_watermark [OF run b _ norm ok] unfolding part names by (simp add: part(5))
qed

section \<open>Reconciliation and the ledger\<close>


definition deposit_address :: watched_address where
  "deposit_address = \<lparr>wa_ID = 1, wa_Chain = ''base'', wa_Network = ''mainnet'', wa_Address = ''0xab'', wa_WalletID = None, wa_OrganizationID = None,
     wa_Label = None, wa_IsActive = True, wa_Source = '''', wa_BackfillFromBlock = None\<rparr>"

definition deposit_env :: recon_env where
  "deposit_env = \<lparr>rn_now = 0, rn_active = Inr [deposit_address], rn_balances = (\<lambda>_. Inr [(2, ''7'')]), rn_token = (\<lambda>_. Inr None),
     rn_begin = None, rn_insert = (\<lambda>_. None), rn_commit = None\<rparr>"

definition deposit_service :: recon_service where
  "deposit_service = RegisterAdapter ''base'' ''mainnet'' (\<lambda>_ _. Inr ''7'') \<lparr>rs_adapters = [], rs_hasAlerter = True, rs_hasSnapshotRepo = True\<rparr>"

lemma one_deposit_ledger: "ledger_ok one_deposit"
proof -
  have "delta_val ''7'' = 7" "\<not> IsStakingActivity ActivityDeposit" by code_simp+
  then have "effect (sample_event ''e1'' ''finalized'' True) k = (if k = (''base'', ''mainnet'', ''0xab'', 2, []) then 7 else 0)" for k
    by (cases k) (auto simp: sample_event_def)
  moreover have "bal_Amount (new_balance (sample_item ''7'' [])) = 7" by code_simp
  ultimately show ?thesis by (simp add: ledger_ok_def GetBalance_def one_deposit_def empty_db_def)
qed


end
